(* ===== verification/Prelude.thy ===== *)
theory Prelude
  imports Main "HOL-Library.Char_ord" "HOL-Library.List_Lexorder"
begin

text \<open>
  Shared vocabulary of the development: results with errors, Python text and byte strings,
  dictionaries kept in insertion order, decimal rounding, and the named collections that the
  component theories feed.

  Python text (\<^verbatim>\<open>str\<close>) is a \<^typ>\<open>string\<close> whose characters are the code points 0 to 255;
  \<^verbatim>\<open>bytes\<close> is a \<^typ>\<open>string\<close> whose characters are the bytes. The two meet in
  \<open>utf8_encode\<close>, which is the identity on ASCII text only.
\<close>

named_theorems guard_simps \<open>unfolding rules of the early-return combinators\<close>
named_theorems store_simps \<open>lookup after an update of a store\<close>

type_synonym bytes = string

section \<open>Results that may be errors\<close>

text \<open>
  A raise of the source is \<^const>\<open>Inl\<close>; a normal return is \<^const>\<open>Inr\<close>. \<open>bindE\<close> runs the rest
  of a body only when the step before it returned.
\<close>

fun bindE :: "'e + 'a \<Rightarrow> ('a \<Rightarrow> 'e + 'b) \<Rightarrow> 'e + 'b" where
  "bindE (Inl e) f = Inl e"
| "bindE (Inr x) f = f x"

lemma bindE_eq_Inr [simp]: "bindE m f = Inr y \<longleftrightarrow> (\<exists>x. m = Inr x \<and> f x = Inr y)"
  by (cases m) auto

lemma bindE_eq_Inl: "bindE m f = Inl e \<longleftrightarrow> m = Inl e \<or> (\<exists>x. m = Inr x \<and> f x = Inl e)"
  by (cases m) auto

definition is_ok :: "'e + 'a \<Rightarrow> bool" where
  "is_ok r = (case r of Inl _ \<Rightarrow> False | Inr _ \<Rightarrow> True)"

lemma is_ok_simps [simp]: "is_ok (Inr x)" "\<not> is_ok (Inl e)"
  by (simp_all add: is_ok_def)

section \<open>Text and bytes\<close>

definition startswith :: "string \<Rightarrow> string \<Rightarrow> bool" where
  "startswith s p = (take (length p) s = p)"

lemma startswith_append [simp]: "startswith (p @ s) p"
  by (simp add: startswith_def)

lemma startswith_refl [simp]: "startswith s s"
  by (simp add: startswith_def)

lemma startswithD: "startswith s p \<Longrightarrow> s = p @ drop (length p) s"
  by (metis append_take_drop_id startswith_def)

lemma startswith_length: "startswith s p \<Longrightarrow> length p \<le> length s"
  by (metis append_take_drop_id length_append le_add1 startswith_def)

lemma startswith_iff: "startswith s p \<longleftrightarrow> (\<exists>r. s = p @ r)"
  by (metis startswithD startswith_append)

text \<open>\<^verbatim>\<open>str.lower()\<close>, on ASCII letters.\<close>

definition ascii_lower :: "char \<Rightarrow> char" where
  "ascii_lower c = (let n = of_char c :: nat in if 65 \<le> n \<and> n \<le> 90 then char_of (n + 32) else c)"

text \<open>\<^verbatim>\<open>str.strip()\<close> on code points below 256.\<close>

definition py_space :: "char \<Rightarrow> bool" where
  "py_space c = (let n = of_char c :: nat
     in 9 \<le> n \<and> n \<le> 13 \<or> 28 \<le> n \<and> n \<le> 32 \<or> n = 133 \<or> n = 160)"

definition strip :: "string \<Rightarrow> string" where
  "strip s = rev (dropWhile py_space (rev (dropWhile py_space s)))"

text \<open>\<^verbatim>\<open>str.encode("utf-8")\<close> on code points below 256.\<close>

definition utf8_char :: "char \<Rightarrow> bytes" where
  "utf8_char c =
     (let n = of_char c :: nat
      in if n < 128 then [c] else [char_of (192 + n div 64), char_of (128 + n mod 64)])"

definition utf8_encode :: "string \<Rightarrow> bytes" where
  "utf8_encode s = concat (map utf8_char s)"

definition is_ascii :: "string \<Rightarrow> bool" where
  "is_ascii s = list_all (\<lambda>c. (of_char c :: nat) < 128) s"

lemma utf8_encode_ascii: "is_ascii s \<Longrightarrow> utf8_encode s = s"
  by (induction s) (auto simp: utf8_encode_def utf8_char_def is_ascii_def Let_def)

lemma utf8_encode_append [simp]: "utf8_encode (s @ t) = utf8_encode s @ utf8_encode t"
  by (simp add: utf8_encode_def)

lemma utf8_encode_Nil [simp]: "utf8_encode [] = []"
  by (simp add: utf8_encode_def)

lemma utf8_encode_Cons [simp]: "utf8_encode (c # s) = utf8_char c @ utf8_encode s"
  by (simp add: utf8_encode_def)

lemma utf8_char_append_inject:
  "utf8_char c @ xs = utf8_char d @ ys \<longleftrightarrow> c = d \<and> xs = ys"
proof -
  let ?n = "of_char c :: nat" and ?m = "of_char d :: nat"
  have n: "?n < 256" and m: "?m < 256" by simp_all
  have big: "192 + k div 64 < 256" "128 + k mod 64 < 256" if "k < 256" for k :: nat
    using that by auto
  have lead: "(char_of (192 + k div 64) :: char) \<noteq> x" if "k < 256" "(of_char x :: nat) < 128" for k :: nat and x
  proof
    assume "char_of (192 + k div 64) = x"
    then have "(of_char x :: nat) = 192 + k div 64" using big(1) [OF that(1)] by auto
    with that(2) show False by simp
  qed
  have inj: "c = d" if "\<not> ?n < 128" "\<not> ?m < 128"
    "(char_of (192 + ?n div 64) :: char) = char_of (192 + ?m div 64)"
    "(char_of (128 + ?n mod 64) :: char) = char_of (128 + ?m mod 64)"
  proof -
    have "(192 + ?n div 64) mod 256 = (192 + ?m div 64) mod 256"
      using that(3) by (metis of_char_of)
    moreover have "(128 + ?n mod 64) mod 256 = (128 + ?m mod 64) mod 256"
      using that(4) by (metis of_char_of)
    ultimately have "?n div 64 = ?m div 64" "?n mod 64 = ?m mod 64"
      using big n m by auto
    then have "?n = ?m" by (metis div_mult_mod_eq)
    then show ?thesis by simp
  qed
  show ?thesis
    using lead [OF n, of d] lead [OF m, of c] inj
    by (auto simp: utf8_char_def Let_def)
qed

lemma utf8_encode_inject [simp]: "utf8_encode s = utf8_encode t \<longleftrightarrow> s = t"
proof
  show "s = t" if "utf8_encode s = utf8_encode t"
    using that
  proof (induction s arbitrary: t)
    case Nil
    then show ?case by (cases t) (auto simp: utf8_char_def Let_def split: if_splits)
  next
    case (Cons c s)
    then obtain d t' where "t = d # t'"
      by (cases t) (auto simp: utf8_char_def Let_def split: if_splits)
    with Cons show ?case by (auto simp: utf8_char_append_inject)
  qed
qed simp

section \<open>Decimal text\<close>

definition digit_char :: "nat \<Rightarrow> char" where
  "digit_char d = char_of (48 + d)"

definition is_digit :: "char \<Rightarrow> bool" where
  "is_digit c = (48 \<le> (of_char c :: nat) \<and> (of_char c :: nat) \<le> 57)"

fun nat_str :: "nat \<Rightarrow> string" where
  "nat_str n = (if n < 10 then [digit_char n] else nat_str (n div 10) @ [digit_char (n mod 10)])"

declare nat_str.simps [simp del]

text \<open>\<^verbatim>\<open>str(n)\<close> of a Python integer.\<close>

definition int_str :: "int \<Rightarrow> string" where
  "int_str n = (if n < 0 then CHR ''-'' # nat_str (nat (- n)) else nat_str (nat n))"

text \<open>\<^verbatim>\<open>f"{n:0wd}"\<close> of a non-negative integer.\<close>

definition pad :: "nat \<Rightarrow> int \<Rightarrow> string" where
  "pad w n = (let s = int_str n in replicate (w - length s) (CHR ''0'') @ s)"

definition nat_val :: "string \<Rightarrow> nat" where
  "nat_val s = foldl (\<lambda>v c. 10 * v + (of_char c - 48)) 0 s"

lemma of_char_digit [simp]: "d < 10 \<Longrightarrow> (of_char (digit_char d) :: nat) = 48 + d"
  by (simp add: digit_char_def)

lemma is_digit_digit_char [simp]: "d < 10 \<Longrightarrow> is_digit (digit_char d)"
  by (simp add: is_digit_def)

lemma nat_str_digits: "list_all is_digit (nat_str n)"
proof (induction n rule: nat_str.induct)
  case (1 n)
  then show ?case by (subst nat_str.simps) auto
qed

lemma nat_str_not_Nil [simp]: "nat_str n \<noteq> []"
  by (subst nat_str.simps) simp

lemma nat_val_nat_str [simp]: "nat_val (nat_str n) = n"
proof (induction n rule: nat_str.induct)
  case (1 n)
  show ?case
  proof (cases "n < 10")
    case True
    then show ?thesis by (subst nat_str.simps) (simp add: nat_val_def)
  next
    case False
    with 1 have "nat_val (nat_str (n div 10)) = n div 10" by simp
    with False show ?thesis by (subst nat_str.simps) (simp add: nat_val_def)
  qed
qed

lemma nat_str_inject [simp]: "nat_str m = nat_str n \<longleftrightarrow> m = n"
  by (metis nat_val_nat_str)

lemma int_str_inject [simp]: "int_str m = int_str n \<longleftrightarrow> m = n"
proof -
  have minus: "CHR ''-'' # s \<noteq> nat_str k" for s k
    using nat_str_digits [of k] by (auto simp: is_digit_def dest: sym)
  show ?thesis
    using minus minus [symmetric] by (auto simp: int_str_def)
qed

section \<open>Rounding to a multiple, ties to even\<close>

text \<open>
  \<^verbatim>\<open>Decimal.quantize\<close> under the default context rounds half to even. A decimal is kept as an
  integer count of its smallest unit; \<open>round_half_even n d\<close> is the count in units \<open>d\<close> times larger.
\<close>

definition round_half_even :: "int \<Rightarrow> int \<Rightarrow> int" where
  "round_half_even n d =
     (let q = n div d; r = n mod d
      in if 2 * r < d then q else if d < 2 * r then q + 1 else if even q then q else q + 1)"

lemma round_half_even_error:
  assumes "0 < d"
  shows "2 * \<bar>n - d * round_half_even n d\<bar> \<le> d"
proof -
  define q r where "q = n div d" and "r = n mod d"
  have "0 \<le> r" "r < d" using assms by (simp_all add: r_def)
  moreover have "n - d * q = r" by (simp add: q_def r_def minus_mult_div_eq_mod)
  moreover from this have "n - d * (q + 1) = r - d" by (simp add: algebra_simps)
  ultimately show ?thesis
    unfolding round_half_even_def Let_def q_def [symmetric] r_def [symmetric]
    by (simp split: if_splits)
qed

lemma round_half_even_exact [simp]: "0 < d \<Longrightarrow> round_half_even (d * k) d = k"
  by (simp add: round_half_even_def)

lemma round_half_even_mono:
  assumes "0 < d" "m \<le> n"
  shows "round_half_even m d \<le> round_half_even n d"
proof (cases "m div d = n div d")
  case True
  have "m mod d \<le> n mod d"
    using True assms(2) by (metis add_le_cancel_left mult_div_mod_eq)
  with True show ?thesis by (auto simp: round_half_even_def Let_def)
next
  case False
  moreover have "m div d \<le> n div d" using assms by (simp add: zdiv_mono1)
  ultimately show ?thesis by (auto simp: round_half_even_def Let_def)
qed

lemma round_half_even_nonneg: "0 < d \<Longrightarrow> 0 \<le> n \<Longrightarrow> 0 \<le> round_half_even n d"
  using round_half_even_mono [of d 0 n] by (simp add: round_half_even_def)

end
