(* ===== verification/PyTime.thy ===== *)
theory PyTime
  imports Prelude
begin

text \<open>
  The part of Python's \<^verbatim>\<open>datetime\<close> module the program uses: calendar dates with their
  lexicographic order, day arithmetic, and datetimes carrying an optional UTC offset. A naive
  datetime has no offset. Times are microseconds since midnight.
\<close>

section \<open>Dates\<close>

datatype date = Date (d_year: int) (d_month: int) (d_day: int)

instantiation date :: linorder
begin

definition less_eq_date :: "date \<Rightarrow> date \<Rightarrow> bool" where
  "less_eq_date a b \<longleftrightarrow>
     d_year a < d_year b \<or>
     d_year a = d_year b \<and>
       (d_month a < d_month b \<or> d_month a = d_month b \<and> d_day a \<le> d_day b)"

definition less_date :: "date \<Rightarrow> date \<Rightarrow> bool" where
  "less_date a b \<longleftrightarrow>
     d_year a < d_year b \<or>
     d_year a = d_year b \<and>
       (d_month a < d_month b \<or> d_month a = d_month b \<and> d_day a < d_day b)"

instance
proof
  fix x y z :: date
  show "x < y \<longleftrightarrow> x \<le> y \<and> \<not> y \<le> x"
    by (cases x; cases y) (auto simp: less_eq_date_def less_date_def)
  show "x \<le> x" by (simp add: less_eq_date_def)
  show "x \<le> y \<Longrightarrow> y \<le> z \<Longrightarrow> x \<le> z"
    by (cases x; cases y; cases z) (auto simp: less_eq_date_def)
  show "x \<le> y \<Longrightarrow> y \<le> x \<Longrightarrow> x = y"
    by (cases x; cases y) (auto simp: less_eq_date_def)
  show "x \<le> y \<or> y \<le> x"
    by (cases x; cases y) (auto simp: less_eq_date_def)
qed

end

definition is_leap :: "int \<Rightarrow> bool" where
  "is_leap y \<longleftrightarrow> y mod 4 = 0 \<and> (y mod 100 \<noteq> 0 \<or> y mod 400 = 0)"

definition days_in_month :: "int \<Rightarrow> int \<Rightarrow> int" where
  "days_in_month y m =
     (if m = 2 then (if is_leap y then 29 else 28)
      else if m = 4 \<or> m = 6 \<or> m = 9 \<or> m = 11 then 30 else 31)"

definition valid_date :: "date \<Rightarrow> bool" where
  "valid_date d \<longleftrightarrow>
     1 \<le> d_month d \<and> d_month d \<le> 12 \<and> 1 \<le> d_day d \<and> d_day d \<le> days_in_month (d_year d) (d_month d)"

definition days_before_year :: "int \<Rightarrow> int" where
  "days_before_year y = (y - 1) * 365 + (y - 1) div 4 - (y - 1) div 100 + (y - 1) div 400"

definition days_before_month :: "int \<Rightarrow> int \<Rightarrow> int" where
  "days_before_month y m =
     (if m \<le> 1 then 0 else if m = 2 then 31
      else (if is_leap y then 1 else 0)
        + (if m = 3 then 59 else if m = 4 then 90 else if m = 5 then 120 else if m = 6 then 151
           else if m = 7 then 181 else if m = 8 then 212 else if m = 9 then 243
           else if m = 10 then 273 else if m = 11 then 304 else 334))"

text \<open>\<^verbatim>\<open>date.toordinal()\<close>: day 1 is the first of January of year 1.\<close>

definition toordinal :: "date \<Rightarrow> int" where
  "toordinal d = days_before_year (d_year d) + days_before_month (d_year d) (d_month d) + d_day d"

definition weekday :: "date \<Rightarrow> int" where
  "weekday d = (toordinal d + 6) mod 7"

definition next_day :: "date \<Rightarrow> date" where
  "next_day d =
     (if d_day d < days_in_month (d_year d) (d_month d)
      then Date (d_year d) (d_month d) (d_day d + 1)
      else if d_month d < 12 then Date (d_year d) (d_month d + 1) 1
      else Date (d_year d + 1) 1 1)"

definition prev_day :: "date \<Rightarrow> date" where
  "prev_day d =
     (if 1 < d_day d then Date (d_year d) (d_month d) (d_day d - 1)
      else if 1 < d_month d
      then Date (d_year d) (d_month d - 1) (days_in_month (d_year d) (d_month d - 1))
      else Date (d_year d - 1) 12 31)"

text \<open>\<^verbatim>\<open>d + timedelta(days=n)\<close>, for either sign of \<open>n\<close>.\<close>

definition add_days :: "date \<Rightarrow> int \<Rightarrow> date" where
  "add_days d n = (if 0 \<le> n then (next_day ^^ nat n) d else (prev_day ^^ nat (- n)) d)"

lemma div_pred:
  assumes "0 < n"
  shows "(y :: int) div n = (y - 1) div n + (if y mod n = 0 then 1 else 0)"
proof -
  define q r where "q = (y - 1) div n" and "r = (y - 1) mod n"
  have y: "y = n * q + (r + 1)" by (simp add: q_def r_def algebra_simps)
  have r: "0 \<le> r" "r < n" using assms by (simp_all add: r_def)
  show ?thesis
  proof (cases "r + 1 = n")
    case True
    then have "y = n * (q + 1) + 0" using y by (simp add: algebra_simps)
    from int_div_pos_eq [OF this] int_mod_pos_eq [OF this] assms
    have "y div n = q + 1" "y mod n = 0" by simp_all
    then show ?thesis unfolding q_def [symmetric] by simp
  next
    case False
    with r have "0 \<le> r + 1" "r + 1 < n" by simp_all
    then have "y div n = q" "y mod n = r + 1"
      using int_div_pos_eq [OF y] int_mod_pos_eq [OF y] by simp_all
    with r show ?thesis unfolding q_def [symmetric] by simp
  qed
qed

lemma days_before_year_step:
  "days_before_year (y + 1) = days_before_year y + 365 + (if is_leap y then 1 else 0)"
proof -
  have gregorian: "(if a \<and> (b \<noteq> 0 \<or> c) then 1 else 0 :: int)
      = (if a then 1 else 0) - (if b = 0 then 1 else 0) + (if c then 1 else 0)"
    if "c \<longrightarrow> b = 0" "b = 0 \<longrightarrow> a" for a c and b :: int
    using that by (cases a; cases c; cases "b = 0") simp_all
  have mod_dvd: "y mod b = 0 \<longrightarrow> y mod a = 0" if "a dvd b" for a b :: int
    using that by (metis dvd_trans mod_eq_0_iff_dvd)
  have "(100 :: int) dvd 400" "(4 :: int) dvd 100" by simp_all
  note mod_dvd [OF this(1)] mod_dvd [OF this(2)]
  note leap = gregorian [OF this, folded is_leap_def]
  have "days_before_year (y + 1) = y * 365 + y div 4 - y div 100 + y div 400"
    by (simp add: days_before_year_def)
  moreover have "y * 365 + a' - b' + c' = ((y - 1) * 365 + a - b + c) + 365 + (i - j + k)"
    if "a' = a + i" "b' = b + j" "c' = c + k" for a a' b b' c c' i j k :: int
    using that by (simp add: algebra_simps)
  note this [OF div_pred [of 4 y] div_pred [of 100 y] div_pred [of 400 y]]
  ultimately show ?thesis
    unfolding leap days_before_year_def [of y] by (rule trans) simp_all
qed

lemma month_cases:
  "1 \<le> m \<Longrightarrow> m \<le> 12 \<Longrightarrow>
     m = 1 \<or> m = 2 \<or> m = 3 \<or> m = 4 \<or> m = 5 \<or> m = 6 \<or>
     m = 7 \<or> m = 8 \<or> m = 9 \<or> m = 10 \<or> m = 11 \<or> m = (12 :: int)"
  by arith

lemma days_before_month_step:
  assumes "1 \<le> m" "m < 12"
  shows "days_before_month y (m + 1) = days_before_month y m + days_in_month y m"
  using month_cases [of m] assms
  by (auto simp: days_before_month_def days_in_month_def)

lemma days_before_month_end:
  "days_before_month y 12 + 31 = 365 + (if is_leap y then 1 else 0)"
  by (simp add: days_before_month_def)

lemma toordinal_next_day:
  assumes "valid_date d"
  shows "toordinal (next_day d) = toordinal d + 1"
proof -
  obtain y m x where d: "d = Date y m x" by (cases d)
  consider "x < days_in_month y m" | "x = days_in_month y m" "m < 12" | "x = days_in_month y m" "m = 12"
    using assms by (fastforce simp: d valid_date_def)
  then show ?thesis
  proof cases
    case 2
    with assms show ?thesis
      by (simp add: d next_day_def toordinal_def valid_date_def days_before_month_step)
  next
    case 3
    then show ?thesis
      using days_before_month_end [of y]
      by (simp add: d next_day_def toordinal_def days_before_year_step days_in_month_def
          days_before_month_def)
  qed (simp add: d next_day_def toordinal_def)
qed

lemma days_in_month_bounds: "28 \<le> days_in_month y m" "days_in_month y m \<le> 31"
  by (simp_all add: days_in_month_def)

lemma valid_next_day: "valid_date d \<Longrightarrow> valid_date (next_day d)"
  using days_in_month_bounds(1) [of "d_year d" "d_month d + 1"]
  by (auto simp: valid_date_def next_day_def days_in_month_def)

lemma valid_prev_day: "valid_date d \<Longrightarrow> valid_date (prev_day d)"
  using days_in_month_bounds(1) [of "d_year d" "d_month d - 1"]
  by (auto simp: valid_date_def prev_day_def days_in_month_def)

lemma toordinal_prev_day:
  assumes "valid_date d"
  shows "toordinal (prev_day d) = toordinal d - 1"
proof -
  obtain y m x where d: "d = Date y m x" by (cases d)
  consider "1 < x" | "x = 1" "1 < m" | "x = 1" "m = 1"
    using assms by (fastforce simp: d valid_date_def)
  then show ?thesis
  proof cases
    case 2
    with assms show ?thesis
      using days_before_month_step [of "m - 1" y]
      by (simp add: d prev_day_def toordinal_def valid_date_def)
  next
    case 3
    then show ?thesis
      using days_before_month_end [of "y - 1"] days_before_year_step [of "y - 1"]
      by (simp add: d prev_day_def toordinal_def days_before_month_def split: if_splits)
  qed (simp add: d prev_day_def toordinal_def)
qed

lemma add_days_ok:
  assumes "valid_date d"
  shows "valid_date (add_days d n) \<and> toordinal (add_days d n) = toordinal d + n"
proof -
  have up: "valid_date ((next_day ^^ k) d) \<and> toordinal ((next_day ^^ k) d) = toordinal d + int k" for k
    using assms by (induction k) (auto simp: toordinal_next_day valid_next_day)
  have down: "valid_date ((prev_day ^^ k) d) \<and> toordinal ((prev_day ^^ k) d) = toordinal d - int k" for k
    using assms by (induction k) (auto simp: toordinal_prev_day valid_prev_day)
  from up [of "nat n"] down [of "nat (- n)"] show ?thesis by (auto simp: add_days_def)
qed

lemmas valid_add_days [simp] = add_days_ok [THEN conjunct1]
lemmas toordinal_add_days [simp] = add_days_ok [THEN conjunct2]

lemma next_day_le: "d \<le> next_day d"
  by (cases d) (auto simp: next_day_def less_eq_date_def)

lemma next_day_year: "d_year d \<le> d_year (next_day d) \<and> d_year (next_day d) \<le> d_year d + 1"
  by (simp add: next_day_def)

lemma next_days: "d \<le> (next_day ^^ k) d \<and> d_year d \<le> d_year ((next_day ^^ k) d) \<and> d_year ((next_day ^^ k) d) \<le> d_year d + int k"
proof (induction k)
  case (Suc k)
  then show ?case
    using next_day_le [of "(next_day ^^ k) d"] next_day_year [of "(next_day ^^ k) d"] by auto
qed simp

lemma add_days_later:
  assumes "0 \<le> n"
  shows "d \<le> add_days d n" "d_year d \<le> d_year (add_days d n)" "d_year (add_days d n) \<le> d_year d + n"
  using next_days [of d "nat n"] assms by (simp_all add: add_days_def)

lemma prev_days: "d_year d - int k \<le> d_year ((prev_day ^^ k) d) \<and> d_year ((prev_day ^^ k) d) \<le> d_year d"
  by (induction k) (auto simp: prev_day_def)

lemma add_days_earlier:
  "n \<le> 0 \<Longrightarrow> d_year d + n \<le> d_year (add_days d n)"  "n \<le> 0 \<Longrightarrow> d_year (add_days d n) \<le> d_year d"
  using prev_days [of d "nat (- n)"] by (auto simp: add_days_def)

section \<open>Datetimes\<close>

text \<open>
  \<open>dt_us\<close> counts microseconds since midnight; \<open>dt_off\<close> is the UTC offset in minutes, absent for a
  naive datetime.
\<close>

record datetime =
  dt_date :: date
  dt_us :: int
  dt_off :: "int option"

definition day_us :: int where
  "day_us = 86400000000"

definition valid_datetime :: "datetime \<Rightarrow> bool" where
  "valid_datetime t \<longleftrightarrow> valid_date (dt_date t) \<and> 0 \<le> dt_us t \<and> dt_us t < day_us"

text \<open>Microseconds since the start of year 1, UTC; a naive datetime is read as UTC.\<close>

definition instant :: "datetime \<Rightarrow> int" where
  "instant t =
     toordinal (dt_date t) * day_us + dt_us t
       - (case dt_off t of None \<Rightarrow> 0 | Some m \<Rightarrow> m * 60000000)"

text \<open>\<^verbatim>\<open>t.astimezone(tz)\<close> for a fixed offset \<open>m\<close> (a naive \<open>t\<close> counts as UTC).\<close>

definition astimezone :: "int \<Rightarrow> datetime \<Rightarrow> datetime" where
  "astimezone m t =
     (let us = dt_us t + (m - (case dt_off t of None \<Rightarrow> 0 | Some k \<Rightarrow> k)) * 60000000
      in \<lparr>dt_date = add_days (dt_date t) (us div day_us), dt_us = us mod day_us, dt_off = Some m\<rparr>)"

definition utc_midnight :: "date \<Rightarrow> datetime" where
  "utc_midnight d = \<lparr>dt_date = d, dt_us = 0, dt_off = Some 0\<rparr>"

lemma day_us_pos [simp]: "0 < day_us"
  by (simp add: day_us_def)

lemma valid_astimezone [simp]: "valid_datetime t \<Longrightarrow> valid_datetime (astimezone m t)"
  by (simp add: valid_datetime_def astimezone_def Let_def)

lemma instant_astimezone [simp]:
  assumes "valid_datetime t"
  shows "instant (astimezone m t) = instant t"
proof -
  have "x div day_us * day_us + x mod day_us = x" for x by simp
  then have split: "x mod day_us = x - x div day_us * day_us" for x by (simp add: eq_diff_eq)
  show ?thesis
    using assms
    by (simp add: instant_def astimezone_def Let_def valid_datetime_def split algebra_simps
        split: option.splits)
qed

lemma dt_off_astimezone [simp]: "dt_off (astimezone m t) = Some m"
  by (simp add: astimezone_def Let_def)

lemma astimezone_same:
  assumes "valid_datetime t" "dt_off t = Some m"
  shows "astimezone m t = t"
  using assms by (simp add: astimezone_def valid_datetime_def add_days_def)

lemma valid_utc_midnight: "valid_date d \<Longrightarrow> valid_datetime (utc_midnight d)"
  by (simp add: valid_datetime_def utc_midnight_def)

lemma instant_utc_midnight: "instant (utc_midnight d) = toordinal d * day_us"
  by (simp add: instant_def utc_midnight_def)

text \<open>
  \<^verbatim>\<open>t.isoformat()\<close>: the fraction is printed only when there is one, the offset only when the
  datetime is aware.
\<close>

definition isodate :: "date \<Rightarrow> string" where
  "isodate d = pad 4 (d_year d) @ ''-'' @ pad 2 (d_month d) @ ''-'' @ pad 2 (d_day d)"

definition iso_offset :: "int \<Rightarrow> string" where
  "iso_offset m =
     (if m < 0 then ''-'' else ''+'') @ pad 2 (\<bar>m\<bar> div 60) @ '':'' @ pad 2 (\<bar>m\<bar> mod 60)"

definition isoformat :: "datetime \<Rightarrow> string" where
  "isoformat t =
     (let s = dt_us t div 1000000; f = dt_us t mod 1000000
      in isodate (dt_date t) @ ''T'' @ pad 2 (s div 3600) @ '':'' @ pad 2 (s div 60 mod 60)
         @ '':'' @ pad 2 (s mod 60) @ (if f = 0 then [] else ''.'' @ pad 6 f)
         @ (case dt_off t of None \<Rightarrow> [] | Some m \<Rightarrow> iso_offset m))"

text \<open>\<^verbatim>\<open>t.timestamp()\<close> in microseconds, for an aware datetime, and the epoch's day number.\<close>

definition epoch_ordinal :: int where
  "epoch_ordinal = 719163"

definition timestamp_us :: "datetime \<Rightarrow> int" where
  "timestamp_us t = instant t - epoch_ordinal * day_us"

lemma epoch_ordinal: "toordinal (Date 1970 1 1) = epoch_ordinal"
  by (simp add: toordinal_def days_before_year_def days_before_month_def epoch_ordinal_def)

section \<open>Parsing what isoformat prints\<close>

lemma nat_val_append: "nat_val (s @ [c]) = 10 * nat_val s + (of_char c - 48)"
  by (simp add: nat_val_def)

lemma nat_val_zeros [simp]: "nat_val (replicate k CHR ''0'' @ s) = nat_val s"
  by (induction k) (simp_all add: nat_val_def)

lemma length_nat_str: "n < 10 ^ w \<Longrightarrow> 0 < w \<Longrightarrow> length (nat_str n) \<le> w"
proof (induction w arbitrary: n)
  case (Suc w)
  show ?case
  proof (cases "n < 10")
    case True
    then show ?thesis by (subst nat_str.simps) simp
  next
    case False
    with Suc.prems have "n div 10 < 10 ^ w" by (simp add: less_mult_imp_div_less mult.commute)
    moreover from False Suc.prems have "0 < w" by (cases w) auto
    ultimately show ?thesis using Suc.IH [of "n div 10"] False by (subst nat_str.simps) simp
  qed
qed simp

lemma pad_facts:
  assumes "0 \<le> n" "n < 10 ^ w" "0 < w"
  shows "length (pad w n) = w" "list_all is_digit (pad w n)" "int (nat_val (pad w n)) = n"
proof -
  have s: "int_str n = nat_str (nat n)" using assms(1) by (simp add: int_str_def)
  have "nat n < 10 ^ w" using assms(2) by (metis nat_less_iff assms(1) of_nat_numeral of_nat_power)
  with assms(3) have l: "length (nat_str (nat n)) \<le> w" by (intro length_nat_str)
  then show "length (pad w n) = w" by (simp add: pad_def Let_def s)
  show "list_all is_digit (pad w n)"
    using nat_str_digits [of "nat n"] by (auto simp: pad_def Let_def s is_digit_def list_all_iff)
  show "int (nat_val (pad w n)) = n" using assms(1) by (simp add: pad_def Let_def s)
qed

definition take_num :: "nat \<Rightarrow> string \<Rightarrow> (int \<times> string) option" where
  "take_num w s =
     (if w \<le> length s \<and> list_all is_digit (take w s) then Some (int (nat_val (take w s)), drop w s) else None)"

definition take_chr :: "char \<Rightarrow> string \<Rightarrow> string option" where
  "take_chr c s = (case s of x # r \<Rightarrow> if x = c then Some r else None | [] \<Rightarrow> None)"

lemma take_num_pad [simp]:
  "0 \<le> n \<Longrightarrow> n < 10 ^ w \<Longrightarrow> 0 < w \<Longrightarrow> take_num w (pad w n @ r) = Some (n, r)"
  using pad_facts [of n w] by (simp add: take_num_def)

lemma take_num_pad_Nil [simp]:
  "0 \<le> n \<Longrightarrow> n < 10 ^ w \<Longrightarrow> 0 < w \<Longrightarrow> take_num w (pad w n) = Some (n, [])"
  using take_num_pad [of n w "[]"] by simp

lemma take_chr_simps [simp]: "take_chr c (c # r) = Some r"
  by (simp add: take_chr_def)

text \<open>
  \<^verbatim>\<open>datetime.fromisoformat\<close> on the forms \<^verbatim>\<open>isoformat\<close> prints; every other text is refused here.
\<close>

definition parse_fraction :: "string \<Rightarrow> (int \<times> string) option" where
  "parse_fraction s =
     (case s of
        [] \<Rightarrow> Some (0, [])
      | c # r \<Rightarrow> if c = CHR ''.'' then take_num 6 r else Some (0, s))"

definition parse_offset :: "string \<Rightarrow> int option option" where
  "parse_offset s =
     (case s of
        [] \<Rightarrow> Some None
      | c # r \<Rightarrow>
          if c = CHR ''+'' \<or> c = CHR ''-'' then
            Option.bind (take_num 2 r) (\<lambda>(h, r). Option.bind (take_chr CHR '':'' r) (\<lambda>r.
            Option.bind (take_num 2 r) (\<lambda>(m, r).
              if r = [] \<and> h < 24 \<and> m < 60
              then Some (Some (if c = CHR ''-'' then - (60 * h + m) else 60 * h + m)) else None)))
          else None)"

definition fromisoformat :: "string \<Rightarrow> datetime option" where
  "fromisoformat s =
     Option.bind (take_num 4 s) (\<lambda>(y, s). Option.bind (take_chr CHR ''-'' s) (\<lambda>s.
     Option.bind (take_num 2 s) (\<lambda>(mo, s). Option.bind (take_chr CHR ''-'' s) (\<lambda>s.
     Option.bind (take_num 2 s) (\<lambda>(d, s). Option.bind (take_chr CHR ''T'' s) (\<lambda>s.
     Option.bind (take_num 2 s) (\<lambda>(h, s). Option.bind (take_chr CHR '':'' s) (\<lambda>s.
     Option.bind (take_num 2 s) (\<lambda>(mi, s). Option.bind (take_chr CHR '':'' s) (\<lambda>s.
     Option.bind (take_num 2 s) (\<lambda>(se, s).
     Option.bind (parse_fraction s) (\<lambda>(f, s).
     Option.bind (parse_offset s) (\<lambda>off.
       if 1 \<le> y \<and> valid_date (Date y mo d) \<and> h < 24 \<and> mi < 60 \<and> se < 60
       then Some \<lparr>dt_date = Date y mo d, dt_us = ((h * 60 + mi) * 60 + se) * 1000000 + f, dt_off = off\<rparr>
       else None)))))))))))))"

text \<open>The years, times and offsets a Python \<^verbatim>\<open>datetime\<close> can have.\<close>

definition py_datetime :: "datetime \<Rightarrow> bool" where
  "py_datetime t \<longleftrightarrow>
     valid_datetime t \<and> 1 \<le> d_year (dt_date t) \<and> d_year (dt_date t) \<le> 9999
     \<and> (\<forall>m. dt_off t = Some m \<longrightarrow> \<bar>m\<bar> < 1440)"

lemma parse_offset_iso: "\<bar>m\<bar> < 1440 \<Longrightarrow> parse_offset (iso_offset m) = Some (Some m)"
proof -
  assume m: "\<bar>m\<bar> < 1440"
  then have "\<bar>m\<bar> div 60 < 24" "\<bar>m\<bar> mod 60 < 60" "0 \<le> \<bar>m\<bar> div 60" by auto
  moreover have "60 * (\<bar>m\<bar> div 60) + \<bar>m\<bar> mod 60 = \<bar>m\<bar>" by simp
  ultimately show ?thesis
    by (cases "m < 0") (simp_all add: parse_offset_def iso_offset_def)
qed

lemma parse_fraction_iso:
  assumes "0 \<le> f" "f < 1000000" "r = [] \<or> hd r = CHR ''+'' \<or> hd r = CHR ''-''"
  shows "parse_fraction ((if f = 0 then [] else ''.'' @ pad 6 f) @ r) = Some (f, r)"
proof (cases "f = 0")
  case True
  with assms(3) show ?thesis by (cases r) (auto simp: parse_fraction_def)
next
  case False
  with assms(1,2) show ?thesis by (simp add: parse_fraction_def)
qed

lemma days_in_month_le: "days_in_month y m \<le> 31"
  by (simp add: days_in_month_def)

theorem fromisoformat_isoformat:
  assumes "py_datetime t"
  shows "fromisoformat (isoformat t) = Some t"
proof -
  obtain d us off where t: "t = \<lparr>dt_date = d, dt_us = us, dt_off = off\<rparr>" by (cases t) auto
  obtain y mo da where d: "d = Date y mo da" by (cases d)
  define s f where "s = us div 1000000" and "f = us mod 1000000"
  define h mi se where "h = s div 3600" and "mi = s div 60 mod 60" and "se = s mod 60"
  have us: "0 \<le> us" "us < 86400000000" using assms by (simp_all add: py_datetime_def valid_datetime_def day_us_def t)
  have date: "valid_date d" "1 \<le> y" "y \<le> 9999"
    using assms by (simp_all add: py_datetime_def valid_datetime_def t d)
  have md: "0 \<le> mo" "mo < 100" "0 \<le> da" "da < 100"
    using date(1) days_in_month_le [of y mo] by (auto simp: valid_date_def d)
  have off: "parse_offset (case off of None \<Rightarrow> [] | Some m \<Rightarrow> iso_offset m) = Some off"
    using assms parse_offset_iso by (auto simp: py_datetime_def t parse_offset_def split: option.split)
  have f: "0 \<le> f" "f < 1000000" by (simp_all add: f_def)
  have s: "0 \<le> s" "s < 86400" using us by (simp_all add: s_def)
  have h: "0 \<le> h" "h < 24" using s unfolding h_def by simp_all
  have mi: "0 \<le> mi" "mi < 60" "0 \<le> se" "se < 60" by (simp_all add: mi_def se_def)
  have hms: "(h * 60 + mi) * 60 + se = s"
  proof -
    have "s div 60 div 60 = h" by (simp add: h_def zdiv_zmult2_eq [symmetric])
    then have "h * 60 + mi = s div 60" unfolding mi_def by (metis div_mult_mod_eq)
    then show ?thesis unfolding se_def by (metis div_mult_mod_eq)
  qed
  have "s * 1000000 + f = us" unfolding s_def f_def by simp
  moreover have "parse_fraction ((if f = 0 then [] else ''.'' @ pad 6 f)
        @ (case off of None \<Rightarrow> [] | Some m \<Rightarrow> iso_offset m))
      = Some (f, case off of None \<Rightarrow> [] | Some m \<Rightarrow> iso_offset m)"
    by (rule parse_fraction_iso [OF f]) (simp add: iso_offset_def split: option.split)
  ultimately show ?thesis
    using date md off h mi hms
    by (simp add: fromisoformat_def isoformat_def isodate_def Let_def t d
        flip: s_def f_def h_def mi_def se_def)
qed

lemma length_pad: "0 \<le> n \<Longrightarrow> n < 10 ^ w \<Longrightarrow> 0 < w \<Longrightarrow> length (pad w n) = w"
  by (rule pad_facts(1))

lemma length_isoformat:
  assumes "py_datetime t"
  shows "length (isoformat t) \<le> 32"
proof -
  let ?s = "dt_us t div 1000000" and ?f = "dt_us t mod 1000000"
  have v: "valid_date (dt_date t)" "1 \<le> d_year (dt_date t)" "d_year (dt_date t) \<le> 9999"
    "0 \<le> dt_us t" "dt_us t < 86400000000"
    using assms by (simp_all add: py_datetime_def valid_datetime_def day_us_def)
  have d: "length (isodate (dt_date t)) = 10"
    using v(1-3) days_in_month_le [of "d_year (dt_date t)" "d_month (dt_date t)"]
    by (simp add: isodate_def length_pad valid_date_def)
  have s: "0 \<le> ?s" "?s < 86400" using v(4,5) by simp_all
  have t3: "length (pad 2 (?s div 3600)) = 2" "length (pad 2 (?s div 60 mod 60)) = 2"
    "length (pad 2 (?s mod 60)) = 2" "length (pad 6 ?f) = 6"
    using s by (auto intro!: length_pad)
  have o: "length (iso_offset m) = 6" if "\<bar>m\<bar> < 1440" for m
  proof -
    have "\<bar>m\<bar> div 60 < 24" "0 \<le> \<bar>m\<bar> div 60" "\<bar>m\<bar> mod 60 < 60" "0 \<le> \<bar>m\<bar> mod 60" using that by auto
    then show ?thesis by (simp add: iso_offset_def length_pad)
  qed
  have "length (case dt_off t of None \<Rightarrow> [] | Some m \<Rightarrow> iso_offset m) \<le> 6"
    using assms o by (auto simp: py_datetime_def split: option.split)
  then show ?thesis using d t3 by (simp add: isoformat_def Let_def)
qed

text \<open>What it reads is a valid datetime.\<close>

lemma take_num_nonneg: "take_num w s = Some (n, r) \<Longrightarrow> 0 \<le> n"
  by (auto simp: take_num_def split: if_splits)

lemma nat_val_bound: "list_all is_digit s \<Longrightarrow> nat_val s < 10 ^ length s"
proof (induction s rule: rev_induct)
  case (snoc c s)
  then have "nat_val s < 10 ^ length s" "of_char c - 48 \<le> (9 :: nat)" by (auto simp: is_digit_def)
  then show ?case by (simp add: nat_val_append)
qed (simp add: nat_val_def)

lemma take_num_bound: "take_num w s = Some (n, r) \<Longrightarrow> n < 10 ^ w"
  using nat_val_bound [of "take w s"] by (auto simp: take_num_def split: if_splits)

lemma parse_fraction_bound: "parse_fraction s = Some (f, r) \<Longrightarrow> 0 \<le> f \<and> f < 1000000"
  using take_num_nonneg take_num_bound by (fastforce simp: parse_fraction_def split: list.splits if_splits)

lemma parse_offset_bound: "parse_offset s = Some (Some m) \<Longrightarrow> \<bar>m\<bar> < 1440"
  by (auto simp: parse_offset_def Option.bind_eq_Some_conv dest!: take_num_nonneg split: list.splits if_splits)

lemma fromisoformat_valid:
  assumes "fromisoformat s = Some t"
  shows "py_datetime t"
proof -
  from assms obtain y mo d h mi se f off s1 s2 s3 s4 s5 s6 s7 r1 r2 r3 r4 r5 r6 r7 where
    n: "take_num 4 s = Some (y, s1)" "take_num 2 s4 = Some (h, r4)" "take_num 2 s5 = Some (mi, r5)"
      "take_num 2 s6 = Some (se, r6)" "parse_fraction r6 = Some (f, s7)" "parse_offset s7 = Some off"
    and c: "1 \<le> y" "valid_date (Date y mo d)" "h < 24" "mi < 60" "se < 60"
    and t: "t = \<lparr>dt_date = Date y mo d, dt_us = ((h * 60 + mi) * 60 + se) * 1000000 + f, dt_off = off\<rparr>"
    by (auto simp: fromisoformat_def Option.bind_eq_Some_conv split: if_splits)
  have "0 \<le> h" "0 \<le> mi" "0 \<le> se" using n(2-4) take_num_nonneg by blast+
  moreover have "0 \<le> f" "f < 1000000" using parse_fraction_bound [OF n(5)] by simp_all
  moreover have "y < 10 ^ 4" using take_num_bound [OF n(1)] .
  ultimately have "0 \<le> dt_us t" "dt_us t < day_us" using c by (simp_all add: t day_us_def)
  then show ?thesis
    using c(1,2) \<open>y < 10 ^ 4\<close> parse_offset_bound n(6)
    by (auto simp: py_datetime_def valid_datetime_def t)
qed

end
