(* ===== verification/Json.thy ===== *)
theory Json
  imports Prelude
begin

text \<open>
  JSON values and the deterministic serialisation the program hashes:
  \<^verbatim>\<open>json.dumps(x, sort_keys=True, separators=(",", ":"))\<close>, with Python's default
  \<^verbatim>\<open>ensure_ascii\<close> escapes. Equal bytes mean equal values up to the order of object keys, which is
  what makes a digest of the bytes a digest of the value.
\<close>

text \<open>A \<^verbatim>\<open>float\<close> is carried as its \<^verbatim>\<open>repr\<close>, which is what \<^verbatim>\<open>json.dumps\<close> prints.\<close>

datatype json =
  JNull
| JBool bool
| JInt int
| JReal string
| JStr string
| JList "json list"
| JObj "(string \<times> json) list"

definition hexdig :: "nat \<Rightarrow> char" where
  "hexdig n = (if n < 10 then char_of (48 + n) else char_of (87 + n))"

definition backslash :: char where
  "backslash = CHR 0x5C"

definition quote :: char where
  "quote = CHR 0x22"

definition esc_char :: "char \<Rightarrow> string" where
  "esc_char c =
     (let n = of_char c :: nat
      in if n = 34 then [backslash, quote]
         else if n = 92 then [backslash, backslash]
         else if n = 10 then [backslash, CHR ''n'']
         else if n = 13 then [backslash, CHR ''r'']
         else if n = 9 then [backslash, CHR ''t'']
         else if n = 8 then [backslash, CHR ''b'']
         else if n = 12 then [backslash, CHR ''f'']
         else if 32 \<le> n \<and> n \<le> 126 then [c]
         else [backslash, CHR ''u'', CHR ''0'', CHR ''0'', hexdig (n div 16), hexdig (n mod 16)])"

definition json_str :: "string \<Rightarrow> string" where
  "json_str s = quote # concat (map esc_char s) @ [quote]"

fun join_comma :: "string list \<Rightarrow> string" where
  "join_comma [] = []"
| "join_comma [x] = x"
| "join_comma (x # y # zs) = x @ CHR '','' # join_comma (y # zs)"

text \<open>Printing in the order given, and the reordering of every object by key that precedes it.\<close>

primrec render :: "json \<Rightarrow> string" where
  "render JNull = ''null''"
| "render (JBool b) = (if b then ''true'' else ''false'')"
| "render (JInt n) = int_str n"
| "render (JReal s) = s"
| "render (JStr s) = json_str s"
| "render (JList xs) = ''['' @ join_comma (map render xs) @ '']''"
| "render (JObj kvs) =
     ''{'' @ join_comma (map (\<lambda>(k, s). json_str k @ '':'' @ s) (map (map_prod id render) kvs)) @ ''}''"

primrec sort_json :: "json \<Rightarrow> json" where
  "sort_json JNull = JNull"
| "sort_json (JBool b) = JBool b"
| "sort_json (JInt n) = JInt n"
| "sort_json (JReal s) = JReal s"
| "sort_json (JStr s) = JStr s"
| "sort_json (JList xs) = JList (map sort_json xs)"
| "sort_json (JObj kvs) = JObj (sort_key fst (map (map_prod id sort_json) kvs))"

definition dumps :: "json \<Rightarrow> string" where
  "dumps j = render (sort_json j)"

text \<open>\<^verbatim>\<open>metadata->>'key'\<close>: SQL NULL for a missing key or a JSON null; \<open>jtext\<close> prints other values.\<close>

definition json_field :: "(json \<Rightarrow> string) \<Rightarrow> string \<Rightarrow> json \<Rightarrow> string option" where
  "json_field jtext key md =
     (case md of
        JObj kvs \<Rightarrow> (case map_of kvs key of
            None \<Rightarrow> None | Some JNull \<Rightarrow> None | Some (JStr s) \<Rightarrow> Some s | Some v \<Rightarrow> Some (jtext v))
      | _ \<Rightarrow> None)"

section \<open>The serialisation is injective\<close>

text \<open>
  What a float's \<^verbatim>\<open>repr\<close> guarantees: it starts with a digit, a sign, \<^verbatim>\<open>N\<close> or \<^verbatim>\<open>I\<close>, has a character
  that no integer has, and none of the characters that end a JSON item.
\<close>

definition delim :: "char \<Rightarrow> bool" where
  "delim c \<longleftrightarrow> c = CHR '','' \<or> c = CHR '']'' \<or> c = CHR ''}''"

definition real_text :: "string \<Rightarrow> bool" where
  "real_text s \<longleftrightarrow>
     s \<noteq> [] \<and> (is_digit (hd s) \<or> hd s \<in> {CHR ''-'', CHR ''N'', CHR ''I''})
     \<and> list_all (\<lambda>c. \<not> delim c) s \<and> list_ex (\<lambda>c. \<not> is_digit c \<and> c \<noteq> CHR ''-'') s"

primrec wf_json :: "json \<Rightarrow> bool" where
  "wf_json JNull = True"
| "wf_json (JBool b) = True"
| "wf_json (JInt n) = True"
| "wf_json (JReal s) = real_text s"
| "wf_json (JStr s) = True"
| "wf_json (JList xs) = list_all id (map wf_json xs)"
| "wf_json (JObj kvs) = list_all snd (map (map_prod id wf_json) kvs)"

definition stops :: "string \<Rightarrow> bool" where
  "stops r \<longleftrightarrow> (case r of [] \<Rightarrow> True | c # _ \<Rightarrow> delim c)"

lemma stops_simps [simp]: "stops []" "stops (c # r) \<longleftrightarrow> delim c"
  by (simp_all add: stops_def)

lemma delim_simps [simp]: "delim CHR '',''" "delim CHR '']''" "delim CHR ''}''"
  by (simp_all add: delim_def)

lemma token_cut:
  assumes "a @ x = b @ y" "list_all P a" "list_all P b"
    and "x = [] \<or> \<not> P (hd x)" "y = [] \<or> \<not> P (hd y)"
  shows "a = b \<and> x = y"
  using assms
proof (induction a arbitrary: b)
  case Nil
  then show ?case by (cases b) auto
next
  case (Cons c a)
  then show ?case by (cases b) auto
qed

text \<open>Reading one escaped character back.\<close>

definition hexval :: "char \<Rightarrow> nat" where
  "hexval c = (let n = of_char c in if n < 58 then n - 48 else n - 87)"

definition unesc :: "string \<Rightarrow> (char \<times> string) option" where
  "unesc s =
     (case s of [] \<Rightarrow> None
      | a # r \<Rightarrow>
          if a \<noteq> backslash then Some (a, r)
          else (case r of [] \<Rightarrow> None
                | b # t \<Rightarrow>
                    if b = CHR ''n'' then Some (char_of (10 :: nat), t)
                    else if b = CHR ''r'' then Some (char_of (13 :: nat), t)
                    else if b = CHR ''t'' then Some (char_of (9 :: nat), t)
                    else if b = CHR ''b'' then Some (char_of (8 :: nat), t)
                    else if b = CHR ''f'' then Some (char_of (12 :: nat), t)
                    else if b = CHR ''u''
                    then (case t of _ # _ # h # l # u \<Rightarrow> Some (char_of (16 * hexval h + hexval l), u)
                          | _ \<Rightarrow> None)
                    else Some (b, t)))"

lemma hexval_hexdig [simp]: "n < 16 \<Longrightarrow> hexval (hexdig n) = n"
  by (simp add: hexval_def hexdig_def)

lemma char_ofI: "(of_char c :: nat) = n \<Longrightarrow> c = char_of n"
  by auto

lemma char_of_eq: "m < 256 \<Longrightarrow> n < 256 \<Longrightarrow> (char_of m :: char) = char_of n \<longleftrightarrow> m = (n :: nat)"
  by (metis mod_less of_char_of)

lemma char_codes:
  "backslash = char_of (92 :: nat)" "quote = char_of (34 :: nat)" "CHR ''n'' = char_of (110 :: nat)"
  "CHR ''r'' = char_of (114 :: nat)" "CHR ''t'' = char_of (116 :: nat)" "CHR ''b'' = char_of (98 :: nat)"
  "CHR ''f'' = char_of (102 :: nat)" "CHR ''u'' = char_of (117 :: nat)"
  by (rule char_ofI, simp add: backslash_def quote_def)+

lemma esc_char_cases:
  fixes c :: char and x :: string
  obtains (plain) "esc_char c = [c]" "c \<noteq> backslash" "c \<noteq> quote"
    | (pair) b where "esc_char c = [backslash, b]" "b \<noteq> CHR ''u''" "unesc (backslash # b # x) = Some (c, x)"
    | (hex) "esc_char c = [backslash, CHR ''u'', CHR ''0'', CHR ''0'',
               hexdig (of_char c div 16), hexdig (of_char c mod 16)]"
proof -
  define n where "n = (of_char c :: nat)"
  have c: "c = char_of n" and n: "n < 256" by (simp_all add: n_def)
  note esc_defs = esc_char_def n_def [symmetric] c unesc_def char_codes char_of_eq
  consider "n = 34" | "n = 92" | "n = 10" | "n = 13" | "n = 9" | "n = 8" | "n = 12"
    | "n \<notin> {34, 92, 10, 13, 9, 8, 12}" "32 \<le> n \<and> n \<le> 126"
    | "n \<notin> {34, 92, 10, 13, 9, 8, 12}" "\<not> (32 \<le> n \<and> n \<le> 126)"
    by blast
  then show ?thesis
  proof cases
    case 8
    then have "c \<noteq> backslash" "c \<noteq> quote" by (auto simp: c char_codes char_of_eq)
    with 8 show ?thesis by (intro plain) (auto simp: esc_char_def n_def [symmetric] Let_def)
  next
    case 9
    then show ?thesis by (intro hex) (simp add: esc_char_def n_def [symmetric] Let_def)
  next
    case 1
    then show ?thesis using pair [of quote] by (simp add: esc_defs)
  next
    case 2
    then show ?thesis using pair [of backslash] by (simp add: esc_defs)
  next
    case 3
    then show ?thesis using pair [of "CHR ''n''"] by (simp add: esc_defs)
  next
    case 4
    then show ?thesis using pair [of "CHR ''r''"] by (simp add: esc_defs)
  next
    case 5
    then show ?thesis using pair [of "CHR ''t''"] by (simp add: esc_defs)
  next
    case 6
    then show ?thesis using pair [of "CHR ''b''"] by (simp add: esc_defs)
  next
    case 7
    then show ?thesis using pair [of "CHR ''f''"] by (simp add: esc_defs)
  qed
qed

lemma unesc_esc_char [simp]: "unesc (esc_char c @ x) = Some (c, x)"
proof (cases c rule: esc_char_cases [where x = x])
  case hex
  define n where "n = (of_char c :: nat)"
  have "n < 256" by (simp add: n_def)
  then have "n div 16 < 16" by auto
  then have "unesc (esc_char c @ x) = Some (char_of n, x)"
    unfolding hex n_def [symmetric] by (simp add: unesc_def char_codes char_of_eq)
  then show ?thesis by (simp add: n_def)
qed (simp_all add: unesc_def)

lemma esc_char_append_inject: "esc_char c @ x = esc_char d @ y \<longleftrightarrow> c = d \<and> x = y"
  by (metis option.inject prod.inject unesc_esc_char)

lemma hd_esc_char: "\<exists>b r. esc_char c = b # r \<and> b \<noteq> quote"
  by (cases c rule: esc_char_cases [where x = "[]"]) (auto simp: char_codes char_of_eq)

lemma json_str_append_inject: "json_str s @ x = json_str t @ y \<longleftrightarrow> s = t \<and> x = y"
proof -
  have "s = t \<and> x = y"
    if "concat (map esc_char s) @ quote # x = concat (map esc_char t) @ quote # y"
    using that
  proof (induction s arbitrary: t)
    case Nil
    then show ?case
      using hd_esc_char by (cases t) (auto, metis append_Cons list.inject)
  next
    case (Cons c s)
    show ?case
    proof (cases t)
      case Nil
      with Cons.prems show ?thesis
        using hd_esc_char [of c] by auto
    next
      case (Cons d u)
      with Cons.prems have "esc_char c @ (concat (map esc_char s) @ quote # x) =
          esc_char d @ (concat (map esc_char u) @ quote # y)" by simp
      then have "c = d" "concat (map esc_char s) @ quote # x = concat (map esc_char u) @ quote # y"
        by (simp_all only: esc_char_append_inject)
      with Cons.IH [of u] Cons show ?thesis by simp
    qed
  qed
  then show ?thesis by (auto simp: json_str_def)
qed

lemma int_str_chars: "list_all (\<lambda>c. is_digit c \<or> c = CHR ''-'') (int_str n)"
  using nat_str_digits by (auto simp: int_str_def list_all_iff)

lemma int_str_hd: "\<exists>c r. int_str n = c # r \<and> (is_digit c \<or> c = CHR ''-'')"
  using int_str_chars [of n] by (cases "int_str n") (auto simp: int_str_def split: if_splits)

lemma not_delim_digit [simp]: "is_digit c \<Longrightarrow> \<not> delim c"
  by (auto simp: delim_def is_digit_def)

text \<open>The first character tells the constructor, up to the two kinds of number.\<close>

definition number_text :: "string \<Rightarrow> bool" where
  "number_text s \<longleftrightarrow>
     list_all (\<lambda>c. \<not> delim c) s \<and>
     (\<exists>c r. s = c # r \<and> (is_digit c \<or> c \<in> {CHR ''-'', CHR ''N'', CHR ''I''}))"

lemma number_text_int [simp]: "number_text (int_str n)"
proof -
  have "list_all (\<lambda>c. \<not> delim c) (int_str n)"
    using int_str_chars [of n] by (auto simp: list_all_iff delim_def is_digit_def)
  with int_str_hd [of n] show ?thesis by (auto simp: number_text_def)
qed

lemma number_text_real [simp]: "real_text s \<Longrightarrow> number_text s"
  by (cases s) (auto simp: real_text_def number_text_def)

lemma real_text_not_int: "real_text s \<Longrightarrow> s \<noteq> int_str n"
  using int_str_chars [of n] by (auto simp: real_text_def list_all_iff list_ex_iff)

lemma number_cut:
  assumes "a @ x = b @ y" "number_text a" "number_text b" "stops x" "stops y"
  shows "a = b \<and> x = y"
  using assms
  by (intro token_cut [where P = "\<lambda>c. \<not> delim c"])
    (auto simp: number_text_def stops_def split: list.splits)

definition first_kind :: "char \<Rightarrow> nat" where
  "first_kind c =
     (if c = CHR ''n'' then 0 else if c = CHR ''t'' then 1 else if c = CHR ''f'' then 2
      else if c = quote then 3 else if c = CHR ''['' then 4 else if c = CHR ''{'' then 5
      else if delim c then 6 else 7)"

fun kind :: "json \<Rightarrow> nat" where
  "kind JNull = 0"
| "kind (JBool b) = (if b then 1 else 2)"
| "kind (JInt n) = 7"
| "kind (JReal s) = 7"
| "kind (JStr s) = 3"
| "kind (JList xs) = 4"
| "kind (JObj kvs) = 5"

lemma first_kind_number: "number_text (c # r) \<Longrightarrow> first_kind c = 7"
  by (auto simp: number_text_def first_kind_def is_digit_def quote_def)

lemma render_hd: "wf_json j \<Longrightarrow> \<exists>c r. render j = c # r \<and> first_kind c = kind j"
proof (cases j)
  case (JInt n)
  then show ?thesis using number_text_int [of n] int_str_hd [of n] first_kind_number by fastforce
next
  case (JReal s)
  moreover assume "wf_json j"
  ultimately have "number_text s" by simp
  moreover from this obtain c r where "s = c # r" by (auto simp: number_text_def)
  ultimately show ?thesis using JReal first_kind_number by simp
qed (auto simp: first_kind_def json_str_def quote_def)

lemma render_kind:
  assumes "wf_json j" "wf_json k" "render j @ x = render k @ y"
  shows "kind j = kind k"
  using render_hd [OF assms(1)] render_hd [OF assms(2)] assms(3) by auto

lemma kind_delim: "kind j \<noteq> 6"
  by (cases j) auto

lemma render_not_delim: "wf_json j \<Longrightarrow> delim c \<Longrightarrow> render j @ x \<noteq> c # y"
  using render_hd [of j] kind_delim [of j]
  by (auto simp: first_kind_def delim_def quote_def)

lemma join_comma_Cons: "join_comma (x # xs) = x @ (if xs = [] then [] else CHR '','' # join_comma xs)"
  by (cases xs) auto

text \<open>
  A comma-separated sequence closed by a delimiter other than the comma is cut where its items are.
\<close>

lemma join_comma_inject:
  assumes "join_comma (map f xs) @ e # x = join_comma (map f ys) @ e # y"
    and e: "delim e" "e \<noteq> CHR '',''"
    and item: "\<And>a b u v. a \<in> set xs \<Longrightarrow> b \<in> set ys \<Longrightarrow> stops u \<Longrightarrow> stops v \<Longrightarrow>
                 f a @ u = f b @ v \<Longrightarrow> a = b \<and> u = v"
    and start: "\<And>a u v. a \<in> set xs \<union> set ys \<Longrightarrow> f a @ u \<noteq> e # v"
  shows "xs = ys \<and> x = y"
  using assms(1) item start
proof (induction xs arbitrary: ys)
  case Nil
  show ?case
  proof (cases ys)
    case (Cons b bs)
    with Nil.prems(1) Nil.prems(3) [of b] show ?thesis by (auto simp: join_comma_Cons dest: sym)
  qed (use Nil in simp)
next
  case (Cons a xs)
  show ?case
  proof (cases ys)
    case Nil
    with Cons.prems(1) Cons.prems(3) [of a] show ?thesis by (auto simp: join_comma_Cons)
  next
    case (Cons b bs)
    define rest where "rest zs z = (if zs = [] then [] else CHR '','' # join_comma (map f zs)) @ e # z" for zs z
    have stop: "stops (rest zs z)" for zs z
      using e by (simp add: rest_def)
    have "f a @ rest xs x = f b @ rest bs y"
      using Cons.prems(1) Cons by (simp add: join_comma_Cons rest_def)
    then have ab: "a = b" and "rest xs x = rest bs y"
      using Cons.prems(2) [of a b] Cons stop by auto
    then have "join_comma (map f xs) @ e # x = join_comma (map f bs) @ e # y"
      using e(2) by (auto simp: rest_def split: if_splits)
    with Cons.IH [of bs] Cons.prems(2,3) Cons ab show ?thesis by auto
  qed
qed

theorem render_inject:
  assumes "wf_json j" "wf_json k" "stops x" "stops y" "render j @ x = render k @ y"
  shows "j = k \<and> x = y"
  using assms
proof (induction j arbitrary: k x y)
  case (JList js)
  from render_kind [OF JList.prems(1,2,5)] obtain ks where k: "k = JList ks"
    by (cases k) (auto split: if_splits)
  have "js = ks \<and> x = y"
  proof (rule join_comma_inject [where f = render and e = "CHR '']''"])
    show "join_comma (map render js) @ CHR '']'' # x = join_comma (map render ks) @ CHR '']'' # y"
      using JList.prems(5) by (simp add: k)
    show "a = b \<and> u = v"
      if "a \<in> set js" "b \<in> set ks" "stops u" "stops v" "render a @ u = render b @ v" for a b u v
      using JList.IH [OF that(1) _ _ that(3,4,5)] that(1,2) JList.prems(1,2)
      by (auto simp: k list_all_iff)
    show "render a @ u \<noteq> CHR '']'' # v" if "a \<in> set js \<union> set ks" for a u v
      using that JList.prems(1,2) by (intro render_not_delim) (auto simp: k list_all_iff)
  qed simp_all
  with k show ?case by simp
next
  case (JObj js)
  from render_kind [OF JObj.prems(1,2,5)] obtain ks where k: "k = JObj ks"
    by (cases k) (auto split: if_splits)
  define f where "f p = json_str (fst p) @ '':'' @ render (snd p)" for p
  have f: "render (JObj kvs) @ z = ''{'' @ join_comma (map f kvs) @ CHR ''}'' # z" for kvs z
  proof -
    have "map (\<lambda>(k, s). json_str k @ '':'' @ s) (map (map_prod id render) kvs) = map f kvs"
      by (auto simp: f_def)
    then show ?thesis by (simp only: render.simps append_assoc append.simps)
  qed
  have "js = ks \<and> x = y"
  proof (rule join_comma_inject [where f = f and e = "CHR ''}''"])
    show "join_comma (map f js) @ CHR ''}'' # x = join_comma (map f ks) @ CHR ''}'' # y"
      using JObj.prems(5) unfolding k f by simp
    show "a = b \<and> u = v"
      if "a \<in> set js" "b \<in> set ks" "stops u" "stops v" "f a @ u = f b @ v" for a b u v
    proof -
      have "fst a = fst b" "render (snd a) @ u = render (snd b) @ v"
        using that(5) by (simp_all add: f_def json_str_append_inject)
      moreover have "wf_json (snd a)" "wf_json (snd b)"
        using that(1,2) JObj.prems(1,2) by (auto simp: k list_all_iff)
      ultimately show ?thesis
        using JObj.IH [OF that(1) _ _ _ that(3,4)] by (metis prod_eq_iff snds.intros)
    qed
    show "f a @ u \<noteq> CHR ''}'' # v" if "a \<in> set js \<union> set ks" for a u v
      by (simp add: f_def json_str_def quote_def)
  qed simp_all
  with k show ?case by simp
next
  case (JInt n)
  from render_kind [OF JInt.prems(1,2,5)] show ?case
    using number_cut [of "int_str n" x "render k" y] JInt.prems real_text_not_int [of _ n]
    by (cases k) (auto split: if_splits dest: sym)
next
  case (JReal s)
  from render_kind [OF JReal.prems(1,2,5)] show ?case
    using number_cut [of s x "render k" y] JReal.prems real_text_not_int [of s]
    by (cases k) (auto split: if_splits)
next
  case (JStr s)
  from render_kind [OF JStr.prems(1,2,5)] show ?case
    using JStr.prems by (cases k) (auto simp: json_str_append_inject split: if_splits)
next
  case (JBool b)
  from render_kind [OF JBool.prems(1,2,5)] show ?case
    using JBool.prems by (cases k) (auto split: if_splits)
next
  case JNull
  from render_kind [OF JNull.prems(1,2,5)] show ?case
    using JNull.prems by (cases k) (auto split: if_splits)
qed

lemma wf_sort_json [simp]: "wf_json (sort_json j) = wf_json j"
  by (induction j) (auto simp: list_all_iff)

lemma dumps_inject:
  assumes "wf_json j" "wf_json k" "dumps j = dumps k"
  shows "sort_json j = sort_json k"
  using render_inject [of "sort_json j" "sort_json k" "[]" "[]"] assms by (simp add: dumps_def)

end
