(* ===== verification/Chain.thy ===== *)
theory Chain
  imports PyTime Json
begin

text \<open>
  \<^verbatim>\<open>chain.py\<close>: the per-tenant hash chain kept in the \<^verbatim>\<open>telemetry_records\<close> table. The state is the
  table, a list of rows in commit order for all tenants; a session sees the rows of its tenant (row
  level security). The hash primitive and the verifier of the \<^verbatim>\<open>vargate_audit_chain\<close> package, SHA-256,
  and what the database does to a JSONB or timestamp column are arguments (\<open>chain_env\<close>).
\<close>

section \<open>Hexadecimal text\<close>

definition hex :: "bytes \<Rightarrow> string" where
  "hex bs = concat (map (\<lambda>b. [hexdig (of_char b div 16), hexdig (of_char b mod 16)]) bs)"

definition hex_digit :: "char \<Rightarrow> nat option" where
  "hex_digit c =
     (let n = of_char c :: nat
      in if 48 \<le> n \<and> n \<le> 57 then Some (n - 48)
         else if 97 \<le> n \<and> n \<le> 102 then Some (n - 87)
         else if 65 \<le> n \<and> n \<le> 70 then Some (n - 55) else None)"

definition is_space :: "char \<Rightarrow> bool" where
  "is_space c = ((of_char c :: nat) = 32 \<or> 9 \<le> (of_char c :: nat) \<and> (of_char c :: nat) \<le> 13)"

text \<open>\<^verbatim>\<open>bytes.fromhex\<close>: pairs of digits of either case, white space allowed between pairs.\<close>

fun fromhex :: "string \<Rightarrow> bytes option" where
  "fromhex [] = Some []"
| "fromhex [c] = (if is_space c then Some [] else None)"
| "fromhex (c # d # s) =
     (if is_space c then fromhex (d # s)
      else case (hex_digit c, hex_digit d) of
             (Some h, Some l) \<Rightarrow> map_option (Cons (char_of (16 * h + l))) (fromhex s)
           | _ \<Rightarrow> None)"

lemma hex_simps [simp]:
  "hex [] = []"
  "hex (b # bs) = hexdig (of_char b div 16) # hexdig (of_char b mod 16) # hex bs"
  by (simp_all add: hex_def)

lemma of_char_hexdig: "n < 16 \<Longrightarrow> (of_char (hexdig n) :: nat) = (if n < 10 then 48 + n else 87 + n)"
  by (simp add: hexdig_def)

lemma hex_digit_hexdig [simp]: "n < 16 \<Longrightarrow> hex_digit (hexdig n) = Some n"
  by (simp add: hex_digit_def of_char_hexdig)

lemma is_space_hexdig [simp]: "n < 16 \<Longrightarrow> \<not> is_space (hexdig n)"
  by (simp add: is_space_def of_char_hexdig)

lemma of_char_div_16 [simp]: "(of_char (b :: char) :: nat) div 16 < 16"
  using nat_of_char_less_256 [of b] by linarith

lemma fromhex_hex [simp]: "fromhex (hex bs) = Some bs"
proof (induction bs)
  case (Cons b bs)
  have "16 * ((of_char b :: nat) div 16) + of_char b mod 16 = of_char b" by simp
  with Cons show ?case by simp
qed simp

lemma hex_inject [simp]: "hex a = hex b \<longleftrightarrow> a = b"
  by (metis fromhex_hex option.inject)

section \<open>Rows, environment, errors\<close>

record telemetry_row =
  tr_tenant_id :: string
  tr_record_type :: string
  tr_source_api :: string
  tr_external_id :: string
  tr_subject_user_id :: "string option"
  tr_occurred_at :: datetime
  tr_content_ref :: "string option"
  tr_content_hash :: bytes
  tr_content_size_bytes :: "int option"
  tr_record_metadata :: json
  tr_chain_seq :: int
  tr_chain_prev_hash :: bytes
  tr_chain_self_hash :: bytes

type_synonym records_table = "telemetry_row list"

text \<open>The keyword arguments of \<^verbatim>\<open>append_telemetry_record\<close>.\<close>

record append_args =
  ap_record_type :: string
  ap_source_api :: string
  ap_external_id :: string
  ap_occurred_at :: datetime
  ap_content_hash :: bytes
  ap_record_metadata :: "json option"
  ap_subject_user_id :: "string option"
  ap_content_ref :: "string option"
  ap_content_size_bytes :: "int option"

record chain_record =
  cr_canonical_bytes :: bytes
  cr_prev_hash :: string
  cr_record_hash :: string

record verify_result =
  vr_valid :: bool
  vr_record_count :: int

record chain_env =
  compute_record_hash :: "string \<Rightarrow> bytes \<Rightarrow> string \<Rightarrow> string"
  verify_record_chain :: "string \<Rightarrow> chain_record list \<Rightarrow> verify_result"
  sha256 :: "bytes \<Rightarrow> bytes"
  jsonb :: "json \<Rightarrow> json"
  session_tz :: int

datatype chain_error = ValueError | IntegrityError | DataError

definition GENESIS_HASH :: string where
  "GENESIS_HASH = ''GENESIS''"

definition GENESIS_PREV_BYTES :: "chain_env \<Rightarrow> bytes" where
  "GENESIS_PREV_BYTES env = sha256 env ''vargate.telemetry/chain/genesis''"

section \<open>Canonical form\<close>

definition json_opt :: "string option \<Rightarrow> json" where
  "json_opt x = (case x of None \<Rightarrow> JNull | Some s \<Rightarrow> JStr s)"

definition canonical_dict ::
  "string \<Rightarrow> string \<Rightarrow> string \<Rightarrow> string option \<Rightarrow> datetime \<Rightarrow> string option \<Rightarrow> bytes \<Rightarrow> json \<Rightarrow> json"
where
  "canonical_dict record_type source_api external_id subject_user_id occurred_at content_ref
      content_hash record_metadata =
     JObj [(''content_hash'', JStr (hex content_hash)),
           (''content_ref'', json_opt content_ref),
           (''external_id'', JStr external_id),
           (''metadata'', record_metadata),
           (''occurred_at'', JStr (isoformat occurred_at)),
           (''record_type'', JStr record_type),
           (''source_api'', JStr source_api),
           (''subject_user_id'', json_opt subject_user_id)]"

definition canonical_bytes ::
  "string \<Rightarrow> string \<Rightarrow> string \<Rightarrow> string option \<Rightarrow> datetime \<Rightarrow> string option \<Rightarrow> bytes \<Rightarrow> json \<Rightarrow> bytes"
where
  "canonical_bytes rt sa ei su oc cr ch md = utf8_encode (dumps (canonical_dict rt sa ei su oc cr ch md))"

definition row_canonical :: "telemetry_row \<Rightarrow> bytes" where
  "row_canonical r =
     canonical_bytes (tr_record_type r) (tr_source_api r) (tr_external_id r) (tr_subject_user_id r)
       (tr_occurred_at r) (tr_content_ref r) (tr_content_hash r) (tr_record_metadata r)"

section \<open>Append\<close>

text \<open>What a session bound to a tenant sees, and the tip: the row with the largest sequence number.\<close>

definition rows_of :: "string \<Rightarrow> records_table \<Rightarrow> records_table" where
  "rows_of tid db = filter (\<lambda>r. tr_tenant_id r = tid) db"

definition chain_tip :: "records_table \<Rightarrow> telemetry_row option" where
  "chain_tip rows =
     (case rows of [] \<Rightarrow> None
      | r # rs \<Rightarrow> Some (foldl (\<lambda>b x. if tr_chain_seq b < tr_chain_seq x then x else b) r rs))"

text \<open>
  The columns as the database returns them: a timestamp comes back in the session's time zone (a naive
  one is read in that zone), metadata comes back in JSONB's normal form.
\<close>

definition timestamptz :: "chain_env \<Rightarrow> datetime \<Rightarrow> datetime" where
  "timestamptz env t =
     (case dt_off t of None \<Rightarrow> t\<lparr>dt_off := Some (session_tz env)\<rparr>
      | Some _ \<Rightarrow> astimezone (session_tz env) t)"

definition store_row :: "chain_env \<Rightarrow> telemetry_row \<Rightarrow> telemetry_row" where
  "store_row env r =
     r\<lparr>tr_occurred_at := timestamptz env (tr_occurred_at r),
       tr_record_metadata := jsonb env (tr_record_metadata r)\<rparr>"

text \<open>The two UNIQUE constraints of the table.\<close>

definition conflicts :: "telemetry_row \<Rightarrow> telemetry_row \<Rightarrow> bool" where
  "conflicts r x \<longleftrightarrow>
     tr_tenant_id x = tr_tenant_id r \<and>
     (tr_source_api x = tr_source_api r \<and> tr_external_id x = tr_external_id r
      \<or> tr_chain_seq x = tr_chain_seq r)"

text \<open>The widths of the VARCHAR columns; a longer text is refused before any constraint is looked at.\<close>

definition opt_fits :: "nat \<Rightarrow> string option \<Rightarrow> bool" where
  "opt_fits n x = (case x of None \<Rightarrow> True | Some s \<Rightarrow> length s \<le> n)"

definition args_fit :: "string \<Rightarrow> append_args \<Rightarrow> bool" where
  "args_fit tid a \<longleftrightarrow>
     length tid \<le> 64 \<and> length (ap_record_type a) \<le> 32 \<and> length (ap_source_api a) \<le> 64
     \<and> length (ap_external_id a) \<le> 256 \<and> opt_fits 128 (ap_subject_user_id a)
     \<and> opt_fits 512 (ap_content_ref a)"

definition row_fits :: "telemetry_row \<Rightarrow> bool" where
  "row_fits r \<longleftrightarrow>
     length (tr_tenant_id r) \<le> 64 \<and> length (tr_record_type r) \<le> 32 \<and> length (tr_source_api r) \<le> 64
     \<and> length (tr_external_id r) \<le> 256 \<and> opt_fits 128 (tr_subject_user_id r)
     \<and> opt_fits 512 (tr_content_ref r)"

definition insert_row :: "chain_env \<Rightarrow> records_table \<Rightarrow> telemetry_row \<Rightarrow> chain_error + records_table" where
  "insert_row env db r =
     (if \<not> row_fits r then Inl DataError
      else if list_ex (conflicts r) db then Inl IntegrityError else Inr (db @ [store_row env r]))"

text \<open>Everything \<^verbatim>\<open>append_telemetry_record\<close> does between reading the tip and the INSERT.\<close>

definition build_record ::
  "chain_env \<Rightarrow> string \<Rightarrow> append_args \<Rightarrow> telemetry_row option \<Rightarrow> chain_error + telemetry_row"
where
  "build_record env tenant_id a tip =
     (if tenant_id = [] then Inl ValueError
      else if length (ap_content_hash a) \<noteq> 32 then Inl ValueError
      else
        let metadata = (case ap_record_metadata a of None \<Rightarrow> JObj [] | Some m \<Rightarrow> m);
            chain_seq = (case tip of None \<Rightarrow> 1 | Some t \<Rightarrow> tr_chain_seq t + 1);
            chain_prev_bytes =
              (case tip of None \<Rightarrow> GENESIS_PREV_BYTES env | Some t \<Rightarrow> tr_chain_self_hash t);
            prev_hash_str = (case tip of None \<Rightarrow> GENESIS_HASH | Some _ \<Rightarrow> hex chain_prev_bytes);
            canonical =
              canonical_bytes (ap_record_type a) (ap_source_api a) (ap_external_id a)
                (ap_subject_user_id a) (ap_occurred_at a) (ap_content_ref a) (ap_content_hash a)
                metadata
        in case fromhex (compute_record_hash env tenant_id canonical prev_hash_str) of
             None \<Rightarrow> Inl ValueError
           | Some chain_self_bytes \<Rightarrow>
               Inr \<lparr>tr_tenant_id = tenant_id, tr_record_type = ap_record_type a,
                    tr_source_api = ap_source_api a, tr_external_id = ap_external_id a,
                    tr_subject_user_id = ap_subject_user_id a, tr_occurred_at = ap_occurred_at a,
                    tr_content_ref = ap_content_ref a, tr_content_hash = ap_content_hash a,
                    tr_content_size_bytes = ap_content_size_bytes a, tr_record_metadata = metadata,
                    tr_chain_seq = chain_seq, tr_chain_prev_hash = chain_prev_bytes,
                    tr_chain_self_hash = chain_self_bytes\<rparr>)"

text \<open>
  The whole call. The tip is read from \<open>snap\<close>, the table at the SELECT; the INSERT meets \<open>db\<close>, the
  table at that later moment, which another transaction may have extended. The result is the new table
  and the row as refreshed from the database. A call that runs alone has \<open>snap = db\<close>.
\<close>

definition append_between ::
  "chain_env \<Rightarrow> string \<Rightarrow> append_args \<Rightarrow> records_table \<Rightarrow> records_table
     \<Rightarrow> chain_error + (records_table \<times> telemetry_row)"
where
  "append_between env tenant_id a snap db =
     bindE (build_record env tenant_id a (chain_tip (rows_of tenant_id snap)))
       (\<lambda>r. bindE (insert_row env db r) (\<lambda>db'. Inr (db', store_row env r)))"

definition append_telemetry_record ::
  "chain_env \<Rightarrow> string \<Rightarrow> append_args \<Rightarrow> records_table \<Rightarrow> chain_error + (records_table \<times> telemetry_row)"
where
  "append_telemetry_record env tenant_id a db = append_between env tenant_id a db db"

section \<open>Verify\<close>

definition row_to_chain_record :: "telemetry_row \<Rightarrow> chain_record" where
  "row_to_chain_record row =
     \<lparr>cr_canonical_bytes = row_canonical row,
      cr_prev_hash =
        (if tr_chain_seq row = 1 then GENESIS_HASH else hex (tr_chain_prev_hash row)),
      cr_record_hash = hex (tr_chain_self_hash row)\<rparr>"

definition verify_telemetry_chain ::
  "chain_env \<Rightarrow> string \<Rightarrow> records_table \<Rightarrow> chain_error + verify_result"
where
  "verify_telemetry_chain env tenant_id db =
     (if tenant_id = [] then Inl ValueError
      else Inr (verify_record_chain env tenant_id
                  (map row_to_chain_record (sort_key tr_chain_seq (rows_of tenant_id db)))))"

section \<open>The chain invariant\<close>

text \<open>
  \<open>links H n pb ps rows\<close>: the rows continue a chain whose next sequence number is \<open>n\<close>, whose next
  \<^verbatim>\<open>chain_prev_hash\<close> is \<open>pb\<close> and whose next hash input is \<open>ps\<close>; \<open>H\<close> is what is required of a
  row and its hash input beyond that.
\<close>

fun links ::
  "(telemetry_row \<Rightarrow> string \<Rightarrow> bool) \<Rightarrow> int \<Rightarrow> bytes \<Rightarrow> string \<Rightarrow> telemetry_row list \<Rightarrow> bool"
where
  "links H n pb ps [] = True"
| "links H n pb ps (r # rs) =
     (tr_chain_seq r = n \<and> tr_chain_prev_hash r = pb \<and> H r ps
      \<and> links H (n + 1) (tr_chain_self_hash r) (hex (tr_chain_self_hash r)) rs)"

definition hash_ok :: "chain_env \<Rightarrow> string \<Rightarrow> telemetry_row \<Rightarrow> string \<Rightarrow> bool" where
  "hash_ok env tid r ps \<longleftrightarrow>
     fromhex (compute_record_hash env tid (row_canonical r) ps) = Some (tr_chain_self_hash r)"

abbreviation chained :: "chain_env \<Rightarrow> (telemetry_row \<Rightarrow> string \<Rightarrow> bool) \<Rightarrow> telemetry_row list \<Rightarrow> bool" where
  "chained env H rows \<equiv> links H 1 (GENESIS_PREV_BYTES env) GENESIS_HASH rows"

definition well_chained :: "chain_env \<Rightarrow> string \<Rightarrow> records_table \<Rightarrow> bool" where
  "well_chained env tid db = chained env (hash_ok env tid) (rows_of tid db)"

text \<open>What the next append reads off a chain.\<close>

definition next_prev_bytes :: "bytes \<Rightarrow> telemetry_row list \<Rightarrow> bytes" where
  "next_prev_bytes pb rows = (if rows = [] then pb else tr_chain_self_hash (last rows))"

definition next_prev_str :: "string \<Rightarrow> telemetry_row list \<Rightarrow> string" where
  "next_prev_str ps rows = (if rows = [] then ps else hex (tr_chain_self_hash (last rows)))"

lemma links_append:
  "links H n pb ps (rs @ ss) \<longleftrightarrow>
     links H n pb ps rs \<and>
     links H (n + int (length rs)) (next_prev_bytes pb rs) (next_prev_str ps rs) ss"
  by (induction rs arbitrary: n pb ps) (auto simp: next_prev_bytes_def next_prev_str_def algebra_simps)

lemma links_seq:
  "links H n pb ps rs \<Longrightarrow> i < length rs \<Longrightarrow> tr_chain_seq (rs ! i) = n + int i"
proof (induction rs arbitrary: n pb ps i)
  case (Cons r rs)
  then show ?case by (cases i) auto
qed simp

lemma links_seq_map: "links H n pb ps rs \<Longrightarrow> map tr_chain_seq rs = [n..n + int (length rs) - 1]"
proof (induction rs arbitrary: n pb ps)
  case (Cons r rs)
  then have "tr_chain_seq r = n" "map tr_chain_seq rs = [n + 1..n + 1 + int (length rs) - 1]"
    by auto
  then show ?case by (simp add: upto_rec1 [of n])
qed simp

lemma links_sorted: "links H n pb ps rs \<Longrightarrow> sorted (map tr_chain_seq rs)"
  by (simp add: links_seq_map)

lemma sort_key_links: "links H n pb ps rs \<Longrightarrow> sort_key tr_chain_seq rs = rs"
  by (intro sort_key_id_if_sorted links_sorted)

lemma rows_of_append [simp]:
  "rows_of tid (db @ [r]) = rows_of tid db @ (if tr_tenant_id r = tid then [r] else [])"
  by (simp add: rows_of_def)

lemma rows_of_set: "r \<in> set (rows_of tid db) \<longleftrightarrow> r \<in> set db \<and> tr_tenant_id r = tid"
  by (auto simp: rows_of_def)

lemma foldl_tip:
  "sorted (map tr_chain_seq (b # rs)) \<Longrightarrow> distinct (map tr_chain_seq (b # rs)) \<Longrightarrow>
     foldl (\<lambda>b x. if tr_chain_seq b < tr_chain_seq x then x else b) b rs = last (b # rs)"
proof (induction rs arbitrary: b)
  case (Cons r rs)
  then have "tr_chain_seq b < tr_chain_seq r" by auto
  with Cons show ?case by simp
qed simp

lemma chain_tip_links:
  assumes "links H n pb ps rows"
  shows "chain_tip rows = (if rows = [] then None else Some (last rows))"
proof (cases rows)
  case (Cons r rs)
  have "sorted (map tr_chain_seq rows)" "distinct (map tr_chain_seq rows)"
    using links_seq_map [OF assms] by simp_all
  then show ?thesis using foldl_tip [of r rs] by (simp add: Cons chain_tip_def)
qed (simp add: chain_tip_def)

text \<open>
  A caller's arguments survive storage when the canonical bytes are the same before and after: the
  timestamp already is in the session's zone and JSONB does not change what \<^verbatim>\<open>json.dumps\<close> prints.
\<close>

definition stable_args :: "chain_env \<Rightarrow> append_args \<Rightarrow> bool" where
  "stable_args env a \<longleftrightarrow>
     dt_off (ap_occurred_at a) = Some (session_tz env) \<and> valid_datetime (ap_occurred_at a) \<and>
     (\<forall>m. (m = JObj [] \<or> ap_record_metadata a = Some m) \<longrightarrow> sort_json (jsonb env m) = sort_json m)"

lemma sort_json_cong_metadata:
  "sort_json m = sort_json m' \<Longrightarrow>
     dumps (canonical_dict rt sa ei su oc cr ch m) = dumps (canonical_dict rt sa ei su oc cr ch m')"
  by (simp add: dumps_def canonical_dict_def)

lemma store_row_fields [simp]:
  "tr_tenant_id (store_row env r) = tr_tenant_id r"
  "tr_source_api (store_row env r) = tr_source_api r"
  "tr_external_id (store_row env r) = tr_external_id r"
  "tr_record_type (store_row env r) = tr_record_type r"
  "tr_content_ref (store_row env r) = tr_content_ref r"
  "tr_content_hash (store_row env r) = tr_content_hash r"
  "tr_chain_seq (store_row env r) = tr_chain_seq r"
  "tr_chain_prev_hash (store_row env r) = tr_chain_prev_hash r"
  "tr_chain_self_hash (store_row env r) = tr_chain_self_hash r"
  "tr_subject_user_id (store_row env r) = tr_subject_user_id r"
  by (simp_all add: store_row_def)

lemma build_record_fields:
  assumes "build_record env tid a tip = Inr r"
  shows "tr_tenant_id r = tid" "tr_source_api r = ap_source_api a" "tr_external_id r = ap_external_id a"
    "tid \<noteq> []" "length (tr_content_hash r) = 32" "tr_record_type r = ap_record_type a"
    "tr_content_ref r = ap_content_ref a"
    "tr_chain_seq r = (case tip of None \<Rightarrow> 1 | Some t \<Rightarrow> tr_chain_seq t + 1)"
    "tr_chain_prev_hash r = (case tip of None \<Rightarrow> GENESIS_PREV_BYTES env | Some t \<Rightarrow> tr_chain_self_hash t)"
    "tr_subject_user_id r = ap_subject_user_id a" "tr_content_hash r = ap_content_hash a"
  using assms by (auto simp: build_record_def Let_def split: if_splits option.splits)

lemma build_record_hash:
  assumes "build_record env tid a tip = Inr r"
  shows "fromhex (compute_record_hash env tid (row_canonical r)
      (case tip of None \<Rightarrow> GENESIS_HASH | Some t \<Rightarrow> hex (tr_chain_self_hash t))) = Some (tr_chain_self_hash r)"
  using assms by (auto simp: build_record_def Let_def row_canonical_def split: if_splits option.splits)

lemma row_canonical_store_row:
  assumes "stable_args env a" "build_record env tid a tip = Inr r"
  shows "row_canonical (store_row env r) = row_canonical r"
proof -
  have oc: "tr_occurred_at r = ap_occurred_at a"
    using assms(2) by (auto simp: build_record_def Let_def split: if_splits option.splits)
  have "tr_record_metadata r = JObj [] \<or> ap_record_metadata a = Some (tr_record_metadata r)"
    using assms(2) by (auto simp: build_record_def Let_def split: if_splits option.splits)
  then have m: "sort_json (jsonb env (tr_record_metadata r)) = sort_json (tr_record_metadata r)"
    using assms(1) unfolding stable_args_def by blast
  have t: "timestamptz env (tr_occurred_at r) = tr_occurred_at r"
    using assms(1) oc by (simp add: timestamptz_def stable_args_def astimezone_same)
  show ?thesis
    using sort_json_cong_metadata [OF m, of "tr_record_type r" "tr_source_api r" "tr_external_id r"
        "tr_subject_user_id r" "tr_occurred_at r" "tr_content_ref r" "tr_content_hash r"]
    by (simp only: row_canonical_def canonical_bytes_def store_row_fields) (simp add: store_row_def t)
qed

lemma hash_ok_store_row:
  assumes "stable_args env a" "build_record env tid a tip = Inr r"
  shows "hash_ok env tid (store_row env r)
      (case tip of None \<Rightarrow> GENESIS_HASH | Some t \<Rightarrow> hex (tr_chain_self_hash t))"
  using build_record_hash [OF assms(2)] row_canonical_store_row [OF assms] by (simp add: hash_ok_def)

text \<open>A record built on a chain's tip extends the chain.\<close>

lemma links_build:
  assumes "chained env H rows" and "build_record env tid a (chain_tip rows) = Inr r"
    and "H (store_row env r)
      (case chain_tip rows of None \<Rightarrow> GENESIS_HASH | Some t \<Rightarrow> hex (tr_chain_self_hash t))"
  shows "chained env H (rows @ [store_row env r])"
proof -
  note tip = chain_tip_links [OF assms(1)]
  have "rows \<noteq> [] \<Longrightarrow> tr_chain_seq (last rows) = int (length rows)"
    using links_seq [OF assms(1), of "length rows - 1"] by (cases rows rule: rev_cases) simp_all
  then have "tr_chain_seq r = 1 + int (length rows)"
    using build_record_fields(8) [OF assms(2)] by (simp add: tip split: if_splits)
  moreover have "tr_chain_prev_hash r = next_prev_bytes (GENESIS_PREV_BYTES env) rows"
    using build_record_fields(9) [OF assms(2)] by (simp add: tip next_prev_bytes_def split: if_splits)
  moreover have "H (store_row env r) (next_prev_str GENESIS_HASH rows)"
    using assms(3) by (simp add: tip next_prev_str_def split: if_splits)
  ultimately show ?thesis using assms(1) by (simp add: links_append)
qed

lemma build_record_fits: "build_record env tid a tip = Inr r \<Longrightarrow> row_fits r = args_fit tid a"
  by (simp add: row_fits_def args_fit_def build_record_fields)

lemma insert_row_Inr:
  "insert_row env db r = Inr db' \<longleftrightarrow>
     db' = db @ [store_row env r] \<and> row_fits r \<and> \<not> list_ex (conflicts r) db"
  by (auto simp: insert_row_def)

lemma append_between_Inr:
  "append_between env tid a snap db = Inr (db', x) \<longleftrightarrow>
     (\<exists>r. build_record env tid a (chain_tip (rows_of tid snap)) = Inr r \<and> x = store_row env r
        \<and> db' = db @ [x] \<and> row_fits r \<and> \<not> list_ex (conflicts r) db)"
  by (auto simp: append_between_def insert_row_Inr)

lemmas append_Inr = append_between_Inr [where snap = db and db = db for db, folded append_telemetry_record_def]

lemma append_well_chained:
  assumes "append_telemetry_record env tid a db = Inr (db', x)" "stable_args env a"
    and "well_chained env t db"
  shows "well_chained env t db'"
proof -
  from assms(1) obtain r where r: "build_record env tid a (chain_tip (rows_of tid db)) = Inr r"
    "x = store_row env r" "db' = db @ [x]"
    by (auto simp: append_Inr)
  then have "tr_tenant_id x = tid" using build_record_fields(1) [OF r(1)] by simp
  with assms(3) r(2,3) show ?thesis
    using links_build [where H = "hash_ok env tid", OF _ r(1) hash_ok_store_row [OF assms(2) r(1)]]
    by (auto simp: well_chained_def)
qed

section \<open>Concurrent appends\<close>

text \<open>
  Workers of any number of tenants run \<^verbatim>\<open>append_telemetry_record\<close> at once. A worker first reads the
  tip and builds its record (\<open>begin_append\<close>), later inserts it (\<open>commit_append\<close>) or loses against a
  UNIQUE constraint (\<open>lose_append\<close>); it may also die in between (\<open>abort_append\<close>). \<open>adm\<close> says which
  arguments the callers pass.
\<close>

record append_system =
  as_table :: records_table
  as_pending :: "telemetry_row list"

inductive append_step ::
  "chain_env \<Rightarrow> (append_args \<Rightarrow> bool) \<Rightarrow> append_system \<Rightarrow> append_system \<Rightarrow> bool"
  for env :: chain_env and adm :: "append_args \<Rightarrow> bool"
where
  begin_append:
    "adm a \<Longrightarrow> build_record env tid a (chain_tip (rows_of tid (as_table s))) = Inr r \<Longrightarrow>
       append_step env adm s (s\<lparr>as_pending := r # as_pending s\<rparr>)"
| commit_append:
    "r \<in> set (as_pending s) \<Longrightarrow> insert_row env (as_table s) r = Inr db' \<Longrightarrow>
       append_step env adm s (s\<lparr>as_table := db', as_pending := remove1 r (as_pending s)\<rparr>)"
| lose_append:
    "r \<in> set (as_pending s) \<Longrightarrow> insert_row env (as_table s) r = Inl e \<Longrightarrow>
       append_step env adm s (s\<lparr>as_pending := remove1 r (as_pending s)\<rparr>)"
| abort_append:
    "r \<in> set (as_pending s) \<Longrightarrow>
       append_step env adm s (s\<lparr>as_pending := remove1 r (as_pending s)\<rparr>)"

inductive_cases append_stepE: "append_step env adm s s'"

definition empty_system :: append_system where
  "empty_system = \<lparr>as_table = [], as_pending = []\<rparr>"

definition append_reachable :: "chain_env \<Rightarrow> (append_args \<Rightarrow> bool) \<Rightarrow> append_system \<Rightarrow> bool" where
  "append_reachable env adm s \<longleftrightarrow> (append_step env adm)\<^sup>*\<^sup>* empty_system s"

text \<open>
  A pending record was built on the chain as it stood at some moment, so it extends a prefix of the
  chain as it stands now.
\<close>

definition extends_prefix ::
  "chain_env \<Rightarrow> (string \<Rightarrow> telemetry_row \<Rightarrow> string \<Rightarrow> bool) \<Rightarrow> records_table \<Rightarrow> telemetry_row \<Rightarrow> bool"
where
  "extends_prefix env H db r \<longleftrightarrow>
     (\<exists>k \<le> length (rows_of (tr_tenant_id r) db).
        chained env (H (tr_tenant_id r)) (take k (rows_of (tr_tenant_id r) db) @ [store_row env r]))"

definition system_inv ::
  "chain_env \<Rightarrow> (string \<Rightarrow> telemetry_row \<Rightarrow> string \<Rightarrow> bool) \<Rightarrow> append_system \<Rightarrow> bool"
where
  "system_inv env H s \<longleftrightarrow>
     (\<forall>tid. chained env (H tid) (rows_of tid (as_table s)))
     \<and> (\<forall>r \<in> set (as_pending s). extends_prefix env H (as_table s) r)"

lemma extends_prefix_append:
  assumes "extends_prefix env H db r"
  shows "extends_prefix env H (db @ [x]) r"
proof -
  obtain k where "k \<le> length (rows_of (tr_tenant_id r) db)"
    "chained env (H (tr_tenant_id r)) (take k (rows_of (tr_tenant_id r) db) @ [store_row env r])"
    using assms unfolding extends_prefix_def by blast
  then show ?thesis unfolding extends_prefix_def by (intro exI [of _ k]) auto
qed

text \<open>The UNIQUE constraint on the sequence number lets a record in only on the current tip.\<close>

lemma commit_on_tip:
  assumes "chained env (H (tr_tenant_id r)) (rows_of (tr_tenant_id r) db)"
    and "extends_prefix env H db r" "insert_row env db r = Inr db'"
  shows "chained env (H (tr_tenant_id r)) (rows_of (tr_tenant_id r) db @ [store_row env r])"
proof -
  let ?rows = "rows_of (tr_tenant_id r) db"
  obtain k where k: "k \<le> length ?rows"
    "chained env (H (tr_tenant_id r)) (take k ?rows @ [store_row env r])"
    using assms(2) unfolding extends_prefix_def by blast
  have "\<not> k < length ?rows"
  proof
    assume lt: "k < length ?rows"
    have "tr_chain_seq (?rows ! k) = 1 + int k" using links_seq [OF assms(1) lt] .
    moreover have "tr_chain_seq r = 1 + int k"
      using k by (simp add: links_append min_absorb2)
    moreover have "?rows ! k \<in> set db" "tr_tenant_id (?rows ! k) = tr_tenant_id r"
      using nth_mem [OF lt] by (simp_all add: rows_of_set)
    ultimately have "list_ex (conflicts r) db" by (auto simp: conflicts_def list_ex_iff)
    with assms(3) show False by (simp add: insert_row_Inr)
  qed
  with k show ?thesis by simp
qed

lemma system_inv_step:
  assumes "append_step env adm s s'" "system_inv env H s"
    and H: "\<And>tid a tip r. adm a \<Longrightarrow> build_record env tid a tip = Inr r \<Longrightarrow>
      H tid (store_row env r) (case tip of None \<Rightarrow> GENESIS_HASH | Some t \<Rightarrow> hex (tr_chain_self_hash t))"
  shows "system_inv env H s'"
  using assms(1)
proof cases
  case (begin_append a tid r)
  let ?rows = "rows_of tid (as_table s)"
  have tid: "tr_tenant_id r = tid" using build_record_fields(1) [OF begin_append(3)] .
  have "chained env (H tid) (?rows @ [store_row env r])"
    using assms(2) links_build [where H = "H tid", OF _ begin_append(3) H [OF begin_append(2,3)]]
    by (simp add: system_inv_def)
  then have "extends_prefix env H (as_table s) r"
    unfolding extends_prefix_def tid by (intro exI [of _ "length ?rows"]) simp
  with assms(2) begin_append(1) show ?thesis by (simp add: system_inv_def)
next
  case (commit_append r db')
  have c: "chained env (H (tr_tenant_id r)) (rows_of (tr_tenant_id r) (as_table s) @ [store_row env r])"
    using commit_on_tip [OF _ _ commit_append(3)] assms(2) commit_append(2) by (simp add: system_inv_def)
  have db': "db' = as_table s @ [store_row env r]" using commit_append(3) by (simp add: insert_row_Inr)
  have "chained env (H tid) (rows_of tid db')" for tid
    using c assms(2) by (cases "tid = tr_tenant_id r") (simp_all add: db' system_inv_def)
  moreover have "extends_prefix env H db' x" if "x \<in> set (as_pending s)" for x
    using that assms(2) extends_prefix_append by (simp add: db' system_inv_def)
  ultimately show ?thesis
    using commit_append(1) set_remove1_subset [of r "as_pending s"] by (auto simp: system_inv_def)
next
  case (lose_append r e)
  with assms(2) set_remove1_subset [of r "as_pending s"] show ?thesis by (auto simp: system_inv_def)
next
  case (abort_append r)
  with assms(2) set_remove1_subset [of r "as_pending s"] show ?thesis by (auto simp: system_inv_def)
qed

lemma system_inv_reachable:
  assumes "append_reachable env adm s"
    and "\<And>tid a tip r. adm a \<Longrightarrow> build_record env tid a tip = Inr r \<Longrightarrow>
      H tid (store_row env r) (case tip of None \<Rightarrow> GENESIS_HASH | Some t \<Rightarrow> hex (tr_chain_self_hash t))"
  shows "system_inv env H s"
  using assms(1) unfolding append_reachable_def
proof (induction rule: rtranclp_induct)
  case base
  show ?case by (simp add: system_inv_def empty_system_def rows_of_def)
next
  case (step s s')
  show ?case by (rule system_inv_step [OF step(2,3)]) (rule assms(2))
qed

section \<open>What the verifier of the package promises\<close>

text \<open>
  \<^verbatim>\<open>vargate_audit_chain.verify_record_chain\<close> recomputes every record's hash and checks that each
  record names its predecessor's hash, the first one \<^verbatim>\<open>GENESIS\<close>. \<^verbatim>\<open>compute_record_hash\<close> returns a
  lower-case hexadecimal digest.
\<close>

fun chain_walk :: "chain_env \<Rightarrow> string \<Rightarrow> string \<Rightarrow> chain_record list \<Rightarrow> bool" where
  "chain_walk env tid ps [] = True"
| "chain_walk env tid ps (c # cs) =
     (cr_prev_hash c = ps
      \<and> compute_record_hash env tid (cr_canonical_bytes c) ps = cr_record_hash c
      \<and> chain_walk env tid (cr_record_hash c) cs)"

definition package_contract :: "chain_env \<Rightarrow> bool" where
  "package_contract env \<longleftrightarrow>
     (\<forall>tid cs. vr_valid (verify_record_chain env tid cs) = chain_walk env tid GENESIS_HASH cs
        \<and> (chain_walk env tid GENESIS_HASH cs
             \<longrightarrow> vr_record_count (verify_record_chain env tid cs) = int (length cs)))
     \<and> (\<forall>tid c ps. \<exists>b. compute_record_hash env tid c ps = hex b)"

lemma row_to_chain_record_simps [simp]:
  "cr_canonical_bytes (row_to_chain_record r) = row_canonical r"
  "cr_prev_hash (row_to_chain_record r) =
     (if tr_chain_seq r = 1 then GENESIS_HASH else hex (tr_chain_prev_hash r))"
  "cr_record_hash (row_to_chain_record r) = hex (tr_chain_self_hash r)"
  by (simp_all add: row_to_chain_record_def)

lemma chain_walk_links:
  assumes "package_contract env" "links (hash_ok env tid) n pb ps rows"
    and "1 \<le> n" "ps = (if n = 1 then GENESIS_HASH else hex pb)"
  shows "chain_walk env tid ps (map row_to_chain_record rows)"
  using assms(2-)
proof (induction rows arbitrary: n pb ps)
  case (Cons r rows)
  obtain b where b: "compute_record_hash env tid (row_canonical r) ps = hex b"
    using assms(1) unfolding package_contract_def by blast
  have "chain_walk env tid (hex (tr_chain_self_hash r)) (map row_to_chain_record rows)"
    using Cons.IH [of "n + 1" "tr_chain_self_hash r" "hex (tr_chain_self_hash r)"] Cons.prems by simp
  with b Cons.prems show ?case by (simp add: hash_ok_def [of env tid r])
qed simp

lemma well_chained_verifies:
  assumes "package_contract env" "well_chained env tid db" "tid \<noteq> []"
  shows "\<exists>v. verify_telemetry_chain env tid db = Inr v \<and> vr_valid v
    \<and> vr_record_count v = int (length (rows_of tid db))"
proof -
  have "chain_walk env tid GENESIS_HASH (map row_to_chain_record (rows_of tid db))"
    using chain_walk_links [OF assms(1)] assms(2) unfolding well_chained_def by force
  with assms show ?thesis
    by (simp add: verify_telemetry_chain_def well_chained_def sort_key_links package_contract_def)
qed

section \<open>Accepted chains with one tip\<close>

definition hash_inputs :: "chain_record list \<Rightarrow> (bytes \<times> string) set" where
  "hash_inputs cs = (\<lambda>c. (cr_canonical_bytes c, cr_prev_hash c)) ` set cs"

definition no_collision :: "chain_env \<Rightarrow> string \<Rightarrow> (bytes \<times> string) set \<Rightarrow> bool" where
  "no_collision env tid X \<longleftrightarrow> inj_on (\<lambda>(c, ps). compute_record_hash env tid c ps) X"

lemma no_collision_subset: "no_collision env tid X \<Longrightarrow> Y \<subseteq> X \<Longrightarrow> no_collision env tid Y"
  unfolding no_collision_def by (rule inj_on_subset)

definition last_hash :: "string \<Rightarrow> chain_record list \<Rightarrow> string" where
  "last_hash ps cs = (if cs = [] then ps else cr_record_hash (last cs))"

lemma chain_walk_snoc:
  "chain_walk env tid ps (cs @ [c]) \<longleftrightarrow>
     chain_walk env tid ps cs \<and> cr_prev_hash c = last_hash ps cs
     \<and> compute_record_hash env tid (cr_canonical_bytes c) (last_hash ps cs) = cr_record_hash c"
  by (induction cs arbitrary: ps) (auto simp: last_hash_def)

lemma last_hash_snoc [simp]: "last_hash ps (cs @ [c]) = cr_record_hash c"
  by (simp add: last_hash_def)

lemma hash_inputs_snoc [simp]:
  "hash_inputs (cs @ [c]) = insert (cr_canonical_bytes c, cr_prev_hash c) (hash_inputs cs)"
  by (simp add: hash_inputs_def)

lemma hex_not_GENESIS: "hex b \<noteq> GENESIS_HASH"
proof
  assume "hex b = GENESIS_HASH"
  then have "fromhex GENESIS_HASH = Some b" using fromhex_hex [of b] by simp
  then show False by (simp add: GENESIS_HASH_def is_space_def hex_digit_def)
qed

lemma walks_agree:
  assumes "package_contract env"
  shows "chain_walk env tid GENESIS_HASH cs \<Longrightarrow> chain_walk env tid GENESIS_HASH ds \<Longrightarrow>
     last_hash GENESIS_HASH cs = last_hash GENESIS_HASH ds \<Longrightarrow>
     no_collision env tid (hash_inputs cs \<union> hash_inputs ds) \<Longrightarrow> cs = ds"
proof (induction cs arbitrary: ds rule: rev_induct)
  case Nil
  then show ?case
  proof (cases ds rule: rev_cases)
    case (snoc ds d)
    with Nil have "compute_record_hash env tid (cr_canonical_bytes d) (last_hash GENESIS_HASH ds)
        = GENESIS_HASH" by (simp add: chain_walk_snoc) (simp add: last_hash_def)
    with assms hex_not_GENESIS show ?thesis unfolding package_contract_def by metis
  qed simp
next
  case (snoc c cs)
  obtain ds' d where d: "ds = ds' @ [d]"
  proof (cases ds rule: rev_cases)
    case Nil
    with snoc.prems have "compute_record_hash env tid (cr_canonical_bytes c) (last_hash GENESIS_HASH cs)
        = GENESIS_HASH" by (simp add: chain_walk_snoc) (simp add: last_hash_def)
    with assms hex_not_GENESIS show ?thesis unfolding package_contract_def by metis
  qed (use that in blast)
  have walks: "chain_walk env tid GENESIS_HASH cs" "chain_walk env tid GENESIS_HASH ds'"
    using snoc.prems by (simp_all add: d chain_walk_snoc)
  have h: "compute_record_hash env tid (cr_canonical_bytes c) (cr_prev_hash c)
      = compute_record_hash env tid (cr_canonical_bytes d) (cr_prev_hash d)"
    using snoc.prems by (simp add: d chain_walk_snoc)
  have "(cr_canonical_bytes c, cr_prev_hash c) = (cr_canonical_bytes d, cr_prev_hash d)"
    by (rule inj_onD [OF snoc.prems(4) [unfolded no_collision_def]]) (simp_all add: d h)
  then have eq: "cr_canonical_bytes c = cr_canonical_bytes d \<and> cr_prev_hash c = cr_prev_hash d"
    by simp
  moreover have "cr_record_hash c = cr_record_hash d" using snoc.prems(3) by (simp add: d)
  moreover have "cs = ds'"
  proof (rule snoc.IH [OF walks])
    show "last_hash GENESIS_HASH cs = last_hash GENESIS_HASH ds'"
      using snoc.prems(1,2) eq unfolding d chain_walk_snoc by metis
    show "no_collision env tid (hash_inputs cs \<union> hash_inputs ds')"
      using snoc.prems(4) by (rule no_collision_subset) (auto simp: d)
  qed
  ultimately show ?case by (simp add: d chain_record.equality)
qed

section \<open>Injectivity of the canonical form\<close>

lemma sort_json_json_opt [simp]: "sort_json (json_opt x) = json_opt x"
  by (simp add: json_opt_def split: option.split)

lemma sort_json_canonical_dict:
  "sort_json (canonical_dict rt sa ei su oc cr ch md) =
     canonical_dict rt sa ei su oc cr ch (sort_json md)"
  by (simp add: canonical_dict_def)

lemma json_opt_inject [simp]: "json_opt x = json_opt y \<longleftrightarrow> x = y"
  by (auto simp: json_opt_def split: option.splits)

lemma canonical_bytes_eq_iff:
  assumes "wf_json md" "wf_json md'"
  shows "canonical_bytes rt sa ei su oc cr ch md = canonical_bytes rt' sa' ei' su' oc' cr' ch' md' \<longleftrightarrow>
    rt = rt' \<and> sa = sa' \<and> ei = ei' \<and> su = su' \<and> isoformat oc = isoformat oc' \<and> cr = cr' \<and> ch = ch'
    \<and> sort_json md = sort_json md'" (is "?L \<longleftrightarrow> ?R")
proof
  assume ?L
  have wf: "wf_json (json_opt x)" for x by (simp add: json_opt_def split: option.split)
  have "dumps (canonical_dict rt sa ei su oc cr ch md) = dumps (canonical_dict rt' sa' ei' su' oc' cr' ch' md')"
    using \<open>?L\<close> by (simp add: canonical_bytes_def)
  then have "canonical_dict rt sa ei su oc cr ch (sort_json md)
      = canonical_dict rt' sa' ei' su' oc' cr' ch' (sort_json md')"
    unfolding sort_json_canonical_dict [symmetric]
    by (rule dumps_inject [rotated 2]) (use assms wf in \<open>simp_all add: canonical_dict_def\<close>)
  then show ?R by (simp add: canonical_dict_def)
next
  assume ?R
  then have "sort_json (canonical_dict rt sa ei su oc cr ch md)
      = sort_json (canonical_dict rt' sa' ei' su' oc' cr' ch' md')"
    unfolding sort_json_canonical_dict by (simp add: canonical_dict_def)
  then show ?L by (simp add: canonical_bytes_def dumps_def)
qed

section \<open>Persisting an MCP interaction\<close>

text \<open>
  \<^verbatim>\<open>mcp_server/tasks/persist_event.py\<close>: one interaction becomes one record; its content hash is the
  digest of its metadata. \<^verbatim>\<open>client_received_at\<close> is already parsed. The \<^verbatim>\<open>retry\<close> branch is the
  result \<open>Retry\<close> with the countdown of the attempt, up to \<^verbatim>\<open>max_retries=3\<close>.
\<close>

record mcp_event =
  ev_event_id :: string
  ev_tenant_id :: string
  ev_user_id :: string
  ev_user_email :: string
  ev_kind :: string
  ev_model :: string
  ev_summary :: string
  ev_input_tokens_estimate :: int
  ev_output_tokens_estimate :: int
  ev_tool_calls_count :: int
  ev_surface :: "string option"
  ev_client_received_at :: datetime

datatype persist_result = Persisted string int | Dedup | Retry int | Failed | Rejected

definition event_metadata :: "mcp_event \<Rightarrow> json" where
  "event_metadata e =
     JObj [(''kind'', JStr (ev_kind e)),
           (''model'', JStr (ev_model e)),
           (''summary'', JStr (ev_summary e)),
           (''input_tokens_estimate'', JInt (ev_input_tokens_estimate e)),
           (''output_tokens_estimate'', JInt (ev_output_tokens_estimate e)),
           (''tool_calls_count'', JInt (ev_tool_calls_count e)),
           (''surface'', json_opt (ev_surface e)),
           (''user_email'', JStr (ev_user_email e)),
           (''subject_user_id'', JStr (ev_user_id e)),
           (''event_id'', JStr (ev_event_id e))]"

definition event_external_id :: "mcp_event \<Rightarrow> string" where
  "event_external_id e =
     ''mcp:'' @ ev_tenant_id e @ '':'' @ ev_user_id e @ '':'' @ ev_event_id e"

definition event_args :: "chain_env \<Rightarrow> mcp_event \<Rightarrow> append_args" where
  "event_args env e =
     \<lparr>ap_record_type = ''mcp_interaction'', ap_source_api = ''mcp'',
      ap_external_id = event_external_id e, ap_occurred_at = ev_client_received_at e,
      ap_content_hash = sha256 env (utf8_encode (dumps (event_metadata e))),
      ap_record_metadata = Some (event_metadata e), ap_subject_user_id = Some (ev_user_id e),
      ap_content_ref = None, ap_content_size_bytes = None\<rparr>"

definition persist_event ::
  "chain_env \<Rightarrow> nat \<Rightarrow> mcp_event \<Rightarrow> records_table \<Rightarrow> records_table \<Rightarrow> records_table \<times> persist_result"
where
  "persist_event env retries e snap db =
     (if ev_tenant_id e = [] then (db, Rejected)
      else case append_between env (ev_tenant_id e) (event_args env e) snap db of
             Inl IntegrityError \<Rightarrow> (db, Dedup)
           | Inl _ \<Rightarrow> (db, if retries < 3 then Retry (2 ^ retries) else Failed)
           | Inr (db', record) \<Rightarrow> (db', Persisted (ev_event_id e) (tr_chain_seq record)))"

lemma persist_event_Persisted:
  "persist_event env n e snap db = (db', Persisted i q) \<Longrightarrow>
     \<exists>r. append_between env (ev_tenant_id e) (event_args env e) snap db = Inr (db', r)
       \<and> i = ev_event_id e \<and> q = tr_chain_seq r"
  by (auto simp: persist_event_def split: if_splits sum.splits chain_error.splits)

lemma event_args_simps [simp]:
  "ap_source_api (event_args env e) = ''mcp''"
  "ap_external_id (event_args env e) = event_external_id e"
  "ap_content_hash (event_args env e) = sha256 env (utf8_encode (dumps (event_metadata e)))"
  by (simp_all add: event_args_def)

text \<open>When the arguments are valid and the digest is hexadecimal, building a record does not fail.\<close>

lemma build_record_ok:
  assumes "package_contract env" "tid \<noteq> []" "length (ap_content_hash a) = 32"
  shows "\<exists>r. build_record env tid a tip = Inr r"
proof -
  have "\<exists>b. compute_record_hash env tid c p = hex b" for c p
    using assms(1) unfolding package_contract_def by blast
  then have "\<exists>b. fromhex (compute_record_hash env tid c p) = Some b" for c p
    by (metis fromhex_hex)
  then show ?thesis
    using assms(2,3) by (auto simp: build_record_def Let_def split: option.split)
qed

definition duplicate :: "string \<Rightarrow> string \<Rightarrow> string \<Rightarrow> records_table \<Rightarrow> bool" where
  "duplicate tid sa ei db =
     list_ex (\<lambda>x. tr_tenant_id x = tid \<and> tr_source_api x = sa \<and> tr_external_id x = ei) db"

lemma chained_seq_fresh:
  assumes "well_chained env tid db" "build_record env tid a (chain_tip (rows_of tid db)) = Inr r"
    and "x \<in> set db" "tr_tenant_id x = tid"
  shows "tr_chain_seq x \<noteq> tr_chain_seq r"
proof -
  let ?rows = "rows_of tid db"
  have seq: "tr_chain_seq (?rows ! j) = 1 + int j" if "j < length ?rows" for j
    using links_seq [OF assms(1) [unfolded well_chained_def] that] .
  have "x \<in> set ?rows" using assms(3,4) by (simp add: rows_of_set)
  then obtain k where k: "k < length ?rows" "x = ?rows ! k" by (metis in_set_conv_nth)
  then have "?rows \<noteq> []" by auto
  then have "tr_chain_seq (last ?rows) = int (length ?rows)"
    using seq [of "length ?rows - 1"] by (cases ?rows rule: rev_cases) simp_all
  with k seq [of k] \<open>?rows \<noteq> []\<close> show ?thesis
    using build_record_fields(8) [OF assms(2)]
    by (simp add: chain_tip_links [OF assms(1) [unfolded well_chained_def]])
qed

lemma append_fresh:
  assumes "well_chained env tid db" "build_record env tid a (chain_tip (rows_of tid db)) = Inr r"
    and "\<not> duplicate tid (ap_source_api a) (ap_external_id a) db" "args_fit tid a"
  shows "append_telemetry_record env tid a db = Inr (db @ [store_row env r], store_row env r)"
proof -
  have "\<not> conflicts r x" if "x \<in> set db" for x
    using assms(3) that chained_seq_fresh [OF assms(1,2)] build_record_fields(1-3) [OF assms(2)]
    by (auto simp: conflicts_def duplicate_def list_ex_iff)
  then show ?thesis
    using assms(2,4) build_record_fits [OF assms(2)] by (auto simp: append_Inr list_ex_iff)
qed

lemma append_cases:
  assumes "package_contract env" "well_chained env tid db"
  shows "case append_telemetry_record env tid a db of
      Inr (db', x) \<Rightarrow> tid \<noteq> [] \<and> length (ap_content_hash a) = 32 \<and> args_fit tid a
        \<and> \<not> duplicate tid (ap_source_api a) (ap_external_id a) db
        \<and> db' = db @ [x] \<and> tr_tenant_id x = tid \<and> tr_external_id x = ap_external_id a
        \<and> tr_chain_seq x = int (length (rows_of tid db)) + 1
    | Inl ValueError \<Rightarrow> tid = [] \<or> length (ap_content_hash a) \<noteq> 32
    | Inl DataError \<Rightarrow> tid \<noteq> [] \<and> length (ap_content_hash a) = 32 \<and> \<not> args_fit tid a
    | Inl IntegrityError \<Rightarrow> tid \<noteq> [] \<and> length (ap_content_hash a) = 32 \<and> args_fit tid a
        \<and> duplicate tid (ap_source_api a) (ap_external_id a) db"
proof (cases "tid = [] \<or> length (ap_content_hash a) \<noteq> 32")
  case True
  then have "append_telemetry_record env tid a db = Inl ValueError"
    by (auto simp: append_telemetry_record_def append_between_def build_record_def)
  with True show ?thesis by simp
next
  case False
  then obtain r where r: "build_record env tid a (chain_tip (rows_of tid db)) = Inr r"
    using build_record_ok [OF assms(1)] by blast
  note f = build_record_fields [OF r] and fit = build_record_fits [OF r]
  show ?thesis
  proof (cases "args_fit tid a \<longrightarrow> duplicate tid (ap_source_api a) (ap_external_id a) db")
    case True
    then have "args_fit tid a \<Longrightarrow> list_ex (conflicts r) db"
      using f(1-3) by (auto simp: duplicate_def list_ex_iff conflicts_def)
    then have "append_telemetry_record env tid a db = Inl (if args_fit tid a then IntegrityError else DataError)"
      by (simp add: append_telemetry_record_def append_between_def r insert_row_def fit)
    with True False show ?thesis by simp
  next
    case fresh: False
    have "tr_chain_seq r = int (length (rows_of tid db)) + 1"
      using f(8) chain_tip_links [OF assms(2) [unfolded well_chained_def]]
        links_seq [OF assms(2) [unfolded well_chained_def], of "length (rows_of tid db) - 1"]
      by (cases "rows_of tid db" rule: rev_cases) simp_all
    with append_fresh [OF assms(2) r] False fresh f show ?thesis by simp
  qed
qed

text \<open>Losing the race for a sequence number: another row of the tenant came in after the tip was read.\<close>

lemma append_race:
  assumes "package_contract env" "length (ap_content_hash a) = 32" "args_fit tid a"
    and "append_telemetry_record env tid c snap = Inr (db, y)"
  shows "append_between env tid a snap db = Inl IntegrityError"
proof -
  let ?tip = "chain_tip (rows_of tid snap)"
  obtain q where q: "build_record env tid c ?tip = Inr q" "y = store_row env q" "db = snap @ [y]"
    using assms(4) by (auto simp: append_Inr)
  note fq = build_record_fields [OF q(1)]
  obtain r where r: "build_record env tid a ?tip = Inr r"
    using build_record_ok [OF assms(1) fq(4) assms(2)] by blast
  have "conflicts r y"
    using fq(1,8) build_record_fields(1,8) [OF r] by (simp add: conflicts_def q(2))
  then show ?thesis
    using assms(3) build_record_fits [OF r] by (simp add: append_between_def r insert_row_def q(3))
qed

section \<open>Batches of appends\<close>

text \<open>
  The pull tasks append a page of items and pass over the ones the table refuses. They rely on the
  log only through this interface: an append that succeeds adds one entry at the end and keeps the
  log good.
\<close>

fun append_each :: "('a \<Rightarrow> 's \<Rightarrow> 'e + ('s \<times> 'r)) \<Rightarrow> 'a list \<Rightarrow> 's \<Rightarrow> 's" where
  "append_each f [] s = s"
| "append_each f (a # as) s =
     append_each f as (case f a s of Inl e \<Rightarrow> s | Inr (s', r) \<Rightarrow> s')"

locale append_log =
  fixes appendf :: "'a \<Rightarrow> 's \<Rightarrow> 'e + ('s \<times> 'r)"
    and log :: "'s \<Rightarrow> 'r list"
    and good :: "'s \<Rightarrow> bool"
    and adm :: "'a \<Rightarrow> bool"
  assumes log_append: "adm a \<Longrightarrow> appendf a s = Inr (s', r) \<Longrightarrow> log s' = log s @ [r]"
    and good_append: "adm a \<Longrightarrow> good s \<Longrightarrow> appendf a s = Inr (s', r) \<Longrightarrow> good s'"
begin

lemma append_each_good: "list_all adm as \<Longrightarrow> good s \<Longrightarrow> good (append_each appendf as s)"
  by (induction as arbitrary: s) (auto split: sum.split simp: good_append)

lemma append_each_extends:
  "list_all adm as \<Longrightarrow> \<exists>rs. log (append_each appendf as s) = log s @ rs \<and> length rs \<le> length as"
proof (induction as arbitrary: s)
  case (Cons a as)
  let ?s = "case appendf a s of Inl e \<Rightarrow> s | Inr (s', r) \<Rightarrow> s'"
  obtain rs where rs: "log (append_each appendf as ?s) = log ?s @ rs" "length rs \<le> length as"
    using Cons by (auto simp del: append_each.simps)
  have "\<exists>q. log ?s = log s @ q \<and> length q \<le> 1"
  proof (cases "appendf a s")
    case (Inr p)
    obtain s' r where "p = (s', r)" by (cases p)
    with Inr log_append [of a s s' r] Cons.prems show ?thesis by simp
  qed simp
  then obtain q where "log ?s = log s @ q" "length q \<le> 1" by blast
  with rs show ?case by (intro exI [of _ "q @ rs"]) auto
qed simp

end

interpretation chain_log: append_log "append_telemetry_record env tid" "rows_of tid"
  "\<lambda>db. well_chained env t db" "stable_args env" for env tid t
proof
  fix a db db' r
  assume a: "append_telemetry_record env tid a db = Inr (db', r)"
  then show "rows_of tid db' = rows_of tid db @ [r]"
    using build_record_fields(1) by (auto simp: append_Inr)
  assume "stable_args env a" "well_chained env t db"
  with a show "well_chained env t db'" by (blast intro: append_well_chained)
qed

section \<open>A sample environment\<close>

text \<open>
  For the witnesses: a digest that writes its inputs out in hexadecimal, so that it is lower-case and
  injective, and the verifier its documentation describes.
\<close>

definition sample_hash :: "string \<Rightarrow> bytes \<Rightarrow> string \<Rightarrow> string" where
  "sample_hash tid c ps = hex (hex c @ ''|'' @ hex ps)"

definition sample_env_base :: chain_env where
  "sample_env_base =
     \<lparr>compute_record_hash = sample_hash, verify_record_chain = \<lambda>tid cs. \<lparr>vr_valid = False, vr_record_count = 0\<rparr>,
      sha256 = \<lambda>b. take 32 (b @ replicate 32 CHR ''0''), jsonb = id, session_tz = 0\<rparr>"

definition sample_env :: chain_env where
  "sample_env =
     sample_env_base\<lparr>verify_record_chain := \<lambda>tid cs.
       \<lparr>vr_valid = chain_walk sample_env_base tid GENESIS_HASH cs, vr_record_count = int (length cs)\<rparr>\<rparr>"

lemma sample_env_simps [simp]:
  "compute_record_hash sample_env = sample_hash" "session_tz sample_env = 0"
  "jsonb sample_env = id" "length (sha256 sample_env b) = 32"
  by (simp_all add: sample_env_def sample_env_base_def)

lemma chain_walk_sample: "chain_walk sample_env_base tid ps cs = chain_walk sample_env tid ps cs"
  by (induction cs arbitrary: ps) (simp_all add: sample_env_def sample_env_base_def)

lemma sample_contract [simp]: "package_contract sample_env"
proof -
  have "vr_valid (verify_record_chain sample_env tid cs) = chain_walk sample_env tid GENESIS_HASH cs
    \<and> vr_record_count (verify_record_chain sample_env tid cs) = int (length cs)" for tid cs
    using chain_walk_sample [of tid GENESIS_HASH cs] by (simp add: sample_env_def)
  then show ?thesis by (auto simp: package_contract_def sample_hash_def)
qed

lemma hex_digits: "c \<in> set (hex b) \<Longrightarrow> hex_digit c \<noteq> None"
  by (induction b) auto

lemma sample_hash_inject: "sample_hash tid c ps = sample_hash tid c' ps' \<longleftrightarrow> c = c' \<and> ps = ps'"
proof
  assume "sample_hash tid c ps = sample_hash tid c' ps'"
  then have eq: "hex c @ CHR ''|'' # hex ps = hex c' @ CHR ''|'' # hex ps'"
    by (simp add: sample_hash_def)
  moreover have bar: "CHR ''|'' \<notin> set (hex b)" for b
    using hex_digits [of "CHR ''|''" b] by (auto simp: hex_digit_def)
  ultimately have "hex c = hex c' \<and> hex ps = hex ps'"
    using append_Cons_eq_iff [of "CHR ''|''" "hex c" "hex ps" "hex c'" "hex ps'"] eq by blast
  then show "c = c' \<and> ps = ps'" by simp
qed simp

lemma sample_no_collision [simp]: "no_collision sample_env tid X"
  by (auto simp: no_collision_def inj_on_def sample_hash_inject)

definition sample_time :: datetime where
  "sample_time = \<lparr>dt_date = Date 2026 5 17, dt_us = 1000000, dt_off = Some 0\<rparr>"

definition sample_args :: "string \<Rightarrow> append_args" where
  "sample_args i =
     \<lparr>ap_record_type = ''activity'', ap_source_api = ''compliance'', ap_external_id = i,
      ap_occurred_at = sample_time, ap_content_hash = replicate 32 CHR ''h'',
      ap_record_metadata = None, ap_subject_user_id = None, ap_content_ref = Some ''blob'',
      ap_content_size_bytes = Some 7\<rparr>"

lemma valid_sample_time [simp]: "valid_datetime sample_time"
  by (simp add: valid_datetime_def sample_time_def valid_date_def days_in_month_def day_us_def)

lemma stable_sample_args [simp]: "stable_args sample_env (sample_args i)"
proof -
  have "dt_off sample_time = Some 0" by (simp add: sample_time_def)
  then show ?thesis by (simp add: stable_args_def sample_args_def)
qed

definition sample_table :: "string list \<Rightarrow> records_table" where
  "sample_table ids = append_each (append_telemetry_record sample_env ''t1'') (map sample_args ids) []"

lemma sample_table_chained: "well_chained sample_env t (sample_table ids)"
  unfolding sample_table_def
  by (rule chain_log.append_each_good) (simp_all add: list_all_iff well_chained_def rows_of_def)

text \<open>The sample table's rows, one per distinct external id, without running the digest.\<close>

lemma append_sample:
  assumes "well_chained sample_env ''t1'' db" "\<not> duplicate ''t1'' ''compliance'' i db" "length i \<le> 256"
  shows "\<exists>x. append_telemetry_record sample_env ''t1'' (sample_args i) db = Inr (db @ [x], x)
    \<and> tr_external_id x = i \<and> tr_source_api x = ''compliance'' \<and> tr_tenant_id x = ''t1'' \<and> tr_record_metadata x = JObj []"
proof -
  have len: "length (ap_content_hash (sample_args i)) = 32" by (simp add: sample_args_def)
  obtain r where r: "build_record sample_env ''t1'' (sample_args i) (chain_tip (rows_of ''t1'' db)) = Inr r"
    using build_record_ok [OF sample_contract _ len] by blast
  moreover have "tr_record_metadata r = JObj []"
    using r by (auto simp: build_record_def Let_def sample_args_def split: if_splits option.splits)
  moreover have "append_telemetry_record sample_env ''t1'' (sample_args i) db
      = Inr (db @ [store_row sample_env r], store_row sample_env r)"
    by (rule append_fresh [OF assms(1) r]) (use assms(2,3) in \<open>simp_all add: sample_args_def args_fit_def opt_fits_def\<close>)
  ultimately show ?thesis
    using build_record_fields(1-3) [OF r] by (simp add: store_row_def sample_args_def)
qed

lemma sample_table_two:
  "\<exists>x y. sample_table [''a'', ''b''] = [x, y] \<and> tr_tenant_id x = ''t1'' \<and> tr_tenant_id y = ''t1''
     \<and> tr_record_metadata x = JObj [] \<and> tr_record_metadata y = JObj []
     \<and> tr_external_id x = ''a'' \<and> tr_source_api x = ''compliance''"
proof -
  obtain x where x: "append_telemetry_record sample_env ''t1'' (sample_args ''a'') [] = Inr ([x], x)"
    "tr_external_id x = ''a''" "tr_tenant_id x = ''t1''" "tr_record_metadata x = JObj []"
    "tr_source_api x = ''compliance''"
    using append_sample [of "[]" "''a''"] by (auto simp: well_chained_def rows_of_def duplicate_def)
  have "well_chained sample_env ''t1'' [x]"
    by (rule append_well_chained [OF x(1) stable_sample_args]) (simp add: well_chained_def rows_of_def)
  from append_sample [OF this, of "''b''"] obtain y where
    y: "append_telemetry_record sample_env ''t1'' (sample_args ''b'') [x] = Inr ([x, y], y)"
    "tr_tenant_id y = ''t1''" "tr_record_metadata y = JObj []"
    using x by (auto simp: duplicate_def)
  show ?thesis using x y by (simp add: sample_table_def)
qed

section \<open>Properties\<close>

lemma reachable_links:
  "append_reachable env adm s \<Longrightarrow> chained env (\<lambda>_ _. True) (rows_of tid (as_table s))"
  using system_inv_reachable [where H = "\<lambda>_ _ _. True"] by (simp add: system_inv_def)

lemma reachable_well_chained:
  assumes "append_reachable env (stable_args env) s"
  shows "well_chained env tid (as_table s)"
  using system_inv_reachable [where H = "hash_ok env", OF assms hash_ok_store_row]
  by (simp add: system_inv_def well_chained_def)

lemma links_prev:
  "links H n pb ps rs \<Longrightarrow> i < length rs \<Longrightarrow>
     tr_chain_prev_hash (rs ! i) = (if i = 0 then pb else tr_chain_self_hash (rs ! (i - 1)))"
proof (induction rs arbitrary: n pb ps i)
  case (Cons r rs)
  then show ?case by (cases i) (auto simp: nth_Cons')
qed simp

text \<open>A reachable state to instantiate the theorems at: one row stored, a second one lost the race.\<close>

lemma sample_reachable:
  "\<exists>x. append_reachable sample_env (stable_args sample_env) \<lparr>as_table = [x], as_pending = []\<rparr>
     \<and> tr_tenant_id x = ''t1''"
proof -
  have len: "length (ap_content_hash (sample_args i)) = 32" for i by (simp add: sample_args_def)
  obtain r where r: "build_record sample_env ''t1'' (sample_args ''a'') (chain_tip (rows_of ''t1'' [])) = Inr r"
    using build_record_ok [OF sample_contract _ len] by blast
  obtain q where q: "build_record sample_env ''t1'' (sample_args ''b'') (chain_tip (rows_of ''t1'' [])) = Inr q"
    using build_record_ok [OF sample_contract _ len] by blast
  let ?x = "store_row sample_env r"
  let ?S = "append_step sample_env (stable_args sample_env)"
  have fields: "tr_tenant_id r = ''t1''" "tr_tenant_id q = ''t1''" "tr_chain_seq r = 1" "tr_chain_seq q = 1"
    using build_record_fields(1,8) [OF r] build_record_fields(1,8) [OF q]
    by (simp_all add: rows_of_def chain_tip_def)
  have "r \<noteq> q" using build_record_fields(3) [OF r] build_record_fields(3) [OF q] by (auto simp: sample_args_def)
  have "?S empty_system \<lparr>as_table = [], as_pending = [r]\<rparr>"
    using append_step.begin_append [of "stable_args sample_env" _ sample_env "''t1''" empty_system, OF stable_sample_args] r
    by (simp add: empty_system_def)
  moreover have "?S \<lparr>as_table = [], as_pending = [r]\<rparr> \<lparr>as_table = [], as_pending = [q, r]\<rparr>"
    using append_step.begin_append [of "stable_args sample_env" _ sample_env "''t1''" "\<lparr>as_table = [], as_pending = [r]\<rparr>", OF stable_sample_args] q
    by simp
  moreover have "?S \<lparr>as_table = [], as_pending = [q, r]\<rparr> \<lparr>as_table = [?x], as_pending = [q]\<rparr>"
    using append_step.commit_append [of r "\<lparr>as_table = [], as_pending = [q, r]\<rparr>" sample_env "[?x]" "stable_args sample_env"] \<open>r \<noteq> q\<close>
    using build_record_fits [OF r] by (simp add: insert_row_Inr sample_args_def args_fit_def opt_fits_def)
  moreover have "?S \<lparr>as_table = [?x], as_pending = [q]\<rparr> \<lparr>as_table = [?x], as_pending = []\<rparr>"
    using append_step.lose_append [of q "\<lparr>as_table = [?x], as_pending = [q]\<rparr>" sample_env IntegrityError "stable_args sample_env"] fields
      build_record_fits [OF q]
    by (simp add: insert_row_def conflicts_def sample_args_def args_fit_def opt_fits_def)
  ultimately have "append_reachable sample_env (stable_args sample_env) \<lparr>as_table = [?x], as_pending = []\<rparr>"
    unfolding append_reachable_def
    by (meson converse_rtranclp_into_rtranclp rtranclp.rtrancl_refl)
  with fields show ?thesis by auto
qed

text \<open>C1: However many workers append at once, and whatever they append, no tenant's chain ever forks:
  its rows carry the sequence numbers 1, 2, ..., n, and every row names the hash of the row before it,
  the first one the genesis bytes. The UNIQUE constraint on (tenant_id, chain_seq) is all that holds
  the workers back.\<close>

theorem chain_never_forks:
  assumes "append_reachable env adm s" "rows = rows_of tid (as_table s)"
  shows "map tr_chain_seq rows = [1..int (length rows)]
    \<and> (\<forall>i < length rows. tr_chain_prev_hash (rows ! i) =
         (if i = 0 then GENESIS_PREV_BYTES env else tr_chain_self_hash (rows ! (i - 1))))"
  using links_seq_map [OF reachable_links [OF assms(1)], of tid] assms(2)
    links_prev [OF reachable_links [OF assms(1)], of _ tid]
  by simp

lemma chain_never_forks_witness:
  "\<exists>x. map tr_chain_seq (rows_of ''t1'' [x]) = [1]"
proof -
  obtain x where x: "append_reachable sample_env (stable_args sample_env) \<lparr>as_table = [x], as_pending = []\<rparr>"
    "tr_tenant_id x = ''t1''"
    using sample_reachable by blast
  have rows: "rows_of ''t1'' [x] = [x]" using x(2) by (simp add: rows_of_def)
  show ?thesis
    using chain_never_forks [OF x(1) refl, of "''t1''"] by (intro exI [of _ x]) (simp add: rows)
qed

text \<open>Every chain that concurrent workers can build verifies. When the callers pass arguments that
  survive storage and the package does what it documents, \<^verbatim>\<open>verify_telemetry_chain\<close> answers valid for
  every tenant in every reachable state, with the number of the tenant's rows.\<close>

lemma concurrent_chain_verifies:
  assumes "append_reachable env (stable_args env) s" "package_contract env" "tid \<noteq> []"
  shows "\<exists>v. verify_telemetry_chain env tid (as_table s) = Inr v \<and> vr_valid v
    \<and> vr_record_count v = int (length (rows_of tid (as_table s)))"
  by (rule well_chained_verifies [OF assms(2) reachable_well_chained [OF assms(1)] assms(3)])

lemma concurrent_chain_verifies_witness:
  "\<exists>x v. verify_telemetry_chain sample_env ''t1'' [x] = Inr v \<and> vr_valid v \<and> vr_record_count v = 1"
proof -
  obtain x where x: "append_reachable sample_env (stable_args sample_env) \<lparr>as_table = [x], as_pending = []\<rparr>"
    "tr_tenant_id x = ''t1''"
    using sample_reachable by blast
  have rows: "rows_of ''t1'' [x] = [x]" using x(2) by (simp add: rows_of_def)
  show ?thesis
    using concurrent_chain_verifies [OF x(1) sample_contract, of "''t1''"]
    by (intro exI [of _ x]) (simp add: rows)
qed

definition sorted_rows :: "string \<Rightarrow> records_table \<Rightarrow> telemetry_row list" where
  "sorted_rows tid db = sort_key tr_chain_seq (rows_of tid db)"

definition accepted :: "chain_env \<Rightarrow> string \<Rightarrow> records_table \<Rightarrow> bool" where
  "accepted env tid db \<longleftrightarrow> (\<exists>v. verify_telemetry_chain env tid db = Inr v \<and> vr_valid v)"

definition row_content :: "telemetry_row \<Rightarrow> string \<times> string \<times> string \<times> string option \<times> string \<times> string option \<times> bytes \<times> json" where
  "row_content r =
     (tr_record_type r, tr_source_api r, tr_external_id r, tr_subject_user_id r,
      isoformat (tr_occurred_at r), tr_content_ref r, tr_content_hash r,
      sort_json (tr_record_metadata r))"

lemma row_canonical_content:
  "row_canonical r = row_canonical q \<Longrightarrow> wf_json (tr_record_metadata r) \<Longrightarrow> wf_json (tr_record_metadata q) \<Longrightarrow>
     row_content r = row_content q"
  unfolding row_canonical_def row_content_def by (subst (asm) canonical_bytes_eq_iff) simp_all

lemma same_records_same_content:
  "map row_to_chain_record rs = map row_to_chain_record qs \<Longrightarrow>
     list_all (\<lambda>r. wf_json (tr_record_metadata r)) (rs @ qs) \<Longrightarrow> map row_content rs = map row_content qs"
proof (induction rs arbitrary: qs)
  case (Cons r rs)
  then obtain q qs' where q: "qs = q # qs'" "row_to_chain_record r = row_to_chain_record q" by auto
  have "row_canonical r = row_canonical q" using arg_cong [OF q(2), of cr_canonical_bytes] by simp
  then show ?case using Cons q row_canonical_content [of r q] by simp
qed simp

text \<open>C2: A chain cannot be rewritten under a tip that somebody remembers. If the verifier accepts the
  tables \<open>db\<close> and \<open>db'\<close> for a tenant, both have the same last hash, and the digest does not collide on
  what was hashed, then the tenant's rows agree one by one, in order, in every field the canonical form
  binds: type, source, external id, subject, timestamp, content reference, content hash and metadata
  (up to the order of JSON keys).\<close>

theorem chain_is_tamper_evident:
  assumes "package_contract env" "accepted env tid db" "accepted env tid db'"
    and "sorted_rows tid db \<noteq> []" "sorted_rows tid db' \<noteq> []"
    and "tr_chain_self_hash (last (sorted_rows tid db)) = tr_chain_self_hash (last (sorted_rows tid db'))"
    and "no_collision env tid (hash_inputs (map row_to_chain_record (sorted_rows tid db))
          \<union> hash_inputs (map row_to_chain_record (sorted_rows tid db')))"
    and "list_all (\<lambda>r. wf_json (tr_record_metadata r)) (sorted_rows tid db @ sorted_rows tid db')"
  shows "map row_content (sorted_rows tid db) = map row_content (sorted_rows tid db')"
proof -
  have "chain_walk env tid GENESIS_HASH (map row_to_chain_record (sorted_rows tid d))"
    if "accepted env tid d" for d
    using that assms(1) by (auto simp: accepted_def verify_telemetry_chain_def sorted_rows_def
        package_contract_def split: if_splits)
  then have "map row_to_chain_record (sorted_rows tid db) = map row_to_chain_record (sorted_rows tid db')"
    using assms(2-7) by (intro walks_agree [OF assms(1)]) (simp_all add: last_hash_def last_map)
  then show ?thesis by (rule same_records_same_content) (rule assms(8))
qed

lemma chain_is_tamper_evident_witness:
  "map row_content (sorted_rows ''t1'' (sample_table [''a'', ''b'']))
    = map row_content (sorted_rows ''t1'' (rev (sample_table [''a'', ''b''])))"
proof -
  let ?db = "sample_table [''a'', ''b'']"
  obtain x y where xy: "?db = [x, y]" "tr_tenant_id x = ''t1''" "tr_tenant_id y = ''t1''"
    "tr_record_metadata x = JObj []" "tr_record_metadata y = JObj []"
    using sample_table_two by blast
  have rows: "rows_of ''t1'' [x, y] = [x, y]" "rows_of ''t1'' [y, x] = [y, x]"
    using xy by (simp_all add: rows_of_def)
  have w: "well_chained sample_env ''t1'' [x, y]" using sample_table_chained xy(1) by metis
  then have "tr_chain_seq x = 1" "tr_chain_seq y = 2" by (simp_all add: well_chained_def rows)
  then have s: "sorted_rows ''t1'' [x, y] = [x, y]" "sorted_rows ''t1'' [y, x] = [x, y]"
    by (simp_all add: sorted_rows_def rows)
  have a: "accepted sample_env ''t1'' [x, y]"
    using well_chained_verifies [OF sample_contract w] by (auto simp: accepted_def)
  then have b: "accepted sample_env ''t1'' [y, x]"
    using s by (simp add: accepted_def verify_telemetry_chain_def sorted_rows_def)
  show ?thesis
    using chain_is_tamper_evident [OF sample_contract a b] xy by (simp add: s)
qed

text \<open>C3: An append to a sound chain succeeds exactly when its arguments are well-formed (a tenant, a
  32-byte content hash), fit their columns, and the tenant has no record of the same source and external
  id. It then adds one row at the end, next in sequence; a conflict with a sequence number cannot happen
  to a call that runs alone. A duplicate raises \<^verbatim>\<open>IntegrityError\<close>, a malformed call \<^verbatim>\<open>ValueError\<close>, a
  text too long for its column \<^verbatim>\<open>DataError\<close>.\<close>

theorem append_result:
  assumes "package_contract env" "well_chained env tid db"
  shows "case append_telemetry_record env tid a db of
      Inr (db', x) \<Rightarrow> tid \<noteq> [] \<and> length (ap_content_hash a) = 32 \<and> args_fit tid a
        \<and> \<not> duplicate tid (ap_source_api a) (ap_external_id a) db
        \<and> db' = db @ [x] \<and> tr_tenant_id x = tid \<and> tr_external_id x = ap_external_id a
        \<and> tr_chain_seq x = int (length (rows_of tid db)) + 1
    | Inl ValueError \<Rightarrow> tid = [] \<or> length (ap_content_hash a) \<noteq> 32
    | Inl DataError \<Rightarrow> tid \<noteq> [] \<and> length (ap_content_hash a) = 32 \<and> \<not> args_fit tid a
    | Inl IntegrityError \<Rightarrow> tid \<noteq> [] \<and> length (ap_content_hash a) = 32 \<and> args_fit tid a
        \<and> duplicate tid (ap_source_api a) (ap_external_id a) db"
  by (rule append_cases [OF assms])

lemma append_result_witness:
  "append_telemetry_record sample_env ''t1'' (sample_args ''a'') (sample_table [''a'', ''b'']) = Inl IntegrityError"
proof -
  let ?db = "sample_table [''a'', ''b'']"
  have d: "duplicate ''t1'' ''compliance'' ''a'' ?db" using sample_table_two by (auto simp: duplicate_def)
  have a: "ap_source_api (sample_args ''a'') = ''compliance''" "ap_external_id (sample_args ''a'') = ''a''"
    "length (ap_content_hash (sample_args ''a'')) = 32" "args_fit ''t1'' (sample_args ''a'')"
    by (simp_all add: sample_args_def args_fit_def opt_fits_def)
  show ?thesis
    using append_result [OF sample_contract sample_table_chained, of "''t1''" "sample_args ''a''" "[''a'', ''b'']"]
    by (simp add: a d split: sum.splits chain_error.splits prod.splits)
qed

text \<open>Redelivery of an MCP event is harmless. Once \<^verbatim>\<open>persist_event\<close> has stored an event, every later
  run for the same event, at any retry, from any snapshot and against any table that still has the
  row, stores nothing and reports a duplicate.\<close>

lemma persist_event_redelivery:
  assumes "package_contract env" "\<And>b. length (sha256 env b) = 32"
    and "persist_event env n e snap db = (db', Persisted i q)" "set db' \<subseteq> set db''"
  shows "persist_event env m e snap' db'' = (db'', Dedup)"
proof -
  obtain x where x: "append_between env (ev_tenant_id e) (event_args env e) snap db = Inr (db', x)"
    using persist_event_Persisted [OF assms(3)] by blast
  then obtain r0 where r0: "build_record env (ev_tenant_id e) (event_args env e)
      (chain_tip (rows_of (ev_tenant_id e) snap)) = Inr r0" "x = store_row env r0" "db' = db @ [x]" "row_fits r0"
    by (auto simp: append_between_Inr)
  note f0 = build_record_fields [OF r0(1)]
  obtain r where r: "build_record env (ev_tenant_id e) (event_args env e)
      (chain_tip (rows_of (ev_tenant_id e) snap')) = Inr r"
    using build_record_ok [OF assms(1) f0(4)] assms(2) by fastforce
  note f = build_record_fields [OF r]
  have "x \<in> set db''" using r0(3) assms(4) by auto
  moreover have "conflicts r x" using f(1-3) f0(1-3) r0(2) by (simp add: conflicts_def)
  ultimately have "list_ex (conflicts r) db''" unfolding list_ex_iff by blast
  then show ?thesis
    using f0(4) r0(4) build_record_fits [OF r0(1)] build_record_fits [OF r]
    by (simp add: persist_event_def append_between_def r insert_row_def)
qed

definition sample_event :: "string \<Rightarrow> mcp_event" where
  "sample_event i =
     \<lparr>ev_event_id = i, ev_tenant_id = ''t1'', ev_user_id = ''u1'', ev_user_email = ''u@example.com'',
      ev_kind = ''chat'', ev_model = ''m'', ev_summary = ''s'', ev_input_tokens_estimate = 10,
      ev_output_tokens_estimate = 20, ev_tool_calls_count = 0, ev_surface = None,
      ev_client_received_at = sample_time\<rparr>"

lemma sample_event_fits: "length i \<le> 200 \<Longrightarrow> args_fit ''t1'' (event_args sample_env (sample_event i))"
  by (simp add: args_fit_def opt_fits_def event_args_def event_external_id_def sample_event_def)

lemma persist_sample_event:
  "length i \<le> 200 \<Longrightarrow> \<exists>x. persist_event sample_env 0 (sample_event i) [] [] = ([x], Persisted i 1) \<and> tr_tenant_id x = ''t1''"
proof -
  assume "length i \<le> 200"
  let ?e = "sample_event i"
  have t: "ev_tenant_id ?e = ''t1''" "ev_event_id ?e = i" by (simp_all add: sample_event_def)
  obtain r where r: "build_record sample_env ''t1'' (event_args sample_env ?e) (chain_tip (rows_of ''t1'' [])) = Inr r"
    using build_record_ok [OF sample_contract, of "''t1''" "event_args sample_env ?e"] by auto
  show ?thesis
    using build_record_fields(1,8) [OF r] r build_record_fits [OF r] sample_event_fits [OF \<open>length i \<le> 200\<close>]
    by (simp add: persist_event_def t append_between_def insert_row_def rows_of_def chain_tip_def)
qed

lemma persist_event_redelivery_witness:
  "\<exists>x. persist_event sample_env 1 (sample_event ''e1'') [x] [x] = ([x], Dedup)"
proof -
  obtain x where x: "persist_event sample_env 0 (sample_event ''e1'') [] [] = ([x], Persisted ''e1'' 1)"
    using persist_sample_event [of "''e1''"] by auto
  show ?thesis
    using persist_event_redelivery [OF sample_contract _ x, of "[x]" 1 "[x]"] by auto
qed

text \<open>C4: A new event that loses a race for a sequence number is dropped for good. If another worker of
  the tenant commits any record between \<^verbatim>\<open>persist_event\<close>'s read of the tip and its INSERT, the task
  reports "dedup, already persisted" although the event is in no row; nothing retries it. The handler
  takes every \<^verbatim>\<open>IntegrityError\<close> for a duplicate, but the sequence constraint raises it too.\<close>

theorem persist_event_loses_race:
  assumes "package_contract env" "\<And>b. length (sha256 env b) = 32" "ev_tenant_id e \<noteq> []"
    and "append_telemetry_record env (ev_tenant_id e) a snap = Inr (db, y)"
    and "\<not> duplicate (ev_tenant_id e) ''mcp'' (event_external_id e) db"
    and "args_fit (ev_tenant_id e) (event_args env e)"
  shows "persist_event env n e snap db = (db, Dedup)
    \<and> (\<forall>x \<in> set db. \<not> (tr_tenant_id x = ev_tenant_id e \<and> tr_source_api x = ''mcp''
         \<and> tr_external_id x = event_external_id e))"
  using append_race [OF assms(1) _ assms(6,4)] assms(2,3,5)
  by (auto simp: persist_event_def duplicate_def list_ex_iff)

lemma persist_event_loses_race_witness:
  "\<exists>x. persist_event sample_env 0 (sample_event ''e2'') [] [x] = ([x], Dedup)
     \<and> tr_external_id x = ''a''"
proof -
  obtain x where x: "append_telemetry_record sample_env ''t1'' (sample_args ''a'') [] = Inr ([x], x)"
    "tr_external_id x = ''a''" "tr_source_api x = ''compliance''"
    using append_sample [of "[]" "''a''"] by (auto simp: well_chained_def rows_of_def duplicate_def)
  have t: "ev_tenant_id (sample_event ''e2'') = ''t1''" by (simp add: sample_event_def)
  show ?thesis
    using persist_event_loses_race [OF sample_contract, of "sample_event ''e2''" "sample_args ''a''" "[]" "[x]" x 0] x
      sample_event_fits [of "''e2''"]
    by (auto simp: t duplicate_def)
qed

definition args_canonical :: "append_args \<Rightarrow> bytes" where
  "args_canonical a =
     canonical_bytes (ap_record_type a) (ap_source_api a) (ap_external_id a) (ap_subject_user_id a)
       (ap_occurred_at a) (ap_content_ref a) (ap_content_hash a)
       (case ap_record_metadata a of None \<Rightarrow> JObj [] | Some m \<Rightarrow> m)"

text \<open>A record whose timestamp prints differently once the database has returned it in the session's
  time zone breaks the chain: the append succeeds, and the verifier then rejects the chain, because the
  hash was taken over the caller's text. Appends are therefore safe only with timestamps in that zone.\<close>

lemma other_zone_breaks_chain:
  assumes "package_contract env" "append_telemetry_record env tid a [] = Inr (db, x)"
    and "isoformat (timestamptz env (ap_occurred_at a)) \<noteq> isoformat (ap_occurred_at a)"
    and "wf_json (case ap_record_metadata a of None \<Rightarrow> JObj [] | Some m \<Rightarrow> m)" "wf_json (tr_record_metadata x)"
    and "no_collision env tid {(args_canonical a, GENESIS_HASH), (row_canonical x, GENESIS_HASH)}"
  shows "\<exists>v. verify_telemetry_chain env tid db = Inr v \<and> \<not> vr_valid v"
proof -
  obtain r where r: "build_record env tid a None = Inr r" "x = store_row env r" "db = [x]"
    using assms(2) by (auto simp: append_Inr rows_of_def chain_tip_def)
  note f = build_record_fields [OF r(1)]
  have h: "fromhex (compute_record_hash env tid (args_canonical a) GENESIS_HASH) = Some (tr_chain_self_hash r)"
    and oc: "tr_occurred_at r = ap_occurred_at a"
    using r(1) by (auto simp: build_record_def Let_def args_canonical_def split: if_splits option.splits)
  have "row_canonical x \<noteq> args_canonical a"
  proof
    assume "row_canonical x = args_canonical a"
    then have "isoformat (tr_occurred_at x) = isoformat (ap_occurred_at a)"
      unfolding row_canonical_def args_canonical_def
      by (subst (asm) canonical_bytes_eq_iff [OF assms(5,4)]) simp
    with assms(3) show False by (simp add: r(2) store_row_def oc)
  qed
  then have ne: "compute_record_hash env tid (row_canonical x) GENESIS_HASH
      \<noteq> compute_record_hash env tid (args_canonical a) GENESIS_HASH"
    using inj_onD [OF assms(6) [unfolded no_collision_def],
        of "(row_canonical x, GENESIS_HASH)" "(args_canonical a, GENESIS_HASH)"] by auto
  obtain b where "compute_record_hash env tid (args_canonical a) GENESIS_HASH = hex b"
    using assms(1) unfolding package_contract_def by blast
  with h ne have "compute_record_hash env tid (row_canonical x) GENESIS_HASH \<noteq> hex (tr_chain_self_hash r)"
    by simp
  then have "\<not> chain_walk env tid GENESIS_HASH [row_to_chain_record x]" by (simp add: r(2))
  moreover have "rows_of tid db = [x]" using f(1) by (simp add: r(2,3) rows_of_def)
  ultimately show ?thesis
    using assms(1) f(4) by (simp add: verify_telemetry_chain_def package_contract_def)
qed

lemma other_zone_breaks_chain_witness:
  "\<exists>db x v. append_telemetry_record sample_env ''t1''
       (sample_args ''a''\<lparr>ap_occurred_at := sample_time\<lparr>dt_off := Some 60\<rparr>\<rparr>) [] = Inr (db, x)
     \<and> verify_telemetry_chain sample_env ''t1'' db = Inr v \<and> \<not> vr_valid v"
proof -
  let ?a = "sample_args ''a''\<lparr>ap_occurred_at := sample_time\<lparr>dt_off := Some 60\<rparr>\<rparr>"
  have len: "length (ap_content_hash ?a) = 32" and md: "ap_record_metadata ?a = None"
    by (simp_all add: sample_args_def)
  obtain r where r: "build_record sample_env ''t1'' ?a (chain_tip (rows_of ''t1'' [])) = Inr r"
    using build_record_ok [OF sample_contract _ len] by blast
  then have app: "append_telemetry_record sample_env ''t1'' ?a [] =
      Inr ([store_row sample_env r], store_row sample_env r)"
    using build_record_fits [OF r] by (simp add: append_Inr sample_args_def args_fit_def opt_fits_def)
  have "tr_record_metadata r = JObj []"
    using r md by (auto simp: build_record_def Let_def split: if_splits option.splits)
  then have wf: "wf_json (tr_record_metadata (store_row sample_env r))" by (simp add: store_row_def)
  have tz: "isoformat (timestamptz sample_env (ap_occurred_at ?a)) \<noteq> isoformat (ap_occurred_at ?a)"
    by code_simp
  show ?thesis
    using other_zone_breaks_chain [OF sample_contract app tz _ wf sample_no_collision] app md by auto
qed

end
