(* ===== verification/Crypto.thy ===== *)
theory Crypto
  imports Prelude
begin

text \<open>
  \<^verbatim>\<open>crypto/\<close>: per-tenant data keys wrapped by a key in the HSM, integrity tags over everything
  stored, and the sealing of secrets. The state is the two tables \<^verbatim>\<open>tenant_deks\<close> and
  \<^verbatim>\<open>encrypted_secrets\<close>. The HSM's AES-CBC, HKDF, HMAC and AES-GCM are arguments (\<open>crypto_env\<close>);
  random draws are arguments of the operations that make them. An operation that raises leaves the
  state as it was, because its session rolls back.
\<close>

section \<open>Primitives\<close>

record crypto_env =
  kek_encrypt :: "bytes \<Rightarrow> bytes \<Rightarrow> bytes"
  kek_decrypt :: "bytes \<Rightarrow> bytes \<Rightarrow> bytes option"
  hkdf :: "bytes \<Rightarrow> bytes \<Rightarrow> bytes \<Rightarrow> bytes"
  hmac :: "bytes \<Rightarrow> bytes \<Rightarrow> bytes"
  gcm_encrypt :: "bytes \<Rightarrow> bytes \<Rightarrow> bytes \<Rightarrow> bytes \<Rightarrow> bytes"
  gcm_decrypt :: "bytes \<Rightarrow> bytes \<Rightarrow> bytes \<Rightarrow> bytes \<Rightarrow> bytes option"
  kek_label :: string

datatype crypto_error = ValueError | LookupError | IntegrityError | InvalidTag | PKCS11Error | DataError

text \<open>
  What the ciphers document: decryption inverts encryption, a 32-byte key wraps to 48 bytes, and an
  AES-GCM ciphertext is accepted only when it is the encryption of what it decrypts to.
\<close>

definition cipher_laws :: "crypto_env \<Rightarrow> bool" where
  "cipher_laws env \<longleftrightarrow>
     (\<forall>iv p. kek_decrypt env iv (kek_encrypt env iv p) = Some p)
     \<and> (\<forall>iv p. length p = 32 \<longrightarrow> length (kek_encrypt env iv p) = 48)
     \<and> (\<forall>k iv p aad. gcm_decrypt env k iv (gcm_encrypt env k iv p aad) aad = Some p)
     \<and> (\<forall>k iv c p aad. gcm_decrypt env k iv c aad = Some p \<longrightarrow> c = gcm_encrypt env k iv p aad)"

section \<open>Integrity tags\<close>

definition HMAC_KEY_DERIVATION_LABEL :: bytes where
  "HMAC_KEY_DERIVATION_LABEL = ''vargate.telemetry/hmac-key-derivation/v1''"

definition HMAC_KEY_DERIVATION_IV :: bytes where
  "HMAC_KEY_DERIVATION_IV = replicate 16 (char_of (0 :: nat))"

definition get_hmac_key :: "crypto_env \<Rightarrow> bytes" where
  "get_hmac_key env =
     hkdf env ''vargate.telemetry/hmac-key-salt/v1'' ''vargate.telemetry/hmac-key/v1''
       (kek_encrypt env HMAC_KEY_DERIVATION_IV HMAC_KEY_DERIVATION_LABEL)"

definition tag_message :: "string \<Rightarrow> bytes \<Rightarrow> bytes" where
  "tag_message tenant_id ciphertext = utf8_encode tenant_id @ '':'' @ ciphertext"

definition compute_integrity_tag :: "crypto_env \<Rightarrow> string \<Rightarrow> bytes \<Rightarrow> crypto_error + bytes" where
  "compute_integrity_tag env tenant_id ciphertext =
     (if tenant_id = [] then Inl ValueError
      else Inr (hmac env (get_hmac_key env) (tag_message tenant_id ciphertext)))"

definition verify_integrity_tag ::
  "crypto_env \<Rightarrow> string \<Rightarrow> bytes \<Rightarrow> bytes \<Rightarrow> crypto_error + unit"
where
  "verify_integrity_tag env tenant_id ciphertext tag =
     bindE (compute_integrity_tag env tenant_id ciphertext)
       (\<lambda>expected. if expected \<noteq> tag then Inl IntegrityError else Inr ())"

section \<open>Data keys\<close>

definition wrap_dek :: "crypto_env \<Rightarrow> bytes \<Rightarrow> bytes \<Rightarrow> crypto_error + bytes" where
  "wrap_dek env iv dek_bytes =
     (if length dek_bytes \<noteq> 32 then Inl ValueError else Inr (iv @ kek_encrypt env iv dek_bytes))"

definition unwrap_dek :: "crypto_env \<Rightarrow> bytes \<Rightarrow> crypto_error + bytes" where
  "unwrap_dek env wrapped =
     (if length wrapped < 16 + 16 then Inl ValueError
      else case kek_decrypt env (take 16 wrapped) (drop 16 wrapped) of
             None \<Rightarrow> Inl PKCS11Error | Some dek \<Rightarrow> Inr dek)"

text \<open>\<^verbatim>\<open>AESGCM(dek)\<close> refuses a key that is not 16, 24 or 32 bytes; a nonce has 8 to 128 bytes.\<close>

definition aes_key :: "bytes \<Rightarrow> bool" where
  "aes_key k \<longleftrightarrow> length k = 16 \<or> length k = 24 \<or> length k = 32"

definition gcm_nonce :: "bytes \<Rightarrow> bool" where
  "gcm_nonce iv \<longleftrightarrow> 8 \<le> length iv \<and> length iv \<le> 128"

definition encrypt_with_dek ::
  "crypto_env \<Rightarrow> bytes \<Rightarrow> bytes \<Rightarrow> bytes \<Rightarrow> bytes \<Rightarrow> crypto_error + (bytes \<times> bytes)"
where
  "encrypt_with_dek env iv dek plaintext aad =
     (if \<not> aes_key dek \<or> \<not> gcm_nonce iv then Inl ValueError
      else Inr (iv, gcm_encrypt env dek iv plaintext aad))"

definition decrypt_with_dek ::
  "crypto_env \<Rightarrow> bytes \<Rightarrow> bytes \<Rightarrow> bytes \<Rightarrow> bytes \<Rightarrow> crypto_error + bytes"
where
  "decrypt_with_dek env dek iv ciphertext aad =
     (if \<not> aes_key dek \<or> \<not> gcm_nonce iv then Inl ValueError
      else case gcm_decrypt env dek iv ciphertext aad of None \<Rightarrow> Inl InvalidTag | Some p \<Rightarrow> Inr p)"

section \<open>The vault\<close>

record tenant_dek =
  td_wrapped_dek :: bytes
  td_kek_label :: string
  td_integrity_tag :: bytes

record encrypted_secret =
  es_iv :: bytes
  es_ciphertext :: bytes
  es_integrity_tag :: bytes

record vault =
  tenant_deks :: "string \<Rightarrow> tenant_dek option"
  encrypted_secrets :: "string \<times> string \<Rightarrow> encrypted_secret option"

definition aad_for_secret :: "string \<Rightarrow> string \<Rightarrow> bytes" where
  "aad_for_secret tenant_id secret_name =
     utf8_encode (''vargate.telemetry/secret/'' @ tenant_id @ ''/'' @ secret_name)"

definition provision_tenant_dek ::
  "crypto_env \<Rightarrow> bytes \<Rightarrow> bytes \<Rightarrow> string \<Rightarrow> vault \<Rightarrow> crypto_error + vault"
where
  "provision_tenant_dek env dek wrap_iv tenant_id v =
     (if tenant_id = [] then Inl ValueError
      else case tenant_deks v tenant_id of
        Some _ \<Rightarrow> Inr v
      | None \<Rightarrow>
          bindE (wrap_dek env wrap_iv dek) (\<lambda>wrapped.
          bindE (compute_integrity_tag env tenant_id wrapped) (\<lambda>tag.
            if 64 < length tenant_id \<or> 128 < length (kek_label env) then Inl DataError
            else Inr (v\<lparr>tenant_deks := (tenant_deks v)(tenant_id \<mapsto>
              \<lparr>td_wrapped_dek = wrapped, td_kek_label = kek_label env, td_integrity_tag = tag\<rparr>)\<rparr>))))"

definition get_tenant_dek :: "crypto_env \<Rightarrow> string \<Rightarrow> vault \<Rightarrow> crypto_error + bytes" where
  "get_tenant_dek env tenant_id v =
     (if tenant_id = [] then Inl ValueError
      else case tenant_deks v tenant_id of
        None \<Rightarrow> Inl LookupError
      | Some td \<Rightarrow>
          bindE (verify_integrity_tag env tenant_id (td_wrapped_dek td) (td_integrity_tag td))
            (\<lambda>_. unwrap_dek env (td_wrapped_dek td)))"

definition destroy_tenant_dek :: "string \<Rightarrow> vault \<Rightarrow> crypto_error + (vault \<times> bool)" where
  "destroy_tenant_dek tenant_id v =
     (if tenant_id = [] then Inl ValueError
      else case tenant_deks v tenant_id of
        None \<Rightarrow> Inr (v, False)
      | Some _ \<Rightarrow> Inr (v\<lparr>tenant_deks := (tenant_deks v)(tenant_id := None)\<rparr>, True))"

definition seal_secret ::
  "crypto_env \<Rightarrow> bytes \<Rightarrow> string \<Rightarrow> string \<Rightarrow> bytes \<Rightarrow> vault \<Rightarrow> crypto_error + vault"
where
  "seal_secret env rnd_iv tenant_id name plaintext v =
     (if tenant_id = [] then Inl ValueError
      else if name = [] then Inl ValueError
      else case tenant_deks v tenant_id of
        None \<Rightarrow> Inl LookupError
      | Some td \<Rightarrow>
          bindE (verify_integrity_tag env tenant_id (td_wrapped_dek td) (td_integrity_tag td)) (\<lambda>_.
          bindE (unwrap_dek env (td_wrapped_dek td)) (\<lambda>dek.
          bindE (encrypt_with_dek env rnd_iv dek plaintext (aad_for_secret tenant_id name)) (\<lambda>(iv, ciphertext).
          bindE (compute_integrity_tag env tenant_id ciphertext) (\<lambda>tag.
            if encrypted_secrets v (tenant_id, name) = None \<and> (64 < length tenant_id \<or> 128 < length name)
            then Inl DataError
            else Inr (v\<lparr>encrypted_secrets := (encrypted_secrets v)((tenant_id, name) \<mapsto>
              \<lparr>es_iv = iv, es_ciphertext = ciphertext, es_integrity_tag = tag\<rparr>)\<rparr>))))))"

definition unseal_secret :: "crypto_env \<Rightarrow> string \<Rightarrow> string \<Rightarrow> vault \<Rightarrow> crypto_error + bytes" where
  "unseal_secret env tenant_id name v =
     (if tenant_id = [] then Inl ValueError
      else if name = [] then Inl ValueError
      else case tenant_deks v tenant_id of
        None \<Rightarrow> Inl LookupError
      | Some td \<Rightarrow>
          bindE (verify_integrity_tag env tenant_id (td_wrapped_dek td) (td_integrity_tag td)) (\<lambda>_.
          bindE (unwrap_dek env (td_wrapped_dek td)) (\<lambda>dek.
            case encrypted_secrets v (tenant_id, name) of
              None \<Rightarrow> Inl LookupError
            | Some record \<Rightarrow>
                bindE (verify_integrity_tag env tenant_id (es_ciphertext record) (es_integrity_tag record))
                  (\<lambda>_. decrypt_with_dek env dek (es_iv record) (es_ciphertext record)
                         (aad_for_secret tenant_id name)))))"

section \<open>Lemmas\<close>

lemma verify_integrity_tag_simps [guard_simps]:
  "verify_integrity_tag env t c tag = Inr u \<longleftrightarrow> t \<noteq> [] \<and> hmac env (get_hmac_key env) (tag_message t c) = tag"
  "t \<noteq> [] \<Longrightarrow> hmac env (get_hmac_key env) (tag_message t c) \<noteq> tag \<Longrightarrow>
     verify_integrity_tag env t c tag = Inl IntegrityError"
  by (auto simp: verify_integrity_tag_def compute_integrity_tag_def)

lemma compute_integrity_tag_Inr [guard_simps]:
  "compute_integrity_tag env t c = Inr tag \<longleftrightarrow> t \<noteq> [] \<and> tag = hmac env (get_hmac_key env) (tag_message t c)"
  by (auto simp: compute_integrity_tag_def)

lemma tag_message_tenant [simp]: "tag_message t c = tag_message t' c \<longleftrightarrow> t = t'"
  by (simp add: tag_message_def)

lemma unwrap_wrap:
  assumes "cipher_laws env" "wrap_dek env iv dek = Inr w" "length iv = 16"
  shows "unwrap_dek env w = Inr dek" "length dek = 32"
proof -
  have w: "w = iv @ kek_encrypt env iv dek" and l: "length dek = 32"
    using assms(2) by (auto simp: wrap_dek_def split: if_splits)
  have "length (kek_encrypt env iv dek) = 48" "kek_decrypt env iv (kek_encrypt env iv dek) = Some dek"
    using assms(1) l by (simp_all add: cipher_laws_def)
  then show "unwrap_dek env w = Inr dek" using assms(3) by (simp add: w unwrap_dek_def)
  show "length dek = 32" by (rule l)
qed

lemma decrypt_encrypt:
  "cipher_laws env \<Longrightarrow> encrypt_with_dek env iv dek p aad = Inr (iv', c) \<Longrightarrow>
     decrypt_with_dek env dek iv' c aad = Inr p"
  by (auto simp: encrypt_with_dek_def decrypt_with_dek_def cipher_laws_def split: if_splits)

lemma decrypt_Inr:
  "cipher_laws env \<Longrightarrow> decrypt_with_dek env dek iv c aad = Inr p \<Longrightarrow> c = gcm_encrypt env dek iv p aad"
  by (auto simp: decrypt_with_dek_def cipher_laws_def split: if_splits option.splits)

lemma seal_secret_Inr:
  "seal_secret env riv t n p v = Inr v' \<Longrightarrow>
     \<exists>td dek c. t \<noteq> [] \<and> n \<noteq> [] \<and> tenant_deks v t = Some td
       \<and> verify_integrity_tag env t (td_wrapped_dek td) (td_integrity_tag td) = Inr ()
       \<and> unwrap_dek env (td_wrapped_dek td) = Inr dek
       \<and> encrypt_with_dek env riv dek p (aad_for_secret t n) = Inr (riv, c)
       \<and> v' = v\<lparr>encrypted_secrets := (encrypted_secrets v)((t, n) \<mapsto>
           \<lparr>es_iv = riv, es_ciphertext = c,
            es_integrity_tag = hmac env (get_hmac_key env) (tag_message t c)\<rparr>)\<rparr>"
  by (auto simp: seal_secret_def compute_integrity_tag_def encrypt_with_dek_def
      split: if_splits option.splits)

text \<open>
  The invariant of the key table: every row carries its tag and unwraps to a 32-byte key.
\<close>

definition vault_ok :: "crypto_env \<Rightarrow> vault \<Rightarrow> bool" where
  "vault_ok env v \<longleftrightarrow>
     (\<forall>t td. tenant_deks v t = Some td \<longrightarrow>
        t \<noteq> [] \<and> td_integrity_tag td = hmac env (get_hmac_key env) (tag_message t (td_wrapped_dek td))
        \<and> (\<exists>dek. length dek = 32 \<and> unwrap_dek env (td_wrapped_dek td) = Inr dek))"

lemma vault_okD:
  assumes "vault_ok env v" "tenant_deks v t = Some td"
  shows "t \<noteq> []" "verify_integrity_tag env t (td_wrapped_dek td) (td_integrity_tag td) = Inr ()"
    "\<exists>dek. length dek = 32 \<and> unwrap_dek env (td_wrapped_dek td) = Inr dek"
proof -
  have "t \<noteq> [] \<and> td_integrity_tag td = hmac env (get_hmac_key env) (tag_message t (td_wrapped_dek td))
      \<and> (\<exists>dek. length dek = 32 \<and> unwrap_dek env (td_wrapped_dek td) = Inr dek)"
    using assms unfolding vault_ok_def by blast
  then show "t \<noteq> []" "verify_integrity_tag env t (td_wrapped_dek td) (td_integrity_tag td) = Inr ()"
    "\<exists>dek. length dek = 32 \<and> unwrap_dek env (td_wrapped_dek td) = Inr dek"
    by (simp_all add: guard_simps)
qed

lemma provision_Inr:
  "provision_tenant_dek env dek wiv t v = Inr v' \<Longrightarrow>
     v' = v \<and> tenant_deks v t \<noteq> None \<or>
     (\<exists>w. t \<noteq> [] \<and> tenant_deks v t = None \<and> wrap_dek env wiv dek = Inr w
        \<and> v' = v\<lparr>tenant_deks := (tenant_deks v)(t \<mapsto> \<lparr>td_wrapped_dek = w, td_kek_label = kek_label env,
             td_integrity_tag = hmac env (get_hmac_key env) (tag_message t w)\<rparr>)\<rparr>)"
  by (auto simp: provision_tenant_dek_def compute_integrity_tag_def split: if_splits option.splits)

lemma vault_ok_provision:
  assumes "cipher_laws env" "vault_ok env v" "length wiv = 16"
    and "provision_tenant_dek env dek wiv t v = Inr v'"
  shows "vault_ok env v'"
  using provision_Inr [OF assms(4)]
proof
  assume "\<exists>w. t \<noteq> [] \<and> tenant_deks v t = None \<and> wrap_dek env wiv dek = Inr w
        \<and> v' = v\<lparr>tenant_deks := (tenant_deks v)(t \<mapsto> \<lparr>td_wrapped_dek = w, td_kek_label = kek_label env,
             td_integrity_tag = hmac env (get_hmac_key env) (tag_message t w)\<rparr>)\<rparr>"
  then obtain w where w: "t \<noteq> []" "wrap_dek env wiv dek = Inr w"
    "v' = v\<lparr>tenant_deks := (tenant_deks v)(t \<mapsto> \<lparr>td_wrapped_dek = w, td_kek_label = kek_label env,
             td_integrity_tag = hmac env (get_hmac_key env) (tag_message t w)\<rparr>)\<rparr>"
    by blast
  with unwrap_wrap [OF assms(1) w(2) assms(3)] assms(2) show ?thesis by (simp add: vault_ok_def)
qed (use assms(2) in blast)

lemma vault_ok_mono:
  "(\<And>t td. tenant_deks v' t = Some td \<Longrightarrow> tenant_deks v t = Some td) \<Longrightarrow> vault_ok env v \<Longrightarrow> vault_ok env v'"
  unfolding vault_ok_def by blast

lemma vault_ok_seal: "vault_ok env v \<Longrightarrow> seal_secret env riv t n p v = Inr v' \<Longrightarrow> vault_ok env v'"
  by (rule vault_ok_mono [of v' v]) (auto dest!: seal_secret_Inr)

lemma vault_ok_destroy: "vault_ok env v \<Longrightarrow> destroy_tenant_dek t v = Inr (v', b) \<Longrightarrow> vault_ok env v'"
  by (rule vault_ok_mono [of v' v]) (auto simp: destroy_tenant_dek_def split: if_splits option.splits)

lemma get_tenant_dek_ok:
  "vault_ok env v \<Longrightarrow> tenant_deks v t = Some td \<Longrightarrow> \<exists>dek. get_tenant_dek env t v = Inr dek \<and> length dek = 32"
  using vault_okD [of env v t td] by (auto simp: get_tenant_dek_def)

text \<open>What an unseal depends on: its tenant's key row and its own secret row.\<close>

lemma unseal_secret_cong:
  assumes "tenant_deks v t = tenant_deks v' t" "encrypted_secrets v (t, n) = encrypted_secrets v' (t, n)"
  shows "unseal_secret env t n v = unseal_secret env t n v'"
  unfolding unseal_secret_def assms by (rule refl)

lemma unseal_after_seal:
  assumes "cipher_laws env" "seal_secret env riv t n p v = Inr v'"
  shows "unseal_secret env t n v' = Inr p"
proof -
  from seal_secret_Inr [OF assms(2)] obtain td dek c where
    s: "t \<noteq> []" "n \<noteq> []" "tenant_deks v t = Some td"
      "verify_integrity_tag env t (td_wrapped_dek td) (td_integrity_tag td) = Inr ()"
      "unwrap_dek env (td_wrapped_dek td) = Inr dek"
      "encrypt_with_dek env riv dek p (aad_for_secret t n) = Inr (riv, c)"
      "v' = v\<lparr>encrypted_secrets := (encrypted_secrets v)((t, n) \<mapsto>
           \<lparr>es_iv = riv, es_ciphertext = c,
            es_integrity_tag = hmac env (get_hmac_key env) (tag_message t c)\<rparr>)\<rparr>"
    by blast
  have "verify_integrity_tag env t c (hmac env (get_hmac_key env) (tag_message t c)) = Inr ()"
    using s(1) by (simp add: guard_simps)
  with s decrypt_encrypt [OF assms(1) s(6)] show ?thesis by (simp add: unseal_secret_def)
qed

section \<open>A sample environment\<close>

text \<open>For the witnesses: ciphers that write key, nonce and context in front of the text.\<close>

definition sample_gcm :: "bytes \<Rightarrow> bytes \<Rightarrow> bytes \<Rightarrow> bytes \<Rightarrow> bytes" where
  "sample_gcm k iv p aad = k @ iv @ aad @ p"

definition sample_crypto :: crypto_env where
  "sample_crypto =
     \<lparr>kek_encrypt = \<lambda>iv p. p @ replicate 16 CHR ''-'',
      kek_decrypt = \<lambda>iv c. Some (take (length c - 16) c),
      hkdf = \<lambda>salt info m. m, hmac = \<lambda>k m. m, gcm_encrypt = sample_gcm,
      gcm_decrypt = \<lambda>k iv c aad.
        if startswith c (k @ iv @ aad) then Some (drop (length (k @ iv @ aad)) c) else None,
      kek_label = ''kek''\<rparr>"

lemma sample_cipher_laws [simp]: "cipher_laws sample_crypto"
proof -
  have "startswith (sample_gcm k iv p aad) (k @ iv @ aad)" for k iv p aad
    by (simp add: sample_gcm_def startswith_iff)
  moreover have "c = k @ iv @ aad @ drop (length (k @ iv @ aad)) c" if "startswith c (k @ iv @ aad)" for k iv aad c
    using startswithD [OF that] by simp
  ultimately show ?thesis by (auto simp: cipher_laws_def sample_crypto_def sample_gcm_def)
qed

definition empty_vault :: vault where
  "empty_vault = \<lparr>tenant_deks = Map.empty, encrypted_secrets = Map.empty\<rparr>"

definition sample_vault :: vault where
  "sample_vault =
     (case provision_tenant_dek sample_crypto (replicate 32 CHR ''a'') (replicate 16 CHR ''i'') ''t1'' empty_vault of
        Inr v \<Rightarrow> (case provision_tenant_dek sample_crypto (replicate 32 CHR ''b'') (replicate 16 CHR ''i'') ''t2'' v of
          Inr v' \<Rightarrow> v' | Inl _ \<Rightarrow> empty_vault)
      | Inl _ \<Rightarrow> empty_vault)"

lemma sample_vault_deks:
  "tenant_deks sample_vault ''t1'' \<noteq> None" "tenant_deks sample_vault ''t2'' \<noteq> None"
  by (simp_all add: sample_vault_def provision_tenant_dek_def empty_vault_def wrap_dek_def
      compute_integrity_tag_def sample_crypto_def)

lemma vault_ok_sample [simp]: "vault_ok sample_crypto sample_vault"
proof -
  have "vault_ok sample_crypto empty_vault" by (simp add: vault_ok_def empty_vault_def)
  moreover have "vault_ok sample_crypto v'"
    if "provision_tenant_dek sample_crypto dek (replicate 16 CHR ''i'') t v = Inr v'" "vault_ok sample_crypto v" for dek t v v'
    using vault_ok_provision [OF sample_cipher_laws that(2) _ that(1)] by simp
  ultimately show ?thesis by (simp add: sample_vault_def split: sum.split)
qed

lemma sample_seal:
  assumes "n \<noteq> []" "length n \<le> 128"
  shows "\<exists>v. seal_secret sample_crypto (replicate 12 CHR ''n'') ''t1'' n ''hunter2'' sample_vault = Inr v"
proof -
  obtain td where td: "tenant_deks sample_vault ''t1'' = Some td" using sample_vault_deks by blast
  obtain dek where "length dek = 32" "unwrap_dek sample_crypto (td_wrapped_dek td) = Inr dek"
    using vault_okD(3) [OF vault_ok_sample td] by blast
  with vault_okD(2) [OF vault_ok_sample td] assms show ?thesis
    by (simp add: seal_secret_def td encrypt_with_dek_def aes_key_def gcm_nonce_def compute_integrity_tag_def)
qed

section \<open>Properties\<close>

text \<open>C5: A sealed secret unseals to the plaintext that was sealed, and sealing touches no other
  secret: every other (tenant, name) pair unseals to what it did before. Any number of rotations of a
  secret leaves only the last value.\<close>

theorem seal_unseal:
  assumes "cipher_laws env" "seal_secret env riv t n p v = Inr v'"
  shows "unseal_secret env t n v' = Inr p
    \<and> (\<forall>t' n'. (t', n') \<noteq> (t, n) \<longrightarrow> unseal_secret env t' n' v' = unseal_secret env t' n' v)"
  using unseal_after_seal [OF assms] seal_secret_Inr [OF assms(2)] by (auto intro: unseal_secret_cong)

lemma seal_unseal_witness:
  "\<exists>v. seal_secret sample_crypto (replicate 12 CHR ''n'') ''t1'' ''admin-key'' ''hunter2'' sample_vault = Inr v
     \<and> unseal_secret sample_crypto ''t1'' ''admin-key'' v = Inr ''hunter2''"
  using sample_seal [of "''admin-key''"] seal_unseal [OF sample_cipher_laws] by fastforce

text \<open>C6: A stolen row does not open elsewhere. If the row of a sealed secret is copied into another
  tenant's secrets, under any name, unsealing it there raises \<^verbatim>\<open>IntegrityError\<close> before anything is
  decrypted, as long as HMAC does not collide on the two tagged messages.\<close>

theorem stolen_secret_is_refused:
  assumes "vault_ok env v" "seal_secret env riv t n p v = Inr v1" "tenant_deks v t' \<noteq> None"
    and "t' \<noteq> t" "n' \<noteq> []" "encrypted_secrets v1 (t, n) = Some row"
    and "inj_on (hmac env (get_hmac_key env))
          {tag_message t (es_ciphertext row), tag_message t' (es_ciphertext row)}"
  shows "unseal_secret env t' n'
      (v1\<lparr>encrypted_secrets := (encrypted_secrets v1)((t', n') \<mapsto> row)\<rparr>) = Inl IntegrityError"
proof -
  have row: "es_integrity_tag row = hmac env (get_hmac_key env) (tag_message t (es_ciphertext row))"
    and deks: "tenant_deks v1 = tenant_deks v"
    using seal_secret_Inr [OF assms(2)] assms(6) by auto
  obtain td where td: "tenant_deks v t' = Some td" using assms(3) by blast
  note ok = vault_okD [OF assms(1) td]
  have "hmac env (get_hmac_key env) (tag_message t' (es_ciphertext row)) \<noteq> es_integrity_tag row"
    unfolding row
    using inj_on_eq_iff [OF assms(7), of "tag_message t' (es_ciphertext row)" "tag_message t (es_ciphertext row)"] assms(4)
    by simp
  with ok assms(5) show ?thesis
    by (auto simp: unseal_secret_def deks td verify_integrity_tag_simps(2))
qed

lemma stolen_secret_is_refused_witness:
  "\<exists>v row. seal_secret sample_crypto (replicate 12 CHR ''n'') ''t1'' ''admin-key'' ''hunter2'' sample_vault = Inr v
     \<and> encrypted_secrets v (''t1'', ''admin-key'') = Some row
     \<and> unseal_secret sample_crypto ''t2'' ''admin-key''
          (v\<lparr>encrypted_secrets := (encrypted_secrets v)((''t2'', ''admin-key'') \<mapsto> row)\<rparr>) = Inl IntegrityError"
proof -
  obtain v where v: "seal_secret sample_crypto (replicate 12 CHR ''n'') ''t1'' ''admin-key'' ''hunter2'' sample_vault = Inr v"
    using sample_seal [of "''admin-key''"] by auto
  obtain row where row: "encrypted_secrets v (''t1'', ''admin-key'') = Some row"
    using seal_secret_Inr [OF v] by fastforce
  have "inj_on (hmac sample_crypto (get_hmac_key sample_crypto)) X" for X
    by (simp add: sample_crypto_def inj_on_def)
  from stolen_secret_is_refused [OF vault_ok_sample v sample_vault_deks(2) _ _ row this, of "''admin-key''"]
  show ?thesis using v row by auto
qed

text \<open>Crypto-shredding is terminal for everything sealed so far. After \<^verbatim>\<open>destroy_tenant_dek\<close> the
  tenant has no key, so reading the key, unsealing and sealing all raise \<^verbatim>\<open>LookupError\<close>; a second
  shred is a no-op that reports False; no other tenant notices. If the tenant is provisioned again
  under a new key, an old secret unseals only if its ciphertext also happens to be one of the new
  key's encryptions.\<close>

lemma crypto_shred:
  assumes "cipher_laws env" "destroy_tenant_dek t v = Inr (v1, b)" "n \<noteq> []"
  shows "get_tenant_dek env t v1 = Inl LookupError
    \<and> unseal_secret env t n v1 = Inl LookupError
    \<and> seal_secret env riv t n p v1 = Inl LookupError
    \<and> destroy_tenant_dek t v1 = Inr (v1, False)
    \<and> (\<forall>t' n'. t' \<noteq> t \<longrightarrow> unseal_secret env t' n' v1 = unseal_secret env t' n' v)
    \<and> (provision_tenant_dek env dek wiv t v1 = Inr v2 \<and> length wiv = 16
        \<and> encrypted_secrets v (t, n) = Some row \<and> unseal_secret env t n v2 = Inr q
         \<longrightarrow> es_ciphertext row = gcm_encrypt env dek (es_iv row) q (aad_for_secret t n))"
proof (intro conjI impI allI)
  have t: "t \<noteq> []" "tenant_deks v1 t = None" "encrypted_secrets v1 = encrypted_secrets v"
    "\<And>t'. t' \<noteq> t \<Longrightarrow> tenant_deks v1 t' = tenant_deks v t'"
    using assms(2) by (auto simp: destroy_tenant_dek_def split: if_splits option.splits)
  then show "get_tenant_dek env t v1 = Inl LookupError" "unseal_secret env t n v1 = Inl LookupError"
    "seal_secret env riv t n p v1 = Inl LookupError" "destroy_tenant_dek t v1 = Inr (v1, False)"
    using assms(3) by (simp_all add: get_tenant_dek_def unseal_secret_def seal_secret_def destroy_tenant_dek_def)
  show "unseal_secret env t' n' v1 = unseal_secret env t' n' v" if "t' \<noteq> t" for t' n'
    using that t(3,4) by (intro unseal_secret_cong) auto
  assume again: "provision_tenant_dek env dek wiv t v1 = Inr v2 \<and> length wiv = 16
        \<and> encrypted_secrets v (t, n) = Some row \<and> unseal_secret env t n v2 = Inr q"
  then obtain w where w: "wrap_dek env wiv dek = Inr w" "tenant_deks v2 t = Some \<lparr>td_wrapped_dek = w,
      td_kek_label = kek_label env, td_integrity_tag = hmac env (get_hmac_key env) (tag_message t w)\<rparr>"
    "encrypted_secrets v2 = encrypted_secrets v"
    using provision_Inr [of env dek wiv t v1 v2] t(2,3) by auto
  then have "decrypt_with_dek env dek (es_iv row) (es_ciphertext row) (aad_for_secret t n) = Inr q"
    using again unwrap_wrap(1) [OF assms(1) w(1)] assms(3) t(1)
    by (auto simp: unseal_secret_def split: if_splits)
  then show "es_ciphertext row = gcm_encrypt env dek (es_iv row) q (aad_for_secret t n)"
    by (rule decrypt_Inr [OF assms(1)])
qed

lemma crypto_shred_witness:
  "\<exists>v. destroy_tenant_dek ''t1'' sample_vault = Inr (v, True)
     \<and> unseal_secret sample_crypto ''t1'' ''admin-key'' v = Inl LookupError"
proof -
  obtain v where v: "destroy_tenant_dek ''t1'' sample_vault = Inr (v, True)"
    using sample_vault_deks(1) by (auto simp: destroy_tenant_dek_def)
  show ?thesis using crypto_shred [OF sample_cipher_laws v, of "''admin-key''"] v by auto
qed

end
