(* ===== verification/ObjectStore.thy ===== *)
theory ObjectStore
  imports Prelude
begin

text \<open>
  \<^verbatim>\<open>storage/object_store.py\<close>: the tenant-scoped wrapper over an S3 bucket. The bucket is a map from
  full keys to bytes. The network and the service are a schedule: what happens to each attempt the
  wrapper makes. Every operation returns the bucket along with its result, because an attempt that is
  lost on the way back may already have taken effect.
\<close>

section \<open>Errors, schedules, retry\<close>

datatype storage_error = ValueError | NotFound | StorageError | BotoCoreError

text \<open>
  \<open>Lost applied\<close> is a connection error or time-out (\<^verbatim>\<open>EndpointConnectionError\<close>, \<^verbatim>\<open>BotoCoreError\<close>);
  \<open>Refused code status\<close> is a \<^verbatim>\<open>ClientError\<close>, any HTTP answer that is not a success.
\<close>

datatype outcome = Served | Lost bool | Refused string int

type_synonym schedule = "nat \<Rightarrow> outcome"
type_synonym bucket = "string \<Rightarrow> bytes option"

text \<open>\<^verbatim>\<open>_retry\<close>: up to \<open>n\<close> attempts, another one only after a transport error, the last error re-raised.\<close>

primrec with_retry ::
  "nat \<Rightarrow> (outcome \<Rightarrow> 's \<Rightarrow> 's \<times> (storage_error + 'a)) \<Rightarrow> schedule \<Rightarrow> 's \<Rightarrow> 's \<times> (storage_error + 'a)"
where
  "with_retry 0 f sched s = (s, Inl BotoCoreError)"
| "with_retry (Suc n) f sched s =
     (case f (sched 0) s of
        (s', Inl BotoCoreError) \<Rightarrow> with_retry n f (\<lambda>i. sched (Suc i)) s'
      | r \<Rightarrow> r)"

definition retry3 ::
  "(outcome \<Rightarrow> 's \<Rightarrow> 's \<times> (storage_error + 'a)) \<Rightarrow> schedule \<Rightarrow> 's \<Rightarrow> 's \<times> (storage_error + 'a)"
where
  "retry3 f sched s = with_retry 3 f sched s"

definition is_not_found_error :: "string \<Rightarrow> int \<Rightarrow> bool" where
  "is_not_found_error code status \<longleftrightarrow> code \<in> {''NoSuchKey'', ''404''} \<or> status = 404"

section \<open>Credentials and keys\<close>

text \<open>\<^verbatim>\<open>os.environ.get(a) or os.environ.get(b)\<close>: an empty value counts as missing.\<close>

definition env_or :: "(string \<Rightarrow> string option) \<Rightarrow> string \<Rightarrow> string \<Rightarrow> string option" where
  "env_or environ a b =
     (case environ a of Some v \<Rightarrow> (if v = [] then environ b else Some v) | None \<Rightarrow> environ b)"

definition resolve_credentials :: "(string \<Rightarrow> string option) \<Rightarrow> storage_error + (string \<times> string)" where
  "resolve_credentials environ =
     (case (env_or environ ''OGMA_MINIO_ACCESS_KEY'' ''MINIO_ROOT_USER'',
            env_or environ ''OGMA_MINIO_SECRET_KEY'' ''MINIO_ROOT_PASSWORD'') of
        (Some access_key, Some secret_key) \<Rightarrow>
          (if access_key = [] \<or> secret_key = [] then Inl StorageError else Inr (access_key, secret_key))
      | _ \<Rightarrow> Inl StorageError)"

definition TENANT_PREFIX :: string where
  "TENANT_PREFIX = ''tenants/''"

definition full_key :: "string \<Rightarrow> string \<Rightarrow> storage_error + string" where
  "full_key tenant_id key =
     (if tenant_id = [] then Inl ValueError
      else if key = [] then Inl ValueError
      else if CHR ''/'' \<in> set tenant_id then Inl ValueError
      else Inr (TENANT_PREFIX @ tenant_id @ ''/'' @ key))"

section \<open>The verbs\<close>

definition put_attempt ::
  "string \<Rightarrow> string \<Rightarrow> bytes \<Rightarrow> outcome \<Rightarrow> bucket \<Rightarrow> bucket \<times> (storage_error + unit)"
where
  "put_attempt tenant_id key body out b =
     (case full_key tenant_id key of
        Inl e \<Rightarrow> (b, Inl e)
      | Inr full \<Rightarrow>
          (case out of
             Served \<Rightarrow> (b(full \<mapsto> body), Inr ())
           | Lost applied \<Rightarrow> (if applied then b(full \<mapsto> body) else b, Inl BotoCoreError)
           | Refused code status \<Rightarrow> (b, Inl StorageError)))"

definition put_content ::
  "schedule \<Rightarrow> string \<Rightarrow> string \<Rightarrow> bytes \<Rightarrow> bucket \<Rightarrow> bucket \<times> (storage_error + unit)"
where
  "put_content sched tenant_id key body = retry3 (put_attempt tenant_id key body) sched"

text \<open>A missing key is answered by the service as \<^verbatim>\<open>NoSuchKey\<close>.\<close>

definition get_attempt ::
  "string \<Rightarrow> string \<Rightarrow> outcome \<Rightarrow> bucket \<Rightarrow> bucket \<times> (storage_error + bytes)"
where
  "get_attempt tenant_id key out b =
     (case full_key tenant_id key of
        Inl e \<Rightarrow> (b, Inl e)
      | Inr full \<Rightarrow>
          (case out of
             Served \<Rightarrow> (b, case b full of None \<Rightarrow> Inl NotFound | Some body \<Rightarrow> Inr body)
           | Lost applied \<Rightarrow> (b, Inl BotoCoreError)
           | Refused code status \<Rightarrow>
               (b, Inl (if is_not_found_error code status then NotFound else StorageError))))"

definition get_content ::
  "schedule \<Rightarrow> string \<Rightarrow> string \<Rightarrow> bucket \<Rightarrow> bucket \<times> (storage_error + bytes)"
where
  "get_content sched tenant_id key = retry3 (get_attempt tenant_id key) sched"

definition delete_attempt ::
  "string \<Rightarrow> string \<Rightarrow> outcome \<Rightarrow> bucket \<Rightarrow> bucket \<times> (storage_error + unit)"
where
  "delete_attempt tenant_id key out b =
     (case full_key tenant_id key of
        Inl e \<Rightarrow> (b, Inl e)
      | Inr full \<Rightarrow>
          (case out of
             Served \<Rightarrow> (b(full := None), Inr ())
           | Lost applied \<Rightarrow> (if applied then b(full := None) else b, Inl BotoCoreError)
           | Refused code status \<Rightarrow> (b, Inl StorageError)))"

definition delete_object ::
  "schedule \<Rightarrow> string \<Rightarrow> string \<Rightarrow> bucket \<Rightarrow> bucket \<times> (storage_error + unit)"
where
  "delete_object sched tenant_id key = retry3 (delete_attempt tenant_id key) sched"

definition exists_attempt ::
  "string \<Rightarrow> string \<Rightarrow> outcome \<Rightarrow> bucket \<Rightarrow> bucket \<times> (storage_error + bool)"
where
  "exists_attempt tenant_id key out b =
     (case full_key tenant_id key of
        Inl e \<Rightarrow> (b, Inl e)
      | Inr full \<Rightarrow>
          (case out of
             Served \<Rightarrow> (b, Inr (b full \<noteq> None))
           | Lost applied \<Rightarrow> (b, Inl BotoCoreError)
           | Refused code status \<Rightarrow>
               (b, if is_not_found_error code status then Inr False else Inl StorageError)))"

definition object_exists ::
  "schedule \<Rightarrow> string \<Rightarrow> string \<Rightarrow> bucket \<Rightarrow> bucket \<times> (storage_error + bool)"
where
  "object_exists sched tenant_id key = retry3 (exists_attempt tenant_id key) sched"

section \<open>The retry loop\<close>

text \<open>What every attempt keeps, the whole call keeps.\<close>

lemma with_retry_keeps:
  assumes "\<And>out s. P s \<Longrightarrow> P (fst (f out s))"
  shows "P s \<Longrightarrow> P (fst (with_retry n f sched s))"
proof (induction n arbitrary: sched s)
  case (Suc n)
  obtain t q where t: "f (sched 0) s = (t, q)" by fastforce
  then have "P t" using assms [OF Suc.prems, of "sched 0"] by simp
  then show ?case using Suc.IH by (auto simp: t split: sum.split storage_error.split)
qed simp

text \<open>A call that succeeds ends in an attempt that succeeded.\<close>

lemma with_retry_Inr:
  "with_retry n f sched s = (s', Inr x) \<Longrightarrow> \<exists>out t. f out t = (s', Inr x)"
proof (induction n arbitrary: sched s)
  case (Suc n)
  then show ?case by (auto split: prod.splits sum.splits storage_error.splits)
qed simp

lemma with_retry_lost:
  assumes "\<And>a s. \<exists>s'. f (Lost a) s = (s', Inl BotoCoreError)" "\<And>j. j < i \<Longrightarrow> \<exists>a. sched j = Lost a" "i \<le> n"
  shows "\<exists>s'. with_retry n f sched s = with_retry (n - i) f (\<lambda>j. sched (i + j)) s'"
  using assms(2,3)
proof (induction i arbitrary: n sched s)
  case 0
  then show ?case by auto
next
  case (Suc i)
  then obtain m where m: "n = Suc m" by (cases n) auto
  obtain a where a: "sched 0 = Lost a" using Suc.prems(1) by blast
  obtain s1 where s1: "f (Lost a) s = (s1, Inl BotoCoreError)" using assms(1) by blast
  have "\<exists>s'. with_retry m f (\<lambda>j. sched (Suc j)) s1 = with_retry (m - i) f (\<lambda>j. sched (Suc (i + j))) s'"
    using Suc.IH [of "\<lambda>j. sched (Suc j)" m s1] Suc.prems m by auto
  with m a s1 show ?case by simp
qed

section \<open>The interface of the store\<close>

text \<open>\<open>at\<close> is the object a tenant has under a key, whatever the layout of the bucket.\<close>

locale blob_store =
  fixes at :: "string \<Rightarrow> string \<Rightarrow> 'b \<Rightarrow> bytes option"
    and put :: "schedule \<Rightarrow> string \<Rightarrow> string \<Rightarrow> bytes \<Rightarrow> 'b \<Rightarrow> 'b \<times> (storage_error + unit)"
    and get :: "schedule \<Rightarrow> string \<Rightarrow> string \<Rightarrow> 'b \<Rightarrow> 'b \<times> (storage_error + bytes)"
    and del :: "schedule \<Rightarrow> string \<Rightarrow> string \<Rightarrow> 'b \<Rightarrow> 'b \<times> (storage_error + unit)"
  assumes put_at: "put sched t k x b = (b', Inr u) \<Longrightarrow> at t k b' = Some x"
    and put_other: "put sched t k x b = (b', r) \<Longrightarrow> (t', k') \<noteq> (t, k) \<Longrightarrow> at t' k' b' = at t' k' b"
    and get_same: "get sched t k b = (b', g) \<Longrightarrow> b' = b"
    and get_at: "get sched t k b = (b', Inr x) \<Longrightarrow> at t k b = Some x"
    and del_at: "del sched t k b = (b', Inr u) \<Longrightarrow> at t k b' = None"
    and del_other: "del sched t k b = (b', r) \<Longrightarrow> (t', k') \<noteq> (t, k) \<Longrightarrow> at t' k' b' = at t' k' b"
    and del_keeps: "del sched t k b = (b', r) \<Longrightarrow> at t k b = None \<Longrightarrow> at t k b' = None"
begin

lemma get_after_put: "put s1 t k x b = (b', Inr u) \<Longrightarrow> get s2 t k b' = (b'', Inr y) \<Longrightarrow> y = x"
  using put_at get_at by fastforce

lemma get_after_del: "del s1 t k b = (b', Inr u) \<Longrightarrow> get s2 t k b' \<noteq> (b'', Inr y)"
  using del_at get_at by fastforce

lemma del_tenants: "del sched t k b = (b', r) \<Longrightarrow> t' \<noteq> t \<Longrightarrow> at t' k' b' = at t' k' b"
  by (rule del_other) auto

end

definition object_at :: "string \<Rightarrow> string \<Rightarrow> bucket \<Rightarrow> bytes option" where
  "object_at t k b = (case full_key t k of Inl _ \<Rightarrow> None | Inr full \<Rightarrow> b full)"

lemma full_key_inject:
  assumes "full_key t k = Inr x" "full_key t' k' = Inr x"
  shows "t = t' \<and> k = k'"
proof -
  have "t @ CHR ''/'' # k = t' @ CHR ''/'' # k'" "CHR ''/'' \<notin> set t" "CHR ''/'' \<notin> set t'"
    using assms by (auto simp: full_key_def split: if_splits)
  then show ?thesis
  proof (induction t arbitrary: t')
    case Nil
    then show ?case by (cases t') auto
  next
    case (Cons c t)
    then show ?case by (cases t') auto
  qed
qed

lemma object_at_update:
  "full_key t k = Inr full \<Longrightarrow> (t', k') \<noteq> (t, k) \<Longrightarrow> object_at t' k' (b(full := x)) = object_at t' k' b"
  using full_key_inject by (auto simp: object_at_def split: sum.split)

lemma put_attempt_other:
  "(t', k') \<noteq> (t, k) \<Longrightarrow> object_at t' k' (fst (put_attempt t k x out b)) = object_at t' k' b"
  by (auto simp: put_attempt_def object_at_update split: sum.splits outcome.splits if_splits)

lemma delete_attempt_other:
  "(t', k') \<noteq> (t, k) \<Longrightarrow> object_at t' k' (fst (delete_attempt t k out b)) = object_at t' k' b"
  by (auto simp: delete_attempt_def object_at_update split: sum.splits outcome.splits if_splits)

lemma get_attempt_same: "fst (get_attempt t k out b) = b"
  by (auto simp: get_attempt_def split: sum.splits outcome.splits)

lemma delete_attempt_keeps:
  "object_at t k b = None \<Longrightarrow> object_at t k (fst (delete_attempt t k out b)) = None"
  by (auto simp: delete_attempt_def object_at_def split: sum.splits outcome.splits if_splits)

lemma put_content_other:
  "(t', k') \<noteq> (t, k) \<Longrightarrow> object_at t' k' (fst (put_content sched t k x b)) = object_at t' k' b"
  unfolding put_content_def retry3_def
  by (rule with_retry_keeps [where P = "\<lambda>c. object_at t' k' c = object_at t' k' b"])
     (simp_all add: put_attempt_other)

lemma delete_object_other:
  "(t', k') \<noteq> (t, k) \<Longrightarrow> object_at t' k' (fst (delete_object sched t k b)) = object_at t' k' b"
  unfolding delete_object_def retry3_def
  by (rule with_retry_keeps [where P = "\<lambda>c. object_at t' k' c = object_at t' k' b"])
     (simp_all add: delete_attempt_other)

lemma delete_object_keeps:
  "object_at t k b = None \<Longrightarrow> object_at t k (fst (delete_object sched t k b)) = None"
  unfolding delete_object_def retry3_def
  by (rule with_retry_keeps [where P = "\<lambda>c. object_at t k c = None"]) (simp_all add: delete_attempt_keeps)

lemma get_content_same: "fst (get_content sched t k b) = b"
  unfolding get_content_def retry3_def
  by (rule with_retry_keeps [where P = "\<lambda>c. c = b"]) (simp_all add: get_attempt_same)

interpretation blobs: blob_store object_at put_content get_content delete_object
proof
  fix sched t k x b b' u
  assume "put_content sched t k x b = (b', Inr u)"
  then obtain out c where "put_attempt t k x out c = (b', Inr u)"
    using with_retry_Inr [of 3 "put_attempt t k x" sched b b' u]
    unfolding put_content_def retry3_def by blast
  then show "object_at t k b' = Some x"
    by (auto simp: put_attempt_def object_at_def split: sum.splits outcome.splits)
next
  fix sched t k x b b' r t' k'
  assume "put_content sched t k x b = (b', r)" "(t', k') \<noteq> (t, k)"
  then show "object_at t' k' b' = object_at t' k' b" using put_content_other by (metis fst_conv)
next
  fix sched t k b b' r
  assume "get_content sched t k b = (b', r)"
  then show "b' = b" using get_content_same by (metis fst_conv)
next
  fix sched t k b b' x
  assume g: "get_content sched t k b = (b', Inr x)"
  then have "b = b'" using get_content_same by (metis fst_conv)
  moreover obtain out c where "get_attempt t k out c = (b', Inr x)"
    using g with_retry_Inr [of 3 "get_attempt t k" sched b b' x]
    unfolding get_content_def retry3_def by blast
  ultimately show "object_at t k b = Some x"
    by (auto simp: get_attempt_def object_at_def split: sum.splits outcome.splits option.splits)
next
  fix sched t k b b' u
  assume "delete_object sched t k b = (b', Inr u)"
  then obtain out c where "delete_attempt t k out c = (b', Inr u)"
    using with_retry_Inr [of 3 "delete_attempt t k" sched b b' u]
    unfolding delete_object_def retry3_def by blast
  then show "object_at t k b' = None"
    by (auto simp: delete_attempt_def object_at_def split: sum.splits outcome.splits)
next
  fix sched t k b b' r t' k'
  assume "delete_object sched t k b = (b', r)" "(t', k') \<noteq> (t, k)"
  then show "object_at t' k' b' = object_at t' k' b" using delete_object_other by (metis fst_conv)
next
  fix sched t k b b' r
  assume "delete_object sched t k b = (b', r)" "object_at t k b = None"
  then show "object_at t k b' = None" using delete_object_keeps by (metis fst_conv)
qed

text \<open>A schedule under which a call gets through: the service answers within three attempts.\<close>

definition available :: "schedule \<Rightarrow> bool" where
  "available sched \<longleftrightarrow> (\<exists>i < 3. sched i = Served \<and> (\<forall>j < i. \<exists>a. sched j = Lost a))"

lemma available_served [simp]: "available (\<lambda>i. Served)"
  unfolding available_def by (rule exI [of _ 0]) simp

text \<open>What a call returns, in terms of the first attempt that is not lost.\<close>

lemma with_retry_answer:
  assumes "\<And>a s. \<exists>s'. f (Lost a) s = (s', Inl BotoCoreError)"
    and "\<And>s. snd (f (sched i) s) \<noteq> Inl BotoCoreError"
    and "i < 3" "\<And>j. j < i \<Longrightarrow> \<exists>a. sched j = Lost a"
  shows "\<exists>s'. retry3 f sched s = f (sched i) s'"
proof -
  have "\<exists>s'. with_retry 3 f sched s = with_retry (3 - i) f (\<lambda>j. sched (i + j)) s'"
    by (rule with_retry_lost) (use assms in auto)
  then obtain s' where s': "with_retry 3 f sched s = with_retry (3 - i) f (\<lambda>j. sched (i + j)) s'"
    by blast
  obtain m where m: "3 - i = Suc m" using assms(3) by (metis Suc_diff_Suc)
  obtain t q where "f (sched i) s' = (t, q)" by fastforce
  with s' m assms(2) [of s'] show ?thesis
    unfolding retry3_def by (intro exI [of _ s']) (auto split: sum.splits storage_error.splits)
qed

lemma put_attempt_lost:
  "full_key t k = Inr full \<Longrightarrow> \<exists>b'. put_attempt t k x (Lost a) b = (b', Inl BotoCoreError)"
  by (simp add: put_attempt_def)

lemma get_attempt_lost:
  "full_key t k = Inr full \<Longrightarrow> \<exists>b'. get_attempt t k (Lost a) b = (b', Inl BotoCoreError)"
  by (simp add: get_attempt_def)

lemma delete_attempt_lost:
  "full_key t k = Inr full \<Longrightarrow> \<exists>b'. delete_attempt t k (Lost a) b = (b', Inl BotoCoreError)"
  by (simp add: delete_attempt_def)

section \<open>Properties\<close>

text \<open>Full keys isolate tenants. Two (tenant, key) pairs never share an object: writing or deleting
  under one pair, with any schedule of failures and whatever it returns, leaves what every other tenant
  and every other key has untouched.\<close>

lemma object_keys_isolate:
  assumes "(t', k') \<noteq> (t, k)"
  shows "(full_key t k = Inr x \<longrightarrow> full_key t' k' \<noteq> Inr x)
    \<and> object_at t' k' (fst (put_content sched t k body b)) = object_at t' k' b
    \<and> object_at t' k' (fst (delete_object sched t k b)) = object_at t' k' b"
proof (intro conjI impI)
  show "full_key t' k' \<noteq> Inr x" if "full_key t k = Inr x"
    using full_key_inject [OF that] assms by auto
qed (simp_all only: put_content_other [OF assms] delete_object_other [OF assms])

lemma object_keys_isolate_witness:
  "object_at ''t2'' ''k'' (fst (delete_object (\<lambda>i. Lost True) ''t1'' ''k'' [''tenants/t2/k'' \<mapsto> ''x''])) = Some ''x''"
  using object_keys_isolate [of "''t2''" "''k''" "''t1''" "''k''" _ "\<lambda>i. Lost True" _ "[''tenants/t2/k'' \<mapsto> ''x'']"]
  by (simp add: object_at_def full_key_def TENANT_PREFIX_def)

text \<open>The retry policy, exactly. A write makes at most three attempts. It succeeds when the service
  answers one of them and every attempt before was lost. An answer that is an HTTP error, of any
  status, ends the call at once with \<^verbatim>\<open>StorageError\<close>: server errors are not retried. When all three
  attempts are lost the raw transport error escapes, not a \<^verbatim>\<open>StorageError\<close>.\<close>

lemma put_content_outcome:
  assumes "full_key t k = Inr full" "i \<le> 3" "\<forall>j < i. \<exists>a. sched j = Lost a"
  shows "(i < 3 \<and> sched i = Served \<longrightarrow> snd (put_content sched t k body b) = Inr ())
    \<and> (i < 3 \<and> sched i = Refused code st \<longrightarrow> snd (put_content sched t k body b) = Inl StorageError)
    \<and> (i = 3 \<longrightarrow> snd (put_content sched t k body b) = Inl BotoCoreError)"
proof -
  note lost = put_attempt_lost [OF assms(1)]
  have answer: "\<exists>b'. put_content sched t k body b = put_attempt t k body (sched i) b'"
    if "i < 3" "\<And>b. snd (put_attempt t k body (sched i) b) \<noteq> Inl BotoCoreError"
    unfolding put_content_def using lost that(2,1) assms(3) by (intro with_retry_answer) auto
  have "\<exists>b'. with_retry 3 (put_attempt t k body) sched b
      = with_retry (3 - i) (put_attempt t k body) (\<lambda>j. sched (i + j)) b'"
    using lost assms(2,3) by (intro with_retry_lost) auto
  then show ?thesis
    using answer assms(1) by (auto simp: put_attempt_def put_content_def retry3_def)
qed

lemma put_content_outcome_witness:
  "snd (put_content (\<lambda>i. if i = 0 then Lost False else Refused ''InternalError'' 500) ''t1'' ''k'' ''x'' Map.empty)
     = Inl StorageError"
proof -
  let ?s = "\<lambda>i::nat. if i = 0 then Lost False else Refused ''InternalError'' 500"
  have "full_key ''t1'' ''k'' = Inr ''tenants/t1/k''" by (simp add: full_key_def TENANT_PREFIX_def)
  moreover have "\<forall>j < (1::nat). \<exists>a. ?s j = Lost a" by auto
  ultimately show ?thesis
    using put_content_outcome [where i = 1 and sched = ?s and code = "''InternalError''" and st = 500] by simp
qed

end
