(* ===== verification/Content.thy ===== *)
theory Content
  imports PyTime Crypto ObjectStore
begin

text \<open>
  \<^verbatim>\<open>storage/content.py\<close>: content encrypted under the tenant's data key and kept in the object store,
  each blob bound to its tenant and its reference. The module is a client of the vault (\<open>Crypto\<close>) and
  of the store (\<open>ObjectStore\<close>), the latter through its interface \<open>blob_store\<close> only.
\<close>

datatype content_error =
  CValueError
| CStorage storage_error
| CCrypto crypto_error
| CIntegrityError
| CRuntimeError

text \<open>Errors of the two layers below pass through unchanged.\<close>

definition lift_error :: "('e \<Rightarrow> 'f) \<Rightarrow> 'e + 'a \<Rightarrow> 'f + 'a" where
  "lift_error g r = (case r of Inl e \<Rightarrow> Inl (g e) | Inr x \<Rightarrow> Inr x)"

lemma lift_error_simps [simp]: "lift_error g (Inl e) = Inl (g e)" "lift_error g (Inr x) = Inr x"
  by (simp_all add: lift_error_def)

lemma lift_error_Inr [simp]: "lift_error g r = Inr x \<longleftrightarrow> r = Inr x"
  by (cases r) simp_all

definition validate_tenant_id :: "string \<Rightarrow> content_error + unit" where
  "validate_tenant_id tenant_id =
     (if tenant_id = [] then Inl CValueError
      else if 64 < length tenant_id then Inl CValueError
      else if CHR ''/'' \<in> set tenant_id \<or> CHR 0x5C \<in> set tenant_id then Inl CValueError
      else if startswith tenant_id ''.'' then Inl CValueError
      else if CHR 0x00 \<in> set tenant_id then Inl CValueError
      else Inr ())"

text \<open>The reference of a new blob: the date of the write and the hexadecimal digits of a fresh UUID.\<close>

definition new_content_ref :: "date \<Rightarrow> string \<Rightarrow> string" where
  "new_content_ref moment uuid_hex =
     pad 4 (d_year moment) @ ''/'' @ pad 2 (d_month moment) @ ''/'' @ pad 2 (d_day moment) @ ''/''
       @ uuid_hex @ ''.enc''"

definition aad_for_content :: "string \<Rightarrow> string \<Rightarrow> bytes" where
  "aad_for_content tenant_id content_ref =
     utf8_encode (''vargate.telemetry/content/'' @ tenant_id @ ''/'' @ content_ref)"

definition IV_LEN :: nat where
  "IV_LEN = 12"

definition store_content ::
  "crypto_env \<Rightarrow> (bytes \<Rightarrow> bytes) \<Rightarrow> date \<Rightarrow> string \<Rightarrow> bytes \<Rightarrow> schedule \<Rightarrow> string \<Rightarrow> bytes \<Rightarrow> vault \<Rightarrow> bucket
     \<Rightarrow> bucket \<times> (content_error + string \<times> bytes \<times> nat)"
where
  "store_content env sha256 moment uuid_hex rnd_iv sched tenant_id plaintext v b =
     (case validate_tenant_id tenant_id of
        Inl e \<Rightarrow> (b, Inl e)
      | Inr _ \<Rightarrow>
          (let content_hash = sha256 plaintext;
               content_size_bytes = length plaintext;
               content_ref = new_content_ref moment uuid_hex
           in case bindE (lift_error CCrypto (get_tenant_dek env tenant_id v)) (\<lambda>dek.
                   bindE (lift_error CCrypto
                       (encrypt_with_dek env rnd_iv dek plaintext (aad_for_content tenant_id content_ref)))
                     (\<lambda>(iv, ciphertext).
                       if length iv \<noteq> IV_LEN then Inl CRuntimeError else Inr (iv @ ciphertext))) of
                Inl e \<Rightarrow> (b, Inl e)
              | Inr blob \<Rightarrow>
                  (case put_content sched tenant_id content_ref blob b of
                     (b', Inl e) \<Rightarrow> (b', Inl (CStorage e))
                   | (b', Inr _) \<Rightarrow> (b', Inr (content_ref, content_hash, content_size_bytes)))))"

definition retrieve_content ::
  "crypto_env \<Rightarrow> schedule \<Rightarrow> string \<Rightarrow> string \<Rightarrow> vault \<Rightarrow> bucket \<Rightarrow> content_error + bytes"
where
  "retrieve_content env sched tenant_id content_ref v b =
     bindE (validate_tenant_id tenant_id) (\<lambda>_.
     if content_ref = [] then Inl CValueError
     else
       bindE (lift_error CStorage (snd (get_content sched tenant_id content_ref b))) (\<lambda>blob.
       if length blob < IV_LEN then Inl CIntegrityError
       else
         bindE (lift_error CCrypto (get_tenant_dek env tenant_id v)) (\<lambda>dek.
         case decrypt_with_dek env dek (take IV_LEN blob) (drop IV_LEN blob)
                (aad_for_content tenant_id content_ref) of
           Inl InvalidTag \<Rightarrow> Inl CIntegrityError
         | Inl e \<Rightarrow> Inl (CCrypto e)
         | Inr p \<Rightarrow> Inr p)))"

definition delete_content ::
  "schedule \<Rightarrow> string \<Rightarrow> string \<Rightarrow> bucket \<Rightarrow> bucket \<times> (content_error + unit)"
where
  "delete_content sched tenant_id content_ref b =
     (case validate_tenant_id tenant_id of
        Inl e \<Rightarrow> (b, Inl e)
      | Inr _ \<Rightarrow>
          if content_ref = [] then (b, Inl CValueError)
          else case delete_object sched tenant_id content_ref b of
                 (b', r) \<Rightarrow> (b', lift_error CStorage r))"

section \<open>Lemmas\<close>

lemma validate_Inr: "validate_tenant_id t = Inr u \<Longrightarrow> t \<noteq> [] \<and> CHR ''/'' \<notin> set t \<and> length t \<le> 64"
  by (auto simp: validate_tenant_id_def split: if_splits)

lemma full_key_ok: "validate_tenant_id t = Inr u \<Longrightarrow> k \<noteq> [] \<Longrightarrow> \<exists>full. full_key t k = Inr full"
  by (auto dest!: validate_Inr simp: full_key_def)

lemma new_content_ref_not_Nil [simp]: "new_content_ref m u \<noteq> []"
  by (simp add: new_content_ref_def)

lemma store_content_Inr:
  "store_content env sha m u riv sched t p v b = (b', Inr (ref, h, n)) \<Longrightarrow>
     \<exists>w dek. validate_tenant_id t = Inr w \<and> get_tenant_dek env t v = Inr dek \<and> ref = new_content_ref m u
       \<and> h = sha p \<and> n = length p \<and> length riv = IV_LEN \<and> aes_key dek
       \<and> put_content sched t ref (riv @ gcm_encrypt env dek riv p (aad_for_content t ref)) b = (b', Inr ())"
  by (auto simp: store_content_def Let_def encrypt_with_dek_def split: sum.splits if_splits prod.splits)

lemma integrity_case_Inr [simp]:
  "(case r of Inl InvalidTag \<Rightarrow> Inl CIntegrityError | Inl e \<Rightarrow> Inl (CCrypto e) | Inr p \<Rightarrow> Inr p) = Inr q
     \<longleftrightarrow> r = Inr q"
  by (auto split: sum.splits crypto_error.splits)

lemma retrieve_content_Inr:
  assumes "retrieve_content env sched t ref v b = Inr p"
  shows "\<exists>w blob dek. validate_tenant_id t = Inr w \<and> ref \<noteq> [] \<and> object_at t ref b = Some blob
       \<and> IV_LEN \<le> length blob \<and> get_tenant_dek env t v = Inr dek
       \<and> decrypt_with_dek env dek (take IV_LEN blob) (drop IV_LEN blob) (aad_for_content t ref) = Inr p"
proof -
  obtain w blob dek where r: "validate_tenant_id t = Inr w" "ref \<noteq> []"
    "snd (get_content sched t ref b) = Inr blob" "IV_LEN \<le> length blob" "get_tenant_dek env t v = Inr dek"
    "decrypt_with_dek env dek (take IV_LEN blob) (drop IV_LEN blob) (aad_for_content t ref) = Inr p"
    using assms unfolding retrieve_content_def bindE_eq_Inr
    by (force split: if_splits)
  from r(3) have "object_at t ref b = Some blob" by (metis blobs.get_at prod.collapse)
  with r show ?thesis by blast
qed

text \<open>The store hands out what it has when the service answers in time.\<close>

lemma get_content_available:
  assumes "available sched" "full_key t k = Inr full"
  shows "snd (get_content sched t k b) = (case object_at t k b of None \<Rightarrow> Inl NotFound | Some x \<Rightarrow> Inr x)"
proof -
  obtain i where i: "i < 3" "sched i = Served" "\<forall>j < i. \<exists>a. sched j = Lost a"
    using assms(1) unfolding available_def by blast
  have "\<exists>b'. get_content sched t k b = get_attempt t k (sched i) b'"
    unfolding get_content_def using get_attempt_lost [OF assms(2)] i assms(2)
    by (intro with_retry_answer) (auto simp: get_attempt_def split: option.split)
  then obtain b' where b': "get_content sched t k b = get_attempt t k (sched i) b'" by blast
  moreover from this have "b' = b" using get_content_same [of sched t k b] get_attempt_same by metis
  ultimately show ?thesis using assms(2) i(2) by (simp add: get_attempt_def object_at_def)
qed

lemma retrieve_content_available:
  assumes "available sched" "validate_tenant_id t = Inr w" "ref \<noteq> []" "get_tenant_dek env t v = Inr dek"
    and "object_at t ref b = Some (riv @ c)" "length riv = IV_LEN"
    and "decrypt_with_dek env dek riv c (aad_for_content t ref) = Inr p"
  shows "retrieve_content env sched t ref v b = Inr p"
proof -
  obtain full where "full_key t ref = Inr full" using full_key_ok [OF assms(2,3)] by blast
  from get_content_available [OF assms(1) this] assms show ?thesis
    by (simp add: retrieve_content_def)
qed

text \<open>A stored blob opens with the key and the reference it was stored under.\<close>

lemma retrieve_stored:
  assumes "cipher_laws env"
    and "store_content env sha m u riv s1 t p v b = (b', Inr (ref, h, n))"
    and "available s2" "get_tenant_dek env t v2 = get_tenant_dek env t v"
    and "object_at t ref b2 = object_at t ref b'"
  shows "retrieve_content env s2 t ref v2 b2 = Inr p"
proof -
  obtain w dek where s: "validate_tenant_id t = Inr w" "get_tenant_dek env t v = Inr dek"
    "ref = new_content_ref m u" "length riv = IV_LEN" "aes_key dek"
    "put_content s1 t ref (riv @ gcm_encrypt env dek riv p (aad_for_content t ref)) b = (b', Inr ())"
    using store_content_Inr [OF assms(2)] by blast
  have "decrypt_with_dek env dek riv (gcm_encrypt env dek riv p (aad_for_content t ref)) (aad_for_content t ref) = Inr p"
    using s(4,5) assms(1) by (simp add: decrypt_with_dek_def gcm_nonce_def IV_LEN_def cipher_laws_def)
  moreover have "object_at t ref b2 = Some (riv @ gcm_encrypt env dek riv p (aad_for_content t ref))"
    using blobs.put_at [OF s(6)] assms(5) by simp
  ultimately show ?thesis
    using retrieve_content_available [OF assms(3) s(1)] s(2,3,4) assms(4) by simp
qed

section \<open>Properties\<close>

text \<open>C7: What is stored comes back. When \<^verbatim>\<open>store_content\<close> returns, whatever the network did meanwhile,
  the size and the hash it reports are those of the plaintext, and every later \<^verbatim>\<open>retrieve_content\<close> of
  the reference that gets through yields exactly that plaintext, also after the tenant's key is wrapped
  anew or other content is written, as long as the key and the object itself are in place. No other
  tenant's or reference's object has changed.\<close>

theorem store_retrieve:
  assumes "cipher_laws env"
    and "store_content env sha m u riv s1 t p v b = (b', Inr (ref, h, n))"
    and "available s2" "get_tenant_dek env t v2 = get_tenant_dek env t v"
    and "object_at t ref b2 = object_at t ref b'"
  shows "h = sha p \<and> n = length p \<and> retrieve_content env s2 t ref v2 b2 = Inr p
    \<and> (\<forall>t' k'. (t', k') \<noteq> (t, ref) \<longrightarrow> object_at t' k' b' = object_at t' k' b)"
  using store_content_Inr [OF assms(2)] retrieve_stored [OF assms] blobs.put_other by blast

lemma sample_store:
  "\<exists>b ref h n. store_content sample_crypto id (Date 2026 5 17) ''deadbeef'' (replicate 12 CHR ''n'')
     (\<lambda>i. if i = 0 then Lost True else Served) ''t1'' ''hello'' sample_vault Map.empty = (b, Inr (ref, h, n))"
proof -
  let ?s = "\<lambda>i::nat. if i = 0 then Lost True else Served"
  obtain td where "tenant_deks sample_vault ''t1'' = Some td" using sample_vault_deks by blast
  from get_tenant_dek_ok [OF vault_ok_sample this] obtain dek where
    dek: "get_tenant_dek sample_crypto ''t1'' sample_vault = Inr dek" "length dek = 32" by blast
  let ?k = "new_content_ref (Date 2026 5 17) ''deadbeef''"
  have v: "validate_tenant_id ''t1'' = Inr ()" by (simp add: validate_tenant_id_def startswith_def)
  obtain full where full: "full_key ''t1'' ?k = Inr full" using full_key_ok [OF v] new_content_ref_not_Nil by blast
  have put: "\<exists>b'. put_content ?s ''t1'' ?k x b = (b', Inr ())" for x b
    by (simp add: put_content_def retry3_def numeral_3_eq_3 put_attempt_def full)
  show ?thesis
    using put by (simp add: store_content_def v dek encrypt_with_dek_def aes_key_def gcm_nonce_def IV_LEN_def Let_def split: prod.split sum.split) (metis Inl_not_Inr old.prod.inject)
qed

lemma store_retrieve_witness:
  "\<exists>b ref h n. store_content sample_crypto id (Date 2026 5 17) ''deadbeef'' (replicate 12 CHR ''n'')
     (\<lambda>i. if i = 0 then Lost True else Served) ''t1'' ''hello'' sample_vault Map.empty = (b, Inr (ref, h, n))
     \<and> retrieve_content sample_crypto (\<lambda>i. Served) ''t1'' ref sample_vault b = Inr ''hello''"
proof -
  obtain b ref h n where s: "store_content sample_crypto id (Date 2026 5 17) ''deadbeef'' (replicate 12 CHR ''n'')
     (\<lambda>i. if i = 0 then Lost True else Served) ''t1'' ''hello'' sample_vault Map.empty = (b, Inr (ref, h, n))"
    using sample_store by blast
  from store_retrieve [OF sample_cipher_laws s available_served refl refl] s show ?thesis by blast
qed

text \<open>Only authentic content is ever returned, and shredding ends it. A successful retrieve means
  the stored object is a nonce followed by the AES-GCM encryption, under the tenant's key and bound to
  this tenant and reference, of exactly the plaintext returned; so two plaintexts read from one
  untouched object agree. Once the tenant's data key is destroyed, no reference of the tenant can be
  read again, although the objects may still be there.\<close>

lemma retrieve_authentic:
  assumes "cipher_laws env" "retrieve_content env sched t ref v b = Inr p"
  shows "(\<exists>iv dek. length iv = IV_LEN \<and> get_tenant_dek env t v = Inr dek
        \<and> object_at t ref b = Some (iv @ gcm_encrypt env dek iv p (aad_for_content t ref)))
    \<and> (\<forall>s2 v1 d k2 b2 q. destroy_tenant_dek t v = Inr (v1, d) \<longrightarrow> retrieve_content env s2 t k2 v1 b2 \<noteq> Inr q)"
proof (intro conjI allI impI)
  obtain w blob dek where r: "object_at t ref b = Some blob" "IV_LEN \<le> length blob"
    "get_tenant_dek env t v = Inr dek"
    "decrypt_with_dek env dek (take IV_LEN blob) (drop IV_LEN blob) (aad_for_content t ref) = Inr p"
    using retrieve_content_Inr [OF assms(2)] by blast
  have "drop IV_LEN blob = gcm_encrypt env dek (take IV_LEN blob) p (aad_for_content t ref)"
    by (rule decrypt_Inr [OF assms(1) r(4)])
  then have "blob = take IV_LEN blob @ gcm_encrypt env dek (take IV_LEN blob) p (aad_for_content t ref)"
    by (metis append_take_drop_id)
  with r show "\<exists>iv dek. length iv = IV_LEN \<and> get_tenant_dek env t v = Inr dek
      \<and> object_at t ref b = Some (iv @ gcm_encrypt env dek iv p (aad_for_content t ref))"
    by (intro exI [of _ "take IV_LEN blob"] exI [of _ dek]) simp
next
  fix s2 v1 d k2 b2 q
  assume "destroy_tenant_dek t v = Inr (v1, d)"
  then have "get_tenant_dek env t v1 = Inl LookupError"
    by (auto simp: destroy_tenant_dek_def get_tenant_dek_def split: if_splits option.splits)
  then show "retrieve_content env s2 t k2 v1 b2 \<noteq> Inr q" using retrieve_content_Inr by fastforce
qed

lemma retrieve_authentic_witness:
  "\<exists>b ref iv dek. retrieve_content sample_crypto (\<lambda>i. Served) ''t1'' ref sample_vault b = Inr ''hello''
     \<and> object_at ''t1'' ref b = Some (iv @ gcm_encrypt sample_crypto dek iv ''hello'' (aad_for_content ''t1'' ref))"
proof -
  obtain b ref h n where s: "store_content sample_crypto id (Date 2026 5 17) ''deadbeef'' (replicate 12 CHR ''n'')
     (\<lambda>i. if i = 0 then Lost True else Served) ''t1'' ''hello'' sample_vault Map.empty = (b, Inr (ref, h, n))"
    using sample_store by blast
  obtain w dek where d: "validate_tenant_id ''t1'' = Inr w" "get_tenant_dek sample_crypto ''t1'' sample_vault = Inr dek"
    "ref = new_content_ref (Date 2026 5 17) ''deadbeef''" "aes_key dek"
    "put_content (\<lambda>i. if i = 0 then Lost True else Served) ''t1'' ref (replicate 12 CHR ''n''
        @ gcm_encrypt sample_crypto dek (replicate 12 CHR ''n'') ''hello'' (aad_for_content ''t1'' ref)) Map.empty = (b, Inr ())"
    using store_content_Inr [OF s] by blast
  have len: "length (replicate 12 CHR ''n'') = IV_LEN" by (simp add: IV_LEN_def)
  have "decrypt_with_dek sample_crypto dek (replicate 12 CHR ''n'')
      (gcm_encrypt sample_crypto dek (replicate 12 CHR ''n'') ''hello'' (aad_for_content ''t1'' ref))
      (aad_for_content ''t1'' ref) = Inr ''hello''"
    using d(4) sample_cipher_laws by (simp add: decrypt_with_dek_def gcm_nonce_def cipher_laws_def)
  then have r: "retrieve_content sample_crypto (\<lambda>i. Served) ''t1'' ref sample_vault b = Inr ''hello''"
    using retrieve_content_available [OF available_served d(1) _ d(2) blobs.put_at [OF d(5)] len] d(3)
    by simp
  from retrieve_authentic [OF sample_cipher_laws r] r show ?thesis by blast
qed

end
