(* ===== verification/Deletion.thy ===== *)
theory Deletion
  imports Chain Content
begin

text \<open>
  \<^verbatim>\<open>content_deletion.py\<close>: removing captured content while keeping the audit chain. A deletion removes
  blobs (or the tenant's data key) and appends tamper-evident events; it never updates or removes a
  row. The state is the records table, the bucket and the vault; the clock, the network schedule per
  blob and the text JSONB gives a non-string field are arguments.
\<close>

definition RECORD_TYPE_DELETION :: string where "RECORD_TYPE_DELETION = ''content_deletion''"
definition RECORD_TYPE_REVEAL :: string where "RECORD_TYPE_REVEAL = ''content_reveal''"
definition SOURCE_API_CONTENT :: string where "SOURCE_API_CONTENT = ''compliance_content''"
definition RECORD_TYPE_MESSAGE :: string where "RECORD_TYPE_MESSAGE = ''chat_message''"

definition deletion_content_hash :: "chain_env \<Rightarrow> json \<Rightarrow> bytes" where
  "deletion_content_hash env metadata = sha256 env (utf8_encode (dumps metadata))"

definition content_event_args ::
  "chain_env \<Rightarrow> string \<Rightarrow> string \<Rightarrow> datetime \<Rightarrow> json \<Rightarrow> string option \<Rightarrow> append_args"
where
  "content_event_args env record_type external_id occurred_at metadata subject_user_id =
     \<lparr>ap_record_type = record_type, ap_source_api = SOURCE_API_CONTENT,
      ap_external_id = external_id, ap_occurred_at = occurred_at,
      ap_content_hash = deletion_content_hash env metadata, ap_record_metadata = Some metadata,
      ap_subject_user_id = subject_user_id, ap_content_ref = None, ap_content_size_bytes = None\<rparr>"

text \<open>
  Only \<^verbatim>\<open>IntegrityError\<close> is caught: True for a new event, False when the table refused it. \<open>snap\<close> is
  the table the tip was read from, \<open>db\<close> the one the insert meets.
\<close>

definition append_deletion_event ::
  "chain_env \<Rightarrow> string \<Rightarrow> string \<Rightarrow> datetime \<Rightarrow> json \<Rightarrow> string option \<Rightarrow> records_table \<Rightarrow> records_table
     \<Rightarrow> chain_error + (records_table \<times> bool)"
where
  "append_deletion_event env tenant_id external_id occurred_at metadata subject_user_id snap db =
     (case append_between env tenant_id
             (content_event_args env RECORD_TYPE_DELETION external_id occurred_at metadata subject_user_id)
             snap db of
        Inr (db', record) \<Rightarrow> Inr (db', True)
      | Inl Chain.IntegrityError \<Rightarrow> Inr (db, False)
      | Inl e \<Rightarrow> Inl e)"

section \<open>Selecting messages\<close>

record message_row =
  mr_external_id :: string
  mr_content_ref :: "string option"
  mr_chat_id :: "string option"
  mr_subject_user_id :: "string option"

definition select_message_records ::
  "(json \<Rightarrow> string) \<Rightarrow> string \<Rightarrow> (telemetry_row \<Rightarrow> bool) \<Rightarrow> records_table \<Rightarrow> message_row list"
where
  "select_message_records jtext tenant_id cond db =
     map (\<lambda>r. \<lparr>mr_external_id = tr_external_id r, mr_content_ref = tr_content_ref r,
               mr_chat_id = json_field jtext ''chat_id'' (tr_record_metadata r),
               mr_subject_user_id = tr_subject_user_id r\<rparr>)
       (filter (\<lambda>r. tr_source_api r = SOURCE_API_CONTENT \<and> tr_record_type r = RECORD_TYPE_MESSAGE \<and> cond r)
         (rows_of tenant_id db))"

section \<open>Deleting messages\<close>

definition deletion_metadata ::
  "message_row \<Rightarrow> string \<Rightarrow> string \<Rightarrow> string \<Rightarrow> datetime \<Rightarrow> string option \<Rightarrow> json"
where
  "deletion_metadata r scope reason requested_by now dsr_subject =
     JObj ([(''deleted_external_id'', JStr (mr_external_id r)),
            (''deleted_record_type'', JStr RECORD_TYPE_MESSAGE),
            (''chat_id'', json_opt (mr_chat_id r)),
            (''scope'', JStr scope),
            (''reason'', JStr reason),
            (''requested_by'', JStr requested_by),
            (''deleted_at'', JStr (isoformat now))]
           @ (case dsr_subject of None \<Rightarrow> [] | Some s \<Rightarrow> [(''dsr_subject'', JStr s)]))"

text \<open>Who asks for what, and when: the keyword arguments of the loop, fixed for a whole call.\<close>

record deletion_request =
  dr_tenant_id :: string
  dr_scope :: string
  dr_reason :: string
  dr_requested_by :: string
  dr_now :: datetime
  dr_dsr_subject :: "string option"

definition delete_blob :: "schedule \<Rightarrow> string \<Rightarrow> message_row \<Rightarrow> bucket \<Rightarrow> bucket" where
  "delete_blob sched tenant_id r b =
     (case mr_content_ref r of
        None \<Rightarrow> b
      | Some ref \<Rightarrow> if ref = [] then b else fst (delete_content sched tenant_id ref b))"

definition event_for :: "chain_env \<Rightarrow> deletion_request \<Rightarrow> message_row \<Rightarrow> append_args" where
  "event_for env q r =
     content_event_args env RECORD_TYPE_DELETION (''deletion:'' @ mr_external_id r) (dr_now q)
       (deletion_metadata r (dr_scope q) (dr_reason q) (dr_requested_by q) (dr_now q) (dr_dsr_subject q))
       (mr_subject_user_id r)"

text \<open>
  The loop over the rows. Every row commits on its own, so an error other than a duplicate leaves what
  was done before it. \<open>scheds i\<close> is the network during the \<open>i\<close>-th blob's deletion.
\<close>

fun delete_message_records ::
  "chain_env \<Rightarrow> (nat \<Rightarrow> schedule) \<Rightarrow> deletion_request \<Rightarrow> message_row list \<Rightarrow> nat \<Rightarrow> nat \<Rightarrow> records_table \<Rightarrow> bucket
     \<Rightarrow> (records_table \<times> bucket) \<times> (chain_error + nat \<times> nat)"
where
  "delete_message_records env scheds q [] deleted already db b = ((db, b), Inr (deleted, already))"
| "delete_message_records env scheds q (r # rows) deleted already db b =
     (let b' = delete_blob (scheds 0) (dr_tenant_id q) r b
      in case append_deletion_event env (dr_tenant_id q) (''deletion:'' @ mr_external_id r) (dr_now q)
                (deletion_metadata r (dr_scope q) (dr_reason q) (dr_requested_by q) (dr_now q) (dr_dsr_subject q))
                (mr_subject_user_id r) db db of
           Inl e \<Rightarrow> ((db, b'), Inl e)
         | Inr (db', True) \<Rightarrow>
             delete_message_records env (\<lambda>i. scheds (Suc i)) q rows (Suc deleted) already db' b'
         | Inr (db', False) \<Rightarrow>
             delete_message_records env (\<lambda>i. scheds (Suc i)) q rows deleted (Suc already) db' b')"

definition delete_chat ::
  "chain_env \<Rightarrow> (json \<Rightarrow> string) \<Rightarrow> (nat \<Rightarrow> schedule) \<Rightarrow> datetime \<Rightarrow> string \<Rightarrow> string \<Rightarrow> string \<Rightarrow> string
     \<Rightarrow> records_table \<Rightarrow> bucket \<Rightarrow> (records_table \<times> bucket) \<times> (chain_error + nat \<times> nat)"
where
  "delete_chat env jtext scheds now tenant_id chat_id reason requested_by db b =
     (if tenant_id = [] \<or> chat_id = [] then ((db, b), Inl Chain.ValueError)
      else delete_message_records env scheds
             \<lparr>dr_tenant_id = tenant_id, dr_scope = ''chat'', dr_reason = reason,
              dr_requested_by = requested_by, dr_now = now, dr_dsr_subject = None\<rparr>
             (select_message_records jtext tenant_id
               (\<lambda>r. json_field jtext ''chat_id'' (tr_record_metadata r) = Some chat_id) db)
             0 0 db b)"

definition delete_user_content ::
  "chain_env \<Rightarrow> (json \<Rightarrow> string) \<Rightarrow> (nat \<Rightarrow> schedule) \<Rightarrow> datetime \<Rightarrow> string \<Rightarrow> string \<Rightarrow> string \<Rightarrow> string
     \<Rightarrow> records_table \<Rightarrow> bucket \<Rightarrow> (records_table \<times> bucket) \<times> (chain_error + nat \<times> nat)"
where
  "delete_user_content env jtext scheds now tenant_id subject_user_id reason requested_by db b =
     (if tenant_id = [] \<or> subject_user_id = [] then ((db, b), Inl Chain.ValueError)
      else delete_message_records env scheds
             \<lparr>dr_tenant_id = tenant_id, dr_scope = ''user'', dr_reason = reason,
              dr_requested_by = requested_by, dr_now = now, dr_dsr_subject = Some subject_user_id\<rparr>
             (select_message_records jtext tenant_id
               (\<lambda>r. tr_subject_user_id r = Some subject_user_id) db)
             0 0 db b)"

section \<open>Shredding a tenant, logging a reveal\<close>

datatype shred_error = VaultError crypto_error | ChainError chain_error

definition shred_metadata :: "string \<Rightarrow> string \<Rightarrow> datetime \<Rightarrow> bool \<Rightarrow> json" where
  "shred_metadata reason requested_by now destroyed =
     JObj [(''scope'', JStr ''tenant''),
           (''reason'', JStr reason),
           (''requested_by'', JStr requested_by),
           (''deleted_at'', JStr (isoformat now)),
           (''dek_destroyed'', JBool destroyed)]"

definition crypto_shred_tenant ::
  "chain_env \<Rightarrow> datetime \<Rightarrow> string \<Rightarrow> string \<Rightarrow> string \<Rightarrow> vault \<Rightarrow> records_table
     \<Rightarrow> (vault \<times> records_table) \<times> (shred_error + bool \<times> bool)"
where
  "crypto_shred_tenant env now tenant_id reason requested_by v db =
     (case destroy_tenant_dek tenant_id v of
        Inl e \<Rightarrow> ((v, db), Inl (VaultError e))
      | Inr (v', destroyed) \<Rightarrow>
          (case append_deletion_event env tenant_id ''deletion:tenant'' now
                  (shred_metadata reason requested_by now destroyed) None db db of
             Inl e \<Rightarrow> ((v', db), Inl (ChainError e))
           | Inr (db', appended) \<Rightarrow> ((v', db'), Inr (destroyed, appended))))"

definition log_content_reveal ::
  "chain_env \<Rightarrow> datetime \<Rightarrow> string \<Rightarrow> string \<Rightarrow> string \<Rightarrow> string \<Rightarrow> string option \<Rightarrow> string option
     \<Rightarrow> records_table \<Rightarrow> chain_error + records_table"
where
  "log_content_reveal env now uuid_hex tenant_id scope revealed_by chat_id subject_user_id db =
     (let metadata = JObj ([(''scope'', JStr scope),
                            (''revealed_by'', JStr revealed_by),
                            (''revealed_at'', JStr (isoformat now))]
            @ (case chat_id of None \<Rightarrow> [] | Some c \<Rightarrow> [(''chat_id'', JStr c)])
            @ (case subject_user_id of None \<Rightarrow> [] | Some u \<Rightarrow> [(''subject_user_id'', JStr u)]))
      in bindE (append_telemetry_record env tenant_id
                  (content_event_args env RECORD_TYPE_REVEAL (''reveal:'' @ uuid_hex) now metadata subject_user_id) db)
           (\<lambda>(db', record). Inr db'))"

section \<open>Lemmas\<close>

text \<open>
  What storage must keep of a record that holds only strings, booleans and nulls under distinct keys:
  JSONB stores such metadata without loss, and the clock reads in the session's time zone.
\<close>

definition plain_json :: "json \<Rightarrow> bool" where
  "plain_json m \<longleftrightarrow>
     (\<exists>kvs. m = JObj kvs \<and> distinct (map fst kvs)
        \<and> (\<forall>x \<in> set (map snd kvs). x = JNull \<or> (\<exists>b. x = JBool b) \<or> (\<exists>s. x = JStr s)))"

definition deletion_env_ok :: "chain_env \<Rightarrow> datetime \<Rightarrow> bool" where
  "deletion_env_ok env now \<longleftrightarrow>
     package_contract env \<and> (\<forall>b. length (sha256 env b) = 32)
     \<and> (\<forall>m. plain_json m \<longrightarrow> sort_json (jsonb env m) = sort_json m)
     \<and> dt_off now = Some (session_tz env) \<and> valid_datetime now"

lemma content_event_args_simps [simp]:
  "ap_record_type (content_event_args env rt ei now md su) = rt"
  "ap_source_api (content_event_args env rt ei now md su) = SOURCE_API_CONTENT"
  "ap_external_id (content_event_args env rt ei now md su) = ei"
  "ap_content_hash (content_event_args env rt ei now md su) = deletion_content_hash env md"
  by (simp_all add: content_event_args_def)

lemma stable_event:
  assumes "deletion_env_ok env now" "plain_json md"
  shows "stable_args env (content_event_args env rt ei now md su)"
proof -
  have "plain_json (JObj [])" by (simp add: plain_json_def)
  with assms show ?thesis by (auto simp: stable_args_def deletion_env_ok_def content_event_args_def)
qed

lemma plain_deletion_metadata: "plain_json (deletion_metadata r sc re by now ds)"
  by (auto simp: plain_json_def deletion_metadata_def json_opt_def split: option.split)

lemma plain_shred_metadata: "plain_json (shred_metadata re by now d)"
  by (simp add: plain_json_def shred_metadata_def)

lemma fits_any_metadata:
  "args_fit t (content_event_args env rt ei now md su) = args_fit t (content_event_args env' rt ei now' md' su)"
  by (simp add: args_fit_def content_event_args_def)

lemma deletion_event_cases:
  assumes "deletion_env_ok env now" "well_chained env t db" "t \<noteq> []"
  shows "append_deletion_event env t ei now md su db db =
      (if \<not> args_fit t (content_event_args env RECORD_TYPE_DELETION ei now md su) then Inl Chain.DataError
       else if duplicate t SOURCE_API_CONTENT ei db then Inr (db, False)
       else Inr (fst (projr (append_telemetry_record env t
              (content_event_args env RECORD_TYPE_DELETION ei now md su) db)), True))"
proof -
  let ?a = "content_event_args env RECORD_TYPE_DELETION ei now md su"
  have len: "length (deletion_content_hash env md) = 32"
    using assms(1) by (simp add: deletion_env_ok_def deletion_content_hash_def)
  have pc: "package_contract env" using assms(1) by (simp add: deletion_env_ok_def)
  have u: "append_deletion_event env t ei now md su db db =
     (case append_telemetry_record env t ?a db of
        Inr (db', record) \<Rightarrow> Inr (db', True)
      | Inl Chain.IntegrityError \<Rightarrow> Inr (db, False)
      | Inl e \<Rightarrow> Inl e)"
    by (simp add: append_deletion_event_def append_telemetry_record_def)
  show ?thesis
    using append_cases [OF pc assms(2), of ?a] assms(3) len
    by (auto simp: u split: sum.splits chain_error.splits prod.splits)
qed

lemma deletion_event_True:
  assumes "append_deletion_event env t ei now md su snap db = Inr (db', True)"
  shows "\<exists>x. db' = db @ [x] \<and> tr_tenant_id x = t \<and> tr_source_api x = SOURCE_API_CONTENT
    \<and> tr_external_id x = ei \<and> tr_record_type x = RECORD_TYPE_DELETION \<and> tr_subject_user_id x = su
    \<and> append_between env t (content_event_args env RECORD_TYPE_DELETION ei now md su) snap db = Inr (db', x)"
proof -
  obtain x where x: "append_between env t (content_event_args env RECORD_TYPE_DELETION ei now md su) snap db = Inr (db', x)"
    using assms by (auto simp: append_deletion_event_def split: sum.splits chain_error.splits)
  then obtain r where "build_record env t (content_event_args env RECORD_TYPE_DELETION ei now md su)
      (chain_tip (rows_of t snap)) = Inr r" "x = store_row env r" "db' = db @ [x]"
    by (auto simp: append_between_Inr)
  with x build_record_fields(1,2,3,6,10) [OF this(1)] show ?thesis
    by (simp add: content_event_args_def)
qed

lemma deletion_event_chain:
  assumes "deletion_env_ok env now" "plain_json md" "well_chained env t' db"
    and "append_deletion_event env t ei now md su db db = Inr (db', k)"
  shows "well_chained env t' db'"
proof (cases k)
  case True
  then obtain x where "append_telemetry_record env t (content_event_args env RECORD_TYPE_DELETION ei now md su) db = Inr (db', x)"
    using deletion_event_True [of env t ei now md su db db db'] assms(4) True
    unfolding append_telemetry_record_def by auto
  then show ?thesis by (rule append_well_chained [OF _ stable_event [OF assms(1,2)] assms(3)])
next
  case False
  with assms(3,4) show ?thesis
    by (auto simp: append_deletion_event_def split: sum.splits chain_error.splits)
qed

text \<open>A deletion event that loses the race for a sequence number reports False, as if it existed.\<close>

lemma deletion_event_loses_race:
  assumes "deletion_env_ok env now" "append_telemetry_record env t c snap = Inr (db, y)"
    and "args_fit t (content_event_args env RECORD_TYPE_DELETION ei now md su)"
  shows "append_deletion_event env t ei now md su snap db = Inr (db, False)"
proof -
  have "append_between env t (content_event_args env RECORD_TYPE_DELETION ei now md su) snap db
      = Inl Chain.IntegrityError"
    by (rule append_race [OF _ _ assms(3,2)])
       (use assms(1) in \<open>auto simp: deletion_env_ok_def deletion_content_hash_def\<close>)
  then show ?thesis by (simp add: append_deletion_event_def)
qed

lemma delete_blob_other: "(t', k) \<noteq> (t, the (mr_content_ref r)) \<Longrightarrow> object_at t' k (delete_blob s t r b) = object_at t' k b"
proof -
  assume other: "(t', k) \<noteq> (t, the (mr_content_ref r))"
  have "object_at t' k (fst (delete_content s t ref b)) = object_at t' k b" if "(t', k) \<noteq> (t, ref)" for ref
    using delete_object_other [OF that]
    by (auto simp: delete_content_def split: sum.split prod.split) (metis fst_conv)
  with other show ?thesis by (auto simp: delete_blob_def split: option.split)
qed

lemma delete_blob_keeps: "object_at t k b = None \<Longrightarrow> object_at t k (delete_blob s t r b) = None"
proof -
  assume none: "object_at t k b = None"
  show ?thesis
  proof (cases "k = the (mr_content_ref r)")
    case True
    have "object_at t k (fst (delete_object s t k b)) = None" using delete_object_keeps [OF none] .
    then show ?thesis
      using none True
      by (auto simp: delete_blob_def delete_content_def split: option.split sum.split prod.split)
  qed (simp add: none delete_blob_other)
qed

lemma delete_blob_gone:
  assumes "available s" "validate_tenant_id t = Inr u" "mr_content_ref r = Some ref" "ref \<noteq> []"
  shows "object_at t ref (delete_blob s t r b) = None"
proof -
  obtain full where full: "full_key t ref = Inr full" using full_key_ok [OF assms(2,4)] by blast
  obtain i where i: "i < 3" "s i = Served" "\<forall>j < i. \<exists>a. s j = Lost a"
    using assms(1) unfolding available_def by blast
  have "\<exists>b'. delete_object s t ref b = delete_attempt t ref (s i) b'"
    unfolding delete_object_def using delete_attempt_lost [OF full] i full
    by (intro with_retry_answer) (auto simp: delete_attempt_def)
  then have "\<exists>b'. delete_object s t ref b = (b', Inr ())" using i(2) full by (auto simp: delete_attempt_def)
  then obtain b' where "delete_object s t ref b = (b', Inr ())" by blast
  with blobs.del_at [OF this] assms show ?thesis by (simp add: delete_blob_def delete_content_def)
qed

lemma delete_loop_other_tenants:
  "t' \<noteq> dr_tenant_id q \<Longrightarrow> delete_message_records env scheds q rows d a db b = ((db', b'), res) \<Longrightarrow>
     object_at t' k b' = object_at t' k b"
proof (induction rows arbitrary: scheds d a db b)
  case (Cons r rows)
  then show ?case
    by (auto simp: Let_def delete_blob_other split: sum.splits bool.splits)
qed simp

lemma delete_loop_step:
  "delete_message_records env scheds q (r # rows) d a db b = ((db', b'), res) \<Longrightarrow>
     (b' = delete_blob (scheds 0) (dr_tenant_id q) r b \<and> \<not> is_ok res)
     \<or> (\<exists>d1 a1 db1. delete_message_records env (\<lambda>i. scheds (Suc i)) q rows d1 a1 db1
            (delete_blob (scheds 0) (dr_tenant_id q) r b) = ((db', b'), res))"
  by (auto simp: Let_def split: sum.splits bool.splits)

lemma delete_loop_keeps:
  "object_at (dr_tenant_id q) k b = None \<Longrightarrow>
     delete_message_records env scheds q rows d a db b = ((db', b'), res) \<Longrightarrow>
     object_at (dr_tenant_id q) k b' = None"
proof (induction rows arbitrary: scheds d a db b)
  case (Cons r rows)
  have "object_at (dr_tenant_id q) k (delete_blob (scheds 0) (dr_tenant_id q) r b) = None"
    by (rule delete_blob_keeps [OF Cons.prems(1)])
  with Cons.IH delete_loop_step [OF Cons.prems(2)] show ?case by blast
qed simp

lemma delete_loop_gone:
  "\<forall>i. available (scheds i) \<Longrightarrow> validate_tenant_id (dr_tenant_id q) = Inr u \<Longrightarrow>
     delete_message_records env scheds q rows d a db b = ((db', b'), Inr res) \<Longrightarrow>
     r \<in> set rows \<Longrightarrow> mr_content_ref r = Some ref \<Longrightarrow> ref \<noteq> [] \<Longrightarrow>
     object_at (dr_tenant_id q) ref b' = None"
proof (induction rows arbitrary: scheds d a db b)
  case (Cons x rows)
  let ?b = "delete_blob (scheds 0) (dr_tenant_id q) x b"
  obtain s d1 a1 db1 where rest: "delete_message_records env s q rows d1 a1 db1 ?b = ((db', b'), Inr res)"
    "\<forall>i. available (s i)"
    using Cons.prems(1) delete_loop_step [OF Cons.prems(3)] by auto
  show ?case
  proof (cases "r = x")
    case True
    then have "object_at (dr_tenant_id q) ref ?b = None"
      using delete_blob_gone [of "scheds 0"] Cons.prems by blast
    then show ?thesis by (rule delete_loop_keeps [OF _ rest(1)])
  next
    case False
    with Cons.IH [OF rest(2) _ rest(1)] Cons.prems show ?thesis by simp
  qed
qed simp

lemma event_for_args:
  "event_for env q r = content_event_args env RECORD_TYPE_DELETION (''deletion:'' @ mr_external_id r) (dr_now q)
     (deletion_metadata r (dr_scope q) (dr_reason q) (dr_requested_by q) (dr_now q) (dr_dsr_subject q))
     (mr_subject_user_id r)"
  by (simp add: event_for_def)

lemma duplicate_append: "duplicate t sa ei db \<Longrightarrow> duplicate t sa ei (db @ es)"
  by (simp add: duplicate_def)

text \<open>What the loop does to the table.\<close>

definition loop_post ::
  "chain_env \<Rightarrow> deletion_request \<Rightarrow> message_row list \<Rightarrow> records_table \<Rightarrow> records_table \<Rightarrow> nat \<Rightarrow> nat \<Rightarrow> bool"
where
  "loop_post env q rows db db' n m \<longleftrightarrow>
     n + m = length rows
     \<and> (\<exists>es. db' = db @ es \<and> length es = n
          \<and> (\<forall>x \<in> set es. tr_tenant_id x = dr_tenant_id q \<and> tr_record_type x = RECORD_TYPE_DELETION))
     \<and> (\<forall>r \<in> set rows. args_fit (dr_tenant_id q) (event_for env q r)
          \<and> duplicate (dr_tenant_id q) SOURCE_API_CONTENT (''deletion:'' @ mr_external_id r) db')
     \<and> (\<forall>t. well_chained env t db')"

lemma delete_loop_table:
  assumes "deletion_env_ok env (dr_now q)" "dr_tenant_id q \<noteq> []"
  shows "\<forall>t. well_chained env t db \<Longrightarrow>
     delete_message_records env scheds q rows d a db b = ((db', b'), Inr (d', a')) \<Longrightarrow>
     \<exists>n m. d' = d + n \<and> a' = a + m \<and> loop_post env q rows db db' n m"
proof (induction rows arbitrary: scheds d a db b)
  case Nil
  then show ?case by (auto simp: loop_post_def)
next
  case (Cons r rows)
  let ?t = "dr_tenant_id q" and ?ei = "''deletion:'' @ mr_external_id r"
  let ?md = "deletion_metadata r (dr_scope q) (dr_reason q) (dr_requested_by q) (dr_now q) (dr_dsr_subject q)"
  let ?ev = "append_deletion_event env ?t ?ei (dr_now q) ?md (mr_subject_user_id r) db db"
  obtain db1 k where k: "?ev = Inr (db1, k)"
    using Cons.prems(2) by (auto simp: Let_def split: sum.splits)
  have wc: "\<forall>t. well_chained env t db1"
    using deletion_event_chain [OF assms(1) plain_deletion_metadata _ k] Cons.prems(1) by blast
  note cases = deletion_event_cases [OF assms(1) Cons.prems(1) [rule_format, of ?t] assms(2), of ?ei ?md "mr_subject_user_id r"]
  have fit: "args_fit ?t (event_for env q r)"
    using k cases unfolding event_for_args by (auto split: if_splits)
  have ev: "\<exists>es. db1 = db @ es \<and> length es = (if k then 1 else 0)
      \<and> (\<forall>x \<in> set es. tr_tenant_id x = ?t \<and> tr_record_type x = RECORD_TYPE_DELETION)
      \<and> duplicate ?t SOURCE_API_CONTENT ?ei db1"
  proof (cases k)
    case True
    then obtain x where "db1 = db @ [x]" "tr_tenant_id x = ?t" "tr_source_api x = SOURCE_API_CONTENT"
      "tr_external_id x = ?ei" "tr_record_type x = RECORD_TYPE_DELETION"
      using deletion_event_True [of env ?t ?ei "dr_now q" ?md "mr_subject_user_id r" db db db1] k by auto
    with True show ?thesis by (simp add: duplicate_def)
  next
    case False
    with k cases show ?thesis by (auto split: if_splits)
  qed
  have "\<exists>n m. d' = (if k then Suc d else d) + n \<and> a' = (if k then a else Suc a) + m \<and> loop_post env q rows db1 db' n m"
    using Cons.IH [OF wc, of _ "if k then Suc d else d" "if k then a else Suc a"] Cons.prems(2) k
    by (cases k) (auto simp: Let_def)
  then obtain n m where nm: "d' = (if k then Suc d else d) + n" "a' = (if k then a else Suc a) + m"
    "loop_post env q rows db1 db' n m" by blast
  obtain es where es: "db1 = db @ es" "length es = (if k then 1 else 0)"
    "\<forall>x \<in> set es. tr_tenant_id x = ?t \<and> tr_record_type x = RECORD_TYPE_DELETION"
    "duplicate ?t SOURCE_API_CONTENT ?ei db1"
    using ev by blast
  obtain es' where es': "db' = db1 @ es'" "length es' = n"
    "\<forall>x \<in> set es'. tr_tenant_id x = ?t \<and> tr_record_type x = RECORD_TYPE_DELETION"
    using nm(3) unfolding loop_post_def by blast
  have "loop_post env q (r # rows) db db' (n + (if k then 1 else 0)) (m + (if k then 0 else 1))"
    unfolding loop_post_def
  proof (intro conjI)
    show "\<exists>e. db' = db @ e \<and> length e = n + (if k then 1 else 0)
        \<and> (\<forall>x \<in> set e. tr_tenant_id x = ?t \<and> tr_record_type x = RECORD_TYPE_DELETION)"
      using es es' by (intro exI [of _ "es @ es'"]) auto
    show "\<forall>x \<in> set (r # rows). args_fit ?t (event_for env q x)
        \<and> duplicate ?t SOURCE_API_CONTENT (''deletion:'' @ mr_external_id x) db'"
      using nm(3) fit duplicate_append [OF es(4)] es'(1) by (simp add: loop_post_def)
  qed (use nm(3) in \<open>auto simp: loop_post_def\<close>)
  with nm(1,2) show ?case by (intro exI conjI) auto
qed

text \<open>A second pass finds every event in place and changes nothing.\<close>

lemma delete_loop_again:
  assumes "deletion_env_ok env (dr_now q)" "dr_tenant_id q \<noteq> []" "well_chained env (dr_tenant_id q) db"
    and "\<forall>r \<in> set rows. args_fit (dr_tenant_id q) (event_for env q r)
      \<and> duplicate (dr_tenant_id q) SOURCE_API_CONTENT (''deletion:'' @ mr_external_id r) db"
  shows "\<exists>b'. delete_message_records env scheds q rows d a db b = ((db, b'), Inr (d, a + length rows))"
  using assms(4)
proof (induction rows arbitrary: scheds d a b)
  case (Cons r rows)
  have "append_deletion_event env (dr_tenant_id q) (''deletion:'' @ mr_external_id r) (dr_now q)
      (deletion_metadata r (dr_scope q) (dr_reason q) (dr_requested_by q) (dr_now q) (dr_dsr_subject q))
      (mr_subject_user_id r) db db = Inr (db, False)"
    using Cons.prems deletion_event_cases [OF assms(1,3,2)] by (simp add: event_for_args)
  moreover have "\<forall>r \<in> set rows. args_fit (dr_tenant_id q) (event_for env q r)
      \<and> duplicate (dr_tenant_id q) SOURCE_API_CONTENT (''deletion:'' @ mr_external_id r) db"
    using Cons.prems by simp
  note Cons.IH [OF this, of "\<lambda>i. scheds (Suc i)" d "Suc a" "delete_blob (scheds 0) (dr_tenant_id q) r b"]
  ultimately show ?case by (simp add: Let_def)
qed simp

text \<open>The events a deletion appends are not messages, so it selects the same rows the next time.\<close>

lemma select_after_events:
  assumes "\<forall>x \<in> set es. tr_record_type x = RECORD_TYPE_DELETION"
  shows "select_message_records jtext t cond (db @ es) = select_message_records jtext t cond db"
proof -
  have "filter (\<lambda>r. tr_source_api r = SOURCE_API_CONTENT \<and> tr_record_type r = RECORD_TYPE_MESSAGE \<and> cond r)
      (rows_of t es) = []"
    using assms
    by (auto simp: filter_empty_conv rows_of_def RECORD_TYPE_MESSAGE_def RECORD_TYPE_DELETION_def)
  then show ?thesis by (simp add: select_message_records_def rows_of_def)
qed

lemma accepted_if_well_chained:
  "package_contract env \<Longrightarrow> well_chained env t db \<Longrightarrow> t \<noteq> [] \<Longrightarrow> accepted env t db"
  using well_chained_verifies [of env t db] by (auto simp: accepted_def)

abbreviation chat_messages :: "(json \<Rightarrow> string) \<Rightarrow> string \<Rightarrow> string \<Rightarrow> records_table \<Rightarrow> message_row list" where
  "chat_messages jtext t chat_id db \<equiv>
     select_message_records jtext t (\<lambda>r. json_field jtext ''chat_id'' (tr_record_metadata r) = Some chat_id) db"

section \<open>A sample table\<close>

definition sample_message :: append_args where
  "sample_message =
     sample_args ''m1''\<lparr>ap_record_type := RECORD_TYPE_MESSAGE, ap_source_api := SOURCE_API_CONTENT,
       ap_record_metadata := Some (JObj [(''chat_id'', JStr ''c1'')])\<rparr>"

lemma sample_deletion_env [simp]: "deletion_env_ok sample_env sample_time"
proof -
  have "dt_off sample_time = Some 0" by (simp add: sample_time_def)
  then show ?thesis by (simp add: deletion_env_ok_def)
qed

lemma sample_message_table:
  "\<exists>x. append_telemetry_record sample_env ''t1'' sample_message [] = Inr ([x], x)
     \<and> (\<forall>t. well_chained sample_env t [x]) \<and> tr_external_id x = ''m1''
     \<and> chat_messages jt ''t1'' ''c1'' [x] =
         [\<lparr>mr_external_id = ''m1'', mr_content_ref = Some ''blob'', mr_chat_id = Some ''c1'', mr_subject_user_id = None\<rparr>]"
proof -
  have len: "length (ap_content_hash sample_message) = 32" by (simp add: sample_message_def sample_args_def)
  obtain r where r: "build_record sample_env ''t1'' sample_message (chain_tip (rows_of ''t1'' [])) = Inr r"
    using build_record_ok [OF sample_contract _ len] by blast
  have fit: "args_fit ''t1'' sample_message"
    by (simp add: args_fit_def opt_fits_def sample_message_def sample_args_def RECORD_TYPE_MESSAGE_def SOURCE_API_CONTENT_def)
  let ?x = "store_row sample_env r"
  have wc0: "well_chained sample_env u []" for u by (simp add: well_chained_def rows_of_def)
  have app: "append_telemetry_record sample_env ''t1'' sample_message [] = Inr ([?x], ?x)"
    using append_fresh [OF wc0 r _ fit] by (simp add: duplicate_def)
  have st: "stable_args sample_env sample_message"
    using stable_sample_args [of "''m1''"] by (auto simp: stable_args_def sample_message_def)
  have md: "tr_record_metadata r = JObj [(''chat_id'', JStr ''c1'')]"
    using r by (auto simp: build_record_def Let_def sample_message_def split: if_splits option.splits)
  have sel: "chat_messages jt ''t1'' ''c1'' [?x] =
         [\<lparr>mr_external_id = ''m1'', mr_content_ref = Some ''blob'', mr_chat_id = Some ''c1'', mr_subject_user_id = None\<rparr>]"
    using build_record_fields [OF r] md
    by (simp add: select_message_records_def rows_of_def json_field_def store_row_def sample_message_def sample_args_def)
  have "tr_external_id ?x = ''m1''"
    using build_record_fields(3) [OF r] by (simp add: sample_message_def sample_args_def)
  then show ?thesis using app sel append_well_chained [OF app st wc0] by blast
qed

section \<open>Properties\<close>

text \<open>What deleting a chat does. When \<^verbatim>\<open>delete_chat\<close> returns, it has appended exactly as many
  deletion events as it reports, at the end of the table, and removed or changed no row; every message
  of the chat now has its deletion event, counted as new or as already there; every tenant's chain
  still verifies; when the service was reachable for each blob, no content of the chat is left in the
  store; and no other tenant's objects were touched.\<close>

lemma delete_chat_effect:
  assumes "deletion_env_ok env now" "\<forall>u. well_chained env u db"
    and "delete_chat env jtext scheds now t chat_id reason by_whom db b = ((db', b'), Inr (n, m))"
    and "msgs = chat_messages jtext t chat_id db"
  shows "n + m = length msgs
    \<and> (\<exists>es. db' = db @ es \<and> length es = n
         \<and> (\<forall>x \<in> set es. tr_tenant_id x = t \<and> tr_record_type x = RECORD_TYPE_DELETION))
    \<and> (\<forall>r \<in> set msgs. duplicate t SOURCE_API_CONTENT (''deletion:'' @ mr_external_id r) db')
    \<and> (\<forall>u. u \<noteq> [] \<longrightarrow> accepted env u db')
    \<and> (\<forall>r ref. r \<in> set msgs \<and> mr_content_ref r = Some ref \<and> ref \<noteq> [] \<and> is_ok (validate_tenant_id t)
         \<and> (\<forall>i. available (scheds i)) \<longrightarrow> object_at t ref b' = None)
    \<and> (\<forall>u k. u \<noteq> t \<longrightarrow> object_at u k b' = object_at u k b)"
proof -
  let ?q = "\<lparr>dr_tenant_id = t, dr_scope = ''chat'', dr_reason = reason,
              dr_requested_by = by_whom, dr_now = now, dr_dsr_subject = None\<rparr>"
  have t: "t \<noteq> []" and run: "delete_message_records env scheds ?q msgs 0 0 db b = ((db', b'), Inr (n, m))"
    using assms(3,4) by (auto simp: delete_chat_def split: if_splits)
  have post: "loop_post env ?q msgs db db' n m"
    using delete_loop_table [of env ?q, OF _ _ assms(2) run] assms(1) t by simp
  have pc: "package_contract env" using assms(1) by (simp add: deletion_env_ok_def)
  have gone: "object_at t ref b' = None"
    if "r \<in> set msgs" "mr_content_ref r = Some ref" "ref \<noteq> []" "is_ok (validate_tenant_id t)" "\<forall>i. available (scheds i)" for r ref
  proof -
    have "validate_tenant_id t = Inr ()" using that(4) by (cases "validate_tenant_id t") simp_all
    with delete_loop_gone [OF that(5) _ run that(1-3)] show ?thesis by simp
  qed
  have others: "object_at u k b' = object_at u k b" if "u \<noteq> t" for u k
    using delete_loop_other_tenants [OF _ run] that by simp
  have acc: "accepted env u db'" if "u \<noteq> []" for u
    using post that by (intro accepted_if_well_chained [OF pc]) (simp_all add: loop_post_def)
  have "n + m = length msgs"
    "\<exists>es. db' = db @ es \<and> length es = n \<and> (\<forall>x \<in> set es. tr_tenant_id x = t \<and> tr_record_type x = RECORD_TYPE_DELETION)"
    "\<forall>r \<in> set msgs. duplicate t SOURCE_API_CONTENT (''deletion:'' @ mr_external_id r) db'"
    using post by (simp_all add: loop_post_def)
  with gone others acc show ?thesis by blast
qed

lemma delete_chat_effect_witness:
  "\<exists>x db b. delete_chat sample_env dumps (\<lambda>_ _. Served) sample_time ''t1'' ''c1'' ''dsr'' ''admin'' [x]
        [''tenants/t1/blob'' \<mapsto> ''secret''] = ((db, b), Inr (1, 0))
     \<and> accepted sample_env ''t1'' db \<and> object_at ''t1'' ''blob'' b = None"
proof -
  obtain x where x: "\<forall>u. well_chained sample_env u [x]" "chat_messages dumps ''t1'' ''c1'' [x] =
         [\<lparr>mr_external_id = ''m1'', mr_content_ref = Some ''blob'', mr_chat_id = Some ''c1'', mr_subject_user_id = None\<rparr>]"
    "tr_external_id x = ''m1''"
    using sample_message_table by blast
  let ?ei = "''deletion:m1''" and ?r = "\<lparr>mr_external_id = ''m1'', mr_content_ref = Some ''blob'', mr_chat_id = Some ''c1'', mr_subject_user_id = None\<rparr>"
  let ?md = "deletion_metadata ?r ''chat'' ''dsr'' ''admin'' sample_time None"
  have fit: "args_fit ''t1'' (content_event_args sample_env RECORD_TYPE_DELETION ?ei sample_time ?md None)"
    by (simp add: args_fit_def opt_fits_def content_event_args_def RECORD_TYPE_DELETION_def SOURCE_API_CONTENT_def)
  obtain db where "append_deletion_event sample_env ''t1'' ?ei sample_time ?md None [x] [x] = Inr (db, True)"
    using deletion_event_cases [OF sample_deletion_env x(1) [rule_format, of "''t1''"], of ?ei ?md None] fit x(3)
    by (auto simp: duplicate_def)
  then have run: "\<exists>b. delete_chat sample_env dumps (\<lambda>_ _. Served) sample_time ''t1'' ''c1'' ''dsr'' ''admin'' [x]
        [''tenants/t1/blob'' \<mapsto> ''secret''] = ((db, b), Inr (1, 0))"
    by (simp add: delete_chat_def x(2))
  then obtain b where run: "delete_chat sample_env dumps (\<lambda>_ _. Served) sample_time ''t1'' ''c1'' ''dsr'' ''admin'' [x]
        [''tenants/t1/blob'' \<mapsto> ''secret''] = ((db, b), Inr (1, 0))" by blast
  have ok: "is_ok (validate_tenant_id ''t1'')" by (simp add: validate_tenant_id_def startswith_def)
  note effect = delete_chat_effect [OF sample_deletion_env x(1) run refl]
  have "accepted sample_env ''t1'' db" using effect by blast
  moreover have "object_at ''t1'' ''blob'' b = None" using effect ok by (simp add: x(2))
  ultimately show ?thesis using run by blast
qed

text \<open>Deleting a chat again is a no-op on the records: after a run that returned, a second run,
  whatever its reason, requester and network, appends nothing and reports every message as already
  deleted. It still retries the blobs the first run may have missed.\<close>

lemma delete_chat_idempotent:
  assumes "deletion_env_ok env now" "\<forall>u. well_chained env u db"
    and "delete_chat env jtext s1 now t chat_id reason by_whom db b = ((db', b'), Inr (n, m))"
    and "deletion_env_ok env now'"
  shows "\<exists>b''. delete_chat env jtext s2 now' t chat_id reason' by_whom' db' b2 = ((db', b''), Inr (0, n + m))"
proof -
  let ?q = "\<lparr>dr_tenant_id = t, dr_scope = ''chat'', dr_reason = reason,
              dr_requested_by = by_whom, dr_now = now, dr_dsr_subject = None\<rparr>"
  let ?p = "\<lparr>dr_tenant_id = t, dr_scope = ''chat'', dr_reason = reason',
              dr_requested_by = by_whom', dr_now = now', dr_dsr_subject = None\<rparr>"
  let ?msgs = "chat_messages jtext t chat_id db"
  have t: "t \<noteq> [] \<and> chat_id \<noteq> []" and run: "delete_message_records env s1 ?q ?msgs 0 0 db b = ((db', b'), Inr (n, m))"
    using assms(3) by (auto simp: delete_chat_def split: if_splits)
  have post: "loop_post env ?q ?msgs db db' n m"
    using delete_loop_table [of env ?q, OF _ _ assms(2) run] assms(1) t by simp
  then obtain es where es: "db' = db @ es" "\<forall>x \<in> set es. tr_record_type x = RECORD_TYPE_DELETION"
    unfolding loop_post_def by blast
  have sel: "chat_messages jtext t chat_id db' = ?msgs"
    unfolding es(1) by (rule select_after_events [OF es(2)])
  have fits: "args_fit t (event_for env ?p r) = args_fit t (event_for env ?q r)" for r
    unfolding event_for_args by (simp add: fits_any_metadata [of t env _ _ now'])
  have "\<exists>b''. delete_message_records env s2 ?p ?msgs 0 0 db' b2 = ((db', b''), Inr (0, 0 + length ?msgs))"
    by (rule delete_loop_again) (use post assms(4) t fits in \<open>simp_all add: loop_post_def\<close>)
  moreover have "n + m = length ?msgs" using post by (simp add: loop_post_def)
  ultimately show ?thesis using t by (simp add: delete_chat_def sel)
qed

lemma delete_chat_idempotent_witness:
  "\<exists>db b b''. delete_chat sample_env dumps (\<lambda>_ _. Served) sample_time ''t1'' ''c1'' ''again'' ''other'' db b
     = ((db, b''), Inr (0, 1)) \<and> length db = 2"
proof -
  obtain x where x: "\<forall>u. well_chained sample_env u [x]" "chat_messages dumps ''t1'' ''c1'' [x] =
         [\<lparr>mr_external_id = ''m1'', mr_content_ref = Some ''blob'', mr_chat_id = Some ''c1'', mr_subject_user_id = None\<rparr>]"
    "tr_external_id x = ''m1''"
    using sample_message_table by blast
  let ?ei = "''deletion:m1''" and ?r = "\<lparr>mr_external_id = ''m1'', mr_content_ref = Some ''blob'', mr_chat_id = Some ''c1'', mr_subject_user_id = None\<rparr>"
  let ?md = "deletion_metadata ?r ''chat'' ''dsr'' ''admin'' sample_time None"
  have fit: "args_fit ''t1'' (content_event_args sample_env RECORD_TYPE_DELETION ?ei sample_time ?md None)"
    by (simp add: args_fit_def opt_fits_def content_event_args_def RECORD_TYPE_DELETION_def SOURCE_API_CONTENT_def)
  obtain db where ev: "append_deletion_event sample_env ''t1'' ?ei sample_time ?md None [x] [x] = Inr (db, True)"
    using deletion_event_cases [OF sample_deletion_env x(1) [rule_format, of "''t1''"], of ?ei ?md None] fit x(3)
    by (auto simp: duplicate_def)
  then obtain b where run: "delete_chat sample_env dumps (\<lambda>_ _. Served) sample_time ''t1'' ''c1'' ''dsr'' ''admin'' [x]
        [''tenants/t1/blob'' \<mapsto> ''secret''] = ((db, b), Inr (1, 0))"
    by (simp add: delete_chat_def x(2))
  have "length db = 2" using deletion_event_True [OF ev] by auto
  with delete_chat_idempotent [OF sample_deletion_env x(1) run sample_deletion_env, of "\<lambda>_ _. Served" "''again''" "''other''" b]
  show ?thesis by auto
qed

text \<open>Shredding a tenant is final and recorded. When \<^verbatim>\<open>crypto_shred_tenant\<close> returns, the tenant has no
  data key, so none of its content can be read again, the deletion event is in the table, the chain
  still verifies, and shredding once more changes nothing and reports (False, False).\<close>

lemma crypto_shred_tenant_effect:
  assumes "deletion_env_ok env now" "\<forall>u. well_chained env u db"
    and "crypto_shred_tenant env now t reason by_whom v db = ((v', db'), Inr (destroyed, appended))"
  shows "(\<forall>cenv s k b p. retrieve_content cenv s t k v' b \<noteq> Inr p)
    \<and> destroyed = (tenant_deks v t \<noteq> None)
    \<and> duplicate t SOURCE_API_CONTENT ''deletion:tenant'' db'
    \<and> (\<forall>u. u \<noteq> [] \<longrightarrow> accepted env u db')
    \<and> crypto_shred_tenant env now t reason' by_whom' v' db' = ((v', db'), Inr (False, False))"
proof -
  have t: "t \<noteq> []" and d: "destroy_tenant_dek t v = Inr (v', destroyed)"
    and ev: "append_deletion_event env t ''deletion:tenant'' now (shred_metadata reason by_whom now destroyed) None db db
      = Inr (db', appended)"
    using assms(3) by (auto simp: crypto_shred_tenant_def destroy_tenant_dek_def split: sum.splits if_splits option.splits)
  have none: "tenant_deks v' t = None" and des: "destroyed = (tenant_deks v t \<noteq> None)"
    using d by (auto simp: destroy_tenant_dek_def split: if_splits option.splits)
  have "get_tenant_dek cenv t v' = Inl LookupError" for cenv using none t by (simp add: get_tenant_dek_def)
  then have read: "retrieve_content cenv s t k v' b \<noteq> Inr p" for cenv s k b p
    using retrieve_content_Inr by fastforce
  note cases = deletion_event_cases [OF assms(1) assms(2) [rule_format, of t] t]
  have fit: "args_fit t (content_event_args env RECORD_TYPE_DELETION ''deletion:tenant'' now (shred_metadata reason by_whom now destroyed) None)"
    using ev by (auto simp: cases split: if_splits)
  have dup: "duplicate t SOURCE_API_CONTENT ''deletion:tenant'' db'"
  proof (cases appended)
    case True
    then obtain x where "db' = db @ [x]" "tr_tenant_id x = t" "tr_source_api x = SOURCE_API_CONTENT"
      "tr_external_id x = ''deletion:tenant''"
      using deletion_event_True [of env t "''deletion:tenant''" now _ None db db db'] ev by fastforce
    then show ?thesis by (simp add: duplicate_def)
  next
    case False
    with ev show ?thesis by (auto simp: cases split: if_splits)
  qed
  have wc: "well_chained env u db'" for u
    by (rule deletion_event_chain [OF assms(1) plain_shred_metadata assms(2) [rule_format] ev])
  have "append_deletion_event env t ''deletion:tenant'' now (shred_metadata reason' by_whom' now False) None db' db' = Inr (db', False)"
    using deletion_event_cases [OF assms(1) wc t, of "''deletion:tenant''" "shred_metadata reason' by_whom' now False" None]
      fit dup fits_any_metadata [of t env RECORD_TYPE_DELETION "''deletion:tenant''" now
        "shred_metadata reason by_whom now destroyed" None env now "shred_metadata reason' by_whom' now False"]
    by simp
  then have "crypto_shred_tenant env now t reason' by_whom' v' db' = ((v', db'), Inr (False, False))"
    using t none by (simp add: crypto_shred_tenant_def destroy_tenant_dek_def)
  moreover have "accepted env u db'" if "u \<noteq> []" for u
    using assms(1) by (intro accepted_if_well_chained [OF _ wc that]) (simp add: deletion_env_ok_def)
  ultimately show ?thesis using read des dup by blast
qed

lemma crypto_shred_tenant_effect_witness:
  "\<exists>v db. crypto_shred_tenant sample_env sample_time ''t1'' ''offboard'' ''admin'' sample_vault [] = ((v, db), Inr (True, True))
     \<and> accepted sample_env ''t1'' db
     \<and> crypto_shred_tenant sample_env sample_time ''t1'' ''x'' ''y'' v db = ((v, db), Inr (False, False))"
proof -
  have wc: "\<forall>u. well_chained sample_env u []" by (simp add: well_chained_def rows_of_def)
  obtain v where v: "destroy_tenant_dek ''t1'' sample_vault = Inr (v, True)"
    using sample_vault_deks(1) by (auto simp: destroy_tenant_dek_def)
  let ?md = "shred_metadata ''offboard'' ''admin'' sample_time True"
  have fit: "args_fit ''t1'' (content_event_args sample_env RECORD_TYPE_DELETION ''deletion:tenant'' sample_time ?md None)"
    by (simp add: args_fit_def opt_fits_def content_event_args_def RECORD_TYPE_DELETION_def SOURCE_API_CONTENT_def)
  obtain db where ev: "append_deletion_event sample_env ''t1'' ''deletion:tenant'' sample_time ?md None [] [] = Inr (db, True)"
    using deletion_event_cases [OF sample_deletion_env wc [rule_format, of "''t1''"], of "''deletion:tenant''" ?md None] fit
    by (auto simp: duplicate_def)
  have run: "crypto_shred_tenant sample_env sample_time ''t1'' ''offboard'' ''admin'' sample_vault [] = ((v, db), Inr (True, True))"
    by (simp add: crypto_shred_tenant_def v ev)
  from crypto_shred_tenant_effect [OF sample_deletion_env wc run] run show ?thesis by blast
qed

end
