(* ===== verification/Metering.thy ===== *)
theory Metering
  imports PyTime
begin

text \<open>
  \<^verbatim>\<open>metering.py\<close>, \<^verbatim>\<open>billing/stripe_client.py\<close> and their tables: counters incremented in a Redis hash
  and drained once a minute into \<^verbatim>\<open>usage_records\<close>, with a usage event to Stripe for every drained
  counter. The state holds the Redis keys with the times at which they expire, the three tables and the
  ledger of usage events Stripe has charged; the clock readings, what Stripe answers, which calls Redis
  answers and which tenants' transactions go through are arguments of the operation. Redis expires keys by
  its own clock, which is taken to agree with the workers'.
\<close>

section \<open>Counters\<close>

text \<open>
  Both stores count in the same way: adding to a key changes that key's count and no other. What a
  batch of additions does follows from that alone.
\<close>

locale counter_store =
  fixes cnt :: "'s \<Rightarrow> 'k \<Rightarrow> int"
    and add :: "'k \<Rightarrow> int \<Rightarrow> 's \<Rightarrow> 's"
    and good :: "'s \<Rightarrow> bool"
  assumes cnt_add: "good s \<Longrightarrow> cnt (add k n s) k' = cnt s k' + (if k' = k then n else 0)"
    and good_add: "good s \<Longrightarrow> good (add k n s)"
begin

lemma good_fold: "good s \<Longrightarrow> good (fold (\<lambda>(k, n). add k n) xs s)"
  by (induction xs arbitrary: s) (auto intro: good_add)

lemma cnt_fold:
  "good s \<Longrightarrow> cnt (fold (\<lambda>(k, n). add k n) xs s) k' = cnt s k' + (\<Sum>(k, n) \<leftarrow> xs. if k' = k then n else 0)"
  by (induction xs arbitrary: s) (auto simp: cnt_add good_add)

text \<open>Additions commute as far as any count is concerned.\<close>

lemma cnt_fold_rev:
  "good s \<Longrightarrow> cnt (fold (\<lambda>(k, n). add k n) (rev xs) s) k' = cnt (fold (\<lambda>(k, n). add k n) xs s) k'"
  by (simp add: cnt_fold flip: rev_map)

end

section \<open>The Redis hash\<close>

type_synonym redis_hash = "(string \<times> int) list"

definition FIELD_DELIM :: char where
  "FIELD_DELIM = CHR 0x1F"

fun hincrby :: "string \<Rightarrow> int \<Rightarrow> redis_hash \<Rightarrow> redis_hash" where
  "hincrby f n [] = [(f, n)]"
| "hincrby f n ((g, c) # h) = (if f = g then (g, c + n) # h else (g, c) # hincrby f n h)"

definition hget :: "redis_hash \<Rightarrow> string \<Rightarrow> int" where
  "hget h f = (case map_of h f of None \<Rightarrow> 0 | Some c \<Rightarrow> c)"

definition meter_field :: "string \<Rightarrow> string \<Rightarrow> datetime \<Rightarrow> string" where
  "meter_field tenant_id record_type bucket =
     tenant_id @ [FIELD_DELIM] @ record_type @ [FIELD_DELIM] @ isoformat bucket"

text \<open>\<^verbatim>\<open>field.split(delim, 2)\<close>: at most two cuts; fewer than three parts do not unpack.\<close>

fun split_once :: "string \<Rightarrow> (string \<times> string) option" where
  "split_once [] = None"
| "split_once (c # s) =
     (if c = FIELD_DELIM then Some ([], s) else map_option (map_prod (Cons c) id) (split_once s))"

definition split_field :: "string \<Rightarrow> (string \<times> string \<times> string) option" where
  "split_field s =
     Option.bind (split_once s) (\<lambda>(t, s). Option.bind (split_once s) (\<lambda>(r, b). Some (t, r, b)))"

section \<open>State\<close>

type_synonym item = "string \<times> datetime \<times> int"
type_synonym usage_key = "string \<times> datetime \<times> string"

record usage_request =
  ur_subscription_item_id :: string
  ur_quantity :: int
  ur_timestamp :: int
  ur_idempotency_key :: string

record retry_row =
  rr_tenant_id :: string
  rr_record_type :: string
  rr_bucket_start :: datetime
  rr_quantity :: int
  rr_last_error :: string
  rr_attempts :: int

text \<open>A key of Redis comes with the time until which it is kept, in microseconds.\<close>

record meter =
  m_active :: "(int \<times> redis_hash) option"
  m_flush :: "(string \<times> int \<times> redis_hash) list"
  m_usage :: "usage_key \<Rightarrow> int option"
  m_ledger :: "usage_request list"
  m_retry :: "retry_row list"

text \<open>
  What Stripe does with a request, given what it has charged so far; which of the four calls of a flush
  (1 \<^verbatim>\<open>rename\<close>, 2 \<^verbatim>\<open>expire\<close>, 3 \<^verbatim>\<open>hgetall\<close>, 4 \<^verbatim>\<open>delete\<close>) Redis answers; for which tenants the transaction of
  \<^verbatim>\<open>session_scope\<close> can be made.
\<close>

datatype stripe_answer = Charged | Replayed | Declined string

record billing_env =
  tenant_billing :: "string \<Rightarrow> string option"
  dispatcher :: "(usage_request list \<Rightarrow> usage_request \<Rightarrow> stripe_answer) option"
  redis_answers :: "nat \<Rightarrow> bool"
  tenant_commits :: "string \<Rightarrow> bool"

datatype meter_error = ValueError | DataError | ConnectionError | OperationalError

definition TTL_SECONDS :: int where
  "TTL_SECONDS = 7200"

definition expires_at :: "int \<Rightarrow> int" where
  "expires_at now = now + TTL_SECONDS * 1000000"

text \<open>What Redis still has at a time.\<close>

definition redis_at :: "int \<Rightarrow> meter \<Rightarrow> meter" where
  "redis_at now m =
     m\<lparr>m_active := (case m_active m of None \<Rightarrow> None | Some (e, h) \<Rightarrow> if e < now then None else Some (e, h)),
       m_flush := filter (\<lambda>(k, e, h). now \<le> e) (m_flush m)\<rparr>"

definition active_hash :: "meter \<Rightarrow> redis_hash" where
  "active_hash m = (case m_active m of None \<Rightarrow> [] | Some (e, h) \<Rightarrow> h)"

section \<open>Increment\<close>

text \<open>\<^verbatim>\<open>_minute_bucket\<close>: the current time without seconds, which is always UTC.\<close>

definition minute_bucket :: "datetime \<Rightarrow> datetime" where
  "minute_bucket now = now\<lparr>dt_us := dt_us now div 60000000 * 60000000\<rparr>"

text \<open>The pipeline of \<^verbatim>\<open>HINCRBY\<close> and \<^verbatim>\<open>EXPIRE\<close>: the hash that is still there takes the count and lives for two hours more.\<close>

definition increment :: "datetime \<Rightarrow> string \<Rightarrow> string \<Rightarrow> int \<Rightarrow> meter \<Rightarrow> meter_error + meter" where
  "increment now tenant_id record_type n m =
     (if tenant_id = [] \<or> record_type = [] then Inl ValueError
      else if FIELD_DELIM \<in> set tenant_id \<or> FIELD_DELIM \<in> set record_type then Inl ValueError
      else if n \<le> 0 then Inl ValueError
      else let m = redis_at (instant now) m
           in Inr (m\<lparr>m_active := Some (expires_at (instant now),
                hincrby (meter_field tenant_id record_type (minute_bucket now)) n (active_hash m))\<rparr>))"

section \<open>Stripe\<close>

definition idempotency_key :: "string \<Rightarrow> string \<Rightarrow> datetime \<Rightarrow> string" where
  "idempotency_key tenant_id record_type bucket_start =
     tenant_id @ '':'' @ record_type @ '':'' @ isoformat bucket_start"

definition usage_request_for :: "string \<Rightarrow> string \<Rightarrow> item \<Rightarrow> usage_request" where
  "usage_request_for subscription_item_id tenant_id it =
     (case it of (record_type, bucket_start, quantity) \<Rightarrow>
        \<lparr>ur_subscription_item_id = subscription_item_id, ur_quantity = quantity,
         ur_timestamp = timestamp_us bucket_start div 1000000,
         ur_idempotency_key = idempotency_key tenant_id record_type bucket_start\<rparr>)"

definition report_item ::
  "(usage_request list \<Rightarrow> usage_request \<Rightarrow> stripe_answer) \<Rightarrow> string \<Rightarrow> string \<Rightarrow> item
     \<Rightarrow> usage_request list \<times> retry_row list \<Rightarrow> usage_request list \<times> retry_row list"
where
  "report_item stripe sub tenant_id it s =
     (case s of (ledger, retries) \<Rightarrow>
        (case stripe ledger (usage_request_for sub tenant_id it) of
           Charged \<Rightarrow> (ledger @ [usage_request_for sub tenant_id it], retries)
         | Replayed \<Rightarrow> (ledger, retries)
         | Declined err \<Rightarrow>
             (ledger, retries @ [\<lparr>rr_tenant_id = tenant_id, rr_record_type = fst it,
                rr_bucket_start = fst (snd it), rr_quantity = snd (snd it),
                rr_last_error = take 1000 err, rr_attempts = 1\<rparr>])))"

definition report_usage ::
  "billing_env \<Rightarrow> string \<Rightarrow> item list \<Rightarrow> usage_request list \<times> retry_row list \<Rightarrow> usage_request list \<times> retry_row list"
where
  "report_usage env tenant_id items s =
     (if items = [] then s
      else case tenant_billing env tenant_id of
        None \<Rightarrow> s
      | Some sub \<Rightarrow>
          (case dispatcher env of
             None \<Rightarrow> s
           | Some stripe \<Rightarrow> fold (report_item stripe sub tenant_id) items s))"

section \<open>Flush\<close>

text \<open>One UPSERT; a text wider than its column raises, and the tenant's transaction rolls back, as it does when the
  database fails.\<close>

definition upsert_row :: "usage_key \<Rightarrow> int \<Rightarrow> (usage_key \<Rightarrow> int option) \<Rightarrow> (usage_key \<Rightarrow> int option)" where
  "upsert_row k n u = u(k \<mapsto> (case u k of None \<Rightarrow> n | Some c \<Rightarrow> c + n))"

definition upsert_usage :: "billing_env \<Rightarrow> string \<Rightarrow> item list \<Rightarrow> meter \<Rightarrow> meter_error + meter" where
  "upsert_usage env tenant_id items m =
     (if items = [] then Inr m
      else if \<not> tenant_commits env tenant_id then Inl OperationalError
      else if 64 < length tenant_id \<or> list_ex (\<lambda>(rt, b, c). 32 < length rt) items then Inl DataError
      else
        let usage = fold (\<lambda>(k, n). upsert_row k n) (map (\<lambda>(rt, b, c). ((tenant_id, b, rt), c)) items) (m_usage m);
            (ledger, retries) = report_usage env tenant_id items (m_ledger m, m_retry m)
        in Inr (m\<lparr>m_usage := usage, m_ledger := ledger, m_retry := retries\<rparr>))"

fun group_item :: "string \<Rightarrow> item \<Rightarrow> (string \<times> item list) list \<Rightarrow> (string \<times> item list) list" where
  "group_item t it [] = [(t, [it])]"
| "group_item t it ((u, its) # gs) = (if t = u then (u, its @ [it]) # gs else (u, its) # group_item t it gs)"

fun group_entries :: "redis_hash \<Rightarrow> (string \<times> item list) list \<Rightarrow> meter_error + (string \<times> item list) list" where
  "group_entries [] gs = Inr gs"
| "group_entries ((field, c) # es) gs =
     (case split_field field of
        None \<Rightarrow> Inl ValueError
      | Some (tenant_id, record_type, bucket_iso) \<Rightarrow>
          (case fromisoformat bucket_iso of
             None \<Rightarrow> Inl ValueError
           | Some bucket_start \<Rightarrow> group_entries es (group_item tenant_id (record_type, bucket_start, c) gs)))"

text \<open>The tenants commit one after the other; an error ends the flush with the earlier ones committed.\<close>

fun flush_tenants :: "billing_env \<Rightarrow> (string \<times> item list) list \<Rightarrow> nat \<Rightarrow> meter \<Rightarrow> meter \<times> (meter_error + nat)" where
  "flush_tenants env [] processed m = (m, Inr processed)"
| "flush_tenants env ((tenant_id, items) # gs) processed m =
     (case upsert_usage env tenant_id items m of
        Inl e \<Rightarrow> (m, Inl e)
      | Inr m' \<Rightarrow> flush_tenants env gs (processed + length items) m')"

text \<open>A call that Redis does not answer raises and leaves what the calls and transactions before it did; only the
  \<^verbatim>\<open>ResponseError\<close> of a missing hash is caught.\<close>

definition flush :: "billing_env \<Rightarrow> int \<Rightarrow> string \<Rightarrow> meter \<Rightarrow> meter \<times> (meter_error + nat)" where
  "flush env now flush_key m =
     (let m0 = redis_at now m;
          rename = (\<lambda>e h. m0\<lparr>m_active := None, m_flush := (flush_key, e, h) # filter (\<lambda>(k, e, h). k \<noteq> flush_key) (m_flush m0)\<rparr>);
          drop_key = (\<lambda>m n. if redis_answers env 4 then (m\<lparr>m_flush := filter (\<lambda>(k, e, h). k \<noteq> flush_key) (m_flush m)\<rparr>, Inr n)
                            else (m, Inl ConnectionError))
      in if \<not> redis_answers env 1 then (m0, Inl ConnectionError)
         else case m_active m0 of
           None \<Rightarrow> (m0, Inr 0)
         | Some (e, entries) \<Rightarrow>
             if \<not> redis_answers env 2 then (rename e entries, Inl ConnectionError)
             else let m1 = rename (expires_at now) entries
                  in if \<not> redis_answers env 3 then (m1, Inl ConnectionError)
                     else if entries = [] then drop_key m1 0
                     else case group_entries entries [] of
                            Inl e \<Rightarrow> (m1, Inl e)
                          | Inr by_tenant \<Rightarrow>
                              (case flush_tenants env by_tenant 0 m1 of
                                 (m2, Inl e) \<Rightarrow> (m2, Inl e)
                               | (m2, Inr processed) \<Rightarrow> drop_key m2 processed))"

section \<open>The two stores count alike\<close>

definition usage_count :: "(usage_key \<Rightarrow> int option) \<Rightarrow> usage_key \<Rightarrow> int" where
  "usage_count u k = (case u k of None \<Rightarrow> 0 | Some c \<Rightarrow> c)"

lemma fst_set_hincrby: "fst ` set (hincrby f n h) = insert f (fst ` set h)"
  by (induction f n h rule: hincrby.induct) auto

lemmas keys_hincrby = fst_set_hincrby [folded set_map]

lemma map_of_hincrby:
  "map_of (hincrby f n h) g = (if g = f then Some (hget h f + n) else map_of h g)"
  by (induction f n h rule: hincrby.induct) (auto simp: hget_def)

lemma distinct_hincrby: "distinct (map fst h) \<Longrightarrow> distinct (map fst (hincrby f n h))"
  by (induction f n h rule: hincrby.induct) (auto simp: keys_hincrby simp del: set_map)

interpretation redis_counter: counter_store hget hincrby "\<lambda>h. distinct (map fst h)"
  by unfold_locales (auto simp: hget_def map_of_hincrby distinct_hincrby)

interpretation usage_counter: counter_store usage_count upsert_row "\<lambda>_. True"
  by unfold_locales (auto simp: usage_count_def upsert_row_def split: option.split)

text \<open>A hash's count is the sum over its entries.\<close>

lemma hget_sum: "distinct (map fst h) \<Longrightarrow> hget h f = (\<Sum>(g, c) \<leftarrow> h. if g = f then c else 0)"
proof (induction h)
  case (Cons e h)
  have "(\<Sum>(g, c) \<leftarrow> h. if g = f then c else 0) = 0" if "f \<notin> fst ` set h"
    using that by (induction h) auto
  with Cons show ?case by (cases e) (auto simp: hget_def)
qed (simp add: hget_def)

section \<open>Fields\<close>

lemma split_once_delim [simp]: "FIELD_DELIM \<notin> set t \<Longrightarrow> split_once (t @ FIELD_DELIM # s) = Some (t, s)"
  by (induction t) auto

lemma split_meter_field [simp]:
  "FIELD_DELIM \<notin> set t \<Longrightarrow> FIELD_DELIM \<notin> set r \<Longrightarrow> split_field (meter_field t r b) = Some (t, r, isoformat b)"
  by (simp add: split_field_def meter_field_def)

definition key_ok :: "usage_key \<Rightarrow> bool" where
  "key_ok k = (case k of (t, b, r) \<Rightarrow>
     t \<noteq> [] \<and> r \<noteq> [] \<and> FIELD_DELIM \<notin> set t \<and> FIELD_DELIM \<notin> set r \<and> py_datetime b)"

definition key_fits :: "usage_key \<Rightarrow> bool" where
  "key_fits k = (case k of (t, b, r) \<Rightarrow> length t \<le> 64 \<and> length r \<le> 32)"

definition field_of :: "usage_key \<Rightarrow> string" where
  "field_of k = (case k of (t, b, r) \<Rightarrow> meter_field t r b)"

lemma field_of_inject:
  assumes "key_ok k" "key_ok l"
  shows "field_of k = field_of l \<longleftrightarrow> k = l"
proof
  assume eq: "field_of k = field_of l"
  obtain t b r where k: "k = (t, b, r)" by (cases k)
  obtain t' b' r' where l: "l = (t', b', r')" by (cases l)
  have "split_field (meter_field t r b) = split_field (meter_field t' r' b')"
    using eq by (simp add: k l field_of_def)
  then have "t = t'" "r = r'" "isoformat b = isoformat b'"
    using assms by (simp_all add: k l key_ok_def)
  moreover have "py_datetime b" "py_datetime b'" using assms by (simp_all add: k l key_ok_def)
  then have "fromisoformat (isoformat b) = Some b" "fromisoformat (isoformat b') = Some b'"
    by (simp_all only: fromisoformat_isoformat)
  ultimately have "b = b'" by (metis option.inject)
  with \<open>t = t'\<close> \<open>r = r'\<close> show "k = l" by (simp add: k l)
qed simp

text \<open>The hash holds one field per key, all written by \<^verbatim>\<open>increment\<close>, with positive counts. Its keys may be wider than
  the columns they go into.\<close>

definition good_field :: "string \<Rightarrow> bool" where
  "good_field f \<longleftrightarrow> (\<exists>k. key_ok k \<and> f = field_of k)"

definition hash_ok :: "redis_hash \<Rightarrow> bool" where
  "hash_ok h \<longleftrightarrow> distinct (map fst h) \<and> (\<forall>(f, c) \<in> set h. good_field f \<and> 0 < c)"

definition hash_fits :: "redis_hash \<Rightarrow> bool" where
  "hash_fits h \<longleftrightarrow> (\<forall>k. key_ok k \<and> field_of k \<in> fst ` set h \<longrightarrow> key_fits k)"

lemma hash_ok_Nil [simp]: "hash_ok []"
  by (simp add: hash_ok_def)

lemma hash_fits_Nil [simp]: "hash_fits []"
  by (simp add: hash_fits_def)

lemma set_hincrby_pos:
  "\<forall>(f, c) \<in> set h. P f \<and> 0 < c \<Longrightarrow> P g \<Longrightarrow> 0 < n \<Longrightarrow> \<forall>(f, c) \<in> set (hincrby g n h). P f \<and> 0 < (c :: int)"
  by (induction g n h rule: hincrby.induct) auto

lemma hash_ok_hincrby:
  assumes "hash_ok h" "key_ok k" "0 < n"
  shows "hash_ok (hincrby (field_of k) n h)"
proof -
  have "good_field (field_of k)" using assms(2) unfolding good_field_def by blast
  then show ?thesis
    using assms set_hincrby_pos [of h good_field "field_of k" n] by (simp add: hash_ok_def distinct_hincrby)
qed

lemma hash_fits_hincrby: "hash_fits h \<Longrightarrow> key_ok k \<Longrightarrow> key_fits k \<Longrightarrow> hash_fits (hincrby (field_of k) n h)"
  by (simp add: hash_fits_def fst_set_hincrby del: split_paired_All) (metis field_of_inject)

section \<open>Grouping\<close>

definition item_count :: "item list \<Rightarrow> datetime \<Rightarrow> string \<Rightarrow> int" where
  "item_count its b r = (\<Sum>(rt, bs, c) \<leftarrow> its. if bs = b \<and> rt = r then c else 0)"

definition group_count :: "(string \<times> item list) list \<Rightarrow> usage_key \<Rightarrow> int" where
  "group_count gs k = (case k of (t, b, r) \<Rightarrow> \<Sum>(u, its) \<leftarrow> gs. if u = t then item_count its b r else 0)"

lemma group_count_simps [simp]:
  "group_count [] k = 0"
  "group_count ((u, its) # gs) (t, b, r) = (if u = t then item_count its b r else 0) + group_count gs (t, b, r)"
  by (simp_all add: group_count_def split: prod.split)

lemma item_count_simps [simp]:
  "item_count [] b r = 0"
  "item_count ((rt, bs, c) # its) b r = (if bs = b \<and> rt = r then c else 0) + item_count its b r"
  "item_count (its @ jts) b r = item_count its b r + item_count jts b r"
  by (simp_all add: item_count_def)

lemma group_count_item:
  "group_count (group_item t (rt, bs, c) gs) (t', b, r) =
     group_count gs (t', b, r) + (if t' = t \<and> b = bs \<and> r = rt then c else 0)"
  by (induction t "(rt, bs, c)" gs rule: group_item.induct) auto

definition groups_fit :: "(string \<times> item list) list \<Rightarrow> bool" where
  "groups_fit gs \<longleftrightarrow> (\<forall>(t, its) \<in> set gs. length t \<le> 64 \<and> (\<forall>(rt, b, c) \<in> set its. length rt \<le> 32))"

lemma groups_fit_item:
  "groups_fit gs \<Longrightarrow> length t \<le> 64 \<Longrightarrow> length rt \<le> 32 \<Longrightarrow> groups_fit (group_item t (rt, bs, c) gs)"
  by (induction t "(rt, bs, c)" gs rule: group_item.induct) (auto simp: groups_fit_def)

definition groups_size :: "(string \<times> item list) list \<Rightarrow> nat" where
  "groups_size gs = (\<Sum>(t, its) \<leftarrow> gs. length its)"

lemma groups_size_item: "groups_size (group_item t it gs) = Suc (groups_size gs)"
  by (induction t it gs rule: group_item.induct) (auto simp: groups_size_def)

definition groups_pos :: "(string \<times> item list) list \<Rightarrow> bool" where
  "groups_pos gs \<longleftrightarrow> (\<forall>(t, its) \<in> set gs. \<forall>(rt, b, c) \<in> set its. 0 \<le> c)"

lemma groups_pos_item: "groups_pos gs \<Longrightarrow> 0 \<le> c \<Longrightarrow> groups_pos (group_item t (rt, bs, c) gs)"
  by (induction t "(rt, bs, c)" gs rule: group_item.induct) (auto simp: groups_pos_def)

lemma groups_pos_Cons: "groups_pos ((t, its) # gs) \<longleftrightarrow> (\<forall>(rt, b, c) \<in> set its. 0 \<le> c) \<and> groups_pos gs"
  by (simp add: groups_pos_def)

lemma item_count_nonneg: "\<forall>(rt, b, c) \<in> set its. 0 \<le> c \<Longrightarrow> 0 \<le> item_count its b r"
  by (induction its) auto

lemma group_count_nonneg: "groups_pos gs \<Longrightarrow> 0 \<le> group_count gs k"
  by (cases k, induction gs) (auto simp: groups_pos_Cons item_count_nonneg)

lemma group_entries_ok:
  "(\<forall>(f, c) \<in> set es. good_field f \<and> 0 < c) \<Longrightarrow> groups_pos gs \<Longrightarrow>
     \<exists>gs'. group_entries es gs = Inr gs' \<and> groups_pos gs' \<and> groups_size gs' = groups_size gs + length es
       \<and> (groups_fit gs \<and> hash_fits es \<longrightarrow> groups_fit gs')
       \<and> (\<forall>k. key_ok k \<longrightarrow> group_count gs' k = group_count gs k + (\<Sum>(f, c) \<leftarrow> es. if f = field_of k then c else 0))"
proof (induction es arbitrary: gs)
  case (Cons e es)
  obtain f c where e: "e = (f, c)" by (cases e)
  have "good_field f" "0 < c" using Cons.prems(1) e by auto
  then obtain t b r where k: "key_ok (t, b, r)" "f = field_of (t, b, r)"
    unfolding good_field_def by (metis prod_cases3)
  let ?g = "group_item t (r, b, c) gs"
  have fit: "groups_fit ?g \<and> hash_fits es" if "groups_fit gs \<and> hash_fits (e # es)"
    using that groups_fit_item [of gs t r b c] k by (auto simp: hash_fits_def e key_fits_def)
  have "groups_pos ?g" using Cons.prems(2) \<open>0 < c\<close> by (simp add: groups_pos_item)
  then obtain gs' where gs': "group_entries es ?g = Inr gs'" "groups_pos gs'"
    "groups_size gs' = groups_size ?g + length es" "groups_fit ?g \<and> hash_fits es \<longrightarrow> groups_fit gs'"
    "\<forall>k. key_ok k \<longrightarrow> group_count gs' k = group_count ?g k + (\<Sum>(f, c) \<leftarrow> es. if f = field_of k then c else 0)"
    using Cons.IH [of ?g] Cons.prems(1) by auto
  have step: "group_entries (e # es) gs = group_entries es ?g"
    using k fromisoformat_isoformat [of b] by (simp add: e field_of_def key_ok_def)
  have "group_count ?g l + (\<Sum>(f, c) \<leftarrow> es. if f = field_of l then c else 0)
      = group_count gs l + (\<Sum>(f, c) \<leftarrow> e # es. if f = field_of l then c else 0)" if "key_ok l" for l
    using field_of_inject [OF k(1) that] by (cases l) (auto simp: e k(2) group_count_item)
  with gs' step fit show ?case by (auto simp: groups_size_item)
qed simp

section \<open>Draining a hash\<close>

lemma upsert_usage_Inr:
  assumes "upsert_usage env t its m = Inr m'"
  shows "m_active m' = m_active m" "m_flush m' = m_flush m"
    "usage_count (m_usage m') k = usage_count (m_usage m) k + group_count [(t, its)] k"
proof -
  let ?u = "fold (\<lambda>(k, n). upsert_row k n) (map (\<lambda>(rt, b, c). ((t, b, rt), c)) its) (m_usage m)"
  have "m_active m' = m_active m \<and> m_flush m' = m_flush m \<and> m_usage m' = ?u"
    using assms by (auto simp: upsert_usage_def Let_def split: if_splits prod.splits)
  moreover have "(\<Sum>(k', n) \<leftarrow> map (\<lambda>(rt, b, c). ((t, b, rt), c)) its. if k = k' then n else 0) = group_count [(t, its)] k"
    by (cases k, induction its) (auto simp: item_count_def)
  then have "usage_count ?u k = usage_count (m_usage m) k + group_count [(t, its)] k"
    using usage_counter.cnt_fold [where s = "m_usage m" and xs = "map (\<lambda>(rt, b, c). ((t, b, rt), c)) its" and k' = k] by simp
  ultimately show "m_active m' = m_active m" "m_flush m' = m_flush m"
    "usage_count (m_usage m') k = usage_count (m_usage m) k + group_count [(t, its)] k" by simp_all
qed

lemma upsert_usage_ok:
  assumes "length t \<le> 64" "\<forall>(rt, b, c) \<in> set its. length rt \<le> 32" "tenant_commits env t"
  shows "\<exists>m'. upsert_usage env t its m = Inr m'"
proof -
  have "\<not> list_ex (\<lambda>(rt, b, c). 32 < length rt) its"
    using assms(2) by (fastforce simp: list_ex_iff)
  then show ?thesis using assms(1,3) by (simp add: upsert_usage_def Let_def split: prod.split)
qed

text \<open>However far the transactions get, none counts more than its group.\<close>

lemma flush_tenants_le:
  "flush_tenants env gs n m = (m', res) \<Longrightarrow> groups_pos gs \<Longrightarrow>
     m_active m' = m_active m \<and> m_flush m' = m_flush m
     \<and> usage_count (m_usage m') k \<le> usage_count (m_usage m) k + group_count gs k"
proof (induction gs arbitrary: n m)
  case (Cons g gs)
  obtain t its where g: "g = (t, its)" by (cases g)
  show ?case
  proof (cases "upsert_usage env t its m")
    case (Inl e)
    then show ?thesis using Cons.prems group_count_nonneg [OF Cons.prems(2), of k] by (simp add: g)
  next
    case (Inr m1)
    have "group_count [(t, its)] k + group_count gs k = group_count (g # gs) k"
      by (cases k) (simp add: g)
    then show ?thesis
      using Cons.IH [of "n + length its" m1] Cons.prems upsert_usage_Inr(1,2) [OF Inr] upsert_usage_Inr(3) [OF Inr, of k] by (simp add: g Inr groups_pos_Cons)
  qed
qed simp

lemma flush_tenants_ok:
  "groups_fit gs \<Longrightarrow> \<forall>t. tenant_commits env t \<Longrightarrow>
     \<exists>m'. flush_tenants env gs n m = (m', Inr (n + groups_size gs))
       \<and> (\<forall>k. usage_count (m_usage m') k = usage_count (m_usage m) k + group_count gs k)"
proof (induction gs arbitrary: n m)
  case (Cons g gs)
  obtain t its where g: "g = (t, its)" by (cases g)
  have "length t \<le> 64" "\<forall>(rt, b, c) \<in> set its. length rt \<le> 32" "tenant_commits env t" "groups_fit gs"
    using Cons.prems by (auto simp: groups_fit_def g)
  from upsert_usage_ok [OF this(1-3), of m] obtain m1 where m1: "upsert_usage env t its m = Inr m1" by blast
  from Cons.IH [OF \<open>groups_fit gs\<close> Cons.prems(2), of "n + length its" m1] obtain m2 where
    m2: "flush_tenants env gs (n + length its) m1 = (m2, Inr (n + length its + groups_size gs))"
    "\<forall>k. usage_count (m_usage m2) k = usage_count (m_usage m1) k + group_count gs k" by blast
  have "group_count [(t, its)] k + group_count gs k = group_count (g # gs) k" for k
    by (cases k) (simp add: g)
  with m1 m2 upsert_usage_Inr(3) [OF m1] show ?case by (simp add: g groups_size_def add.assoc)
qed (simp add: groups_size_def)

text \<open>The hash that a flush finds, as counters by key.\<close>

definition waiting :: "int \<Rightarrow> meter \<Rightarrow> usage_key \<Rightarrow> int" where
  "waiting now m k = hget (active_hash (redis_at now m)) (field_of k)"

lemma redis_at_usage [simp]: "m_usage (redis_at now m) = m_usage m"
  by (simp add: redis_at_def)

lemma hget_nonneg: "hash_ok h \<Longrightarrow> 0 \<le> hget h f"
  by (auto simp: hash_ok_def hget_def split: option.split dest!: map_of_SomeD)

lemma hash_groups:
  assumes "hash_ok h"
  shows "\<exists>gs. group_entries h [] = Inr gs \<and> groups_pos gs \<and> groups_size gs = length h \<and> (hash_fits h \<longrightarrow> groups_fit gs)
    \<and> (\<forall>k. key_ok k \<longrightarrow> group_count gs k = hget h (field_of k))"
proof -
  have "\<forall>(f, c) \<in> set h. good_field f \<and> 0 < c" and dist: "distinct (map fst h)"
    using assms by (simp_all add: hash_ok_def)
  from group_entries_ok [OF this(1), of "[]"] show ?thesis
    by (auto simp: groups_pos_def groups_size_def groups_fit_def hget_sum [OF dist])
qed

text \<open>A flush never counts more than it found; when it is not stopped, it counts all of it.\<close>

lemma flush_counts:
  assumes "\<forall>e h. m_active m = Some (e, h) \<longrightarrow> hash_ok h" "key_ok k" "redis_answers env 1"
  shows "m_active (fst (flush env now key m)) = None"
    and "usage_count (m_usage (fst (flush env now key m))) k \<le> usage_count (m_usage m) k + waiting now m k"
    and "redis_answers env 2 \<and> redis_answers env 3 \<and> (\<forall>t. tenant_commits env t)
        \<and> (\<forall>e h. m_active m = Some (e, h) \<longrightarrow> hash_fits h) \<Longrightarrow>
      usage_count (m_usage (fst (flush env now key m))) k = usage_count (m_usage m) k + waiting now m k"
proof -
  let ?out = "fst (flush env now key m)" and ?m0 = "redis_at now m"
  have all: "m_active ?out = None \<and> usage_count (m_usage ?out) k \<le> usage_count (m_usage m) k + waiting now m k
    \<and> (redis_answers env 2 \<and> redis_answers env 3 \<and> (\<forall>t. tenant_commits env t)
        \<and> (\<forall>e h. m_active m = Some (e, h) \<longrightarrow> hash_fits h) \<longrightarrow>
      usage_count (m_usage ?out) k = usage_count (m_usage m) k + waiting now m k)"
  proof (cases "m_active ?m0")
    case None
    then show ?thesis using assms(3) by (simp add: flush_def Let_def waiting_def active_hash_def hget_def)
  next
    case (Some x)
    then obtain e h where x: "m_active ?m0 = Some (e, h)" "m_active m = Some (e, h)"
      by (auto simp: redis_at_def split: option.splits if_splits)
    have h: "hash_ok h" using assms(1) x(2) by blast
    from hash_groups [OF h] obtain gs where gs: "group_entries h [] = Inr gs" "groups_pos gs" "groups_size gs = length h"
      "hash_fits h \<longrightarrow> groups_fit gs" "group_count gs k = hget h (field_of k)" using assms(2) by blast
    have w: "waiting now m k = hget h (field_of k)" by (simp add: waiting_def active_hash_def x)
    let ?m1 = "?m0\<lparr>m_active := None, m_flush := (key, expires_at now, h) # filter (\<lambda>(k, e, h). k \<noteq> key) (m_flush ?m0)\<rparr>"
    obtain m2 r where ft: "flush_tenants env gs 0 ?m1 = (m2, r)" by fastforce
    note le = flush_tenants_le [OF ft gs(2), of k]
    have eq: "usage_count (m_usage m2) k = usage_count (m_usage m) k + hget h (field_of k)"
      if "hash_fits h" "\<forall>t. tenant_commits env t"
      using flush_tenants_ok [of gs env 0 ?m1] that gs(4,5) ft by (auto simp del: split_paired_All)
    show ?thesis
      using assms(3) x le eq hget_nonneg [OF h] ft gs(1,5)
      by (auto simp: flush_def Let_def w hget_def split: sum.splits)
  qed
  then show "m_active ?out = None" "usage_count (m_usage ?out) k \<le> usage_count (m_usage m) k + waiting now m k"
    "redis_answers env 2 \<and> redis_answers env 3 \<and> (\<forall>t. tenant_commits env t)
        \<and> (\<forall>e h. m_active m = Some (e, h) \<longrightarrow> hash_fits h) \<Longrightarrow>
      usage_count (m_usage ?out) k = usage_count (m_usage m) k + waiting now m k" by blast+
qed

section \<open>Runs\<close>

text \<open>
  What the workers do to the meter: increments, and the minute's flush with its fresh key, each with its
  clock reading. Every flush comes with what Redis, the database and Stripe do during it.
\<close>

datatype meter_op = Increment datetime string string int | Flush billing_env int string

definition meter_step :: "meter_op \<Rightarrow> meter \<Rightarrow> meter" where
  "meter_step op m =
     (case op of
        Increment now t r n \<Rightarrow> (case increment now t r n m of Inl e \<Rightarrow> m | Inr m' \<Rightarrow> m')
      | Flush env now key \<Rightarrow> fst (flush env now key m))"

definition meter_run :: "meter_op list \<Rightarrow> meter \<Rightarrow> meter" where
  "meter_run ops m = fold meter_step ops m"

definition empty_meter :: meter where
  "empty_meter = \<lparr>m_active = None, m_flush = [], m_usage = Map.empty, m_ledger = [], m_retry = []\<rparr>"

definition accepted :: "string \<Rightarrow> string \<Rightarrow> int \<Rightarrow> bool" where
  "accepted t r n \<longleftrightarrow> t \<noteq> [] \<and> r \<noteq> [] \<and> FIELD_DELIM \<notin> set t \<and> FIELD_DELIM \<notin> set r \<and> 0 < n"

text \<open>The increments the meter accepts: what the callers are meant to be billed for.\<close>

definition counted :: "usage_key \<Rightarrow> meter_op \<Rightarrow> int" where
  "counted k op =
     (case op of
        Increment now t r n \<Rightarrow> if k = (t, minute_bucket now, r) \<and> accepted t r n then n else 0
      | Flush env now key \<Rightarrow> 0)"

text \<open>The clock gives a date of Python; the texts fit the columns of \<^verbatim>\<open>usage_records\<close>.\<close>

definition op_clock :: "meter_op \<Rightarrow> bool" where
  "op_clock op = (case op of Increment now t r n \<Rightarrow> py_datetime now | Flush env now key \<Rightarrow> True)"

definition op_fits :: "meter_op \<Rightarrow> bool" where
  "op_fits op = (case op of Increment now t r n \<Rightarrow> length t \<le> 64 \<and> length r \<le> 32 | Flush env now key \<Rightarrow> True)"

text \<open>Once the hash is renamed, Redis and the database answer until it is drained.\<close>

definition drains :: "billing_env \<Rightarrow> bool" where
  "drains env \<longleftrightarrow>
     (redis_answers env 1 \<longrightarrow> redis_answers env 2 \<and> redis_answers env 3 \<and> (\<forall>t. tenant_commits env t))"

definition op_drains :: "meter_op \<Rightarrow> bool" where
  "op_drains op = (case op of Increment now t r n \<Rightarrow> True | Flush env now key \<Rightarrow> drains env)"

text \<open>No counter waits longer than it is kept: after an accepted increment, the next one or a flush comes within
  two hours. \<open>d\<close> is the time until which the waiting counters are kept.\<close>

fun in_time :: "int option \<Rightarrow> meter_op list \<Rightarrow> bool" where
  "in_time d [] = True"
| "in_time d (Increment now t r n # ops) =
     (if accepted t r n
      then (case d of None \<Rightarrow> True | Some e \<Rightarrow> instant now \<le> e) \<and> in_time (Some (expires_at (instant now))) ops
      else in_time d ops)"
| "in_time d (Flush env now key # ops) =
     ((case d of None \<Rightarrow> True | Some e \<Rightarrow> now \<le> e) \<and> in_time (if redis_answers env 1 then None else d) ops)"

definition active_count :: "meter \<Rightarrow> usage_key \<Rightarrow> int" where
  "active_count m k = hget (active_hash m) (field_of k)"

definition meter_inv :: "meter \<Rightarrow> bool" where
  "meter_inv m \<longleftrightarrow> (\<forall>e h. m_active m = Some (e, h) \<longrightarrow> hash_ok h)"

definition meter_fits :: "meter \<Rightarrow> bool" where
  "meter_fits m \<longleftrightarrow> (\<forall>e h. m_active m = Some (e, h) \<longrightarrow> hash_fits h)"

lemma hash_ok_active: "meter_inv m \<Longrightarrow> hash_ok (active_hash m)"
  by (auto simp: meter_inv_def active_hash_def split: option.split)

lemma hash_fits_active: "meter_fits m \<Longrightarrow> hash_fits (active_hash m)"
  by (auto simp: meter_fits_def active_hash_def split: option.split)

lemma meter_inv_redis_at: "meter_inv m \<Longrightarrow> meter_inv (redis_at now m)" "meter_fits m \<Longrightarrow> meter_fits (redis_at now m)"
  by (auto simp: meter_inv_def meter_fits_def redis_at_def split: option.splits if_splits)

lemma waiting_le: "meter_inv m \<Longrightarrow> waiting now m k \<le> active_count m k"
  using hget_nonneg by (auto simp: waiting_def active_count_def active_hash_def redis_at_def meter_inv_def hget_def [of "[]"]
      split: option.splits)

text \<open>Nothing has expired while the hash is kept.\<close>

lemma kept:
  assumes "case map_option fst (m_active m) of None \<Rightarrow> True | Some e \<Rightarrow> now \<le> e"
  shows "m_active (redis_at now m) = m_active m"
  using assms by (auto simp: redis_at_def split: option.splits)

lemma increment_Inr:
  "increment now t r n m = Inr m' \<Longrightarrow>
     accepted t r n
     \<and> m' = (redis_at (instant now) m)\<lparr>m_active := Some (expires_at (instant now),
               hincrby (field_of (t, minute_bucket now, r)) n (active_hash (redis_at (instant now) m)))\<rparr>"
  by (auto simp: increment_def accepted_def field_of_def Let_def split: if_splits)

lemma increment_accepted: "accepted t r n \<Longrightarrow> \<exists>m'. increment now t r n m = Inr m'"
  by (auto simp: increment_def accepted_def Let_def)

lemma py_minute_bucket: "py_datetime now \<Longrightarrow> py_datetime (minute_bucket now)"
  using pos_imp_zdiv_nonneg_iff [of 60000000 "dt_us now"] div_mult_mod_eq [of "dt_us now" 60000000]
    pos_mod_sign [of 60000000 "dt_us now"]
  by (auto simp: py_datetime_def valid_datetime_def minute_bucket_def)

text \<open>One operation never adds more than it counts, and counts exactly when nothing is late, too wide or stopped.\<close>

lemma increment_step:
  assumes "meter_inv m" "py_datetime now" "key_ok k" "increment now t r n m = Inr m'"
  shows "meter_inv m'"
    "usage_count (m_usage m') k + active_count m' k
      = usage_count (m_usage m) k + waiting (instant now) m k + counted k (Increment now t r n)"
    "meter_fits m \<Longrightarrow> length t \<le> 64 \<Longrightarrow> length r \<le> 32 \<Longrightarrow> meter_fits m'"
proof -
  note i = increment_Inr [OF assms(4)]
  let ?h = "active_hash (redis_at (instant now) m)" and ?k = "(t, minute_bucket now, r)"
  have key: "key_ok ?k" using i py_minute_bucket [OF assms(2)] by (simp add: key_ok_def accepted_def)
  have h: "hash_ok ?h" using assms(1) by (simp add: hash_ok_active meter_inv_redis_at)
  then have "hget (hincrby (field_of ?k) n ?h) (field_of k) = hget ?h (field_of k) + (if k = ?k then n else 0)"
    using redis_counter.cnt_add field_of_inject [OF assms(3) key] by (simp add: hash_ok_def)
  then show "usage_count (m_usage m') k + active_count m' k
      = usage_count (m_usage m) k + waiting (instant now) m k + counted k (Increment now t r n)"
    using i by (simp add: active_count_def waiting_def counted_def active_hash_def)
  show "meter_inv m'" using i hash_ok_hincrby [OF h key] by (simp add: meter_inv_def accepted_def)
  assume "meter_fits m" "length t \<le> 64" "length r \<le> 32"
  then have "hash_fits ?h" "key_fits ?k" by (simp_all add: hash_fits_active meter_inv_redis_at key_fits_def)
  then show "meter_fits m'" using i hash_fits_hincrby [OF _ key] by (simp add: meter_fits_def)
qed

lemma flush_stopped: "\<not> redis_answers env 1 \<Longrightarrow> fst (flush env now key m) = redis_at now m"
  by (simp add: flush_def Let_def)

lemma meter_step_le:
  assumes "meter_inv m" "op_clock op" "key_ok k"
  shows "meter_inv (meter_step op m)
    \<and> usage_count (m_usage (meter_step op m)) k + active_count (meter_step op m) k
        \<le> usage_count (m_usage m) k + active_count m k + counted k op"
proof (cases op)
  case (Increment now t r n)
  show ?thesis
  proof (cases "increment now t r n m")
    case (Inl e)
    then have "counted k op = 0"
      using increment_accepted [of t r n now m] by (auto simp: Increment counted_def)
    with Inl assms(1) show ?thesis by (simp add: meter_step_def Increment)
  next
    case (Inr m')
    have "py_datetime now" using assms(2) by (simp add: op_clock_def Increment)
    from increment_step [OF assms(1) this assms(3) Inr] waiting_le [OF assms(1), of "instant now" k] show ?thesis
      by (simp add: meter_step_def Increment Inr)
  qed
next
  case (Flush env now key)
  show ?thesis
  proof (cases "redis_answers env 1")
    case True
    from flush_counts(1,2) [OF _ assms(3) True, of m now key] assms(1) waiting_le [OF assms(1), of now k] show ?thesis
      by (simp add: meter_step_def Flush meter_inv_def active_count_def active_hash_def counted_def hget_def)
  next
    case False
    then show ?thesis
      using meter_inv_redis_at(1) [OF assms(1), of now] waiting_le [OF assms(1), of now k]
      by (simp add: meter_step_def Flush flush_stopped counted_def active_count_def waiting_def)
  qed
qed

abbreviation deadline :: "meter \<Rightarrow> int option" where
  "deadline m \<equiv> map_option fst (m_active m)"

lemma meter_step_exact:
  assumes "meter_inv m" "meter_fits m" "op_clock op" "op_fits op" "op_drains op" "key_ok k" "in_time (deadline m) (op # ops)"
  shows "meter_fits (meter_step op m) \<and> in_time (deadline (meter_step op m)) ops
    \<and> usage_count (m_usage (meter_step op m)) k + active_count (meter_step op m) k
        = usage_count (m_usage m) k + active_count m k + counted k op"
proof (cases op)
  case (Increment now t r n)
  show ?thesis
  proof (cases "accepted t r n")
    case False
    then have "increment now t r n m = Inl (projl (increment now t r n m))"
      using increment_Inr [of now t r n m] by (cases "increment now t r n m") auto
    with False assms(2,7) show ?thesis
      by (auto simp: meter_step_def Increment counted_def split: sum.split)
  next
    case True
    obtain m' where m': "increment now t r n m = Inr m'" using increment_accepted [OF True] by blast
    have "py_datetime now" "length t \<le> 64" "length r \<le> 32"
      using assms(3,4) by (simp_all add: op_clock_def op_fits_def Increment)
    moreover have "m_active (redis_at (instant now) m) = m_active m" "in_time (Some (expires_at (instant now))) ops"
      using assms(7) True by (auto simp: Increment intro!: kept)
    then have "waiting (instant now) m k = active_count m k" "in_time (deadline m') ops"
      using increment_Inr [OF m'] by (simp_all add: waiting_def active_count_def active_hash_def)
    ultimately show ?thesis
      using increment_step [OF assms(1) _ assms(6) m'] assms(2) by (simp add: meter_step_def Increment m')
  qed
next
  case (Flush env now key)
  have k: "m_active (redis_at now m) = m_active m"
    using assms(7) by (simp add: Flush kept)
  then have w: "waiting now m k = active_count m k" by (simp add: waiting_def active_count_def active_hash_def)
  show ?thesis
  proof (cases "redis_answers env 1")
    case True
    have "redis_answers env 2 \<and> redis_answers env 3 \<and> (\<forall>t. tenant_commits env t)
        \<and> (\<forall>e h. m_active m = Some (e, h) \<longrightarrow> hash_fits h)"
      using assms(2,5) True by (simp add: op_drains_def drains_def Flush meter_fits_def)
    from flush_counts(3) [OF _ assms(6) True this, of now key] flush_counts(1) [OF _ assms(6) True, of m now key] assms(1,7) w True
    show ?thesis
      by (simp add: meter_step_def Flush meter_inv_def meter_fits_def active_count_def active_hash_def counted_def hget_def)
  next
    case False
    then show ?thesis
      using meter_inv_redis_at(2) [OF assms(2), of now] k w assms(7)
      by (simp add: meter_step_def Flush flush_stopped counted_def active_count_def waiting_def)
  qed
qed

lemma meter_run_le:
  "meter_inv m \<Longrightarrow> list_all op_clock ops \<Longrightarrow> key_ok k \<Longrightarrow>
     meter_inv (meter_run ops m)
     \<and> usage_count (m_usage (meter_run ops m)) k + active_count (meter_run ops m) k
         \<le> usage_count (m_usage m) k + active_count m k + (\<Sum>op \<leftarrow> ops. counted k op)"
proof (induction ops arbitrary: m)
  case (Cons op ops)
  have step: "meter_inv (meter_step op m)"
    "usage_count (m_usage (meter_step op m)) k + active_count (meter_step op m) k
        \<le> usage_count (m_usage m) k + active_count m k + counted k op"
    using meter_step_le [of m op k] Cons.prems by simp_all
  from Cons.IH [OF step(1)] Cons.prems step(2) show ?case by (simp add: meter_run_def)
qed (simp add: meter_run_def)

lemma meter_run_exact:
  "meter_inv m \<Longrightarrow> meter_fits m \<Longrightarrow> list_all op_clock ops \<Longrightarrow> list_all op_fits ops \<Longrightarrow> list_all op_drains ops \<Longrightarrow> key_ok k \<Longrightarrow>
   in_time (deadline m) ops \<Longrightarrow>
     usage_count (m_usage (meter_run ops m)) k + active_count (meter_run ops m) k
         = usage_count (m_usage m) k + active_count m k + (\<Sum>op \<leftarrow> ops. counted k op)"
proof (induction ops arbitrary: m)
  case (Cons op ops)
  then show ?case
    using meter_step_exact [of m op k ops] meter_step_le [of m op k] Cons.IH [of "meter_step op m"] by (simp add: meter_run_def)
qed (simp add: meter_run_def)

lemma in_time_append: "in_time d (ops @ ops') \<Longrightarrow> in_time d ops"
  by (induction d ops rule: in_time.induct) (auto split: if_splits)

section \<open>Properties\<close>


definition sample_minute :: datetime where
  "sample_minute = \<lparr>dt_date = Date 2026 5 17, dt_us = 43200000000, dt_off = Some 0\<rparr>"

definition sample_billing :: billing_env where
  "sample_billing =
     \<lparr>tenant_billing = \<lambda>t. if t = ''t1'' then Some ''si_1'' else None,
      dispatcher = Some (\<lambda>ledger req. if req \<in> set ledger then Replayed else Charged),
      redis_answers = \<lambda>_. True, tenant_commits = \<lambda>_. True\<rparr>"

lemma sample_minute_ok [simp]: "py_datetime sample_minute"
  by (simp add: py_datetime_def valid_datetime_def sample_minute_def valid_date_def days_in_month_def day_us_def)

lemma sample_minute_bucket [simp]: "minute_bucket sample_minute = sample_minute"
  by (simp add: minute_bucket_def sample_minute_def)


lemma report_item_cases:
  "(usage_request_for sub t it \<in> set (fst (report_item stripe sub t it s))
     \<or> stripe (fst s) (usage_request_for sub t it) = Replayed
     \<or> (\<exists>r \<in> set (snd (report_item stripe sub t it s)). rr_tenant_id r = t \<and> rr_record_type r = fst it
          \<and> rr_bucket_start r = fst (snd it) \<and> rr_quantity r = snd (snd it)))
   \<and> set (fst s) \<subseteq> set (fst (report_item stripe sub t it s)) \<and> set (snd s) \<subseteq> set (snd (report_item stripe sub t it s))"
  by (cases s) (auto simp: report_item_def split: stripe_answer.split)

definition settled :: "string \<Rightarrow> string \<Rightarrow> item \<Rightarrow> usage_request list \<times> retry_row list \<Rightarrow> bool" where
  "settled sub t it s \<longleftrightarrow>
     usage_request_for sub t it \<in> set (fst s)
     \<or> (\<exists>r \<in> set (snd s). rr_tenant_id r = t \<and> rr_record_type r = fst it
          \<and> rr_bucket_start r = fst (snd it) \<and> rr_quantity r = snd (snd it))"

text \<open>A dispatcher that replays answers only for requests it has charged.\<close>

definition stripe_honest :: "(usage_request list \<Rightarrow> usage_request \<Rightarrow> stripe_answer) \<Rightarrow> bool" where
  "stripe_honest stripe \<longleftrightarrow> (\<forall>ledger req. stripe ledger req = Replayed \<longrightarrow> req \<in> set ledger)"

lemma settled_report_item:
  "stripe_honest stripe \<Longrightarrow> settled sub t it (report_item stripe sub t it s)"
  "settled sub t jt s \<Longrightarrow> settled sub t jt (report_item stripe sub t it s)"
  using report_item_cases [of sub t it stripe s] by (auto simp: settled_def stripe_honest_def)

lemma settled_fold:
  "settled sub t it s \<Longrightarrow> settled sub t it (fold (report_item stripe sub t) its s)"
proof (induction its arbitrary: s)
  case (Cons jt its)
  show ?case using Cons.IH [OF settled_report_item(2) [OF Cons.prems]] by simp
qed simp

lemma fold_settles:
  "stripe_honest stripe \<Longrightarrow> it \<in> set its \<Longrightarrow> settled sub t it (fold (report_item stripe sub t) its s)"
proof (induction its arbitrary: s)
  case (Cons jt its)
  show ?case
  proof (cases "it = jt")
    case True
    then show ?thesis using settled_fold [OF settled_report_item(1) [OF Cons.prems(1)]] by simp
  next
    case False
    with Cons show ?thesis by simp
  qed
qed simp

text \<open>What of the meter does not depend on Stripe.\<close>

definition durable :: "meter \<Rightarrow> (int \<times> redis_hash) option \<times> (string \<times> int \<times> redis_hash) list \<times> (usage_key \<Rightarrow> int option)" where
  "durable m = (m_active m, m_flush m, m_usage m)"

lemma durable_eq [simp]:
  "durable m = durable m' \<longleftrightarrow> m_active m = m_active m' \<and> m_flush m = m_flush m' \<and> m_usage m = m_usage m'"
  by (auto simp: durable_def)

text \<open>Two flushes that differ in Stripe only.\<close>

definition same_stores :: "billing_env \<Rightarrow> billing_env \<Rightarrow> bool" where
  "same_stores env env' \<longleftrightarrow> redis_answers env = redis_answers env' \<and> tenant_commits env = tenant_commits env'"

lemma upsert_usage_durable:
  assumes "durable m = durable m'" "same_stores env env'"
  shows "case upsert_usage env t its m of
      Inl e \<Rightarrow> upsert_usage env' t its m' = Inl e
    | Inr n \<Rightarrow> \<exists>n'. upsert_usage env' t its m' = Inr n' \<and> durable n = durable n'"
  using assms by (auto simp: upsert_usage_def Let_def same_stores_def split: prod.split)

lemma flush_tenants_durable:
  "durable m = durable m' \<Longrightarrow> same_stores env env' \<Longrightarrow>
     durable (fst (flush_tenants env gs k m)) = durable (fst (flush_tenants env' gs k m'))
     \<and> snd (flush_tenants env gs k m) = snd (flush_tenants env' gs k m')"
proof (induction gs arbitrary: k m m')
  case (Cons g gs)
  obtain t its where g: "g = (t, its)" by (cases g)
  note up = upsert_usage_durable [OF Cons.prems, where t = t and its = its]
  show ?case
  proof (cases "upsert_usage env t its m")
    case (Inl e)
    with up Cons.prems show ?thesis by (simp add: g)
  next
    case (Inr n)
    with up obtain n' where n': "upsert_usage env' t its m' = Inr n'" "durable n = durable n'" by auto
    from Cons.IH [OF n'(2) Cons.prems(2)] show ?thesis by (simp add: g Inr n'(1))
  qed
qed simp

lemma flush_durable:
  assumes "same_stores env env'"
  shows "durable (fst (flush env now key m)) = durable (fst (flush env' now key m))
    \<and> snd (flush env now key m) = snd (flush env' now key m)"
proof (cases "m_active (redis_at now m)")
  case (Some x)
  obtain e h where x: "x = (e, h)" by (cases x)
  let ?m0 = "redis_at now m"
  let ?m1 = "?m0\<lparr>m_active := None, m_flush := (key, expires_at now, h) # filter (\<lambda>(k, e, h). k \<noteq> key) (m_flush ?m0)\<rparr>"
  have r: "redis_answers env' = redis_answers env" using assms by (simp add: same_stores_def)
  show ?thesis
  proof (cases "group_entries h []")
    case (Inr gs)
    obtain m2 r m2' r' where f: "flush_tenants env gs 0 ?m1 = (m2, r)" "flush_tenants env' gs 0 ?m1 = (m2', r')"
      by fastforce
    from flush_tenants_durable [OF refl assms, of gs 0 ?m1] f
    have "durable m2 = durable m2'" "r = r'" by simp_all
    with f Inr Some x \<open>redis_answers env' = redis_answers env\<close> show ?thesis by (cases r') (simp_all add: flush_def Let_def)
  qed (simp add: flush_def Some Let_def x r)
qed (use assms in \<open>simp add: flush_def Let_def same_stores_def\<close>)

text \<open>Stripe never blocks metering, and a refused event is kept. Whatever the dispatcher answers, or
  whether there is one at all, a flush leaves the same \<^verbatim>\<open>usage_records\<close>, the same Redis keys and the
  same result. For an onboarded tenant, every drained counter either is in the ledger, was already
  there under the same request, or is in \<^verbatim>\<open>billing_retry\<close> with its full quantity.\<close>

lemma stripe_never_blocks:
  assumes "same_stores env env'"
  shows "durable (fst (flush env now key m)) = durable (fst (flush env' now key m))
   \<and> snd (flush env now key m) = snd (flush env' now key m)
   \<and> (tenant_billing env t = Some sub \<and> dispatcher env = Some stripe \<and> stripe_honest stripe
        \<and> upsert_usage env t its n = Inr n' \<and> it \<in> set its
        \<longrightarrow> settled sub t it (m_ledger n', m_retry n'))"
proof (intro conjI impI)
  assume a: "tenant_billing env t = Some sub \<and> dispatcher env = Some stripe \<and> stripe_honest stripe
        \<and> upsert_usage env t its n = Inr n' \<and> it \<in> set its"
  then have "report_usage env t its (m_ledger n, m_retry n) = (m_ledger n', m_retry n')"
    by (auto simp: upsert_usage_def Let_def split: if_splits prod.splits)
  moreover have "settled sub t it (report_usage env t its (m_ledger n, m_retry n))"
    using a fold_settles [of stripe it its sub t] by (auto simp: report_usage_def)
  ultimately show "settled sub t it (m_ledger n', m_retry n')" by simp
qed (use flush_durable [OF assms] in simp_all)

lemma stripe_never_blocks_witness:
  "settled ''si_1'' ''t1'' (''chat'', sample_minute, 2)
     (m_ledger (projr (upsert_usage sample_billing ''t1'' [(''chat'', sample_minute, 2)] empty_meter)),
      m_retry (projr (upsert_usage sample_billing ''t1'' [(''chat'', sample_minute, 2)] empty_meter)))"
proof -
  obtain n' where n': "upsert_usage sample_billing ''t1'' [(''chat'', sample_minute, 2)] empty_meter = Inr n'"
    using upsert_usage_ok [of "''t1''" "[(''chat'', sample_minute, 2)]" sample_billing empty_meter] by (auto simp: sample_billing_def)
  have h: "stripe_honest (\<lambda>ledger req. if req \<in> set ledger then Replayed else Charged)"
    by (simp add: stripe_honest_def)
  have b: "tenant_billing sample_billing ''t1'' = Some ''si_1''"
    "dispatcher sample_billing = Some (\<lambda>ledger req. if req \<in> set ledger then Replayed else Charged)"
    by (simp_all add: sample_billing_def)
  show ?thesis
    using stripe_never_blocks [where env = sample_billing and env' = sample_billing and t = "''t1''" and sub = "''si_1''"
        and its = "[(''chat'', sample_minute, 2)]" and it = "(''chat'', sample_minute, 2)" and n = empty_meter] h b n'
    by (simp add: same_stores_def)
qed

lemma group_single:
  "key_ok (t, b, r) \<Longrightarrow> group_entries [(field_of (t, b, r), n)] [] = Inr [(t, [(r, b, n)])]"
  using fromisoformat_isoformat [of b] by (simp add: field_of_def key_ok_def)

lemma flush_single:
  assumes "key_ok (t, b, r)" "key_fits (t, b, r)" "m_active m = Some (e, [(field_of (t, b, r), n)])" "m_flush m = []" "now \<le> e"
    and "report_usage env t [(r, b, n)] (m_ledger m, m_retry m) = (ledger, retries)"
    and "\<forall>i. redis_answers env i" "tenant_commits env t"
  shows "flush env now key m =
    (m\<lparr>m_active := None, m_usage := upsert_row (t, b, r) n (m_usage m), m_ledger := ledger, m_retry := retries\<rparr>, Inr 1)"
  using assms(2-) group_single [OF assms(1), of n]
  by (cases m) (simp add: flush_def upsert_usage_def key_fits_def redis_at_def Let_def)

text \<open>A second flush of one minute can go unbilled. The idempotency key names only the tenant, the
  type and the minute. When a tenant's counter is incremented by the same amount before and after a
  flush within one minute, both flushes send the very same request; Stripe charges it once and answers
  the second time from its cache, so \<^verbatim>\<open>usage_records\<close> counts both amounts, the ledger one, and no
  retry row remembers the difference.\<close>

lemma second_flush_unbilled:
  assumes "accepted t r n" "py_datetime now" "b = minute_bucket now" "key_fits (t, b, r)"
    and "tenant_billing env t = Some sub" "dispatcher env = Some stripe" "\<forall>i. redis_answers env i" "tenant_commits env t"
    and "req = usage_request_for sub t (r, b, n)" "stripe [] req = Charged" "stripe [req] req = Replayed"
    and "t1 \<le> expires_at (instant now)" "t2 \<le> expires_at (instant now)"
    and "m = meter_run [Increment now t r n, Flush env t1 k1, Increment now t r n, Flush env t2 k2] empty_meter"
  shows "usage_count (m_usage m) (t, b, r) = 2 * n \<and> m_ledger m = [req] \<and> ur_quantity req = n \<and> m_retry m = []"
proof -
  let ?f = "(expires_at (instant now), [(field_of (t, b, r), n)])"
  have key: "key_ok (t, b, r)"
    using assms(1,2,3) py_minute_bucket by (simp add: key_ok_def accepted_def)
  have inc: "increment now t r n m = Inr (m\<lparr>m_active := Some ?f\<rparr>)" if "m_active m = None" "m_flush m = []" for m
    using assms(1,3) that by (cases m) (simp add: increment_def accepted_def field_of_def redis_at_def active_hash_def)
  let ?u = "upsert_row (t, b, r) n Map.empty"
  have rep: "report_usage env t [(r, b, n)] ([], []) = ([req], [])"
    "report_usage env t [(r, b, n)] ([req], []) = ([req], [])"
    using assms(5,6,9-11) by (simp_all add: report_usage_def report_item_def)
  have 1: "flush env t1 k1 (empty_meter\<lparr>m_active := Some ?f\<rparr>)
      = (empty_meter\<lparr>m_usage := ?u, m_ledger := [req]\<rparr>, Inr 1)"
    by (subst flush_single [OF key assms(4), where ledger = "[req]" and retries = "[]" and n = n])
       (use rep assms(7,8,12) in \<open>simp_all add: empty_meter_def\<close>)
  have 2: "flush env t2 k2 (empty_meter\<lparr>m_usage := ?u, m_ledger := [req], m_active := Some ?f\<rparr>)
      = (empty_meter\<lparr>m_usage := upsert_row (t, b, r) n ?u, m_ledger := [req]\<rparr>, Inr 1)"
    by (subst flush_single [OF key assms(4), where ledger = "[req]" and retries = "[]" and n = n])
       (use rep assms(7,8,13) in \<open>simp_all add: empty_meter_def\<close>)
  have "m = empty_meter\<lparr>m_usage := upsert_row (t, b, r) n ?u, m_ledger := [req]\<rparr>"
    using 1 2 inc by (simp add: assms(14) meter_run_def meter_step_def empty_meter_def)
  then show ?thesis
    using assms(9) by (simp add: usage_count_def upsert_row_def empty_meter_def usage_request_for_def)
qed

lemma second_flush_unbilled_witness:
  "m_ledger (meter_run [Increment sample_minute ''t1'' ''chat'' 5, Flush sample_billing (instant sample_minute) ''f1'',
      Increment sample_minute ''t1'' ''chat'' 5, Flush sample_billing (instant sample_minute) ''f2''] empty_meter)
    = [usage_request_for ''si_1'' ''t1'' (''chat'', sample_minute, 5)]"
proof -
  have acc: "accepted ''t1'' ''chat'' 5" "key_fits (''t1'', sample_minute, ''chat'')"
    by (simp_all add: accepted_def key_fits_def FIELD_DELIM_def)
  have "tenant_billing sample_billing ''t1'' = Some ''si_1''" "\<forall>i. redis_answers sample_billing i"
    "dispatcher sample_billing = Some (\<lambda>ledger req. if req \<in> set ledger then Replayed else Charged)"
    "tenant_commits sample_billing ''t1''" "instant sample_minute \<le> expires_at (instant sample_minute)"
    by (simp_all add: sample_billing_def expires_at_def TTL_SECONDS_def)
  with second_flush_unbilled [OF acc(1) sample_minute_ok sample_minute_bucket [symmetric] acc(2) _ _ _ _ refl _ _ _ _ refl,
      of sample_billing "''si_1''" "\<lambda>ledger req. if req \<in> set ledger then Replayed else Charged"]
  show ?thesis by simp
qed

text \<open>A flush that fails part-way is never resumed. When it is stopped after the rename (a tenant's batch raises
  because a text is too wide for its column, the database or Redis fails), the drained counters stay under
  the flush key and no later increment or flush reads that key again: what the later operations do to the
  active hash and to \<^verbatim>\<open>usage_records\<close> is what they would do if the key were not there. The module's comment
  has a janitor or the next tick pick the counters up; there is none.\<close>

lemma upsert_usage_forget:
  "upsert_usage env t its (m\<lparr>m_flush := xs\<rparr>) = map_sum id (\<lambda>m. m\<lparr>m_flush := xs\<rparr>) (upsert_usage env t its m)"
  by (simp add: upsert_usage_def Let_def split: prod.split)

lemma flush_tenants_forget:
  "flush_tenants env gs n (m\<lparr>m_flush := xs\<rparr>) = map_prod (\<lambda>m. m\<lparr>m_flush := xs\<rparr>) id (flush_tenants env gs n m)"
  by (induction gs arbitrary: n m) (auto simp: upsert_usage_forget split: sum.split)

definition but_flush :: "meter \<Rightarrow> meter" where
  "but_flush m = m\<lparr>m_flush := []\<rparr>"

lemma but_flush_eq: "but_flush m = but_flush n \<longleftrightarrow> n = m\<lparr>m_flush := m_flush n\<rparr>"
  by (cases m, cases n) (auto simp: but_flush_def)

lemma but_flush_fields: "but_flush m = but_flush n \<Longrightarrow> m_usage m = m_usage n \<and> m_active m = m_active n"
  by (cases m, cases n) (simp add: but_flush_def)

lemma redis_at_flush:
  "redis_at now (m\<lparr>m_flush := xs\<rparr>) = (redis_at now m)\<lparr>m_flush := filter (\<lambda>(k, e, h). now \<le> e) xs\<rparr>"
  by (simp add: redis_at_def)

lemma flush_forget: "but_flush (fst (flush env now key (m\<lparr>m_flush := xs\<rparr>))) = but_flush (fst (flush env now key m))"
proof (cases "m_active (redis_at now m)")
  case None
  then show ?thesis by (simp add: flush_def Let_def redis_at_flush but_flush_def)
next
  case (Some x)
  obtain e h where x: "x = (e, h)" by (cases x)
  let ?u = "(redis_at now m)\<lparr>m_active := None\<rparr>"
  have ft: "flush_tenants env gs 0 ((redis_at now m)\<lparr>m_active := None, m_flush := ys\<rparr>)
      = map_prod (\<lambda>m. m\<lparr>m_flush := ys\<rparr>) id (flush_tenants env gs 0 ?u)" for gs ys
    using flush_tenants_forget [where m = ?u and xs = ys] .
  show ?thesis
  proof (cases "group_entries h []")
    case (Inl err)
    then show ?thesis using Some x by (simp add: flush_def Let_def redis_at_flush but_flush_def)
  next
    case (Inr gs)
    obtain m2 r where "flush_tenants env gs 0 ?u = (m2, r)" by fastforce
    then show ?thesis
      using Some x Inr by (cases r) (simp_all add: flush_def Let_def redis_at_flush but_flush_def ft)
  qed
qed

lemma step_forget:
  assumes "but_flush m = but_flush n"
  shows "but_flush (meter_step op m) = but_flush (meter_step op n)"
proof -
  obtain xs where n: "n = m\<lparr>m_flush := xs\<rparr>" using assms by (auto simp: but_flush_eq)
  show ?thesis
  proof (cases op)
    case (Increment now t r k)
    then show ?thesis
      by (simp add: n meter_step_def increment_def Let_def redis_at_flush but_flush_def active_hash_def)
  next
    case (Flush env now key)
    then show ?thesis by (simp add: n meter_step_def flush_forget)
  qed
qed

lemma run_forget: "but_flush m = but_flush n \<Longrightarrow> but_flush (meter_run ops m) = but_flush (meter_run ops n)"
proof (induction ops arbitrary: m n)
  case (Cons op ops)
  from Cons.IH [OF step_forget [OF Cons.prems, of op]] show ?case by (simp add: meter_run_def)
qed (simp add: meter_run_def)

lemma failed_flush_is_never_resumed:
  assumes "flush env now key m = (m', Inl e)" "redis_answers env 1"
  shows "\<exists>d until h. m_active (redis_at now m) = Some (until, h) \<and> map_of (m_flush m') key = Some (d, h)
    \<and> m_usage (meter_run ops m') = m_usage (meter_run ops (m'\<lparr>m_flush := []\<rparr>))
    \<and> m_active (meter_run ops m') = m_active (meter_run ops (m'\<lparr>m_flush := []\<rparr>))"
proof -
  have keep: "flush_tenants env gs k n = (n', res) \<Longrightarrow> m_flush n' = m_flush n" for gs k n n' res
  proof (induction gs arbitrary: k n)
    case (Cons g gs)
    then show ?case
      by (cases g) (auto simp: upsert_usage_def Let_def split: sum.splits if_splits prod.splits)
  qed simp
  let ?m0 = "redis_at now m"
  obtain until h where h: "m_active ?m0 = Some (until, h)"
    using assms by (auto simp: flush_def Let_def split: option.splits)
  have "\<exists>d. map_of (m_flush m') key = Some (d, h)"
  proof (cases "group_entries h []")
    case (Inl err)
    then show ?thesis using assms h by (auto simp: flush_def Let_def split: if_splits)
  next
    case (Inr gs)
    let ?m1 = "?m0\<lparr>m_active := None, m_flush := (key, expires_at now, h) # filter (\<lambda>(k, e, h). k \<noteq> key) (m_flush ?m0)\<rparr>"
    obtain m2 r where f: "flush_tenants env gs 0 ?m1 = (m2, r)" by fastforce
    show ?thesis using assms h Inr f keep [OF f] by (auto simp: flush_def Let_def split: if_splits sum.splits)
  qed
  moreover have "but_flush (meter_run ops m') = but_flush (meter_run ops (m'\<lparr>m_flush := []\<rparr>))"
    by (rule run_forget) (simp add: but_flush_def)
  note but_flush_fields [OF this]
  ultimately show ?thesis using h by blast
qed

lemma failed_flush_is_never_resumed_witness:
  "\<exists>d. map_of (m_flush (fst (flush sample_billing 0 ''f1'' (empty_meter\<lparr>m_active := Some (5, [(''bad'', 1)])\<rparr>)))) ''f1''
    = Some (d, [(''bad'', 1)])"
proof -
  have "split_field ''bad'' = None" by (simp add: split_field_def FIELD_DELIM_def)
  then have f: "flush sample_billing 0 ''f1'' (empty_meter\<lparr>m_active := Some (5, [(''bad'', 1)])\<rparr>)
      = (empty_meter\<lparr>m_flush := [(''f1'', expires_at 0, [(''bad'', 1)])]\<rparr>, Inl ValueError)"
    by (simp add: flush_def empty_meter_def redis_at_def Let_def sample_billing_def)
  have "redis_answers sample_billing 1" by (simp add: sample_billing_def)
  from failed_flush_is_never_resumed [OF f this] f show ?thesis
    by (auto simp: redis_at_def)
qed

end
