(* ===== verification/Rates.thy ===== *)
theory Rates
  imports PyTime
begin

text \<open>
  The three vendor rate cards (\<^verbatim>\<open>pricing/anthropic_rates.py\<close>, \<^verbatim>\<open>pricing/openai_rates.py\<close>,
  \<^verbatim>\<open>pricing/vertex_rates.py\<close>): the rate map in force at an instant, the longest-prefix lookup of a
  model in it, context-length tiers, and the cost of a row of token counts. Rates are integers in
  units of 0.0001 USD per million tokens, the finest unit any table uses; a cost is an integer number of
  millionths of a dollar, the unit the code quantizes to.
\<close>

section \<open>Rate cards\<close>

record model_rates =
  input_per_mtok :: int
  output_per_mtok :: int
  cache_read_per_mtok :: int
  cache_creation_per_mtok :: int

definition rates :: "int \<Rightarrow> int \<Rightarrow> int \<Rightarrow> int \<Rightarrow> model_rates" where
  "rates i out cread ccreate =
     \<lparr>input_per_mtok = i, output_per_mtok = out, cache_read_per_mtok = cread, cache_creation_per_mtok = ccreate\<rparr>"

record 'v rate_card_entry =
  effective_from :: datetime
  effective_to :: "datetime option"
  entry_rates :: "(string \<times> 'v) list"

definition entry_covers :: "datetime \<Rightarrow> 'v rate_card_entry \<Rightarrow> bool" where
  "entry_covers t e \<longleftrightarrow>
     \<not> instant t < instant (effective_from e)
     \<and> (case effective_to e of None \<Rightarrow> True | Some u \<Rightarrow> instant t < instant u)"

definition as_utc :: "datetime \<Rightarrow> datetime" where
  "as_utc t = (if dt_off t = None then t\<lparr>dt_off := Some 0\<rparr> else t)"

text \<open>\<^verbatim>\<open>rates_at\<close>, which the three modules repeat word for word: newest entry first, and the oldest
  entry for an instant before all of them.\<close>

definition rates_at :: "'v rate_card_entry list \<Rightarrow> datetime \<Rightarrow> (string \<times> 'v) list" where
  "rates_at history occurred_at =
     (let t = as_utc occurred_at
      in case List.find (entry_covers t) (rev history) of
           Some e \<Rightarrow> entry_rates e
         | None \<Rightarrow> entry_rates (hd history))"

text \<open>\<^verbatim>\<open>_lookup_model\<close>: an exact match, else the longest key that the name starts with.\<close>

fun best_prefix :: "string \<Rightarrow> (string \<times> 'v) list \<Rightarrow> 'v option \<Rightarrow> nat \<Rightarrow> 'v option" where
  "best_prefix model [] best best_len = best"
| "best_prefix model ((key, val) # rest) best best_len =
     (if startswith model key \<and> best_len < length key
      then best_prefix model rest (Some val) (length key)
      else best_prefix model rest best best_len)"

definition lookup_model :: "string \<Rightarrow> (string \<times> 'v) list \<Rightarrow> 'v option" where
  "lookup_model model rmap =
     (case map_of rmap model of
        Some v \<Rightarrow> Some v
      | None \<Rightarrow> best_prefix model rmap None 0)"

text \<open>The sum of the four products, in units of 0.0001 millionths of a dollar, and its quantization.\<close>

definition exact_cost :: "model_rates \<Rightarrow> int \<Rightarrow> int \<Rightarrow> int \<Rightarrow> int \<Rightarrow> int" where
  "exact_cost r input_tokens output_tokens cache_read_tokens cache_creation_tokens =
     input_per_mtok r * input_tokens + output_per_mtok r * output_tokens
     + cache_read_per_mtok r * cache_read_tokens + cache_creation_per_mtok r * cache_creation_tokens"

definition row_cost :: "model_rates \<Rightarrow> int \<Rightarrow> int \<Rightarrow> int \<Rightarrow> int \<Rightarrow> int" where
  "row_cost r i out cread ccreate = round_half_even (exact_cost r i out cread ccreate) 10000"

definition utc_date :: "int \<Rightarrow> int \<Rightarrow> int \<Rightarrow> datetime" where
  "utc_date y m d = utc_midnight (Date y m d)"

section \<open>Anthropic\<close>

definition anthropic_RATES_2026_05 :: "(string \<times> model_rates) list" where
  "anthropic_RATES_2026_05 =
     [(''claude-sonnet-4-5-20250929'', rates 30000 150000 3000 37500),
      (''claude-sonnet-4-6'', rates 30000 150000 3000 37500),
      (''claude-opus-4-7'', rates 150000 750000 15000 187500),
      (''claude-opus-4-5'', rates 150000 750000 15000 187500),
      (''claude-opus-4-1'', rates 150000 750000 15000 187500),
      (''claude-haiku-4-5'', rates 10000 50000 1000 12500),
      (''claude-haiku-3-5'', rates 8000 40000 800 10000)]"

definition anthropic_RATES_2025_PRELAUNCH :: "(string \<times> model_rates) list" where
  "anthropic_RATES_2025_PRELAUNCH =
     filter (\<lambda>(k, _). k \<noteq> ''claude-opus-4-7'') anthropic_RATES_2026_05"

definition anthropic_RATE_HISTORY :: "model_rates rate_card_entry list" where
  "anthropic_RATE_HISTORY =
     [\<lparr>effective_from = utc_date 2025 1 1, effective_to = Some (utc_date 2026 3 1),
       entry_rates = anthropic_RATES_2025_PRELAUNCH\<rparr>,
      \<lparr>effective_from = utc_date 2026 3 1, effective_to = None,
       entry_rates = anthropic_RATES_2026_05\<rparr>]"

definition anthropic_compute_cost_usd ::
  "string option \<Rightarrow> int \<Rightarrow> int \<Rightarrow> int \<Rightarrow> int \<Rightarrow> datetime \<Rightarrow> int option" where
  "anthropic_compute_cost_usd model input_tokens output_tokens cache_read_tokens cache_creation_tokens occurred_at =
     (case model of
        None \<Rightarrow> None
      | Some m \<Rightarrow>
          (case lookup_model m (rates_at anthropic_RATE_HISTORY occurred_at) of
             None \<Rightarrow> None
           | Some r \<Rightarrow> Some (row_cost r input_tokens output_tokens cache_read_tokens cache_creation_tokens)))"

section \<open>OpenAI\<close>

definition openai_RATES_2026 :: "(string \<times> model_rates) list" where
  "openai_RATES_2026 =
     [(''gpt-4o-mini'', rates 1500 6000 750 0),
      (''gpt-4o'', rates 25000 100000 12500 0),
      (''gpt-4.1-mini'', rates 4000 16000 1000 0),
      (''gpt-4.1'', rates 20000 80000 5000 0),
      (''gpt-4-turbo'', rates 50000 150000 50000 0),
      (''gpt-3.5-turbo'', rates 5000 15000 5000 0),
      (''o1'', rates 150000 600000 75000 0),
      (''o3'', rates 20000 80000 5000 0),
      (''o4-mini'', rates 5500 22000 2750 0),
      (''text-embedding-3-small'', rates 200 0 200 0),
      (''text-embedding-3-large'', rates 1300 0 1300 0)]"

definition openai_RATE_HISTORY :: "model_rates rate_card_entry list" where
  "openai_RATE_HISTORY =
     [\<lparr>effective_from = utc_date 2024 1 1, effective_to = None, entry_rates = openai_RATES_2026\<rparr>]"

definition openai_rates_at :: "datetime \<Rightarrow> (string \<times> model_rates) list" where
  "openai_rates_at occurred_at = rates_at openai_RATE_HISTORY occurred_at"

definition openai_lookup_model :: "string \<Rightarrow> (string \<times> model_rates) list \<Rightarrow> model_rates option" where
  "openai_lookup_model model rmap = lookup_model model rmap"

definition openai_compute_cost_usd ::
  "string option \<Rightarrow> int \<Rightarrow> int \<Rightarrow> int \<Rightarrow> int \<Rightarrow> datetime \<Rightarrow> int option" where
  "openai_compute_cost_usd model input_tokens output_tokens cache_read_tokens cache_creation_tokens occurred_at =
     (case model of
        None \<Rightarrow> None
      | Some m \<Rightarrow>
          (case openai_lookup_model m (openai_rates_at occurred_at) of
             None \<Rightarrow> None
           | Some r \<Rightarrow> Some (row_cost r input_tokens output_tokens cache_read_tokens cache_creation_tokens)))"

section \<open>Vertex, with context-length tiers\<close>

datatype rate_value =
  Flat model_rates
| Tiered (input_token_threshold: int) (low: model_rates) (high: model_rates)

definition vertex_RATES_2026 :: "(string \<times> rate_value) list" where
  "vertex_RATES_2026 =
     [(''gemini-2.5-pro'', Tiered 200000 (rates 12500 100000 3125 0) (rates 25000 150000 6250 0)),
      (''gemini-2.5-flash'', Flat (rates 3000 25000 750 0)),
      (''gemini-2.0-flash-lite'', Flat (rates 750 3000 750 0)),
      (''gemini-2.0-flash'', Flat (rates 1500 6000 375 0))]"

definition vertex_RATE_HISTORY :: "rate_value rate_card_entry list" where
  "vertex_RATE_HISTORY =
     [\<lparr>effective_from = utc_date 2024 1 1, effective_to = None, entry_rates = vertex_RATES_2026\<rparr>]"

fun resolve_rates :: "rate_value \<Rightarrow> int \<Rightarrow> model_rates" where
  "resolve_rates (Tiered threshold lo hi) input_tokens = (if threshold < input_tokens then hi else lo)"
| "resolve_rates (Flat r) input_tokens = r"

definition vertex_rates_at :: "datetime \<Rightarrow> (string \<times> rate_value) list" where
  "vertex_rates_at occurred_at = rates_at vertex_RATE_HISTORY occurred_at"

definition vertex_lookup_model :: "string \<Rightarrow> (string \<times> rate_value) list \<Rightarrow> rate_value option" where
  "vertex_lookup_model model rmap = lookup_model model rmap"

definition vertex_compute_cost_usd ::
  "string option \<Rightarrow> int \<Rightarrow> int \<Rightarrow> int \<Rightarrow> int \<Rightarrow> datetime \<Rightarrow> int option" where
  "vertex_compute_cost_usd model input_tokens output_tokens cache_read_tokens cache_creation_tokens occurred_at =
     (case model of
        None \<Rightarrow> None
      | Some m \<Rightarrow>
          (case vertex_lookup_model m (vertex_rates_at occurred_at) of
             None \<Rightarrow> None
           | Some v \<Rightarrow>
               Some (row_cost (resolve_rates v input_tokens)
                 input_tokens output_tokens cache_read_tokens cache_creation_tokens)))"

section \<open>The lookup\<close>

lemma startswith_same_length:
  "startswith m k \<Longrightarrow> startswith m k' \<Longrightarrow> length k = length k' \<Longrightarrow> k = k'"
  by (metis startswith_def)

lemma ex_longest: "finite S \<Longrightarrow> S \<noteq> {} \<Longrightarrow> \<exists>k \<in> S. \<forall>k' \<in> S. length k' \<le> length k"
proof (induction rule: finite_ne_induct)
  case (insert x F)
  then obtain k where "k \<in> F" "\<forall>k' \<in> F. length k' \<le> length k" by blast
  then show ?case by (cases "length x \<le> length k") (auto intro: order_trans)
qed simp

lemma best_prefix_spec:
  assumes "distinct (map fst rmap)"
  shows "best_prefix m rmap best n = Some v \<longleftrightarrow>
     (\<exists>k. (k, v) \<in> set rmap \<and> startswith m k \<and> n < length k
        \<and> (\<forall>k' \<in> fst ` set rmap. startswith m k' \<longrightarrow> length k' \<le> length k))
     \<or> best = Some v \<and> (\<forall>k' \<in> fst ` set rmap. startswith m k' \<longrightarrow> length k' \<le> n)"
  using assms
proof (induction rmap arbitrary: best n)
  case Nil
  then show ?case by simp
next
  case (Cons kw rmap)
  obtain k w where kw: "kw = (k, w)" by (cases kw)
  have fresh: "startswith m k \<Longrightarrow> \<forall>k' \<in> fst ` set rmap. startswith m k' \<longrightarrow> length k' \<noteq> length k"
    using Cons.prems startswith_same_length by (auto simp: kw)
  have dist: "distinct (map fst rmap)" using Cons.prems by simp
  have longer: "startswith m k' \<Longrightarrow> k' \<in> fst ` set rmap \<Longrightarrow> startswith m k \<Longrightarrow> length k' \<le> length k \<longleftrightarrow> \<not> length k < length k'" for k'
    by (simp add: not_less)
  show ?case
  proof (cases "startswith m k \<and> n < length k")
    case True
    have "(\<exists>k'. (k', v) \<in> set (kw # rmap) \<and> startswith m k' \<and> n < length k'
          \<and> (\<forall>k'' \<in> fst ` set (kw # rmap). startswith m k'' \<longrightarrow> length k'' \<le> length k'))
      \<longleftrightarrow> w = v \<and> (\<forall>k' \<in> fst ` set rmap. startswith m k' \<longrightarrow> length k' \<le> length k)
        \<or> (\<exists>k'. (k', v) \<in> set rmap \<and> startswith m k' \<and> length k < length k'
            \<and> (\<forall>k'' \<in> fst ` set rmap. startswith m k'' \<longrightarrow> length k'' \<le> length k'))"
      (is "?L \<longleftrightarrow> ?R")
    proof
      assume ?L
      then obtain k' where k': "(k', v) \<in> set (kw # rmap)" "startswith m k'"
        "\<forall>k'' \<in> fst ` set (kw # rmap). startswith m k'' \<longrightarrow> length k'' \<le> length k'" by blast
      show ?R
      proof (cases "(k', v) = kw")
        case True
        then show ?thesis using k'(3) by (simp add: kw)
      next
        case False
        then have mem: "(k', v) \<in> set rmap" using k'(1) by simp
        moreover have "length k \<le> length k'" using k'(3) \<open>startswith m k \<and> n < length k\<close> by (simp add: kw)
        moreover have "length k' \<noteq> length k" using fresh \<open>startswith m k \<and> n < length k\<close> k'(2) mem by force
        ultimately show ?thesis using k'(2,3) by (intro disjI2 exI [of _ k']) simp
      qed
    next
      assume ?R
      then show ?L
      proof (elim disjE conjE exE)
        fix k' assume "(k', v) \<in> set rmap" "startswith m k'" "length k < length k'"
          "\<forall>k'' \<in> fst ` set rmap. startswith m k'' \<longrightarrow> length k'' \<le> length k'"
        then show ?L using True by (intro exI [of _ k']) (simp add: kw)
      qed (use True in \<open>intro exI [of _ k]; simp add: kw\<close>)
    qed
    moreover have "\<not> (\<forall>k' \<in> fst ` set (kw # rmap). startswith m k' \<longrightarrow> length k' \<le> n)"
      using True by (auto simp: kw)
    ultimately show ?thesis
      using True Cons.IH [OF dist, of "Some w" "length k"] by (auto simp: kw)
  next
    case False
    have "(\<exists>k'. (k', v) \<in> set (kw # rmap) \<and> startswith m k' \<and> n < length k'
          \<and> (\<forall>k'' \<in> fst ` set (kw # rmap). startswith m k'' \<longrightarrow> length k'' \<le> length k'))
      \<longleftrightarrow> (\<exists>k'. (k', v) \<in> set rmap \<and> startswith m k' \<and> n < length k'
            \<and> (\<forall>k'' \<in> fst ` set rmap. startswith m k'' \<longrightarrow> length k'' \<le> length k'))"
      using False by (intro ex_cong1) (auto simp: kw)
    moreover have "(\<forall>k' \<in> fst ` set (kw # rmap). startswith m k' \<longrightarrow> length k' \<le> n)
      \<longleftrightarrow> (\<forall>k' \<in> fst ` set rmap. startswith m k' \<longrightarrow> length k' \<le> n)"
      using False by (auto simp: kw)
    moreover have step: "best_prefix m (kw # rmap) best n = best_prefix m rmap best n"
      using False by (simp only: kw best_prefix.simps if_False)
    ultimately show ?thesis
      unfolding step Cons.IH [OF dist, of best n] by (simp only: simp_thms)
  qed
qed

lemma lookup_model_spec:
  assumes "distinct (map fst rmap)" "[] \<notin> fst ` set rmap"
  shows "lookup_model m rmap = Some v \<longleftrightarrow>
     (\<exists>k. (k, v) \<in> set rmap \<and> startswith m k
        \<and> (\<forall>k' \<in> fst ` set rmap. startswith m k' \<longrightarrow> length k' \<le> length k))"
proof (cases "map_of rmap m")
  case None
  have "0 < length k" if "(k, v) \<in> set rmap" for k
    using that assms(2) by (cases k) force+
  with None show ?thesis
    by (auto simp: lookup_model_def best_prefix_spec [OF assms(1)])
next
  case (Some w)
  then have mem: "(m, w) \<in> set rmap" by (rule map_of_SomeD)
  have "k = m" if "startswith m k" "\<forall>k' \<in> fst ` set rmap. startswith m k' \<longrightarrow> length k' \<le> length k" for k
  proof -
    have "m \<in> fst ` set rmap" using mem by force
    with that(2) have "length m \<le> length k" using startswith_refl by blast
    with startswith_length [OF that(1)] that(1) show ?thesis
      using startswith_same_length [OF startswith_refl that(1)] by simp
  qed
  moreover have "(m, v) \<in> set rmap \<Longrightarrow> v = w"
    using mem assms(1) by (metis eq_key_imp_eq_value)
  moreover have "startswith m k' \<longrightarrow> length k' \<le> length m" for k'
    by (simp add: startswith_length)
  ultimately show ?thesis using Some mem by (auto simp: lookup_model_def)
qed

lemma lookup_model_defined:
  assumes "distinct (map fst rmap)" "[] \<notin> fst ` set rmap"
  shows "(\<exists>v. lookup_model m rmap = Some v) \<longleftrightarrow> (\<exists>k \<in> fst ` set rmap. startswith m k)"
proof
  let ?S = "{k \<in> fst ` set rmap. startswith m k}"
  assume "\<exists>k \<in> fst ` set rmap. startswith m k"
  then have "finite ?S" "?S \<noteq> {}" by auto
  from ex_longest [OF this] obtain k where k: "k \<in> ?S" "\<And>k'. k' \<in> ?S \<Longrightarrow> length k' \<le> length k" by blast
  from k(1) obtain v where "(k, v) \<in> set rmap" by force
  with k have "\<exists>k. (k, v) \<in> set rmap \<and> startswith m k \<and> (\<forall>k' \<in> fst ` set rmap. startswith m k' \<longrightarrow> length k' \<le> length k)"
    by (intro exI [of _ k]) simp
  from lookup_model_spec [OF assms, THEN iffD2, OF this]
  show "\<exists>v. lookup_model m rmap = Some v" by (rule exI)
next
  assume "\<exists>v. lookup_model m rmap = Some v"
  then obtain v k where "(k, v) \<in> set rmap" "startswith m k"
    using lookup_model_spec [OF assms, THEN iffD1] by blast
  then show "\<exists>k \<in> fst ` set rmap. startswith m k" by force
qed

lemma lookup_model_mem:
  assumes "lookup_model m rmap = Some v"
  shows "v \<in> snd ` set rmap"
proof -
  have "best_prefix m rs best n = Some v \<Longrightarrow> v \<in> snd ` set rs \<or> best = Some v" for rs :: "(string \<times> 'a) list" and best n
    by (induction m rs best n rule: best_prefix.induct) (auto split: if_splits)
  then show ?thesis
    using assms by (force simp: lookup_model_def dest: map_of_SomeD split: option.splits)
qed

lemma find_mem: "List.find P xs = Some x \<Longrightarrow> x \<in> set xs"
  by (induction xs) (auto split: if_splits)

lemma rates_at_mem: "h \<noteq> [] \<Longrightarrow> rates_at h t \<in> entry_rates ` set h"
  by (auto simp: rates_at_def Let_def split: option.splits dest!: find_mem)

lemma lookup_rates_at_mem:
  "lookup_model m (rates_at h t) = Some v \<Longrightarrow> h \<noteq> [] \<Longrightarrow> \<exists>e \<in> set h. v \<in> snd ` set (entry_rates e)"
  using lookup_model_mem [of m "rates_at h t" v] rates_at_mem [of h t] by (metis imageE)

lemma half_unit_add:
  "2 * \<bar>a\<bar> \<le> x \<Longrightarrow> 2 * \<bar>b\<bar> \<le> y \<Longrightarrow> 2 * \<bar>a + b\<bar> \<le> x + (y :: int)"
  using abs_triangle_ineq [of a b] mult_left_mono [of "\<bar>a + b\<bar>" "\<bar>a\<bar> + \<bar>b\<bar>" 2] by (simp add: algebra_simps)

section \<open>What every vendor's pricing promises\<close>

definition rates_le :: "model_rates \<Rightarrow> model_rates \<Rightarrow> bool" where
  "rates_le p q \<longleftrightarrow> input_per_mtok p \<le> input_per_mtok q \<and> output_per_mtok p \<le> output_per_mtok q
     \<and> cache_read_per_mtok p \<le> cache_read_per_mtok q \<and> cache_creation_per_mtok p \<le> cache_creation_per_mtok q"

definition free :: model_rates where
  "free = rates 0 0 0 0"

lemma exact_cost_mono:
  assumes "rates_le free p" "rates_le p q" "0 \<le> i" "i \<le> i'" "0 \<le> out" "out \<le> out'"
    "0 \<le> r" "r \<le> r'" "0 \<le> c" "c \<le> c'"
  shows "exact_cost p i out r c \<le> exact_cost q i' out' r' c'"
  using assms unfolding exact_cost_def rates_le_def free_def rates_def
  by (intro add_mono mult_mono) simp_all

lemma exact_cost_add:
  "exact_cost p (i + i') (out + out') (r + r') (c + c') = exact_cost p i out r c + exact_cost p i' out' r' c'"
  by (simp add: exact_cost_def algebra_simps)

text \<open>
  The interface the cost estimators use: a cost function, and the rates it quotes for a model at an
  instant and an input length. Prices are never negative and never fall as the input grows.
\<close>

locale rate_card =
  fixes cost :: "string option \<Rightarrow> int \<Rightarrow> int \<Rightarrow> int \<Rightarrow> int \<Rightarrow> datetime \<Rightarrow> int option"
    and quote_of :: "string \<Rightarrow> datetime \<Rightarrow> int \<Rightarrow> model_rates option"
  assumes cost_None: "cost None i out r c t = None"
    and cost_Some: "cost (Some m) i out r c t = map_option (\<lambda>q. row_cost q i out r c) (quote_of m t i)"
    and quote_fair: "quote_of m t i = Some q \<Longrightarrow> rates_le free q"
    and quote_rises: "quote_of m t i = Some q \<Longrightarrow> i \<le> j \<Longrightarrow> \<exists>q'. quote_of m t j = Some q' \<and> rates_le q q'"
begin

lemma cost_cases:
  assumes "cost m i out r c t = Some k"
  obtains n q where "m = Some n" "quote_of n t i = Some q" "k = row_cost q i out r c"
  using assms by (cases m) (auto simp: cost_None cost_Some)

lemma cost_mono:
  assumes "cost m i out r c t = Some k" "0 \<le> i" "i \<le> i'" "0 \<le> out" "out \<le> out'" "0 \<le> r" "r \<le> r'" "0 \<le> c" "c \<le> c'"
  shows "\<exists>k'. cost m i' out' r' c' t = Some k' \<and> 0 \<le> k \<and> k \<le> k'"
proof -
  obtain n q where m: "m = Some n" "quote_of n t i = Some q" "k = row_cost q i out r c"
    using assms(1) by (rule cost_cases)
  obtain q' where q': "quote_of n t i' = Some q'" "rates_le q q'"
    using quote_rises [OF m(2) assms(3)] by blast
  note fair = quote_fair [OF m(2)]
  have "exact_cost q i out r c \<le> exact_cost q' i' out' r' c'"
    using exact_cost_mono [OF fair q'(2)] assms by simp
  moreover have "0 \<le> exact_cost q i out r c"
    using fair assms by (simp add: exact_cost_def rates_le_def free_def rates_def)
  ultimately show ?thesis
    using m q'(1) by (simp add: cost_Some row_cost_def round_half_even_mono round_half_even_nonneg)
qed

lemma cost_error:
  assumes "cost (Some m) i out r c t = Some k" "quote_of m t i = Some q"
  shows "2 * \<bar>exact_cost q i out r c - 10000 * k\<bar> \<le> 10000"
  using assms round_half_even_error [of 10000 "exact_cost q i out r c"]
  by (auto simp: cost_Some row_cost_def)

end

text \<open>A card whose quote does not depend on the input length: Anthropic's and OpenAI's.\<close>

type_synonym usage_row = "int \<times> int \<times> int \<times> int"

fun price_row :: "(string option \<Rightarrow> int \<Rightarrow> int \<Rightarrow> int \<Rightarrow> int \<Rightarrow> datetime \<Rightarrow> int option) \<Rightarrow> string option \<Rightarrow> datetime
    \<Rightarrow> usage_row \<Rightarrow> int option" where
  "price_row cost m t (i, out, r, c) = cost m i out r c t"

fun add_rows :: "usage_row list \<Rightarrow> usage_row" where
  "add_rows [] = (0, 0, 0, 0)"
| "add_rows ((i, out, r, c) # rows) =
     (case add_rows rows of (i', out', r', c') \<Rightarrow> (i + i', out + out', r + r', c + c'))"

locale flat_rate_card = rate_card cost quote_of
  for cost :: "string option \<Rightarrow> int \<Rightarrow> int \<Rightarrow> int \<Rightarrow> int \<Rightarrow> datetime \<Rightarrow> int option"
    and quote_of :: "string \<Rightarrow> datetime \<Rightarrow> int \<Rightarrow> model_rates option" +
  assumes quote_flat: "quote_of m t i = quote_of m t j"
begin

lemma batch_exact:
  assumes "quote_of m t 0 = Some q" "list_all2 (\<lambda>row k. price_row cost (Some m) t row = Some k) rows ks"
  shows "2 * \<bar>(case add_rows rows of (i, out, r, c) \<Rightarrow> exact_cost q i out r c) - 10000 * sum_list ks\<bar>
           \<le> 10000 * int (length rows)"
  using assms(2)
proof (induction rows ks rule: list_all2_induct)
  case Nil
  then show ?case by (simp add: exact_cost_def)
next
  case (Cons row rows k ks)
  obtain i out r c where row: "row = (i, out, r, c)" by (cases row)
  obtain i' out' r' c' where rest: "add_rows rows = (i', out', r', c')" by (cases "add_rows rows")
  have "quote_of m t i = Some q" using assms(1) quote_flat [of m t i 0] by simp
  with Cons.hyps(1) have "2 * \<bar>exact_cost q i out r c - 10000 * k\<bar> \<le> 10000"
    using cost_error [of m i out r c t k q] by (simp add: row)
  moreover have "2 * \<bar>exact_cost q i' out' r' c' - 10000 * sum_list ks\<bar> \<le> 10000 * int (length rows)"
    using Cons.IH by (simp add: rest)
  note half_unit_add [OF calculation this]
  then show ?case by (simp add: row rest exact_cost_add algebra_simps)
qed

lemma batch_error:
  assumes "list_all2 (\<lambda>row k. price_row cost m t row = Some k) rows ks"
    and "price_row cost m t (add_rows rows) = Some whole"
  shows "2 * \<bar>sum_list ks - whole\<bar> \<le> int (length rows) + 1"
proof -
  obtain i out r c where tot: "add_rows rows = (i, out, r, c)" by (cases "add_rows rows")
  with assms(2) obtain n q where m: "m = Some n" "quote_of n t i = Some q"
    by (auto elim: cost_cases)
  then have "quote_of n t 0 = Some q" using quote_flat [of n t i 0] by simp
  from batch_exact [OF this, of rows ks] assms(1) m(1) tot
  have "2 * \<bar>exact_cost q i out r c - 10000 * sum_list ks\<bar> \<le> 10000 * int (length rows)" by simp
  moreover have "2 * \<bar>exact_cost q i out r c - 10000 * whole\<bar> \<le> 10000"
    using cost_error [of n i out r c t whole q] assms(2) m tot by simp
  then have "2 * \<bar>10000 * whole - exact_cost q i out r c\<bar> \<le> 10000" by (simp add: abs_minus_commute)
  note half_unit_add [OF calculation this]
  then have "2 * \<bar>10000 * (whole - sum_list ks)\<bar> \<le> 10000 * (int (length rows) + 1)"
    by (simp add: algebra_simps)
  then have "10000 * (2 * \<bar>whole - sum_list ks\<bar>) \<le> 10000 * (int (length rows) + 1)"
    by (simp only: abs_mult)
  then have "2 * \<bar>whole - sum_list ks\<bar> \<le> int (length rows) + 1"
    by (rule mult_left_le_imp_le) simp
  then show ?thesis by (simp only: abs_minus_commute [of "sum_list ks"])
qed

end

section \<open>The three vendors' cards\<close>

definition anthropic_quote :: "string \<Rightarrow> datetime \<Rightarrow> int \<Rightarrow> model_rates option" where
  "anthropic_quote m t i = lookup_model m (rates_at anthropic_RATE_HISTORY t)"

definition openai_quote :: "string \<Rightarrow> datetime \<Rightarrow> int \<Rightarrow> model_rates option" where
  "openai_quote m t i = openai_lookup_model m (openai_rates_at t)"

definition vertex_quote :: "string \<Rightarrow> datetime \<Rightarrow> int \<Rightarrow> model_rates option" where
  "vertex_quote m t i = map_option (\<lambda>v. resolve_rates v i) (vertex_lookup_model m (vertex_rates_at t))"

lemma rates_le_refl [simp]: "rates_le p p"
  by (simp add: rates_le_def)

lemma rates_le_rates [simp]:
  "rates_le (rates a b c d) (rates a' b' c' d') \<longleftrightarrow> a \<le> a' \<and> b \<le> b' \<and> c \<le> c' \<and> d \<le> d'"
  by (simp add: rates_le_def rates_def)

lemma anthropic_entries:
  "e \<in> set anthropic_RATE_HISTORY \<Longrightarrow> r \<in> snd ` set (entry_rates e) \<Longrightarrow> rates_le free r"
  by (auto simp: anthropic_RATE_HISTORY_def anthropic_RATES_2025_PRELAUNCH_def anthropic_RATES_2026_05_def free_def)

lemma openai_entries:
  "e \<in> set openai_RATE_HISTORY \<Longrightarrow> r \<in> snd ` set (entry_rates e) \<Longrightarrow> rates_le free r"
  by (auto simp: openai_RATE_HISTORY_def openai_RATES_2026_def free_def)

lemma vertex_entries:
  "e \<in> set vertex_RATE_HISTORY \<Longrightarrow> v \<in> snd ` set (entry_rates e) \<Longrightarrow>
     rates_le free (resolve_rates v i) \<and> (i \<le> j \<longrightarrow> rates_le (resolve_rates v i) (resolve_rates v j))"
  by (auto simp: vertex_RATE_HISTORY_def vertex_RATES_2026_def free_def)

lemma histories_not_Nil [simp]:
  "anthropic_RATE_HISTORY \<noteq> []" "openai_RATE_HISTORY \<noteq> []" "vertex_RATE_HISTORY \<noteq> []"
  by (simp_all add: anthropic_RATE_HISTORY_def openai_RATE_HISTORY_def vertex_RATE_HISTORY_def)

interpretation anthropic: flat_rate_card anthropic_compute_cost_usd anthropic_quote
proof
  fix m t i q
  assume "anthropic_quote m t i = Some q"
  then show "rates_le free q"
    using lookup_rates_at_mem anthropic_entries by (fastforce simp: anthropic_quote_def)
qed (auto simp: anthropic_compute_cost_usd_def anthropic_quote_def split: option.splits)

interpretation openai: flat_rate_card openai_compute_cost_usd openai_quote
proof
  fix m t i q
  assume "openai_quote m t i = Some q"
  then show "rates_le free q"
    using lookup_rates_at_mem openai_entries by (fastforce simp: openai_quote_def openai_lookup_model_def openai_rates_at_def)
qed (auto simp: openai_compute_cost_usd_def openai_quote_def split: option.splits)

interpretation vertex: rate_card vertex_compute_cost_usd vertex_quote
proof
  fix m t i j q
  assume "vertex_quote m t i = Some q"
  then obtain v where v: "vertex_lookup_model m (vertex_rates_at t) = Some v" "q = resolve_rates v i"
    by (auto simp: vertex_quote_def)
  then obtain e where e: "e \<in> set vertex_RATE_HISTORY" "v \<in> snd ` set (entry_rates e)"
    using lookup_rates_at_mem by (fastforce simp: vertex_lookup_model_def vertex_rates_at_def)
  show "rates_le free q" using vertex_entries [OF e, of i i] v by simp
  show "i \<le> j \<Longrightarrow> \<exists>q'. vertex_quote m t j = Some q' \<and> rates_le q q'"
    using vertex_entries [OF e, of i j] v by (simp add: vertex_quote_def)
qed (auto simp: vertex_compute_cost_usd_def vertex_quote_def split: option.splits)

section \<open>Properties\<close>

lemma rates_at_two:
  assumes "instant a \<le> instant b"
  shows "rates_at [\<lparr>effective_from = a, effective_to = Some b, entry_rates = old\<rparr>,
                   \<lparr>effective_from = b, effective_to = None, entry_rates = new\<rparr>] t
    = (if instant (as_utc t) < instant b then old else new)"
  using assms by (simp add: rates_at_def entry_covers_def Let_def)

text \<open>C9: Model lookup in a rate map (whose keys are distinct and not empty, as in every vendor's table)
  returns exactly the value of the longest key the model name starts with, whatever the order of
  the table: \<^verbatim>\<open>gpt-4o-mini-2024-07-18\<close> is priced as \<^verbatim>\<open>gpt-4o-mini\<close>, never as \<^verbatim>\<open>gpt-4o\<close>; a name with
  no such key has no rate.\<close>

theorem lookup_is_longest_prefix:
  assumes "distinct (map fst rmap)" "[] \<notin> fst ` set rmap"
  shows "(lookup_model m rmap = Some v \<longleftrightarrow>
     (\<exists>k. (k, v) \<in> set rmap \<and> startswith m k
        \<and> (\<forall>k' \<in> fst ` set rmap. startswith m k' \<longrightarrow> length k' \<le> length k)))
    \<and> (lookup_model m rmap = None \<longleftrightarrow> (\<forall>k \<in> fst ` set rmap. \<not> startswith m k))"
proof -
  have "(\<exists>v. lookup_model m rmap = Some v) \<longleftrightarrow> (\<exists>k \<in> fst ` set rmap. startswith m k)"
    by (rule lookup_model_defined [OF assms])
  with lookup_model_spec [OF assms, of m v] show ?thesis by (metis not_Some_eq)
qed

lemma lookup_is_longest_prefix_witness:
  "lookup_model ''gpt-4o-mini-2024-07-18'' openai_RATES_2026 = Some (rates 1500 6000 750 0)
   \<and> lookup_model ''gpt-5'' openai_RATES_2026 = None"
proof -
  have d: "distinct (map fst openai_RATES_2026)" "[] \<notin> fst ` set openai_RATES_2026"
    by (simp_all add: openai_RATES_2026_def)
  have "\<exists>k. (k, rates 1500 6000 750 0) \<in> set openai_RATES_2026 \<and> startswith ''gpt-4o-mini-2024-07-18'' k
      \<and> (\<forall>k' \<in> fst ` set openai_RATES_2026. startswith ''gpt-4o-mini-2024-07-18'' k' \<longrightarrow> length k' \<le> length k)"
    by (rule exI [of _ "''gpt-4o-mini''"]) (simp add: openai_RATES_2026_def startswith_def)
  moreover have "\<forall>k \<in> fst ` set openai_RATES_2026. \<not> startswith ''gpt-5'' k"
    by (simp add: openai_RATES_2026_def startswith_def)
  ultimately show ?thesis
    using lookup_is_longest_prefix [OF d] by blast
qed

text \<open>C10: The cost of a row never falls when any of its token counts grows, and is never negative, for
  all three vendors at any instant: across the 200,000-token tier of Gemini 2.5 Pro too. A row that
  has a price keeps one.\<close>

theorem cost_monotone:
  assumes "cost = anthropic_compute_cost_usd \<or> cost = openai_compute_cost_usd \<or> cost = vertex_compute_cost_usd"
    and "cost m i out r c t = Some k"
    and "0 \<le> i" "i \<le> i'" "0 \<le> out" "out \<le> out'" "0 \<le> r" "r \<le> r'" "0 \<le> c" "c \<le> c'"
  shows "\<exists>k'. cost m i' out' r' c' t = Some k' \<and> 0 \<le> k \<and> k \<le> k'"
  using assms(1,2) anthropic.cost_mono [OF _ assms(3-)] openai.cost_mono [OF _ assms(3-)]
    vertex.cost_mono [OF _ assms(3-)] by blast

lemma gemini_25_pro: "vertex_lookup_model ''gemini-2.5-pro'' (vertex_rates_at t)
    = Some (Tiered 200000 (rates 12500 100000 3125 0) (rates 25000 150000 6250 0))"
  by (simp add: vertex_lookup_model_def vertex_rates_at_def rates_at_def vertex_RATE_HISTORY_def Let_def lookup_model_def vertex_RATES_2026_def)

lemma cost_monotone_witness:
  "\<exists>k'. vertex_compute_cost_usd (Some ''gemini-2.5-pro'') 200001 0 0 0 (utc_date 2026 5 1) = Some k' \<and> 0 \<le> (250000 :: int) \<and> 250000 \<le> k'"
proof -
  have "vertex_compute_cost_usd (Some ''gemini-2.5-pro'') 200000 0 0 0 (utc_date 2026 5 1) = Some 250000"
    by (simp add: vertex_compute_cost_usd_def gemini_25_pro)
      (simp add: row_cost_def exact_cost_def rates_def round_half_even_def)
  then show ?thesis
    using cost_monotone [where cost = vertex_compute_cost_usd and m = "Some ''gemini-2.5-pro''" and i = 200000 and i' = 200001
        and out = 0 and out' = 0 and r = 0 and r' = 0 and c = 0 and c' = 0 and k = 250000 and t = "utc_date 2026 5 1"] by simp
qed

text \<open>Pricing a batch row by row and pricing its summed token counts differ by at most half a
  millionth of a dollar per row and half a millionth more, for Anthropic and OpenAI. The rounding of
  single rows cannot drift further.\<close>

lemma batch_rounding_bound:
  assumes "cost = anthropic_compute_cost_usd \<or> cost = openai_compute_cost_usd"
    and "list_all2 (\<lambda>row k. price_row cost m t row = Some k) rows ks"
    and "price_row cost m t (add_rows rows) = Some whole"
  shows "2 * \<bar>sum_list ks - whole\<bar> \<le> int (length rows) + 1"
  using assms anthropic.batch_error openai.batch_error by blast

lemma batch_rounding_bound_witness:
  "2 * \<bar>sum_list [0, 0, 0] - (1 :: int)\<bar> \<le> int (length ([(0, 0, 1, 0), (0, 0, 1, 0), (0, 0, 1, 0)] :: usage_row list)) + 1"
proof -
  let ?t = "utc_date 2026 5 1"
  have q: "lookup_model ''claude-sonnet-4-6'' (rates_at anthropic_RATE_HISTORY t) = Some (rates 30000 150000 3000 37500)" for t
    by (simp add: anthropic_RATE_HISTORY_def rates_at_two utc_date_def instant_utc_midnight toordinal_def
        days_before_year_def days_before_month_def is_leap_def lookup_model_def
        anthropic_RATES_2025_PRELAUNCH_def anthropic_RATES_2026_05_def day_us_def)
  have "list_all2 (\<lambda>row k. price_row anthropic_compute_cost_usd (Some ''claude-sonnet-4-6'') ?t row = Some k)
      [(0, 0, 1, 0), (0, 0, 1, 0), (0, 0, 1, 0)] [0, 0, 0]"
    by (simp add: anthropic_compute_cost_usd_def q row_cost_def exact_cost_def rates_def round_half_even_def)
  moreover have "price_row anthropic_compute_cost_usd (Some ''claude-sonnet-4-6'') ?t (add_rows [(0, 0, 1, 0), (0, 0, 1, 0), (0, 0, 1, 0)]) = Some 1"
    by (simp add: anthropic_compute_cost_usd_def q row_cost_def exact_cost_def rates_def round_half_even_def)
  ultimately show ?thesis
    by (rule batch_rounding_bound [where cost = anthropic_compute_cost_usd, OF disjI1 [OF refl]])
qed

lemma anthropic_rates_at:
  "rates_at anthropic_RATE_HISTORY t =
     (if instant (as_utc t) < instant (utc_date 2026 3 1) then anthropic_RATES_2025_PRELAUNCH
      else anthropic_RATES_2026_05)"
proof -
  have "instant (utc_date 2025 1 1) \<le> instant (utc_date 2026 3 1)"
    by (simp add: utc_date_def instant_utc_midnight toordinal_def days_before_year_def
        days_before_month_def is_leap_def day_us_def)
  then show ?thesis by (simp add: anthropic_RATE_HISTORY_def rates_at_two)
qed

text \<open>At every instant, aware or naive, the Anthropic card has no price for a Sonnet 4.5 model whose
  date stamp is not the one in the table (the family key is not in it), and prices Opus 4.7 from
  2026-03-01T00:00 UTC on and never before.\<close>

lemma anthropic_coverage:
  "anthropic_compute_cost_usd (Some ''claude-sonnet-4-5-20260601'') i out r c t = None
   \<and> (anthropic_compute_cost_usd (Some ''claude-opus-4-7-20260301'') i out r c t = None
        \<longleftrightarrow> instant (as_utc t) < instant (utc_date 2026 3 1))"
proof -
  have "lookup_model ''claude-sonnet-4-5-20260601'' rs = None"
    if "rs = anthropic_RATES_2025_PRELAUNCH \<or> rs = anthropic_RATES_2026_05" for rs
    using that by (auto simp: lookup_model_def startswith_def anthropic_RATES_2025_PRELAUNCH_def anthropic_RATES_2026_05_def)
  moreover have "lookup_model ''claude-opus-4-7-20260301'' anthropic_RATES_2025_PRELAUNCH = None"
    "lookup_model ''claude-opus-4-7-20260301'' anthropic_RATES_2026_05 = Some (rates 150000 750000 15000 187500)"
    by (simp_all add: lookup_model_def startswith_def anthropic_RATES_2025_PRELAUNCH_def anthropic_RATES_2026_05_def)
  ultimately show ?thesis
    by (simp add: anthropic_compute_cost_usd_def anthropic_rates_at split: option.splits)
qed

end
