(* ===== verification/VendorCost.thy ===== *)
theory VendorCost
  imports Rates Json
begin

text \<open>
  The per-record cost estimate (\<^verbatim>\<open>pricing/vendor_cost.py\<close>): which vendor a stream belongs to, how token
  counts are read out of the stored JSON, and the price of one record. An estimate is \<^const>\<open>None\<close> when
  nothing in the record has a price; an exception of \<^verbatim>\<open>int()\<close> or of the rate lookup is an error value.
\<close>

datatype cost_exception = ValueError | TypeError | AttributeError | OverflowError

definition VENDOR_ANTHROPIC :: string where "VENDOR_ANTHROPIC = ''Anthropic''"
definition VENDOR_OPENAI :: string where "VENDOR_OPENAI = ''OpenAI''"
definition VENDOR_GOOGLE :: string where "VENDOR_GOOGLE = ''Google''"
definition SOURCE_API_ANTHROPIC_USAGE :: string where "SOURCE_API_ANTHROPIC_USAGE = ''admin''"
definition SOURCE_API_OPENAI_USAGE :: string where "SOURCE_API_OPENAI_USAGE = ''openai_admin_usage''"
definition SOURCE_API_VERTEX_USAGE :: string where "SOURCE_API_VERTEX_USAGE = ''vertex_token_usage''"
definition SOURCE_API_VERTEX_COSTS :: string where "SOURCE_API_VERTEX_COSTS = ''vertex_billing_costs''"

definition vendor_of :: "string \<Rightarrow> string" where
  "vendor_of source_api =
     (if source_api \<noteq> [] \<and> startswith source_api ''vertex_'' then VENDOR_GOOGLE
      else if source_api \<noteq> [] \<and> startswith source_api ''openai_'' then VENDOR_OPENAI
      else VENDOR_ANTHROPIC)"

section \<open>Reading token counts\<close>

text \<open>Digits with single underscores between them, as \<^verbatim>\<open>int()\<close> accepts.\<close>

fun digit_groups :: "string \<Rightarrow> bool" where
  "digit_groups [] = False"
| "digit_groups [c] = is_digit c"
| "digit_groups (c # d # s) =
     (is_digit c \<and> (if d = CHR ''_'' then digit_groups s else digit_groups (d # s)))"

definition signed :: "string \<Rightarrow> bool \<times> string" where
  "signed s = (case s of
      [] \<Rightarrow> (False, [])
    | c # r \<Rightarrow> if c = CHR ''-'' then (True, r) else if c = CHR ''+'' then (False, r) else (False, s))"

definition int_of_text :: "string \<Rightarrow> int option" where
  "int_of_text s =
     (case signed (strip s) of (neg, u) \<Rightarrow>
        if digit_groups u
        then Some ((if neg then -1 else 1) * int (nat_val (filter (\<lambda>c. c \<noteq> CHR ''_'') u)))
        else None)"

text \<open>
  \<^verbatim>\<open>int()\<close> of a float given by its \<^verbatim>\<open>repr\<close>: digits, an optional fraction, an optional exponent; the part
  after the decimal point is dropped. Exact up to \<open>2 ^ 53\<close>, where a float's \<^verbatim>\<open>repr\<close> is its value.
\<close>

definition int_of_real :: "string \<Rightarrow> int option" where
  "int_of_real s =
     (case signed s of (neg, u) \<Rightarrow>
       (let ip = takeWhile is_digit u; r1 = dropWhile is_digit u;
            fp = (if r1 \<noteq> [] \<and> hd r1 = CHR ''.'' then takeWhile is_digit (tl r1) else []);
            r2 = (if r1 \<noteq> [] \<and> hd r1 = CHR ''.'' then dropWhile is_digit (tl r1) else r1);
            n = nat_val (ip @ fp)
        in if ip = [] then None
           else case (if r2 = [] then Some 0 else if hd r2 = CHR ''e'' then int_of_text (tl r2) else None) of
                  None \<Rightarrow> None
                | Some e \<Rightarrow>
                    (let k = e - int (length fp);
                         m = (if 0 \<le> k then int n * 10 ^ nat k else int n div 10 ^ nat (- k))
                     in Some (if neg then - m else m))))"

fun as_int :: "json option \<Rightarrow> cost_exception + int" where
  "as_int None = Inr 0"
| "as_int (Some JNull) = Inr 0"
| "as_int (Some (JBool b)) = Inr (if b then 1 else 0)"
| "as_int (Some (JInt n)) = Inr n"
| "as_int (Some (JReal s)) =
     (case int_of_real s of None \<Rightarrow> Inl (if s = ''NaN'' then ValueError else OverflowError) | Some n \<Rightarrow> Inr n)"
| "as_int (Some (JStr s)) = (case int_of_text s of None \<Rightarrow> Inl ValueError | Some n \<Rightarrow> Inr n)"
| "as_int (Some (JList xs)) = Inl TypeError"
| "as_int (Some (JObj kvs)) = Inl TypeError"

type_synonym dict = "(string \<times> json) list"

text \<open>\<^verbatim>\<open>model\<close> as the rate modules use it: \<^verbatim>\<open>None\<close> has no price, a number or boolean has no
  \<^verbatim>\<open>startswith\<close>, a list or object cannot be hashed.\<close>

fun with_model :: "json option \<Rightarrow> (string \<Rightarrow> int option) \<Rightarrow> cost_exception + int option" where
  "with_model None price = Inr None"
| "with_model (Some JNull) price = Inr None"
| "with_model (Some (JStr m)) price = Inr (price m)"
| "with_model (Some (JList xs)) price = Inl TypeError"
| "with_model (Some (JObj kvs)) price = Inl TypeError"
| "with_model (Some j) price = Inl AttributeError"

section \<open>Anthropic\<close>

definition anthropic_cache_creation_tokens :: "dict \<Rightarrow> cost_exception + int" where
  "anthropic_cache_creation_tokens breakdown =
     bindE (as_int (map_of breakdown ''cache_creation_input_tokens'')) (\<lambda>flat.
       if flat \<noteq> 0 then Inr flat
       else case map_of breakdown ''cache_creation'' of
              Some (JObj nested) \<Rightarrow>
                bindE (as_int (map_of nested ''ephemeral_5m_input_tokens'')) (\<lambda>a.
                bindE (as_int (map_of nested ''ephemeral_1h_input_tokens'')) (\<lambda>b. Inr (a + b)))
            | _ \<Rightarrow> Inr 0)"

definition anthropic_breakdown_cost :: "dict \<Rightarrow> datetime \<Rightarrow> cost_exception + int option" where
  "anthropic_breakdown_cost breakdown occurred_at =
     bindE (as_int (map_of breakdown ''input_tokens'')) (\<lambda>i.
     bindE (as_int (map_of breakdown ''output_tokens'')) (\<lambda>out.
     bindE (as_int (map_of breakdown ''cache_read_input_tokens'')) (\<lambda>r.
     bindE (anthropic_cache_creation_tokens breakdown) (\<lambda>c.
       with_model (map_of breakdown ''model'')
         (\<lambda>m. anthropic_compute_cost_usd (Some m) i out r c occurred_at)))))"

definition add_cost :: "int option \<Rightarrow> int option \<Rightarrow> int option" where
  "add_cost whole cost =
     (case cost of None \<Rightarrow> whole
      | Some c \<Rightarrow> Some (case whole of None \<Rightarrow> c | Some t \<Rightarrow> t + c))"

fun sum_breakdowns :: "json list \<Rightarrow> datetime \<Rightarrow> int option \<Rightarrow> cost_exception + int option" where
  "sum_breakdowns [] occurred_at whole = Inr whole"
| "sum_breakdowns (JObj breakdown # rest) occurred_at whole =
     bindE (anthropic_breakdown_cost breakdown occurred_at) (\<lambda>cost.
       sum_breakdowns rest occurred_at (add_cost whole cost))"
| "sum_breakdowns (_ # rest) occurred_at whole = sum_breakdowns rest occurred_at whole"

definition estimate_anthropic_usage :: "dict \<Rightarrow> datetime \<Rightarrow> cost_exception + int option" where
  "estimate_anthropic_usage metadata occurred_at =
     (case map_of metadata ''results'' of
        Some (JList results) \<Rightarrow> sum_breakdowns results occurred_at None
      | _ \<Rightarrow> Inr None)"

section \<open>OpenAI and Vertex\<close>

definition estimate_openai_usage :: "dict \<Rightarrow> datetime \<Rightarrow> cost_exception + int option" where
  "estimate_openai_usage metadata occurred_at =
     (case map_of metadata ''result'' of
        Some (JObj result) \<Rightarrow>
          bindE (as_int (map_of result ''input_uncached_tokens'')) (\<lambda>u.
          bindE (as_int (map_of result ''output_tokens'')) (\<lambda>out.
          bindE (as_int (map_of result ''input_cached_tokens'')) (\<lambda>c.
            with_model (map_of result ''model'')
              (\<lambda>m. openai_compute_cost_usd (Some m) u out c 0 occurred_at))))
      | _ \<Rightarrow> Inr None)"

definition lower_char :: "char \<Rightarrow> char" where
  "lower_char c = (let n = of_char c :: nat
     in if 65 \<le> n \<and> n \<le> 90 \<or> 192 \<le> n \<and> n \<le> 222 \<and> n \<noteq> 215 then char_of (n + 32) else c)"

text \<open>\<^verbatim>\<open>str(token_type_raw).lower()\<close>. The text of a value that is not a string is neither of the two
  labels it is compared with; it is left empty here.\<close>

definition token_type :: "json option \<Rightarrow> string" where
  "token_type raw = (case raw of Some (JStr s) \<Rightarrow> map lower_char s | _ \<Rightarrow> [])"

definition estimate_vertex_usage :: "dict \<Rightarrow> datetime \<Rightarrow> cost_exception + int option" where
  "estimate_vertex_usage metadata occurred_at =
     (let ttype = token_type (map_of metadata ''token_type'')
      in bindE (as_int (map_of metadata ''token_count'')) (\<lambda>n.
           if ttype = ''input''
           then with_model (map_of metadata ''model'') (\<lambda>m. vertex_compute_cost_usd (Some m) n 0 0 0 occurred_at)
           else if ttype = ''output''
           then with_model (map_of metadata ''model'') (\<lambda>m. vertex_compute_cost_usd (Some m) 0 n 0 0 occurred_at)
           else Inr None))"

definition estimate_record_cost_usd :: "string \<Rightarrow> json \<Rightarrow> datetime \<Rightarrow> cost_exception + int option" where
  "estimate_record_cost_usd source_api metadata occurred_at =
     (case metadata of
        JObj md \<Rightarrow>
          (let t = as_utc occurred_at
           in if source_api = SOURCE_API_ANTHROPIC_USAGE then estimate_anthropic_usage md t
              else if source_api = SOURCE_API_OPENAI_USAGE then estimate_openai_usage md t
              else if source_api = SOURCE_API_VERTEX_USAGE then estimate_vertex_usage md t
              else Inr None)
      | _ \<Rightarrow> Inr None)"

section \<open>Facts on the estimates\<close>

lemma with_model_Inr:
  "with_model j price = Inr c \<longleftrightarrow>
     (j = None \<or> j = Some JNull) \<and> c = None \<or> (\<exists>m. j = Some (JStr m) \<and> c = price m)"
  by (cases "(j, price)" rule: with_model.cases) auto

lemma add_cost_simps [simp]: "add_cost w None = w" "add_cost None c = c" "add_cost (Some a) (Some b) = Some (a + b)"
  by (simp_all add: add_cost_def split: option.split)

lemma add_cost_assoc: "add_cost (add_cost a b) c = add_cost a (add_cost b c)"
  by (cases a; cases b; cases c) simp_all

lemma sum_breakdowns_acc:
  "sum_breakdowns xs t w = bindE (sum_breakdowns xs t None) (\<lambda>d. Inr (add_cost w d))"
proof (induction xs arbitrary: w)
  case (Cons x xs)
  have step: "bindE (bindE m (\<lambda>d. Inr (add_cost k d))) (\<lambda>d. Inr (add_cost w d))
      = bindE m (\<lambda>d. Inr (add_cost (add_cost w k) d))" for m :: "cost_exception + int option" and k
    by (cases m) (simp_all add: add_cost_assoc)
  show ?case
  proof (cases x)
    case (JObj b)
    show ?thesis
    proof (cases "anthropic_breakdown_cost b t")
      case (Inr k)
      have "sum_breakdowns xs t (add_cost w k)
          = bindE (bindE (sum_breakdowns xs t None) (\<lambda>d. Inr (add_cost k d))) (\<lambda>d. Inr (add_cost w d))"
        unfolding step by (rule Cons.IH)
      also have "bindE (sum_breakdowns xs t None) (\<lambda>d. Inr (add_cost k d)) = sum_breakdowns xs t k"
        by (rule Cons.IH [symmetric])
      finally show ?thesis using JObj Inr by simp
    qed (simp add: JObj)
  qed (simp_all only: sum_breakdowns.simps, (rule Cons.IH)+)
qed simp

lemma sum_breakdowns_append:
  "sum_breakdowns (xs @ ys) t w = bindE (sum_breakdowns xs t w) (\<lambda>k. sum_breakdowns ys t k)"
proof (induction xs arbitrary: w)
  case (Cons x xs)
  show ?case
  proof (cases x)
    case (JObj b)
    then show ?thesis by (cases "anthropic_breakdown_cost b t") (simp_all add: Cons.IH)
  qed (simp_all add: Cons.IH)
qed simp

lemma digit_of_text: "digit_groups u \<Longrightarrow> \<not> py_space (hd u)"
  by (cases u rule: digit_groups.cases) (auto simp: is_digit_def py_space_def)

lemma as_utc_idem [simp]: "as_utc (as_utc t) = as_utc t"
  by (simp add: as_utc_def)

lemma rates_at_as_utc [simp]: "rates_at h (as_utc t) = rates_at h t"
  by (simp add: rates_at_def)

lemma openai_rates_at_as_utc [simp]: "openai_rates_at (as_utc t) = openai_rates_at t"
  by (simp add: openai_rates_at_def)

lemma openai_cost_as_utc [simp]: "openai_compute_cost_usd m i out r c (as_utc t) = openai_compute_cost_usd m i out r c t"
  by (cases m) (simp_all add: openai_compute_cost_usd_def)

lemma anthropic_cost_as_utc [simp]: "anthropic_compute_cost_usd m i out r c (as_utc t) = anthropic_compute_cost_usd m i out r c t"
  by (cases m) (simp_all add: anthropic_compute_cost_usd_def)

lemma openai_cached_rate:
  "openai_quote m t i = Some q \<Longrightarrow> cache_read_per_mtok q \<le> input_per_mtok q"
proof -
  assume "openai_quote m t i = Some q"
  then have "\<exists>e \<in> set openai_RATE_HISTORY. q \<in> snd ` set (entry_rates e)"
    by (intro lookup_rates_at_mem) (simp_all add: openai_quote_def openai_lookup_model_def openai_rates_at_def)
  then show ?thesis
    by (auto simp: openai_RATE_HISTORY_def openai_RATES_2026_def rates_def)
qed

lemma openai_discount:
  assumes "openai_compute_cost_usd (Some m) u out c 0 t = Some k" "0 \<le> c"
  shows "\<exists>full. openai_compute_cost_usd (Some m) (u + c) out 0 0 t = Some full \<and> k \<le> full"
proof -
  obtain q where q: "openai_quote m t u = Some q" "k = row_cost q u out c 0"
    using assms(1) by (rule openai.cost_cases) auto
  have "openai_quote m t (u + c) = Some q" using q(1) openai.quote_flat by metis
  moreover have "exact_cost q u out c 0 \<le> exact_cost q (u + c) out 0 0"
    using mult_right_mono [OF openai_cached_rate [OF q(1)] assms(2)] by (simp add: exact_cost_def algebra_simps)
  ultimately show ?thesis
    using q(2) by (simp add: openai.cost_Some row_cost_def round_half_even_mono)
qed

section \<open>Properties\<close>

text \<open>An OpenAI usage record is priced from the cached/uncached split only: whatever its raw
  \<^verbatim>\<open>input_tokens\<close> field holds, the estimate is the price of the uncached tokens at the input rate plus
  the cached ones at the cached rate, which is never more than the price of all of them at the input
  rate. No token is counted twice.\<close>

lemma openai_no_double_count:
  assumes "as_int (map_of r ''input_uncached_tokens'') = Inr u" "as_int (map_of r ''output_tokens'') = Inr out"
    and "as_int (map_of r ''input_cached_tokens'') = Inr c" "0 \<le> c"
    and "estimate_record_cost_usd SOURCE_API_OPENAI_USAGE
           (JObj [(''result'', JObj ((''input_tokens'', raw) # r))]) t = Inr (Some k)"
  shows "\<exists>m full. map_of r ''model'' = Some (JStr m)
    \<and> openai_compute_cost_usd (Some m) u out c 0 t = Some k
    \<and> openai_compute_cost_usd (Some m) (u + c) out 0 0 t = Some full \<and> k \<le> full"
proof -
  have "with_model (map_of r ''model'') (\<lambda>m. openai_compute_cost_usd (Some m) u out c 0 t) = Inr (Some k)"
    using assms by (simp add: estimate_record_cost_usd_def SOURCE_API_ANTHROPIC_USAGE_def SOURCE_API_OPENAI_USAGE_def
        estimate_openai_usage_def Let_def)
  then obtain m where "map_of r ''model'' = Some (JStr m)" "openai_compute_cost_usd (Some m) u out c 0 t = Some k"
    by (auto simp: with_model_Inr)
  with openai_discount [OF this(2) assms(4)] show ?thesis by blast
qed

lemma openai_no_double_count_witness:
  "\<exists>m full. map_of [(''model'', JStr ''gpt-4o''), (''input_uncached_tokens'', JInt 600), (''input_cached_tokens'', JInt 400)]
       ''model'' = Some (JStr m)
    \<and> openai_compute_cost_usd (Some m) 600 0 400 0 (utc_date 2026 5 1) = Some 2000
    \<and> openai_compute_cost_usd (Some m) (600 + 400) 0 0 0 (utc_date 2026 5 1) = Some full \<and> 2000 \<le> full"
proof (rule openai_no_double_count [where raw = "JInt 1000"])
  have "openai_compute_cost_usd (Some ''gpt-4o'') 600 0 400 0 (utc_date 2026 5 1) = Some 2000"
    by (simp add: openai_compute_cost_usd_def openai_lookup_model_def openai_rates_at_def rates_at_def
        openai_RATE_HISTORY_def openai_RATES_2026_def Let_def lookup_model_def)
      (simp add: row_cost_def exact_cost_def rates_def round_half_even_def)
  then show "estimate_record_cost_usd SOURCE_API_OPENAI_USAGE
     (JObj [(''result'', JObj ((''input_tokens'', JInt 1000) #
        [(''model'', JStr ''gpt-4o''), (''input_uncached_tokens'', JInt 600), (''input_cached_tokens'', JInt 400)]))])
     (utc_date 2026 5 1) = Inr (Some 2000)"
    by (simp add: estimate_record_cost_usd_def SOURCE_API_ANTHROPIC_USAGE_def SOURCE_API_OPENAI_USAGE_def
        estimate_openai_usage_def Let_def)
qed simp_all

text \<open>The estimates of several records added up, an error of any of them first.\<close>

definition sum_estimates :: "(cost_exception + int option) list \<Rightarrow> cost_exception + int option" where
  "sum_estimates es = foldr (\<lambda>e acc. bindE e (\<lambda>a. bindE acc (\<lambda>b. Inr (add_cost a b)))) es (Inr None)"

definition usage_record_json :: "json list \<Rightarrow> json" where
  "usage_record_json results = JObj [(''results'', JList results)]"

lemma estimate_usage_record:
  "estimate_record_cost_usd SOURCE_API_ANTHROPIC_USAGE (usage_record_json xs) t = sum_breakdowns xs (as_utc t) None"
  by (simp add: estimate_record_cost_usd_def SOURCE_API_ANTHROPIC_USAGE_def usage_record_json_def
      estimate_anthropic_usage_def Let_def)

text \<open>Splitting an Anthropic usage record into one record per breakdown, as the ingest path now
  does, changes neither its price nor its errors: the estimate of the old shape is the sum of the
  estimates of the new one.\<close>

lemma anthropic_split_invariant:
  "estimate_record_cost_usd SOURCE_API_ANTHROPIC_USAGE (usage_record_json xs) t =
     sum_estimates (map (\<lambda>x. estimate_record_cost_usd SOURCE_API_ANTHROPIC_USAGE (usage_record_json [x]) t) xs)"
  unfolding estimate_usage_record
proof (induction xs)
  case Nil
  show ?case by (simp add: sum_estimates_def)
next
  case (Cons x xs)
  have "sum_breakdowns (x # xs) (as_utc t) None
      = bindE (sum_breakdowns [x] (as_utc t) None) (\<lambda>k. sum_breakdowns xs (as_utc t) k)"
    using sum_breakdowns_append [of "[x]" xs "as_utc t" None] by simp
  also have "\<dots> = bindE (sum_breakdowns [x] (as_utc t) None)
      (\<lambda>k. bindE (sum_breakdowns xs (as_utc t) None) (\<lambda>d. Inr (add_cost k d)))"
    by (subst sum_breakdowns_acc [of xs]) (rule refl)
  finally show ?case
    using Cons.IH by (simp add: sum_estimates_def)
qed

end
