(* ===== verification/Spend.thy ===== *)
theory Spend
  imports Chain VendorCost
begin

text \<open>
  Spend of a tenant in a window (\<^verbatim>\<open>budgets/spend.py\<close>): the SQL over the stored usage records with its
  scope and supersession filters, its casts of JSON text to \<^verbatim>\<open>bigint\<close>, and the pricing loop over the
  result. PostgreSQL's printing of JSON numbers and its text-to-\<^verbatim>\<open>bigint\<close> input are parameters. A record
  of the window whose \<^verbatim>\<open>results\<close> is not an array, or a count that is not a \<^verbatim>\<open>bigint\<close>, makes the whole
  query fail. Windows are whole UTC days, so the records the supersession subquery looks at are
  those of the window.
\<close>

datatype spend_error = SpendValueError | SpendKeyError | SpendDataError

record postgres =
  pg_jtext :: "json \<Rightarrow> string"
  pg_bigint :: "string \<Rightarrow> int option"

definition in_bigint :: "int \<Rightarrow> bool" where
  "in_bigint n \<longleftrightarrow> - (2 ^ 63) \<le> n \<and> n < 2 ^ 63"

definition postgres_ok :: "postgres \<Rightarrow> bool" where
  "postgres_ok env \<longleftrightarrow> (\<forall>n. in_bigint n \<longrightarrow> pg_bigint env (pg_jtext env (JInt n)) = Some n)"

section \<open>The query\<close>

text \<open>\<^verbatim>\<open>jsonb_array_elements(metadata->'results')\<close>: no rows for SQL NULL, an error for a value that is
  not an array.\<close>

definition result_elements :: "json \<Rightarrow> spend_error + json list" where
  "result_elements md =
     (case md of
        JObj kvs \<Rightarrow> (case map_of kvs ''results'' of
            None \<Rightarrow> Inr [] | Some (JList xs) \<Rightarrow> Inr xs | Some _ \<Rightarrow> Inl SpendDataError)
      | _ \<Rightarrow> Inr [])"

definition usage_rows :: "string \<Rightarrow> records_table \<Rightarrow> records_table" where
  "usage_rows tenant_id db =
     filter (\<lambda>r. tr_record_type r = ''usage'' \<and> tr_source_api r = ''admin'') (rows_of tenant_id db)"

definition utc_day :: "datetime \<Rightarrow> int" where
  "utc_day t = instant t div day_us"

definition has_model :: "(json \<Rightarrow> string) \<Rightarrow> json \<Rightarrow> bool" where
  "has_model jtext result \<longleftrightarrow> json_field jtext ''model'' result \<noteq> None"

definition superseded :: "(json \<Rightarrow> string) \<Rightarrow> records_table \<Rightarrow> datetime \<Rightarrow> json \<Rightarrow> bool" where
  "superseded jtext rows occurred_at result \<longleftrightarrow>
     \<not> has_model jtext result
     \<and> list_ex (\<lambda>r. utc_day (tr_occurred_at r) = utc_day occurred_at
          \<and> (case result_elements (tr_record_metadata r) of Inr xs \<Rightarrow> list_ex (has_model jtext) xs | Inl _ \<Rightarrow> False)) rows"

text \<open>\<^verbatim>\<open>_SCOPE_KEY_BY_KIND\<close>; a kind it does not have is a \<^verbatim>\<open>KeyError\<close>.\<close>

definition scope_key :: "(string \<times> string) list" where
  "scope_key = [(''api_key'', ''api_key_id''), (''workspace'', ''workspace_id''), (''model'', ''model'')]"

definition in_scope :: "(json \<Rightarrow> string) \<Rightarrow> string \<Rightarrow> string option \<Rightarrow> json \<Rightarrow> bool" where
  "in_scope jtext scope_kind scope_value result \<longleftrightarrow>
     scope_kind = ''tenant''
     \<or> (case map_of scope_key scope_kind of
           None \<Rightarrow> False
         | Some key \<Rightarrow> json_field jtext key result \<noteq> None \<and> json_field jtext key result = scope_value)"

fun expanded :: "(datetime \<Rightarrow> json \<Rightarrow> bool) \<Rightarrow> records_table \<Rightarrow> spend_error + (datetime \<times> json) list" where
  "expanded keep [] = Inr []"
| "expanded keep (r # rows) =
     bindE (result_elements (tr_record_metadata r)) (\<lambda>xs.
     bindE (expanded keep rows) (\<lambda>rest.
       Inr (map (Pair (tr_occurred_at r)) (filter (keep (tr_occurred_at r)) xs) @ rest)))"

definition sql_bigint :: "postgres \<Rightarrow> string \<Rightarrow> json \<Rightarrow> spend_error + int option" where
  "sql_bigint env key j =
     (case json_field (pg_jtext env) key j of
        None \<Rightarrow> Inr None
      | Some t \<Rightarrow> (case pg_bigint env t of None \<Rightarrow> Inl SpendDataError | Some n \<Rightarrow> Inr (Some n)))"

definition coalesce0 :: "int option \<Rightarrow> int" where
  "coalesce0 x = (case x of None \<Rightarrow> 0 | Some n \<Rightarrow> n)"

definition sub_object :: "string \<Rightarrow> json \<Rightarrow> json" where
  "sub_object key j =
     (case j of JObj kvs \<Rightarrow> (case map_of kvs key of None \<Rightarrow> JNull | Some v \<Rightarrow> v) | _ \<Rightarrow> JNull)"

definition sql_cache_creation :: "postgres \<Rightarrow> json \<Rightarrow> spend_error + int" where
  "sql_cache_creation env result =
     bindE (sql_bigint env ''cache_creation_input_tokens'' result) (\<lambda>flat.
       if coalesce0 flat \<noteq> 0 then Inr (coalesce0 flat)
       else
         (let nested = sub_object ''cache_creation'' result
          in bindE (sql_bigint env ''ephemeral_5m_input_tokens'' nested) (\<lambda>a.
             bindE (sql_bigint env ''ephemeral_1h_input_tokens'' nested) (\<lambda>b.
               case (a, b) of
                 (Some x, Some y) \<Rightarrow> if in_bigint (x + y) then Inr (x + y) else Inl SpendDataError
               | _ \<Rightarrow> Inr 0))))"

text \<open>One result row: its four counts, then the loop body of the Python side.\<close>

definition price_result :: "postgres \<Rightarrow> datetime \<Rightarrow> json \<Rightarrow> spend_error + int option" where
  "price_result env occurred_at result =
     bindE (sql_bigint env ''input_tokens'' result) (\<lambda>i.
     bindE (sql_bigint env ''output_tokens'' result) (\<lambda>out.
     bindE (sql_bigint env ''cache_read_input_tokens'' result) (\<lambda>r.
     bindE (sql_cache_creation env result) (\<lambda>c.
       case json_field (pg_jtext env) ''model'' result of
         None \<Rightarrow> Inr None
       | Some m \<Rightarrow>
           Inr (if m = [] then None
                else anthropic_compute_cost_usd (Some m) (coalesce0 i) (coalesce0 out) (coalesce0 r) c occurred_at)))))"

fun sum_spend :: "postgres \<Rightarrow> (datetime \<times> json) list \<Rightarrow> int \<Rightarrow> spend_error + int" where
  "sum_spend env [] whole = Inr whole"
| "sum_spend env ((t, result) # rest) whole =
     bindE (price_result env t result) (\<lambda>cost.
       sum_spend env rest (case cost of None \<Rightarrow> whole | Some c \<Rightarrow> whole + c))"

definition window_rows :: "string \<Rightarrow> datetime \<Rightarrow> datetime \<Rightarrow> records_table \<Rightarrow> records_table" where
  "window_rows tenant_id start until db =
     filter (\<lambda>r. instant start \<le> instant (tr_occurred_at r) \<and> instant (tr_occurred_at r) < instant until)
       (usage_rows tenant_id db)"

definition compute_spend_in_window ::
  "postgres \<Rightarrow> string \<Rightarrow> datetime \<Rightarrow> datetime \<Rightarrow> string \<Rightarrow> string option \<Rightarrow> records_table \<Rightarrow> spend_error + int"
where
  "compute_spend_in_window env tenant_id start until scope_kind scope_value db =
     (if scope_kind \<noteq> ''tenant'' \<and> (scope_value = None \<or> scope_value = Some []) then Inl SpendValueError
      else if scope_kind = ''tenant'' \<and> scope_value \<noteq> None then Inl SpendValueError
      else if scope_kind \<noteq> ''tenant'' \<and> map_of scope_key scope_kind = None then Inl SpendKeyError
      else
        (let usage = usage_rows tenant_id db;
             keep = (\<lambda>t x. in_scope (pg_jtext env) scope_kind scope_value x \<and> \<not> superseded (pg_jtext env) usage t x)
         in bindE (expanded keep (window_rows tenant_id start until db)) (\<lambda>es.
            bindE (sum_spend env es 0) (\<lambda>whole. Inr (round_half_even whole 10000)))))"

section \<open>The query agrees with the per-record estimate\<close>

text \<open>A count the two paths read alike: absent, null, or an integer that fits a \<^verbatim>\<open>bigint\<close>.\<close>

fun plain_count :: "json option \<Rightarrow> bool" where
  "plain_count None = True"
| "plain_count (Some JNull) = True"
| "plain_count (Some (JInt n)) = in_bigint n"
| "plain_count (Some _) = False"

fun count_of :: "json option \<Rightarrow> int" where
  "count_of (Some (JInt n)) = n"
| "count_of _ = 0"

definition plain_model :: "json option \<Rightarrow> bool" where
  "plain_model j \<longleftrightarrow> j = None \<or> j = Some JNull \<or> (\<exists>m. j = Some (JStr m))"

definition sql_null :: "json option \<Rightarrow> bool" where
  "sql_null j \<longleftrightarrow> j = None \<or> j = Some JNull"

text \<open>A breakdown in one of the shapes the vendor sends: plain counts, and the two nested cache counts
  both there or both missing.\<close>

definition plain_breakdown :: "(string \<times> json) list \<Rightarrow> bool" where
  "plain_breakdown b \<longleftrightarrow>
     plain_model (map_of b ''model'')
     \<and> plain_count (map_of b ''input_tokens'') \<and> plain_count (map_of b ''output_tokens'')
     \<and> plain_count (map_of b ''cache_read_input_tokens'') \<and> plain_count (map_of b ''cache_creation_input_tokens'')
     \<and> (case map_of b ''cache_creation'' of
          None \<Rightarrow> True
        | Some (JObj n) \<Rightarrow>
            plain_count (map_of n ''ephemeral_5m_input_tokens'') \<and> plain_count (map_of n ''ephemeral_1h_input_tokens'')
            \<and> (sql_null (map_of n ''ephemeral_5m_input_tokens'') \<longleftrightarrow> sql_null (map_of n ''ephemeral_1h_input_tokens''))
            \<and> in_bigint (count_of (map_of n ''ephemeral_5m_input_tokens'') + count_of (map_of n ''ephemeral_1h_input_tokens''))
        | Some _ \<Rightarrow> False)"

lemma as_int_plain: "plain_count j \<Longrightarrow> as_int j = Inr (count_of j)"
  by (cases j rule: plain_count.cases) auto

lemma sql_bigint_plain:
  assumes "postgres_ok env" "plain_count (map_of b key)"
  shows "sql_bigint env key (JObj b) = Inr (if sql_null (map_of b key) then None else Some (count_of (map_of b key)))"
  using assms
  by (cases "map_of b key" rule: plain_count.cases)
    (auto simp: sql_bigint_def json_field_def sql_null_def postgres_ok_def)

lemma coalesce0_plain [simp]:
  "coalesce0 (if sql_null j then None else Some (count_of j)) = count_of j"
  by (auto simp: coalesce0_def sql_null_def)

lemma cache_creation_agree:
  assumes "postgres_ok env" "plain_breakdown b"
  shows "\<exists>c. sql_cache_creation env (JObj b) = Inr c \<and> anthropic_cache_creation_tokens b = Inr c"
proof -
  have flat: "plain_count (map_of b ''cache_creation_input_tokens'')" using assms(2) by (simp add: plain_breakdown_def)
  note f = sql_bigint_plain [OF assms(1) flat] as_int_plain [OF flat]
  show ?thesis
  proof (cases "count_of (map_of b ''cache_creation_input_tokens'') = 0")
    case False
    with f show ?thesis by (simp add: sql_cache_creation_def anthropic_cache_creation_tokens_def)
  next
    case True
    consider "map_of b ''cache_creation'' = None" | n where "map_of b ''cache_creation'' = Some (JObj n)"
      using assms(2) by (auto simp: plain_breakdown_def split: option.splits json.splits)
    then show ?thesis
    proof cases
      case 1
      with f True show ?thesis
        by (simp add: sql_cache_creation_def anthropic_cache_creation_tokens_def sub_object_def sql_bigint_def json_field_def Let_def)
    next
      case 2
      let ?a = "map_of n ''ephemeral_5m_input_tokens''" and ?b = "map_of n ''ephemeral_1h_input_tokens''"
      have p: "plain_count ?a" "plain_count ?b" "sql_null ?a \<longleftrightarrow> sql_null ?b" "in_bigint (count_of ?a + count_of ?b)"
        using assms(2) 2 by (simp_all add: plain_breakdown_def)
      note ab = sql_bigint_plain [OF assms(1) p(1)] sql_bigint_plain [OF assms(1) p(2)]
      have zero: "sql_null j \<Longrightarrow> count_of j = 0" for j by (auto simp: sql_null_def)
      show ?thesis
        using f True 2 ab as_int_plain [OF p(1)] as_int_plain [OF p(2)] p(3,4) zero [of ?a] zero [of ?b]
        by (simp add: sql_cache_creation_def anthropic_cache_creation_tokens_def sub_object_def Let_def)
    qed
  qed
qed

lemma price_result_agree:
  assumes "postgres_ok env" "plain_breakdown b"
  shows "\<exists>c. price_result env t (JObj b) = Inr c \<and> anthropic_breakdown_cost b t = Inr c"
proof -
  obtain c where c: "sql_cache_creation env (JObj b) = Inr c" "anthropic_cache_creation_tokens b = Inr c"
    using cache_creation_agree [OF assms] by blast
  have p: "plain_count (map_of b ''input_tokens'')" "plain_count (map_of b ''output_tokens'')"
    "plain_count (map_of b ''cache_read_input_tokens'')" "plain_model (map_of b ''model'')"
    using assms(2) by (simp_all add: plain_breakdown_def)
  have empty: "anthropic_compute_cost_usd (Some []) i out r c t = None" for i out r
  proof -
    have "lookup_model [] rs = None" if "rs = anthropic_RATES_2025_PRELAUNCH \<or> rs = anthropic_RATES_2026_05" for rs
      using that by (auto simp: lookup_model_def startswith_def anthropic_RATES_2025_PRELAUNCH_def anthropic_RATES_2026_05_def)
    then show ?thesis by (simp add: anthropic_compute_cost_usd_def anthropic_rates_at)
  qed
  have "\<exists>x. sql_bigint env key (JObj b) = Inr x \<and> coalesce0 x = count_of (map_of b key)" if "plain_count (map_of b key)" for key
    using sql_bigint_plain [OF assms(1) that] coalesce0_plain [of "map_of b key"] by blast
  note counts = this [OF p(1)] this [OF p(2)] this [OF p(3)]
  then obtain i out r where
    "sql_bigint env ''input_tokens'' (JObj b) = Inr i" "coalesce0 i = count_of (map_of b ''input_tokens'')"
    "sql_bigint env ''output_tokens'' (JObj b) = Inr out" "coalesce0 out = count_of (map_of b ''output_tokens'')"
    "sql_bigint env ''cache_read_input_tokens'' (JObj b) = Inr r" "coalesce0 r = count_of (map_of b ''cache_read_input_tokens'')"
    by blast
  then show ?thesis
    using p(4) empty as_int_plain [OF p(1)] as_int_plain [OF p(2)] as_int_plain [OF p(3)] c
    by (auto simp: price_result_def anthropic_breakdown_cost_def plain_model_def json_field_def)
qed

definition plain_element :: "json \<Rightarrow> bool" where
  "plain_element x \<longleftrightarrow> (case x of JObj b \<Rightarrow> plain_breakdown b | _ \<Rightarrow> True)"

definition plain_record :: "json \<Rightarrow> bool" where
  "plain_record md \<longleftrightarrow>
     (case md of
        JObj kvs \<Rightarrow> (case map_of kvs ''results'' of
            None \<Rightarrow> True | Some (JList xs) \<Rightarrow> list_all plain_element xs | Some _ \<Rightarrow> False)
      | _ \<Rightarrow> True)"

text \<open>What a usage record adds to a total: its estimate, or nothing.\<close>

definition record_estimate :: "telemetry_row \<Rightarrow> int" where
  "record_estimate r =
     (case estimate_record_cost_usd SOURCE_API_ANTHROPIC_USAGE (tr_record_metadata r) (tr_occurred_at r) of
        Inr c \<Rightarrow> coalesce0 c | Inl _ \<Rightarrow> 0)"

lemma coalesce0_simps [simp]: "coalesce0 None = 0" "coalesce0 (Some n) = n"
  by (simp_all add: coalesce0_def)

lemma coalesce0_add_cost [simp]: "coalesce0 (add_cost a b) = coalesce0 a + coalesce0 b"
  by (cases a; cases b) simp_all

lemma sum_spend_step:
  "sum_spend env ((t, x) # es) w = bindE (price_result env t x) (\<lambda>c. sum_spend env es (w + coalesce0 c))"
  by (cases "price_result env t x") (auto simp: coalesce0_def split: option.splits)

lemma sum_spend_append:
  "sum_spend env (es @ fs) w = bindE (sum_spend env es w) (\<lambda>v. sum_spend env fs v)"
proof (induction es arbitrary: w)
  case (Cons e es)
  obtain t x where "e = (t, x)" by (cases e)
  with Cons show ?case by (cases "price_result env t x") simp_all
qed simp

lemma breakdown_cost_as_utc: "anthropic_breakdown_cost b (as_utc t) = anthropic_breakdown_cost b t"
  by (simp add: anthropic_breakdown_cost_def)

lemma price_no_model:
  assumes "price_result env t x = Inr c" "\<not> has_model (pg_jtext env) x"
  shows "c = None"
  using assms by (auto simp: price_result_def has_model_def)

lemma price_scalar:
  assumes "\<forall>b. x \<noteq> JObj b"
  shows "price_result env t x = Inr None"
proof -
  have "json_field j key x = None" for j key using assms by (cases x) (simp_all add: json_field_def)
  moreover have "sub_object key x = JNull" for key using assms by (cases x) (simp_all add: sub_object_def)
  moreover have "json_field j key JNull = None" for j key by (simp add: json_field_def)
  ultimately show ?thesis
    by (simp add: price_result_def sql_bigint_def sql_cache_creation_def Let_def)
qed

lemma sum_breakdowns_scalar:
  assumes "\<forall>b. x \<noteq> JObj b"
  shows "sum_breakdowns (x # xs) t w = sum_breakdowns xs t w"
  using assms by (cases x) simp_all

lemma element_agree:
  assumes "postgres_ok env" "plain_element x"
  shows "\<exists>c. price_result env t x = Inr c
    \<and> sum_breakdowns (x # xs) (as_utc t) None = bindE (sum_breakdowns xs (as_utc t) None) (\<lambda>d. Inr (add_cost c d))"
proof (cases "\<exists>b. x = JObj b")
  case True
  then obtain b where b: "x = JObj b" by blast
  with assms obtain c where "price_result env t x = Inr c" "anthropic_breakdown_cost b t = Inr c"
    using price_result_agree by (fastforce simp: plain_element_def)
  with b show ?thesis
    using sum_breakdowns_acc [of xs "as_utc t" c] by (simp add: breakdown_cost_as_utc)
next
  case False
  have "bindE m (\<lambda>d. Inr (add_cost None d)) = m" for m :: "cost_exception + int option" by (cases m) simp_all
  with False show ?thesis by (simp add: price_scalar sum_breakdowns_scalar)
qed

lemma elements_agree:
  assumes "postgres_ok env" "list_all plain_element xs" "\<And>x. \<not> keep x \<Longrightarrow> \<not> has_model (pg_jtext env) x"
  shows "\<exists>d. sum_breakdowns xs (as_utc t) None = Inr d
    \<and> (\<forall>w. sum_spend env (map (Pair t) (filter keep xs)) w = Inr (w + coalesce0 d))"
  using assms(2)
proof (induction xs)
  case (Cons x xs)
  then obtain d where d: "sum_breakdowns xs (as_utc t) None = Inr d"
    "\<And>w. sum_spend env (map (Pair t) (filter keep xs)) w = Inr (w + coalesce0 d)" by auto
  obtain c where c: "price_result env t x = Inr c"
    "sum_breakdowns (x # xs) (as_utc t) None = Inr (add_cost c d)"
    using element_agree [OF assms(1), of x t xs] Cons.prems d(1) by auto
  have "\<not> keep x \<Longrightarrow> c = None" using price_no_model [OF c(1)] assms(3) by blast
  then show ?case
    using c d(2) by (cases "keep x") (auto simp: sum_spend_step simp del: sum_spend.simps sum_breakdowns.simps)
qed simp

lemma record_agree:
  assumes "postgres_ok env" "plain_record (tr_record_metadata r)"
    and "\<forall>t x. \<not> keep t x \<longrightarrow> \<not> has_model (pg_jtext env) x"
  shows "\<exists>xs. result_elements (tr_record_metadata r) = Inr xs
    \<and> is_ok (estimate_record_cost_usd SOURCE_API_ANTHROPIC_USAGE (tr_record_metadata r) (tr_occurred_at r))
    \<and> (\<forall>w. sum_spend env (map (Pair (tr_occurred_at r)) (filter (keep (tr_occurred_at r)) xs)) w
           = Inr (w + record_estimate r))"
proof (cases "\<exists>kvs xs. tr_record_metadata r = JObj kvs \<and> map_of kvs ''results'' = Some (JList xs)")
  case True
  then obtain kvs xs where md: "tr_record_metadata r = JObj kvs" "map_of kvs ''results'' = Some (JList xs)" by blast
  then have "list_all plain_element xs" using assms(2) by (simp add: plain_record_def)
  from elements_agree [OF assms(1) this, of "keep (tr_occurred_at r)" "tr_occurred_at r"] assms(3)
  obtain d where "sum_breakdowns xs (as_utc (tr_occurred_at r)) None = Inr d"
    "\<And>w. sum_spend env (map (Pair (tr_occurred_at r)) (filter (keep (tr_occurred_at r)) xs)) w = Inr (w + coalesce0 d)" by blast
  with md show ?thesis
    by (simp add: result_elements_def record_estimate_def estimate_record_cost_usd_def estimate_anthropic_usage_def Let_def)
next
  case False
  with assms(2) have "result_elements (tr_record_metadata r) = Inr []"
    "estimate_record_cost_usd SOURCE_API_ANTHROPIC_USAGE (tr_record_metadata r) (tr_occurred_at r) = Inr None"
    by (auto simp: plain_record_def result_elements_def estimate_record_cost_usd_def estimate_anthropic_usage_def Let_def
        split: json.splits option.splits)
  then show ?thesis by (simp add: record_estimate_def)
qed

lemma rows_agree:
  assumes "postgres_ok env" "\<forall>r \<in> set rows. plain_record (tr_record_metadata r)"
    and "\<forall>t x. \<not> keep t x \<longrightarrow> \<not> has_model (pg_jtext env) x"
  shows "\<exists>es. expanded keep rows = Inr es \<and> (\<forall>w. sum_spend env es w = Inr (w + sum_list (map record_estimate rows)))"
  using assms(2)
proof (induction rows)
  case (Cons r rows)
  then obtain es where es: "expanded keep rows = Inr es"
    "\<And>w. sum_spend env es w = Inr (w + sum_list (map record_estimate rows))" by auto
  have "plain_record (tr_record_metadata r)" using Cons.prems by simp
  from record_agree [OF assms(1) this assms(3)]
  obtain xs where xs: "result_elements (tr_record_metadata r) = Inr xs"
    "\<And>w. sum_spend env (map (Pair (tr_occurred_at r)) (filter (keep (tr_occurred_at r)) xs)) w = Inr (w + record_estimate r)"
    by blast
  have "sum_spend env (map (Pair (tr_occurred_at r)) (filter (keep (tr_occurred_at r)) xs) @ es) w
      = Inr (w + sum_list (map record_estimate (r # rows)))" for w
    by (simp add: sum_spend_append xs(2) es(2) add.assoc)
  with xs(1) es(1) show ?case by simp
qed simp

lemma spend_by_estimates:
  assumes "postgres_ok env" "\<forall>r \<in> set (window_rows tenant_id start until db). plain_record (tr_record_metadata r)"
  shows "compute_spend_in_window env tenant_id start until ''tenant'' None db
      = Inr (round_half_even (sum_list (map record_estimate (window_rows tenant_id start until db))) 10000)
    \<and> (\<forall>r \<in> set (window_rows tenant_id start until db).
         is_ok (estimate_record_cost_usd SOURCE_API_ANTHROPIC_USAGE (tr_record_metadata r) (tr_occurred_at r)))"
proof -
  let ?usage = "usage_rows tenant_id db"
  let ?keep = "\<lambda>t x. in_scope (pg_jtext env) ''tenant'' None x \<and> \<not> superseded (pg_jtext env) ?usage t x"
  have keep: "\<forall>t x. \<not> ?keep t x \<longrightarrow> \<not> has_model (pg_jtext env) x"
    by (simp add: in_scope_def superseded_def)
  obtain es where "expanded ?keep (window_rows tenant_id start until db) = Inr es"
    "\<And>w. sum_spend env es w = Inr (w + sum_list (map record_estimate (window_rows tenant_id start until db)))"
    using rows_agree [OF assms keep] by blast
  then have "compute_spend_in_window env tenant_id start until ''tenant'' None db
      = Inr (round_half_even (sum_list (map record_estimate (window_rows tenant_id start until db))) 10000)"
    by (simp add: compute_spend_in_window_def Let_def)
  moreover have "is_ok (estimate_record_cost_usd SOURCE_API_ANTHROPIC_USAGE (tr_record_metadata r) (tr_occurred_at r))"
    if "r \<in> set (window_rows tenant_id start until db)" for r
    using record_agree [OF assms(1) assms(2) [rule_format, OF that] keep] by blast
  ultimately show ?thesis by blast
qed

section \<open>Properties\<close>

text \<open>C11: For records in the vendor's shapes the SQL spend of a tenant in a window, supersession filter
  included, is the sum of the per-record Python estimates of the records in the window, rounded once
  to cents; none of those estimates raises.\<close>

theorem spend_is_sum_of_estimates:
  assumes "postgres_ok env" "\<forall>r \<in> set (window_rows tenant_id start until db). plain_record (tr_record_metadata r)"
  shows "compute_spend_in_window env tenant_id start until ''tenant'' None db
      = Inr (round_half_even (sum_list (map record_estimate (window_rows tenant_id start until db))) 10000)
    \<and> (\<forall>r \<in> set (window_rows tenant_id start until db).
         is_ok (estimate_record_cost_usd SOURCE_API_ANTHROPIC_USAGE (tr_record_metadata r) (tr_occurred_at r)))"
  using spend_by_estimates [OF assms] by blast

definition sample_postgres :: postgres where
  "sample_postgres = \<lparr>pg_jtext = render, pg_bigint = (\<lambda>s. map_option id (int_of_text s))\<rparr>"

definition sample_usage_row :: "json \<Rightarrow> telemetry_row" where
  "sample_usage_row md =
     \<lparr>tr_tenant_id = ''t1'', tr_record_type = ''usage'', tr_source_api = ''admin'', tr_external_id = ''u'',
      tr_subject_user_id = None, tr_occurred_at = utc_date 2026 5 10, tr_content_ref = None, tr_content_hash = [],
      tr_content_size_bytes = None, tr_record_metadata = md, tr_chain_seq = 1, tr_chain_prev_hash = [],
      tr_chain_self_hash = []\<rparr>"

lemma py_space_digit: "is_digit c \<Longrightarrow> \<not> py_space c"
  by (auto simp: is_digit_def py_space_def)

lemma digit_groups_digits: "list_all is_digit s \<Longrightarrow> s \<noteq> [] \<Longrightarrow> digit_groups s"
  by (induction s rule: digit_groups.induct) (auto simp: is_digit_def)

lemma strip_solid: "s \<noteq> [] \<Longrightarrow> \<not> py_space (hd s) \<Longrightarrow> \<not> py_space (last s) \<Longrightarrow> strip s = s"
proof -
  assume s: "s \<noteq> []" "\<not> py_space (hd s)" "\<not> py_space (last s)"
  have "dropWhile py_space s = s" using s(1,2) by (cases s) simp_all
  moreover have "dropWhile py_space (rev s) = rev s" using s(1,3) by (cases s rule: rev_cases) simp_all
  ultimately show ?thesis by (simp add: strip_def)
qed

lemma int_of_text_int_str: "int_of_text (int_str n) = Some n"
proof -
  have digits: "list_all is_digit (nat_str k)" "nat_str k \<noteq> []" for k by (simp_all add: nat_str_digits)
  have no_us: "filter (\<lambda>c. c \<noteq> CHR ''_'') (nat_str k) = nat_str k" for k
    using digits(1) [of k] by (auto simp: filter_id_conv list_all_iff is_digit_def)
  have ends: "is_digit (hd (nat_str k))" "is_digit (last (nat_str k))" for k
    using digits [of k] by (simp_all add: list_all_iff)
  have head: "hd (nat_str k) \<noteq> CHR ''-''" "hd (nat_str k) \<noteq> CHR ''+''" for k
    using ends(1) [of k] by (auto simp: is_digit_def)
  have sgn: "signed (nat_str k) = (False, nat_str k)" for k
    using head [of k] digits(2) [of k] by (cases "nat_str k") (simp_all add: signed_def)
  show ?thesis
  proof (cases "n < 0")
    case True
    have "\<not> py_space (CHR ''-'')" by (simp add: py_space_def)
    then have "strip (int_str n) = int_str n"
      using True ends(2) [of "nat (- n)"] by (intro strip_solid) (simp_all add: int_str_def py_space_digit)
    with True show ?thesis
      by (simp add: int_of_text_def int_str_def signed_def digit_groups_digits digits no_us)
  next
    case False
    then have "strip (int_str n) = int_str n"
      using ends [of "nat n"] by (intro strip_solid) (simp_all add: int_str_def py_space_digit)
    with False show ?thesis
      by (simp add: int_of_text_def int_str_def sgn digit_groups_digits digits no_us)
  qed
qed

lemma sample_postgres_ok: "postgres_ok sample_postgres"
  by (simp add: postgres_ok_def sample_postgres_def int_of_text_int_str)

lemma sample_window_rows:
  "window_rows ''t1'' (utc_date 2026 5 1) (utc_date 2026 6 1) [sample_usage_row md] = [sample_usage_row md]"
  by (simp add: window_rows_def usage_rows_def rows_of_def sample_usage_row_def utc_date_def instant_utc_midnight
      toordinal_def days_before_year_def days_before_month_def is_leap_def day_us_def)

definition sample_usage :: json where
  "sample_usage = JObj [(''results'', JList [JObj [(''model'', JStr ''claude-opus-4-5''), (''output_tokens'', JInt 1000)]])]"

lemma sample_usage_facts:
  "record_estimate (sample_usage_row sample_usage) = 75000"
  "\<forall>r \<in> set (window_rows ''t1'' (utc_date 2026 5 1) (utc_date 2026 6 1) [sample_usage_row sample_usage]). plain_record (tr_record_metadata r)"
proof -
  have "lookup_model ''claude-opus-4-5'' (rates_at anthropic_RATE_HISTORY t) = Some (rates 150000 750000 15000 187500)" for t
    by (simp add: anthropic_rates_at lookup_model_def anthropic_RATES_2025_PRELAUNCH_def anthropic_RATES_2026_05_def)
  then have cost: "anthropic_compute_cost_usd (Some ''claude-opus-4-5'') 0 1000 0 0 t = Some 75000" for t
    by (simp add: anthropic_compute_cost_usd_def) (simp add: row_cost_def exact_cost_def rates_def round_half_even_def)
  show "record_estimate (sample_usage_row sample_usage) = 75000"
    by (simp add: sample_usage_def record_estimate_def sample_usage_row_def estimate_record_cost_usd_def
        estimate_anthropic_usage_def anthropic_breakdown_cost_def anthropic_cache_creation_tokens_def cost Let_def)
  have "plain_record sample_usage"
    by (simp add: sample_usage_def plain_record_def plain_element_def plain_breakdown_def plain_model_def in_bigint_def)
  then show "\<forall>r \<in> set (window_rows ''t1'' (utc_date 2026 5 1) (utc_date 2026 6 1) [sample_usage_row sample_usage]). plain_record (tr_record_metadata r)"
    by (simp add: sample_window_rows) (simp add: sample_usage_row_def)
qed

lemma sample_spend:
  "compute_spend_in_window sample_postgres ''t1'' (utc_date 2026 5 1) (utc_date 2026 6 1) ''tenant'' None
     [sample_usage_row sample_usage] = Inr 8"
  using spend_by_estimates [OF sample_postgres_ok sample_usage_facts(2)]
  by (simp add: sample_window_rows sample_usage_facts(1)) (simp add: round_half_even_def)

lemma spend_is_sum_of_estimates_witness:
  "compute_spend_in_window sample_postgres ''t1'' (utc_date 2026 5 1) (utc_date 2026 6 1) ''tenant'' None
     [sample_usage_row sample_usage] = Inr 8"
  using spend_is_sum_of_estimates [OF sample_postgres_ok sample_usage_facts(2)]
  by (simp add: sample_window_rows sample_usage_facts(1)) (simp add: round_half_even_def)

definition lone_ephemeral :: "(string \<times> json) list" where
  "lone_ephemeral =
     [(''model'', JStr ''claude-opus-4-5''),
      (''cache_creation'', JObj [(''ephemeral_5m_input_tokens'', JInt 1000000)])]"

text \<open>The SQL does not read a breakdown with only one of the two nested cache counts as the Python
  estimate does: a million cache-creation tokens of Opus 4.5 are 18.75 dollars in the estimate and
  nothing in a budget, because the missing count is NULL and so is its sum.\<close>

lemma lone_ephemeral_count_dropped:
  assumes "postgres_ok env"
  shows "anthropic_breakdown_cost lone_ephemeral t = Inr (Some 18750000)
    \<and> price_result env t (JObj lone_ephemeral) = Inr (Some 0)"
proof -
  have "lookup_model ''claude-opus-4-5'' (rates_at anthropic_RATE_HISTORY t) = Some (rates 150000 750000 15000 187500)"
    by (simp add: anthropic_rates_at lookup_model_def anthropic_RATES_2025_PRELAUNCH_def anthropic_RATES_2026_05_def)
  then have cost: "anthropic_compute_cost_usd (Some ''claude-opus-4-5'') 0 0 0 c t = Some (round_half_even (187500 * c) 10000)" for c
    by (simp add: anthropic_compute_cost_usd_def row_cost_def exact_cost_def rates_def)
  have "sql_bigint env ''ephemeral_5m_input_tokens'' (JObj [(''ephemeral_5m_input_tokens'', JInt 1000000)]) = Inr (Some 1000000)"
    using assms by (simp add: sql_bigint_def json_field_def postgres_ok_def in_bigint_def)
  then have "sql_cache_creation env (JObj lone_ephemeral) = Inr 0"
    by (simp add: sql_cache_creation_def lone_ephemeral_def sub_object_def sql_bigint_def [of _ _ "JObj (_ # _ # _)"]
        sql_bigint_def [of _ "''ephemeral_1h_input_tokens''"] json_field_def Let_def)
  then show ?thesis
    by (simp add: anthropic_breakdown_cost_def anthropic_cache_creation_tokens_def price_result_def cost)
      (simp add: lone_ephemeral_def cost sql_bigint_def json_field_def round_half_even_def)
qed

lemma lone_ephemeral_count_dropped_witness:
  "price_result sample_postgres (utc_date 2026 5 1) (JObj lone_ephemeral) = Inr (Some 0)"
  using lone_ephemeral_count_dropped [OF sample_postgres_ok] by blast

lemma expanded_error: "expanded keep rows = Inl e \<Longrightarrow> e = SpendDataError"
proof (induction rows)
  case (Cons r rows)
  have "result_elements md = Inl e' \<Longrightarrow> e' = SpendDataError" for md e'
    by (auto simp: result_elements_def split: json.splits option.splits)
  with Cons show ?case by (auto simp: bindE_eq_Inl)
qed simp

lemma sum_spend_error: "sum_spend env es w = Inl e \<Longrightarrow> e = SpendDataError"
proof (induction es arbitrary: w)
  case (Cons x es)
  obtain t j where x: "x = (t, j)" by (cases x)
  have cast: "sql_bigint env key j' = Inl e' \<Longrightarrow> e' = SpendDataError" for key j' e'
    by (auto simp: sql_bigint_def split: option.splits)
  have cache: "sql_cache_creation env j' = Inl e' \<Longrightarrow> e' = SpendDataError" for j' e'
    by (auto simp: sql_cache_creation_def bindE_eq_Inl Let_def dest: cast split: if_splits option.splits)
  have "price_result env t j = Inl e' \<Longrightarrow> e' = SpendDataError" for e'
    by (auto simp: price_result_def bindE_eq_Inl dest: cast cache split: option.splits)
  with Cons show ?case by (auto simp: x bindE_eq_Inl)
qed simp

lemma tenant_spend_errors:
  "compute_spend_in_window env tid s u ''tenant'' None db = Inl e \<Longrightarrow> e = SpendDataError"
  by (auto simp: compute_spend_in_window_def bindE_eq_Inl Let_def dest: expanded_error sum_spend_error)

end
