(* ===== verification/Period.thy ===== *)
theory Period
  imports PyTime
begin

text \<open>
  Budget periods (\<^verbatim>\<open>budgets/period.py\<close>): the daily, weekly and monthly windows in UTC. Python dates stop
  at 9999-12-31; a window that would end later is the \<^verbatim>\<open>OverflowError\<close> of \<^verbatim>\<open>date + timedelta\<close> or the
  \<^verbatim>\<open>ValueError\<close> of \<^verbatim>\<open>date(10000, 1, 1)\<close>.
\<close>

datatype period_error = PeriodValueError | PeriodOverflow

record period_window =
  pw_start :: datetime
  pw_end :: datetime

definition start_date :: "period_window \<Rightarrow> date" where
  "start_date w = dt_date (pw_start w)"

definition start_of_month :: "date \<Rightarrow> date" where
  "start_of_month d = Date (d_year d) (d_month d) 1"

definition start_of_next_month :: "date \<Rightarrow> date" where
  "start_of_next_month d =
     (if d_month d = 12 then Date (d_year d + 1) 1 1 else Date (d_year d) (d_month d + 1) 1)"

definition start_of_iso_week :: "date \<Rightarrow> date" where
  "start_of_iso_week d = add_days d (- weekday d)"

definition py_date :: "date \<Rightarrow> bool" where
  "py_date d \<longleftrightarrow> 1 \<le> d_year d \<and> d_year d \<le> 9999"

definition checked :: "period_error \<Rightarrow> date \<Rightarrow> period_error + date" where
  "checked e d = (if py_date d then Inr d else Inl e)"

definition window_of :: "date \<Rightarrow> date \<Rightarrow> period_window" where
  "window_of a b = \<lparr>pw_start = utc_midnight a, pw_end = utc_midnight b\<rparr>"

text \<open>\<open>clock\<close> is \<^verbatim>\<open>datetime.now(tz=timezone.utc)\<close>.\<close>

definition current_period_window :: "datetime \<Rightarrow> string \<Rightarrow> datetime option \<Rightarrow> period_error + period_window" where
  "current_period_window clock period now_opt =
     (let now = (case now_opt of None \<Rightarrow> clock | Some n \<Rightarrow> n)
      in if dt_off now = None then Inl PeriodValueError
         else
           (let today = dt_date now
            in if period = ''daily''
               then bindE (checked PeriodOverflow (add_days today 1)) (\<lambda>b. Inr (window_of today b))
               else if period = ''weekly''
               then bindE (checked PeriodOverflow (start_of_iso_week today)) (\<lambda>monday.
                    bindE (checked PeriodOverflow (add_days monday 7)) (\<lambda>b. Inr (window_of monday b)))
               else if period = ''monthly''
               then bindE (checked PeriodValueError (start_of_next_month today)) (\<lambda>b.
                    Inr (window_of (start_of_month today) b))
               else Inl PeriodValueError))"

definition days_in_period :: "period_window \<Rightarrow> int" where
  "days_in_period w = (instant (pw_end w) - instant (pw_start w)) div day_us"

section \<open>Day numbers are ordered as dates\<close>

lemma days_before_year_mono: "y \<le> y' \<Longrightarrow> days_before_year y \<le> days_before_year y'"
  by (induction rule: int_ge_induct) (simp_all add: days_before_year_step)

lemma days_before_month_mono: "m \<le> m' \<Longrightarrow> 1 \<le> m \<Longrightarrow> m' \<le> 12 \<Longrightarrow> days_before_month y m \<le> days_before_month y m'"
proof (induction rule: int_ge_induct)
  case (step i)
  then show ?case using days_before_month_step [of i y] days_in_month_bounds(1) [of y i] by simp
qed simp

lemma toordinal_bounds:
  assumes "valid_date d"
  shows "days_before_year (d_year d) < toordinal d" "toordinal d \<le> days_before_year (d_year d + 1)"
proof -
  have m: "1 \<le> d_month d" "d_month d \<le> 12" and x: "1 \<le> d_day d" "d_day d \<le> days_in_month (d_year d) (d_month d)"
    using assms by (simp_all add: valid_date_def)
  have "0 \<le> days_before_month (d_year d) (d_month d)"
    using days_before_month_mono [of 1 "d_month d" "d_year d"] m by (simp add: days_before_month_def)
  with x show "days_before_year (d_year d) < toordinal d" by (simp add: toordinal_def)
  have "days_before_month (d_year d) (d_month d) + days_in_month (d_year d) (d_month d) \<le> 365 + (if is_leap (d_year d) then 1 else 0)"
  proof (cases "d_month d = 12")
    case True
    then show ?thesis using days_before_month_end [of "d_year d"] by (simp add: days_in_month_def)
  next
    case False
    then show ?thesis
      using m days_before_month_step [of "d_month d" "d_year d"] days_before_month_mono [of "d_month d + 1" 12 "d_year d"]
        days_before_month_end [of "d_year d"] by simp
  qed
  with x show "toordinal d \<le> days_before_year (d_year d + 1)"
    by (simp add: toordinal_def days_before_year_step)
qed

lemma toordinal_strict_mono:
  assumes "valid_date a" "valid_date b" "a < b"
  shows "toordinal a < toordinal b"
proof -
  consider "d_year a < d_year b" | "d_year a = d_year b" "d_month a < d_month b"
    | "d_year a = d_year b" "d_month a = d_month b" "d_day a < d_day b"
    using assms(3) by (auto simp: less_date_def)
  then show ?thesis
  proof cases
    case 1
    then show ?thesis
      using toordinal_bounds(2) [OF assms(1)] toordinal_bounds(1) [OF assms(2)]
        days_before_year_mono [of "d_year a + 1" "d_year b"] by simp
  next
    case 2
    then show ?thesis
      using assms days_before_month_step [of "d_month a" "d_year a"]
        days_before_month_mono [of "d_month a + 1" "d_month b" "d_year a"]
      by (simp add: valid_date_def toordinal_def)
  qed (simp add: toordinal_def)
qed

lemma toordinal_eq_iff: "valid_date a \<Longrightarrow> valid_date b \<Longrightarrow> toordinal a = toordinal b \<longleftrightarrow> a = b"
  by (metis less_irrefl linorder_less_linear toordinal_strict_mono)

lemma toordinal_less_iff: "valid_date a \<Longrightarrow> valid_date b \<Longrightarrow> toordinal a < toordinal b \<longleftrightarrow> a < b"
  by (metis less_asym linorder_less_linear toordinal_strict_mono)

section \<open>Windows\<close>

definition in_window :: "period_window \<Rightarrow> datetime \<Rightarrow> bool" where
  "in_window w t \<longleftrightarrow> instant (pw_start w) \<le> instant t \<and> instant t < instant (pw_end w)"

lemma in_window_of:
  assumes "valid_datetime t" "dt_off t = Some 0"
  shows "in_window (window_of a b) t \<longleftrightarrow> toordinal a \<le> toordinal (dt_date t) \<and> toordinal (dt_date t) < toordinal b"
proof -
  have us: "0 \<le> dt_us t" "dt_us t < day_us" using assms(1) by (auto simp: valid_datetime_def)
  have "toordinal a * day_us \<le> toordinal (dt_date t) * day_us + dt_us t \<longleftrightarrow> toordinal a \<le> toordinal (dt_date t)"
  proof
    assume "toordinal a * day_us \<le> toordinal (dt_date t) * day_us + dt_us t"
    then have "toordinal a * day_us < (toordinal (dt_date t) + 1) * day_us" using us by (simp add: algebra_simps)
    then show "toordinal a \<le> toordinal (dt_date t)" by (simp add: mult_less_cancel_right less_imp_le [OF day_us_pos])
  next
    assume "toordinal a \<le> toordinal (dt_date t)"
    then have "toordinal a * day_us \<le> toordinal (dt_date t) * day_us" by (simp add: mult_right_mono)
    then show "toordinal a * day_us \<le> toordinal (dt_date t) * day_us + dt_us t" using us(1) by linarith
  qed
  moreover have "toordinal (dt_date t) * day_us + dt_us t < toordinal b * day_us \<longleftrightarrow> toordinal (dt_date t) < toordinal b"
  proof
    assume "toordinal (dt_date t) * day_us + dt_us t < toordinal b * day_us"
    then have "toordinal (dt_date t) * day_us < toordinal b * day_us" using us(1) by linarith
    then show "toordinal (dt_date t) < toordinal b" by (simp add: mult_less_cancel_right less_imp_le [OF day_us_pos])
  next
    assume "toordinal (dt_date t) < toordinal b"
    then have "(toordinal (dt_date t) + 1) * day_us \<le> toordinal b * day_us" by (intro mult_right_mono) (simp_all add: less_imp_le [OF day_us_pos])
    then show "toordinal (dt_date t) * day_us + dt_us t < toordinal b * day_us" using us by (simp add: algebra_simps)
  qed
  ultimately show ?thesis
    using assms(2) by (simp add: in_window_def window_of_def instant_utc_midnight instant_def [of t])
qed

lemma toordinal_start_of_month:
  "toordinal (start_of_month d) = toordinal d - (d_day d - 1)"
  by (simp add: start_of_month_def toordinal_def)

lemma toordinal_next_month:
  assumes "valid_date d"
  shows "toordinal (start_of_next_month d) = toordinal (start_of_month d) + days_in_month (d_year d) (d_month d)"
proof -
  have m: "1 \<le> d_month d" "d_month d \<le> 12" using assms by (simp_all add: valid_date_def)
  show ?thesis
  proof (cases "d_month d = 12")
    case True
    have "days_in_month (d_year d) 12 = 31" by (simp add: days_in_month_def)
    with True show ?thesis
      using days_before_month_end [of "d_year d"] days_before_year_step [of "d_year d"]
      by (simp add: start_of_next_month_def start_of_month_def toordinal_def days_before_month_def [of _ 1])
  next
    case False
    with m show ?thesis
      using days_before_month_step [of "d_month d" "d_year d"]
      by (simp add: start_of_next_month_def start_of_month_def toordinal_def)
  qed
qed

lemma toordinal_monday:
  "valid_date d \<Longrightarrow> toordinal (start_of_iso_week d) = toordinal d - weekday d"
  by (simp add: start_of_iso_week_def)

lemma weekday_bounds: "0 \<le> weekday d" "weekday d < 7"
  by (simp_all add: weekday_def)

text \<open>The first day of the period a date is in, and the first day of the next one.\<close>

definition unit_dates :: "string \<Rightarrow> date \<Rightarrow> date \<times> date" where
  "unit_dates period d =
     (if period = ''daily'' then (d, add_days d 1)
      else if period = ''weekly'' then (start_of_iso_week d, add_days (start_of_iso_week d) 7)
      else (start_of_month d, start_of_next_month d))"

definition unit_length :: "string \<Rightarrow> date \<Rightarrow> int" where
  "unit_length period d =
     (if period = ''daily'' then 1 else if period = ''weekly'' then 7 else days_in_month (d_year d) (d_month d))"

lemma current_window_eq:
  "current_period_window clock p (Some now) =
     (if dt_off now = None \<or> p \<notin> {''daily'', ''weekly'', ''monthly''} then Inl PeriodValueError
      else case unit_dates p (dt_date now) of (a, b) \<Rightarrow>
        if p = ''weekly'' \<and> \<not> py_date a then Inl PeriodOverflow
        else if \<not> py_date b then Inl (if p = ''monthly'' then PeriodValueError else PeriodOverflow)
        else Inr (window_of a b))"
  by (auto simp: current_period_window_def unit_dates_def Let_def checked_def)

lemma unit_dates_ok:
  assumes "valid_date d" "unit_dates p d = (a, b)"
  shows "valid_date a" "valid_date b" "toordinal b = toordinal a + unit_length p d"
    "toordinal a \<le> toordinal d" "toordinal d < toordinal b"
proof -
  have m: "1 \<le> d_month d" "d_month d \<le> 12" and x: "1 \<le> d_day d" "d_day d \<le> days_in_month (d_year d) (d_month d)"
    using assms(1) by (simp_all add: valid_date_def)
  have vm: "valid_date (start_of_iso_week d)" using assms(1) by (simp add: start_of_iso_week_def)
  have vs: "valid_date (start_of_month d)" "valid_date (start_of_next_month d)"
    using m days_in_month_bounds(1) [of "d_year d"]
    by (auto simp: start_of_month_def start_of_next_month_def valid_date_def days_in_month_def)
  show "valid_date a" "valid_date b" using assms vm vs by (auto simp: unit_dates_def split: if_splits)
  show len: "toordinal b = toordinal a + unit_length p d"
    using assms vm toordinal_next_month [OF assms(1)]
    by (auto simp: unit_dates_def unit_length_def split: if_splits)
  show "toordinal a \<le> toordinal d"
    using assms x(1) weekday_bounds [of d] toordinal_monday [OF assms(1)] toordinal_start_of_month [of d]
    by (auto simp: unit_dates_def split: if_splits)
  show "toordinal d < toordinal b"
    unfolding len
    using assms x(2) weekday_bounds [of d] toordinal_monday [OF assms(1)] toordinal_start_of_month [of d]
    by (auto simp: unit_dates_def unit_length_def split: if_splits)
qed

lemma week_start_same:
  fixes x y :: int
  assumes "x - (x + 6) mod 7 \<le> y" "y < x - (x + 6) mod 7 + 7"
  shows "y - (y + 6) mod 7 = x - (x + 6) mod 7"
proof -
  define q where "q = (x + 6) div 7"
  have k: "x - (x + 6) mod 7 = 7 * q - 6" using mult_div_mod_eq [of 7 "x + 6"] unfolding q_def by linarith
  then have "y + 6 = 7 * q + (y + 6 - 7 * q)" "0 \<le> y + 6 - 7 * q" "y + 6 - 7 * q < 7" using assms by simp_all
  from int_mod_pos_eq [OF this] k show ?thesis by simp
qed

lemma unit_dates_same:
  assumes v: "valid_date d" "valid_date d'" and ab: "unit_dates p d = (a, b)"
    and "toordinal a \<le> toordinal d'" "toordinal d' < toordinal b"
  shows "unit_dates p d' = (a, b)"
proof -
  consider "p = ''daily''" | "p = ''weekly''" | "p \<noteq> ''daily''" "p \<noteq> ''weekly''" by blast
  then show ?thesis
  proof cases
    case 1
    then have "toordinal d' = toordinal d"
      using assms unit_dates_ok(3) [OF v(1) ab] by (auto simp: unit_dates_def unit_length_def)
    with v have "d' = d" by (simp add: toordinal_eq_iff)
    with ab show ?thesis by simp
  next
    case 2
    then have "toordinal (start_of_iso_week d') = toordinal (start_of_iso_week d)"
      using assms week_start_same [of "toordinal d" "toordinal d'"] toordinal_monday [OF v(1)] toordinal_monday [OF v(2)]
      by (auto simp: unit_dates_def weekday_def start_of_iso_week_def)
    then have "start_of_iso_week d' = start_of_iso_week d"
      using toordinal_eq_iff [of "start_of_iso_week d'" "start_of_iso_week d"] v by (simp add: start_of_iso_week_def)
    with 2 ab show ?thesis by (auto simp: unit_dates_def)
  next
    case 3
    then have a: "a = start_of_month d" "b = start_of_next_month d" using ab by (simp_all add: unit_dates_def)
    have "\<not> d' < start_of_month d" "d' < start_of_next_month d"
      using assms unit_dates_ok(1,2) [OF v(1) ab] toordinal_less_iff [of d' a] toordinal_less_iff [of d' b] by (auto simp: a)
    then have "d_year d' = d_year d" "d_month d' = d_month d"
      using v by (auto simp: start_of_month_def start_of_next_month_def less_date_def valid_date_def split: if_splits)
    with 3 a show ?thesis by (simp add: unit_dates_def start_of_month_def start_of_next_month_def)
  qed
qed

section \<open>Properties\<close>

lemma window_holds_now:
  assumes "current_period_window clock p (Some now) = Inr w" "valid_datetime now" "dt_off now = Some 0"
  shows "in_window w now" "days_in_period w = unit_length p (dt_date now)"
    "valid_datetime t \<Longrightarrow> dt_off t = Some 0 \<Longrightarrow> in_window w t \<Longrightarrow> current_period_window clock' p (Some t) = Inr w"
proof -
  obtain a b where ab: "unit_dates p (dt_date now) = (a, b)" by (cases "unit_dates p (dt_date now)")
  have w: "w = window_of a b" using assms(1,3) ab by (auto simp: current_window_eq split: if_splits)
  have v: "valid_date (dt_date now)" using assms(2) by (simp add: valid_datetime_def)
  note ok = unit_dates_ok [OF v ab]
  show "days_in_period w = unit_length p (dt_date now)"
    using ok(3) by (simp add: w days_in_period_def window_of_def instant_utc_midnight algebra_simps day_us_def)
  show "in_window w now" using ok(4,5) assms(2,3) by (simp add: w in_window_of)
  show "current_period_window clock' p (Some t) = Inr w"
    if t: "valid_datetime t" "dt_off t = Some 0" "in_window w t"
  proof -
    have "valid_date (dt_date t)" using t(1) by (simp add: valid_datetime_def)
    from unit_dates_same [OF v this ab] t have "unit_dates p (dt_date t) = (a, b)"
      by (simp add: w in_window_of)
    then show ?thesis using assms(1,3) ab t(2) by (auto simp: current_window_eq split: if_splits)
  qed
qed

lemma current_window_None: "current_period_window clock p None = current_period_window clock p (Some clock)"
  by (simp add: current_period_window_def)

text \<open>C13: A period window holds the instant it was computed for, has the length of its calendar unit (1,
  7, or the month's days), and every UTC instant inside it gets the same window: the windows of a
  period partition time, so the dedup key of an alert does not move within a period.\<close>

theorem period_windows_partition:
  assumes "current_period_window clock p (Some now) = Inr w"
    and "valid_datetime now" "dt_off now = Some 0"
  shows "in_window w now \<and> days_in_period w = unit_length p (dt_date now)
    \<and> (\<forall>t. valid_datetime t \<and> dt_off t = Some 0 \<and> in_window w t
         \<longrightarrow> current_period_window clock' p (Some t) = Inr w)"
  using window_holds_now [OF assms] by blast

lemma period_windows_partition_witness:
  "days_in_period (window_of (Date 2028 2 1) (Date 2028 3 1)) = 29"
proof -
  let ?now = "\<lparr>dt_date = Date 2028 2 29, dt_us = 86399999999, dt_off = Some 0\<rparr>"
  have "current_period_window ?now ''monthly'' (Some ?now) = Inr (window_of (Date 2028 2 1) (Date 2028 3 1))"
    by (simp add: current_period_window_def checked_def py_date_def start_of_month_def start_of_next_month_def)
  from period_windows_partition [OF this] show ?thesis
    by (simp add: valid_datetime_def valid_date_def days_in_month_def is_leap_def day_us_def unit_length_def)
qed

text \<open>The documented postcondition \<^verbatim>\<open>start <= now < end\<close> fails for an aware instant whose offset is not
  UTC: the date is read in the instant's own zone and the window is built in UTC. At 23:30 on May 31st
  in a zone five hours behind UTC the monthly window ends before the instant.\<close>

lemma non_utc_now_outside_window:
  "\<exists>w. current_period_window clock ''monthly''
         (Some \<lparr>dt_date = Date 2026 5 31, dt_us = 84600000000, dt_off = Some (-300)\<rparr>) = Inr w
     \<and> \<not> in_window w \<lparr>dt_date = Date 2026 5 31, dt_us = 84600000000, dt_off = Some (-300)\<rparr>"
  by (simp add: current_period_window_def checked_def py_date_def start_of_month_def start_of_next_month_def
      in_window_def window_of_def instant_utc_midnight)
    (simp add: instant_def toordinal_def days_before_year_def days_before_month_def is_leap_def day_us_def)

end
