(* ===== verification/Notify.thy ===== *)
theory Notify
  imports PyTime Json
begin

text \<open>
  Budget-alert delivery (\<^verbatim>\<open>notify/budget_alert.py\<close>, \<^verbatim>\<open>notify/email.py\<close>, \<^verbatim>\<open>notify/slack.py\<close>,
  \<^verbatim>\<open>notify/pagerduty.py\<close>): which channels a configuration reaches, which failures are contained, and the
  PagerDuty event. Deliveries are the requests that leave the process, in order. Amounts are cents
  and thresholds hundredths. The texts of the emails and of the Slack message are not modelled.
\<close>

record alert_context =
  bc_budget_name :: string
  bc_scope_kind :: string
  bc_scope_label :: string
  bc_period :: string
  bc_period_start :: date
  bc_period_end :: date
  bc_threshold_crossed :: int
  bc_threshold_usd :: int
  bc_current_spend_usd :: int
  bc_kind :: string
  bc_projected_breach_date :: "date option"

datatype delivery = Mail "string list" | SlackPost string | PagerDutyPost json

type_synonym outbox = "(delivery \<times> alert_context) list"

section \<open>Email\<close>

datatype ses_reply = SesRaises | SesNoId | SesId string

datatype email_error = EmailValueError | SesNotConfigured | EmailDeliveryError | ClientBuildError

text \<open>The environment: the sender address (empty when unset), whether boto3 can build its client, SES's
  reply, and whether an HTTP POST to a URL or key succeeds.\<close>

record notify_env =
  ne_from_address :: string
  ne_client_builds :: bool
  ne_ses :: "string list \<Rightarrow> alert_context \<Rightarrow> ses_reply"
  ne_post :: "delivery \<Rightarrow> bool"

definition send_email :: "notify_env \<Rightarrow> string list \<Rightarrow> alert_context \<Rightarrow> outbox \<times> (email_error + string)" where
  "send_email env to ctx =
     (if to = [] then ([], Inl EmailValueError)
      else if ne_from_address env = [] then ([], Inl SesNotConfigured)
      else if \<not> ne_client_builds env then ([], Inl ClientBuildError)
      else ([(Mail to, ctx)],
        case ne_ses env to ctx of
          SesRaises \<Rightarrow> Inl EmailDeliveryError
        | SesNoId \<Rightarrow> Inl EmailDeliveryError
        | SesId i \<Rightarrow> if i = [] then Inl EmailDeliveryError else Inr i))"

datatype channel_status = ChannelOk | ChannelError

definition send_email_channel :: "notify_env \<Rightarrow> string list \<Rightarrow> alert_context \<Rightarrow> outbox \<times> (email_error + channel_status)" where
  "send_email_channel env emails ctx =
     (case send_email env emails ctx of (out, r) \<Rightarrow>
        (out, case r of
            Inr i \<Rightarrow> Inr ChannelOk
          | Inl SesNotConfigured \<Rightarrow> Inr ChannelError
          | Inl EmailDeliveryError \<Rightarrow> Inr ChannelError
          | Inl e \<Rightarrow> Inl e))"

section \<open>Slack and PagerDuty\<close>

definition post_all :: "notify_env \<Rightarrow> alert_context \<Rightarrow> delivery list \<Rightarrow> outbox \<times> channel_status list" where
  "post_all env ctx ds =
     (map (\<lambda>d. (d, ctx)) ds, map (\<lambda>d. if ne_post env d then ChannelOk else ChannelError) ds)"

definition send_slack_alert :: "notify_env \<Rightarrow> string list \<Rightarrow> alert_context \<Rightarrow> outbox \<times> channel_status list" where
  "send_slack_alert env webhook_urls ctx = post_all env ctx (map SlackPost webhook_urls)"

text \<open>\<^verbatim>\<open>str\<close> of a decimal with two places.\<close>

definition dec2_str :: "int \<Rightarrow> string" where
  "dec2_str n =
     (if n < 0 then ''-'' else []) @ nat_str (nat \<bar>n\<bar> div 100) @ ''.'' @ pad 2 (\<bar>n\<bar> mod 100)"

definition severity :: "int \<Rightarrow> string" where
  "severity threshold_crossed = (if 100 \<le> threshold_crossed then ''critical'' else ''warning'')"

definition dedup_key :: "alert_context \<Rightarrow> string" where
  "dedup_key ctx =
     ''ogma-budget-'' @ bc_budget_name ctx @ ''-'' @ isodate (bc_period_start ctx) @ ''-''
       @ dec2_str (bc_threshold_crossed ctx)"

definition render_pagerduty_event :: "string \<Rightarrow> alert_context \<Rightarrow> json" where
  "render_pagerduty_event routing_key ctx =
     JObj [(''routing_key'', JStr routing_key),
           (''event_action'', JStr ''trigger''),
           (''dedup_key'', JStr (dedup_key ctx)),
           (''payload'', JObj
              [(''summary'', JStr (''Budget '' @ [CHR 0x22] @ bc_budget_name ctx @ [CHR 0x22] @ '' at ''
                  @ int_str (bc_threshold_crossed ctx) @ ''% of cap ($'' @ dec2_str (bc_current_spend_usd ctx)
                  @ '' / $'' @ dec2_str (bc_threshold_usd ctx) @ '')'')),
               (''source'', JStr ''ogma.vargate.ai''),
               (''severity'', JStr (severity (bc_threshold_crossed ctx))),
               (''component'', JStr (bc_scope_label ctx)),
               (''group'', JStr (bc_period ctx)),
               (''custom_details'', JObj
                  [(''budget'', JStr (bc_budget_name ctx)),
                   (''scope'', JStr (bc_scope_label ctx)),
                   (''period'', JStr (isodate (bc_period_start ctx) @ '' to '' @ isodate (bc_period_end ctx))),
                   (''current_spend_usd'', JStr (dec2_str (bc_current_spend_usd ctx))),
                   (''threshold_usd'', JStr (dec2_str (bc_threshold_usd ctx))),
                   (''threshold_crossed'', JStr (dec2_str (bc_threshold_crossed ctx)))])])]"

definition send_pagerduty_alert :: "notify_env \<Rightarrow> string list \<Rightarrow> alert_context \<Rightarrow> outbox \<times> channel_status list" where
  "send_pagerduty_alert env routing_keys ctx =
     post_all env ctx (map (\<lambda>key. PagerDutyPost (render_pagerduty_event key ctx)) routing_keys)"

section \<open>Dispatch\<close>

datatype recipients =
  ChannelConfig "(string \<times> string list option) list"
| BareList "string list"
| NoRecipients

record channels =
  ch_email :: "string list"
  ch_slack_webhook :: "string list"
  ch_pagerduty_key :: "string list"

definition config_list :: "(string \<times> string list option) list \<Rightarrow> string \<Rightarrow> string list" where
  "config_list cfg ch = (case map_of cfg ch of Some (Some xs) \<Rightarrow> xs | _ \<Rightarrow> [])"

fun normalize_recipients :: "recipients \<Rightarrow> channels" where
  "normalize_recipients (ChannelConfig cfg) =
     \<lparr>ch_email = config_list cfg ''email'', ch_slack_webhook = config_list cfg ''slack_webhook'',
      ch_pagerduty_key = config_list cfg ''pagerduty_key''\<rparr>"
| "normalize_recipients (BareList xs) = \<lparr>ch_email = xs, ch_slack_webhook = [], ch_pagerduty_key = []\<rparr>"
| "normalize_recipients NoRecipients = \<lparr>ch_email = [], ch_slack_webhook = [], ch_pagerduty_key = []\<rparr>"

type_synonym alert_summary = "(string \<times> channel_status list) list"

definition send_budget_alert :: "notify_env \<Rightarrow> recipients \<Rightarrow> alert_context \<Rightarrow> outbox \<times> (email_error + alert_summary)" where
  "send_budget_alert env recipients ctx =
     (let cfg = normalize_recipients recipients;
          (out1, mail) = (if ch_email cfg = [] then ([], Inr [])
             else case send_email_channel env (ch_email cfg) ctx of
                    (out, r) \<Rightarrow> (out, bindE r (\<lambda>s. Inr [(''email'', [s])])))
      in case mail of
           Inl e \<Rightarrow> (out1, Inl e)
         | Inr s1 \<Rightarrow>
             (let (out2, s2) = (if ch_slack_webhook cfg = [] then ([], [])
                    else case send_slack_alert env (ch_slack_webhook cfg) ctx of (out, s) \<Rightarrow> (out, [(''slack'', s)]));
                  (out3, s3) = (if ch_pagerduty_key cfg = [] then ([], [])
                    else case send_pagerduty_alert env (ch_pagerduty_key cfg) ctx of (out, s) \<Rightarrow> (out, [(''pagerduty'', s)]))
              in (out1 @ out2 @ out3, Inr (s1 @ s2 @ s3))))"

section \<open>Properties\<close>

definition mail_ready :: "notify_env \<Rightarrow> bool" where
  "mail_ready env \<longleftrightarrow> ne_from_address env \<noteq> [] \<and> ne_client_builds env"

definition expected_outbox :: "notify_env \<Rightarrow> channels \<Rightarrow> alert_context \<Rightarrow> outbox" where
  "expected_outbox env cfg ctx =
     (if ch_email cfg \<noteq> [] \<and> mail_ready env then [(Mail (ch_email cfg), ctx)] else [])
     @ map (\<lambda>url. (SlackPost url, ctx)) (ch_slack_webhook cfg)
     @ map (\<lambda>key. (PagerDutyPost (render_pagerduty_event key ctx), ctx)) (ch_pagerduty_key cfg)"

lemma send_budget_alert_cases:
  "send_budget_alert env recipients ctx = (out, res) \<Longrightarrow>
     (let cfg = normalize_recipients recipients;
          broken = (ch_email cfg \<noteq> [] \<and> ne_from_address env \<noteq> [] \<and> \<not> ne_client_builds env)
      in (if broken then res = Inl ClientBuildError \<and> out = []
          else is_ok res \<and> out = expected_outbox env cfg ctx))"
  by (auto simp: send_budget_alert_def send_email_channel_def send_email_def send_slack_alert_def
      send_pagerduty_alert_def post_all_def expected_outbox_def mail_ready_def Let_def
      split: if_splits ses_reply.splits prod.splits)

text \<open>An alert reaches every recipient of every configured channel once, whatever SES and the HTTP
  endpoints answer and even when no sender is configured. The one failure that escapes is a boto3
  client that cannot be built: then the call raises, and the Slack and PagerDuty recipients are not
  contacted either, although the documentation says a channel's failure is never raised.\<close>

lemma alert_reaches_channels:
  "case send_budget_alert env recipients ctx of (out, res) \<Rightarrow>
     (if ch_email (normalize_recipients recipients) \<noteq> [] \<and> ne_from_address env \<noteq> [] \<and> \<not> ne_client_builds env
      then res = Inl ClientBuildError \<and> out = []
      else is_ok res \<and> out = expected_outbox env (normalize_recipients recipients) ctx)"
proof -
  obtain out res where r: "send_budget_alert env recipients ctx = (out, res)" by fastforce
  show ?thesis using send_budget_alert_cases [OF r] by (simp add: r Let_def)
qed

lemma nat_str_small:
  "n < 10 \<Longrightarrow> nat_str n = [digit_char n]"
  "10 \<le> n \<Longrightarrow> n < 100 \<Longrightarrow> nat_str n = [digit_char (n div 10), digit_char (n mod 10)]"
  by (subst nat_str.simps, simp) (subst nat_str.simps, subst nat_str.simps, simp)

lemma dec2_thresholds:
  "dec2_str 70 = ''0.70''" "dec2_str 85 = ''0.85''" "dec2_str 100 = ''1.00''"
  by (simp_all add: dec2_str_def pad_def int_str_def nat_str_small digit_char_def Let_def)
    (code_simp+)

lemma length_isodate: "valid_date d \<Longrightarrow> 1 \<le> d_year d \<Longrightarrow> d_year d \<le> 9999 \<Longrightarrow> length (isodate d) = 10"
  using days_in_month_le [of "d_year d" "d_month d"]
  by (simp add: isodate_def valid_date_def pad_facts)

lemma pad_inject:
  "0 \<le> m \<Longrightarrow> m < 10 ^ w \<Longrightarrow> 0 \<le> n \<Longrightarrow> n < 10 ^ w \<Longrightarrow> 0 < w \<Longrightarrow> pad w m = pad w n \<longleftrightarrow> m = n"
  using pad_facts(3) by metis

definition calendar_date :: "date \<Rightarrow> bool" where
  "calendar_date d \<longleftrightarrow> valid_date d \<and> 1 \<le> d_year d \<and> d_year d \<le> 9999"

lemma isodate_inject:
  assumes "calendar_date a" "calendar_date b"
  shows "isodate a = isodate b \<longleftrightarrow> a = b"
proof -
  have len: "length (pad 4 (d_year d)) = 4" "length (pad 2 (d_month d)) = 2" "length (pad 2 (d_day d)) = 2"
    if "calendar_date d" for d
    using that days_in_month_le [of "d_year d" "d_month d"]
    by (simp_all add: calendar_date_def valid_date_def pad_facts)
  have bounds: "0 \<le> d_year d" "d_year d < 10 ^ 4" "0 \<le> d_month d" "d_month d < 10 ^ 2" "0 \<le> d_day d" "d_day d < 10 ^ 2"
    if "calendar_date d" for d
    using that days_in_month_le [of "d_year d" "d_month d"] by (simp_all add: calendar_date_def valid_date_def)
  have "isodate a = isodate b \<longleftrightarrow> pad 4 (d_year a) = pad 4 (d_year b) \<and> pad 2 (d_month a) = pad 2 (d_month b)
      \<and> pad 2 (d_day a) = pad 2 (d_day b)"
    using len [OF assms(1)] len [OF assms(2)] by (simp add: isodate_def)
  then show ?thesis
    using pad_inject [of "d_year a" 4 "d_year b"] pad_inject [of "d_month a" 2 "d_month b"] pad_inject [of "d_day a" 2 "d_day b"]
      bounds [OF assms(1)] bounds [OF assms(2)] by (cases a; cases b) auto
qed

lemma dedup_key_split:
  assumes "length x = length y" "length s = length t" "n @ ''-'' @ x @ ''-'' @ s = m @ ''-'' @ y @ ''-'' @ t"
  shows "n = m \<and> x = y \<and> s = t"
proof -
  have "n = m \<and> ''-'' @ x @ ''-'' @ s = ''-'' @ y @ ''-'' @ t"
    using assms by (intro append_eq_append_conv [THEN iffD1]) auto
  with assms(1) show ?thesis by simp
qed

text \<open>The PagerDuty dedup key of a budget alert depends on the budget's name, the first day of the
  period and the threshold, and on nothing else. So a forecast alert and the real crossing it predicted share an
  incident, as do two budgets of the same name, although the key is documented as stable per
  crossing.\<close>

lemma dedup_key_determines:
  assumes "calendar_date (bc_period_start a)" "calendar_date (bc_period_start b)"
    and "bc_threshold_crossed a \<in> {70, 85, 100}" "bc_threshold_crossed b \<in> {70, 85, 100}"
  shows "dedup_key a = dedup_key b \<longleftrightarrow>
     bc_budget_name a = bc_budget_name b \<and> bc_period_start a = bc_period_start b
     \<and> bc_threshold_crossed a = bc_threshold_crossed b"
proof -
  have len: "length (dec2_str p) = 4" if "p \<in> {70, 85, 100}" for p
    using that by (auto simp: dec2_thresholds)
  have inj: "dec2_str p = dec2_str q \<longleftrightarrow> p = q" if "p \<in> {70, 85, 100}" "q \<in> {70, 85, 100}" for p q
    using that by (auto simp: dec2_thresholds)
  have "length (isodate (bc_period_start a)) = length (isodate (bc_period_start b))"
    using assms(1,2) by (simp add: calendar_date_def length_isodate)
  from dedup_key_split [OF this, of "dec2_str (bc_threshold_crossed a)" "dec2_str (bc_threshold_crossed b)"
      "bc_budget_name a" "bc_budget_name b"]
  show ?thesis
    using assms(3,4) isodate_inject [OF assms(1,2)] inj [OF assms(3,4)]
    by (auto simp: dedup_key_def len [OF assms(3)] len [OF assms(4)])
qed

definition sample_context :: alert_context where
  "sample_context = \<lparr>bc_budget_name = ''prod'', bc_scope_kind = ''tenant'', bc_scope_label = ''all'',
     bc_period = ''monthly'', bc_period_start = Date 2026 5 1, bc_period_end = Date 2026 5 31,
     bc_threshold_crossed = 70, bc_threshold_usd = 10000, bc_current_spend_usd = 5000,
     bc_kind = ''forecast_threshold'', bc_projected_breach_date = Some (Date 2026 5 20)\<rparr>"

lemma dedup_key_determines_witness:
  "dedup_key sample_context = dedup_key (sample_context\<lparr>bc_kind := ''current_threshold'', bc_current_spend_usd := 7100\<rparr>)
   \<and> dedup_key sample_context \<noteq> dedup_key (sample_context\<lparr>bc_threshold_crossed := 85\<rparr>)"
  using dedup_key_determines [of sample_context "sample_context\<lparr>bc_kind := ''current_threshold'', bc_current_spend_usd := 7100\<rparr>"]
    dedup_key_determines [of sample_context "sample_context\<lparr>bc_threshold_crossed := 85\<rparr>"]
  by (simp add: sample_context_def calendar_date_def valid_date_def days_in_month_def)

end
