(* ===== verification/Budgets.thy ===== *)
theory Budgets
  imports Spend Period Notify
begin

text \<open>
  The budget evaluator (\<^verbatim>\<open>tasks/evaluate_budgets.py\<close>): per tenant and tick, every live budget's spend is
  compared with the three thresholds, each crossing is inserted once per period into
  \<^verbatim>\<open>budget_alert_events\<close> and then sent. A tick runs in one transaction: a failed statement aborts it, later
  statements of the tick are refused, and its commit is then a rollback, while messages already sent stay
  sent. Money is in cents, thresholds in hundredths.
\<close>

section \<open>Tables with a dedup key\<close>

text \<open>\<^verbatim>\<open>INSERT ... ON CONFLICT (key) DO NOTHING RETURNING id\<close>: the second result tells whether a row was
  written.\<close>

locale dedup_table =
  fixes insert_row :: "'r \<Rightarrow> 't \<Rightarrow> 't \<times> bool"
    and key_of :: "'r \<Rightarrow> 'k"
    and keys :: "'t \<Rightarrow> 'k set"
  assumes insert_fresh: "key_of r \<notin> keys t \<Longrightarrow> snd (insert_row r t) \<and> keys (fst (insert_row r t)) = insert (key_of r) (keys t)"
    and insert_seen: "key_of r \<in> keys t \<Longrightarrow> insert_row r t = (t, False)"
begin

lemma insert_new_iff: "snd (insert_row r t) \<longleftrightarrow> key_of r \<notin> keys t"
  using insert_fresh insert_seen by (metis snd_conv)

lemma keys_insert: "keys (fst (insert_row r t)) = insert (key_of r) (keys t)"
  using insert_fresh insert_seen by (metis fst_conv insert_absorb)

lemma insert_twice: "key_of r' = key_of r \<Longrightarrow> insert_row r' (fst (insert_row r t)) = (fst (insert_row r t), False)"
  by (rule insert_seen) (simp add: keys_insert)

end

section \<open>Rows\<close>

record alert_row =
  al_budget_id :: string
  al_tenant_id :: string
  al_period_start :: date
  al_threshold_crossed :: int
  al_current_spend_usd :: int
  al_kind :: string

type_synonym alert_key = "string \<times> date \<times> int \<times> string"

definition alert_key :: "alert_row \<Rightarrow> alert_key" where
  "alert_key r = (al_budget_id r, al_period_start r, al_threshold_crossed r, al_kind r)"

definition alert_keys :: "alert_row list \<Rightarrow> alert_key set" where
  "alert_keys tbl = alert_key ` set tbl"

definition insert_alert :: "alert_row \<Rightarrow> alert_row list \<Rightarrow> alert_row list \<times> bool" where
  "insert_alert r tbl =
     (if list_ex (\<lambda>x. alert_key x = alert_key r) tbl then (tbl, False) else (tbl @ [r], True))"

interpretation alerts: dedup_table insert_alert alert_key alert_keys
  by unfold_locales (auto simp: insert_alert_def alert_keys_def list_ex_iff image_iff)

record budget_row =
  bd_id :: string
  bd_tenant_id :: string
  bd_name :: string
  bd_scope_kind :: string
  bd_scope_value :: "string option"
  bd_period :: string
  bd_threshold_usd :: int
  bd_recipients :: recipients
  bd_deleted :: bool

definition ALERT_THRESHOLDS :: "int list" where
  "ALERT_THRESHOLDS = [70, 85, 100]"

definition scope_label :: "string \<Rightarrow> string option \<Rightarrow> string" where
  "scope_label scope_kind scope_value =
     (if scope_kind = ''tenant'' then ''All Anthropic API usage for this tenant''
      else scope_kind @ '' = '' @ (case scope_value of None \<Rightarrow> ''None'' | Some v \<Rightarrow> v))"

section \<open>One budget\<close>

datatype eval_error =
  EvalPeriod period_error
| EvalSpend spend_error
| EvalDatabase
| EvalAborted
| EvalNotify email_error

record txn =
  tx_alerts :: "alert_row list"
  tx_aborted :: bool

text \<open>The surroundings of a tick: the notification channels, PostgreSQL, the wall clock each budget reads,
  and the budgets whose spend query the database fails (a timeout, a lost connection).\<close>

record eval_env =
  ee_notify :: notify_env
  ee_pg :: postgres
  ee_clock :: "string \<Rightarrow> datetime"
  ee_db_fails :: "string \<Rightarrow> bool"

definition query_spend ::
  "eval_env \<Rightarrow> string \<Rightarrow> records_table \<Rightarrow> budget_row \<Rightarrow> period_window \<Rightarrow> txn \<Rightarrow> txn \<times> (eval_error + int)"
where
  "query_spend env tenant_id db b w tx =
     (case compute_spend_in_window (ee_pg env) tenant_id (pw_start w) (pw_end w) (bd_scope_kind b) (bd_scope_value b) db of
        Inl SpendValueError \<Rightarrow> (tx, Inl (EvalSpend SpendValueError))
      | Inl SpendKeyError \<Rightarrow> (tx, Inl (EvalSpend SpendKeyError))
      | r \<Rightarrow>
          if tx_aborted tx then (tx, Inl EvalAborted)
          else if ee_db_fails env (bd_id b) then (tx\<lparr>tx_aborted := True\<rparr>, Inl EvalDatabase)
          else (case r of Inl e \<Rightarrow> (tx\<lparr>tx_aborted := True\<rparr>, Inl (EvalSpend e)) | Inr spend \<Rightarrow> (tx, Inr spend)))"

definition numeric_10_2 :: "int \<Rightarrow> bool" where
  "numeric_10_2 n \<longleftrightarrow> \<bar>n\<bar> < 10 ^ 10"

definition budget_alert_row :: "string \<Rightarrow> budget_row \<Rightarrow> period_window \<Rightarrow> int \<Rightarrow> int \<Rightarrow> alert_row" where
  "budget_alert_row tenant_id b w spend p =
     \<lparr>al_budget_id = bd_id b, al_tenant_id = tenant_id, al_period_start = start_date w,
      al_threshold_crossed = p, al_current_spend_usd = spend, al_kind = ''current_threshold''\<rparr>"

definition budget_alert_context :: "budget_row \<Rightarrow> period_window \<Rightarrow> int \<Rightarrow> int \<Rightarrow> alert_context" where
  "budget_alert_context b w spend p =
     \<lparr>bc_budget_name = bd_name b, bc_scope_kind = bd_scope_kind b,
      bc_scope_label = scope_label (bd_scope_kind b) (bd_scope_value b), bc_period = bd_period b,
      bc_period_start = start_date w, bc_period_end = dt_date (pw_end w), bc_threshold_crossed = p,
      bc_threshold_usd = bd_threshold_usd b, bc_current_spend_usd = spend, bc_kind = ''current_threshold'',
      bc_projected_breach_date = None\<rparr>"

fun fire_thresholds ::
  "eval_env \<Rightarrow> string \<Rightarrow> budget_row \<Rightarrow> period_window \<Rightarrow> int \<Rightarrow> int list \<Rightarrow> txn \<Rightarrow> txn \<times> outbox \<times> (eval_error + int list)"
where
  "fire_thresholds env tenant_id b w spend [] tx = (tx, [], Inr [])"
| "fire_thresholds env tenant_id b w spend (p # ps) tx =
     (if 100 * spend < p * bd_threshold_usd b then fire_thresholds env tenant_id b w spend ps tx
      else if \<not> numeric_10_2 spend then (tx\<lparr>tx_aborted := True\<rparr>, [], Inl EvalDatabase)
      else
        (case insert_alert (budget_alert_row tenant_id b w spend p) (tx_alerts tx) of (tbl, inserted) \<Rightarrow>
           if \<not> inserted then fire_thresholds env tenant_id b w spend ps tx
           else
             (case send_budget_alert (ee_notify env) (bd_recipients b) (budget_alert_context b w spend p) of (out, res) \<Rightarrow>
                (case res of
                   Inl e \<Rightarrow> (tx\<lparr>tx_alerts := tbl\<rparr>, out, Inl (EvalNotify e))
                 | Inr summary \<Rightarrow>
                     (case fire_thresholds env tenant_id b w spend ps (tx\<lparr>tx_alerts := tbl\<rparr>) of (tx', out', r) \<Rightarrow>
                        (tx', out @ out', bindE r (\<lambda>fired. Inr (p # fired))))))))"

definition evaluate_one_budget ::
  "eval_env \<Rightarrow> string \<Rightarrow> records_table \<Rightarrow> budget_row \<Rightarrow> txn \<Rightarrow> txn \<times> outbox \<times> (eval_error + int list)"
where
  "evaluate_one_budget env tenant_id db b tx =
     (case current_period_window (ee_clock env (bd_id b)) (bd_period b) None of
        Inl e \<Rightarrow> (tx, [], Inl (EvalPeriod e))
      | Inr w \<Rightarrow>
          (case query_spend env tenant_id db b w tx of (tx', r) \<Rightarrow>
             (case r of
                Inl e \<Rightarrow> (tx', [], Inl e)
              | Inr spend \<Rightarrow>
                  if bd_threshold_usd b \<le> 0 then (tx', [], Inr [])
                  else fire_thresholds env tenant_id b w spend ALERT_THRESHOLDS tx')))"

section \<open>A tenant's tick\<close>

record tick_report =
  tk_budgets_checked :: nat
  tk_thresholds_fired :: "(string \<times> int) list"
  tk_failed :: "string list"

fun evaluate_rows ::
  "eval_env \<Rightarrow> string \<Rightarrow> records_table \<Rightarrow> budget_row list \<Rightarrow> txn \<Rightarrow> txn \<times> outbox \<times> tick_report"
where
  "evaluate_rows env tenant_id db [] tx =
     (tx, [], \<lparr>tk_budgets_checked = 0, tk_thresholds_fired = [], tk_failed = []\<rparr>)"
| "evaluate_rows env tenant_id db (b # bs) tx =
     (case evaluate_one_budget env tenant_id db b tx of (tx1, out1, r) \<Rightarrow>
       (case evaluate_rows env tenant_id db bs tx1 of (tx2, out2, rep) \<Rightarrow>
          (tx2, out1 @ out2,
           \<lparr>tk_budgets_checked = tk_budgets_checked rep + 1,
            tk_thresholds_fired = (case r of Inr ps \<Rightarrow> map (Pair (bd_id b)) ps | Inl e \<Rightarrow> []) @ tk_thresholds_fired rep,
            tk_failed = (case r of Inr ps \<Rightarrow> [] | Inl e \<Rightarrow> [bd_id b]) @ tk_failed rep\<rparr>)))"

definition live_budgets :: "string \<Rightarrow> budget_row list \<Rightarrow> budget_row list" where
  "live_budgets tenant_id budgets = filter (\<lambda>b. bd_tenant_id b = tenant_id \<and> \<not> bd_deleted b) budgets"

text \<open>\<^verbatim>\<open>session_scope\<close> commits at the end; the commit of an aborted transaction rolls it back.\<close>

definition commit :: "alert_row list \<Rightarrow> txn \<Rightarrow> alert_row list" where
  "commit before tx = (if tx_aborted tx then before else tx_alerts tx)"

definition evaluate_budgets_for_tenant ::
  "eval_env \<Rightarrow> string \<Rightarrow> records_table \<Rightarrow> budget_row list \<Rightarrow> alert_row list \<Rightarrow> (alert_row list \<times> outbox \<times> tick_report) option"
where
  "evaluate_budgets_for_tenant env tenant_id db budgets alerts =
     (if tenant_id = [] then None
      else
        (case evaluate_rows env tenant_id db (live_budgets tenant_id budgets) \<lparr>tx_alerts = alerts, tx_aborted = False\<rparr> of
           (tx, out, rep) \<Rightarrow> Some (commit alerts tx, out, rep)))"

record tenant_row =
  tn_tenant_id :: string
  tn_active :: bool
  tn_region :: string

definition dispatch_evaluate_budgets :: "tenant_row list \<Rightarrow> string option \<Rightarrow> string list" where
  "dispatch_evaluate_budgets tenants region =
     map tn_tenant_id (filter (\<lambda>t. tn_active t \<and> (case region of None \<Rightarrow> True | Some r \<Rightarrow> tn_region t = r)) tenants)"

section \<open>What one budget fires\<close>

definition crossed :: "budget_row \<Rightarrow> int \<Rightarrow> int \<Rightarrow> bool" where
  "crossed b spend p \<longleftrightarrow> p * bd_threshold_usd b \<le> 100 * spend"

definition due :: "string \<Rightarrow> budget_row \<Rightarrow> period_window \<Rightarrow> int \<Rightarrow> alert_row list \<Rightarrow> int list \<Rightarrow> int list" where
  "due tenant_id b w spend tbl ps =
     filter (\<lambda>p. crossed b spend p \<and> alert_key (budget_alert_row tenant_id b w spend p) \<notin> alert_keys tbl) ps"

definition messages :: "eval_env \<Rightarrow> budget_row \<Rightarrow> period_window \<Rightarrow> int \<Rightarrow> int list \<Rightarrow> outbox" where
  "messages env b w spend ps =
     concat (map (\<lambda>p. expected_outbox (ee_notify env) (normalize_recipients (bd_recipients b)) (budget_alert_context b w spend p)) ps)"

lemma insert_alert_cases:
  "insert_alert r tbl = (if alert_key r \<in> alert_keys tbl then (tbl, False) else (tbl @ [r], True))"
  by (auto simp: insert_alert_def alert_keys_def list_ex_iff intro: image_eqI [OF sym])

lemma alert_keys_simps [simp]:
  "alert_keys (tbl @ tbl') = alert_keys tbl \<union> alert_keys tbl'" "alert_keys [] = {}" "alert_keys (r # tbl) = insert (alert_key r) (alert_keys tbl)"
  by (auto simp: alert_keys_def)

lemma budget_alert_key [simp]:
  "alert_key (budget_alert_row tenant_id b w spend p) = (bd_id b, start_date w, p, ''current_threshold'')"
  by (simp add: alert_key_def budget_alert_row_def)

lemma send_ok_outbox:
  assumes "send_budget_alert env recipients ctx = (out, Inr s)"
  shows "out = expected_outbox env (normalize_recipients recipients) ctx"
  using send_budget_alert_cases [OF assms] by (auto simp: Let_def split: if_splits)

lemma fire_ok:
  assumes "fire_thresholds env tid b w spend ps tx = (tx', out, Inr fired)" "distinct ps"
  shows "fired = due tid b w spend (tx_alerts tx) ps \<and> tx_alerts tx' = tx_alerts tx @ map (budget_alert_row tid b w spend) fired
    \<and> tx_aborted tx' = tx_aborted tx \<and> out = messages env b w spend fired"
  using assms
proof (induction ps arbitrary: tx tx' out fired)
  case Nil
  then show ?case by (simp add: due_def messages_def)
next
  case (Cons p ps)
  let ?row = "budget_alert_row tid b w spend p" and ?ctx = "budget_alert_context b w spend p"
  show ?case
  proof (cases "crossed b spend p \<and> alert_key ?row \<notin> alert_keys (tx_alerts tx)")
    case False
    then have "fire_thresholds env tid b w spend ps tx = (tx', out, Inr fired)"
      using Cons.prems(1) by (auto simp: crossed_def insert_alert_cases split: if_splits)
    with Cons.IH Cons.prems(2) False show ?thesis by (auto simp: due_def)
  next
    case True
    let ?tx = "tx\<lparr>tx_alerts := tx_alerts tx @ [?row]\<rparr>"
    obtain out1 res where send: "send_budget_alert (ee_notify env) (bd_recipients b) ?ctx = (out1, res)" by fastforce
    obtain tx2 out2 r where rest: "fire_thresholds env tid b w spend ps ?tx = (tx2, out2, r)" by (metis prod_cases3)
    have fits: "numeric_10_2 spend" and res: "\<exists>s. res = Inr s"
      using Cons.prems(1) True send by (auto simp: crossed_def insert_alert_cases split: if_splits sum.splits)
    then obtain s fs where step: "res = Inr s" "r = Inr fs" "fired = p # fs" "tx' = tx2" "out = out1 @ out2"
      using Cons.prems(1) True send rest by (auto simp: crossed_def insert_alert_cases split: if_splits)
    note ih = Cons.IH [OF rest [unfolded step(2)]]
    have "due tid b w spend (tx_alerts ?tx) ps = due tid b w spend (tx_alerts tx) ps"
      using Cons.prems(2) by (auto simp: due_def intro!: filter_cong)
    with ih Cons.prems(2) True step send_ok_outbox [OF send [unfolded step(1)]] show ?thesis
      by (auto simp: due_def messages_def)
  qed
qed

text \<open>Whatever happens, rows are only appended, keys stay unique, and an aborted transaction stays
  aborted.\<close>

definition keys_unique :: "alert_row list \<Rightarrow> bool" where
  "keys_unique tbl \<longleftrightarrow> distinct (map alert_key tbl)"

definition grows :: "txn \<Rightarrow> txn \<Rightarrow> bool" where
  "grows tx tx' \<longleftrightarrow> (\<exists>rs. tx_alerts tx' = tx_alerts tx @ rs) \<and> (keys_unique (tx_alerts tx) \<longrightarrow> keys_unique (tx_alerts tx'))
     \<and> (tx_aborted tx \<longrightarrow> tx_aborted tx')"

lemma grows_refl: "grows tx tx"
  by (simp add: grows_def)

lemma grows_trans: "grows a b \<Longrightarrow> grows b c \<Longrightarrow> grows a c"
  by (auto simp: grows_def)

lemma grows_abort: "grows tx (tx\<lparr>tx_aborted := True\<rparr>)"
  by (simp add: grows_def)

lemma grows_insert: "alert_key r \<notin> alert_keys (tx_alerts tx) \<Longrightarrow> grows tx (tx\<lparr>tx_alerts := tx_alerts tx @ [r]\<rparr>)"
  by (auto simp: grows_def keys_unique_def alert_keys_def)

lemmas grows_intros = grows_refl grows_abort grows_insert

lemma fire_grows: "grows tx (fst (fire_thresholds env tid b w spend ps tx))"
proof (induction ps arbitrary: tx)
  case (Cons p ps)
  let ?row = "budget_alert_row tid b w spend p"
  let ?tx = "tx\<lparr>tx_alerts := tx_alerts tx @ [?row]\<rparr>"
  have "grows tx (fst (fire_thresholds env tid b w spend ps ?tx))" if "alert_key ?row \<notin> alert_keys (tx_alerts tx)"
    using grows_trans [OF grows_insert [OF that] Cons.IH] .
  then show ?case
    using Cons.IH [of tx]
    by (auto simp: insert_alert_cases grows_intros split: prod.splits sum.splits)
qed (simp add: grows_refl)

lemma query_grows: "grows tx (fst (query_spend env tid db b w tx))"
  by (auto simp: query_spend_def grows_intros split: sum.splits spend_error.splits)

lemma evaluate_one_grows: "grows tx (fst (evaluate_one_budget env tid db b tx))"
proof -
  have "grows tx (fst (fire_thresholds env tid b w spend ps (fst (query_spend env tid db b w tx))))" for w spend ps
    by (rule grows_trans [OF query_grows fire_grows])
  then show ?thesis
    using query_grows [of tx env tid db b]
    by (auto simp: evaluate_one_budget_def grows_refl split: sum.splits prod.splits) (metis fst_conv)+
qed

lemma evaluate_rows_grows: "grows tx (fst (evaluate_rows env tid db bs tx))"
proof (induction bs arbitrary: tx)
  case (Cons b bs)
  obtain tx1 out1 r where one: "evaluate_one_budget env tid db b tx = (tx1, out1, r)" by (metis prod_cases3)
  then have "grows tx tx1" using evaluate_one_grows [of tx env tid db b] by simp
  then have "grows tx (fst (evaluate_rows env tid db bs tx1))" using grows_trans Cons.IH by blast
  moreover obtain tx2 out2 rep where "evaluate_rows env tid db bs tx1 = (tx2, out2, rep)" by (metis prod_cases3)
  ultimately show ?case using one by simp
qed (simp add: grows_refl)

lemma query_ok:
  assumes "query_spend env tid db b w tx = (tx', Inr spend)"
  shows "tx' = tx \<and> \<not> tx_aborted tx
    \<and> compute_spend_in_window (ee_pg env) tid (pw_start w) (pw_end w) (bd_scope_kind b) (bd_scope_value b) db = Inr spend"
  using assms by (auto simp: query_spend_def split: sum.splits spend_error.splits if_splits)

lemma evaluate_one_ok:
  assumes "evaluate_one_budget env tid db b tx = (tx', out, Inr fired)" "0 < bd_threshold_usd b"
  shows "\<exists>w spend. current_period_window (ee_clock env (bd_id b)) (bd_period b) None = Inr w
    \<and> compute_spend_in_window (ee_pg env) tid (pw_start w) (pw_end w) (bd_scope_kind b) (bd_scope_value b) db = Inr spend
    \<and> fired = due tid b w spend (tx_alerts tx) ALERT_THRESHOLDS
    \<and> tx_alerts tx' = tx_alerts tx @ map (budget_alert_row tid b w spend) fired
    \<and> \<not> tx_aborted tx' \<and> out = messages env b w spend fired"
proof -
  obtain w where w: "current_period_window (ee_clock env (bd_id b)) (bd_period b) None = Inr w"
    using assms(1) by (auto simp: evaluate_one_budget_def split: sum.splits)
  obtain tx1 r where q: "query_spend env tid db b w tx = (tx1, r)" by fastforce
  with assms(1) w obtain spend where "r = Inr spend"
    by (auto simp: evaluate_one_budget_def split: sum.splits)
  with q have spend: "tx1 = tx" "\<not> tx_aborted tx"
    "compute_spend_in_window (ee_pg env) tid (pw_start w) (pw_end w) (bd_scope_kind b) (bd_scope_value b) db = Inr spend"
    using query_ok by simp_all
  with assms w q \<open>r = Inr spend\<close>
  have "fire_thresholds env tid b w spend ALERT_THRESHOLDS tx = (tx', out, Inr fired)"
    by (simp add: evaluate_one_budget_def)
  from fire_ok [OF this] spend w show ?thesis
    by (intro exI [of _ w] exI [of _ spend]) (simp add: ALERT_THRESHOLDS_def)
qed

section \<open>Repeated ticks\<close>

text \<open>A table that already has every crossing of a budget.\<close>

definition settled :: "eval_env \<Rightarrow> string \<Rightarrow> records_table \<Rightarrow> alert_row list \<Rightarrow> budget_row \<Rightarrow> bool" where
  "settled env tid db tbl b \<longleftrightarrow>
     (\<forall>w spend p. current_period_window (ee_clock env (bd_id b)) (bd_period b) None = Inr w
        \<and> compute_spend_in_window (ee_pg env) tid (pw_start w) (pw_end w) (bd_scope_kind b) (bd_scope_value b) db = Inr spend
        \<and> p \<in> set ALERT_THRESHOLDS \<and> crossed b spend p
        \<longrightarrow> alert_key (budget_alert_row tid b w spend p) \<in> alert_keys tbl)"

lemma settled_mono: "settled env tid db tbl b \<Longrightarrow> settled env tid db (tbl @ rs) b"
  by (auto simp: settled_def)

lemma alert_keys_rows:
  "alert_keys (map (budget_alert_row tid b w spend) ps) = (\<lambda>p. (bd_id b, start_date w, p, ''current_threshold'')) ` set ps"
  by (simp add: alert_keys_def image_image)

lemma evaluate_one_settles:
  assumes "evaluate_one_budget env tid db b tx = (tx', out, Inr fired)" "0 < bd_threshold_usd b"
  shows "settled env tid db (tx_alerts tx') b \<and> \<not> tx_aborted tx'"
proof -
  obtain w spend where w: "current_period_window (ee_clock env (bd_id b)) (bd_period b) None = Inr w"
    "compute_spend_in_window (ee_pg env) tid (pw_start w) (pw_end w) (bd_scope_kind b) (bd_scope_value b) db = Inr spend"
    "fired = due tid b w spend (tx_alerts tx) ALERT_THRESHOLDS"
    "tx_alerts tx' = tx_alerts tx @ map (budget_alert_row tid b w spend) fired" "\<not> tx_aborted tx'"
    using evaluate_one_ok [OF assms] by blast
  have "alert_key (budget_alert_row tid b w spend p) \<in> alert_keys (tx_alerts tx')"
    if "p \<in> set ALERT_THRESHOLDS" "crossed b spend p" for p
    using that by (cases "p \<in> set fired") (auto simp: w(3,4) due_def alert_keys_rows)
  with w(1,2,5) show ?thesis by (auto simp: settled_def)
qed

lemma fire_silent:
  assumes "\<forall>p \<in> set ps. crossed b spend p \<longrightarrow> alert_key (budget_alert_row tid b w spend p) \<in> alert_keys (tx_alerts tx)"
    and "fire_thresholds env tid b w spend ps tx = (tx', out, r)"
  shows "tx_alerts tx' = tx_alerts tx \<and> out = [] \<and> (case r of Inr fired \<Rightarrow> fired = [] | Inl e \<Rightarrow> True)"
  using assms
  by (induction ps) (auto simp: insert_alert_cases crossed_def split: if_splits)

lemma query_alerts: "tx_alerts (fst (query_spend env tid db b w tx)) = tx_alerts tx"
  by (auto simp: query_spend_def split: sum.splits spend_error.splits)

lemma evaluate_one_silent:
  assumes "settled env tid db (tx_alerts tx) b" "evaluate_one_budget env tid db b tx = (tx', out, r)"
  shows "tx_alerts tx' = tx_alerts tx \<and> out = [] \<and> (case r of Inr fired \<Rightarrow> fired = [] | Inl e \<Rightarrow> True)"
proof (cases "current_period_window (ee_clock env (bd_id b)) (bd_period b) None")
  case (Inl e)
  with assms(2) show ?thesis by (auto simp: evaluate_one_budget_def)
next
  case (Inr w)
  obtain tx1 q where q: "query_spend env tid db b w tx = (tx1, q)" by fastforce
  then have same: "tx_alerts tx1 = tx_alerts tx" using query_alerts [of env tid db b w tx] by simp
  show ?thesis
  proof (cases q)
    case (Inl e)
    with assms(2) Inr q same show ?thesis by (auto simp: evaluate_one_budget_def)
  next
    case spend: (Inr spend)
    then have "\<forall>p \<in> set ALERT_THRESHOLDS. crossed b spend p \<longrightarrow>
        alert_key (budget_alert_row tid b w spend p) \<in> alert_keys (tx_alerts tx1)"
      using assms(1) Inr q query_ok [of env tid db b w tx] same by (simp add: settled_def)
    from fire_silent [OF this, of env tx' out r] show ?thesis
      using assms(2) Inr q spend same by (auto simp: evaluate_one_budget_def split: if_splits)
  qed
qed

lemma evaluate_rows_settles:
  assumes "evaluate_rows env tid db bs tx = (tx', out, rep)" "tk_failed rep = []" "\<forall>b \<in> set bs. 0 < bd_threshold_usd b"
  shows "(\<forall>b \<in> set bs. settled env tid db (tx_alerts tx') b) \<and> (bs \<noteq> [] \<longrightarrow> \<not> tx_aborted tx')"
  using assms
proof (induction bs arbitrary: tx tx' out rep)
  case (Cons b bs)
  obtain tx1 out1 r where one: "evaluate_one_budget env tid db b tx = (tx1, out1, r)" by (metis prod_cases3)
  obtain tx2 out2 rep2 where rest: "evaluate_rows env tid db bs tx1 = (tx2, out2, rep2)" by (metis prod_cases3)
  have t: "tx' = tx2" and f: "tk_failed rep2 = []" and "\<exists>fired. r = Inr fired"
    using Cons.prems(1,2) one rest by (auto split: sum.splits)
  then obtain fired where "r = Inr fired" by blast
  with one Cons.prems(3) have b: "settled env tid db (tx_alerts tx1) b" "\<not> tx_aborted tx1"
    using evaluate_one_settles [of env tid db b tx tx1 out1 fired] by simp_all
  obtain rs where "tx_alerts tx2 = tx_alerts tx1 @ rs"
    using evaluate_rows_grows [of tx1 env tid db bs] rest by (auto simp: grows_def)
  moreover have "\<not> tx_aborted tx2"
    using Cons.IH [OF rest f] Cons.prems(3) b(2) rest by (cases bs) auto
  ultimately show ?case
    using Cons.IH [OF rest f] Cons.prems(3) settled_mono [OF b(1), of rs] t by auto
qed simp

lemma evaluate_rows_fails:
  assumes "\<And>t. \<exists>t' out'. evaluate_one_budget env tid db b t = (t', out', Inl e)" "b \<in> set bs"
    and "evaluate_rows env tid db bs tx = (tx', out, rep)"
  shows "bd_id b \<in> set (tk_failed rep)"
  using assms(2,3)
proof (induction bs arbitrary: tx tx' out rep)
  case (Cons c bs)
  obtain tx1 out1 r where one: "evaluate_one_budget env tid db c tx = (tx1, out1, r)" by (metis prod_cases3)
  obtain tx2 out2 rep2 where rest: "evaluate_rows env tid db bs tx1 = (tx2, out2, rep2)" by (metis prod_cases3)
  show ?case
  proof (cases "c = b")
    case True
    then have "r = Inl e" using assms(1) [of tx] one by auto
    with True Cons.prems(2) one rest show ?thesis by auto
  next
    case False
    with Cons.IH [OF _ rest] Cons.prems(1) have "bd_id b \<in> set (tk_failed rep2)" by simp
    with Cons.prems(2) one rest show ?thesis by auto
  qed
qed simp

lemma evaluate_rows_silent:
  assumes "\<forall>b \<in> set bs. settled env tid db (tx_alerts tx) b" "evaluate_rows env tid db bs tx = (tx', out, rep)"
  shows "tx_alerts tx' = tx_alerts tx \<and> out = [] \<and> tk_thresholds_fired rep = []"
  using assms
proof (induction bs arbitrary: tx tx' out rep)
  case (Cons b bs)
  obtain tx1 out1 r where one: "evaluate_one_budget env tid db b tx = (tx1, out1, r)" by (metis prod_cases3)
  obtain tx2 out2 rep2 where rest: "evaluate_rows env tid db bs tx1 = (tx2, out2, rep2)" by (metis prod_cases3)
  have b: "tx_alerts tx1 = tx_alerts tx" "out1 = []" "case r of Inr fired \<Rightarrow> fired = [] | Inl e \<Rightarrow> True"
    using evaluate_one_silent [OF _ one] Cons.prems(1) by simp_all
  have "tx_alerts tx2 = tx_alerts tx1 \<and> out2 = [] \<and> tk_thresholds_fired rep2 = []"
    using Cons.IH [OF _ rest] Cons.prems(1) b(1) by simp
  with b Cons.prems(2) one rest show ?case by (auto split: sum.splits)
qed auto

text \<open>Once aborted, a transaction refuses every later budget.\<close>

lemma evaluate_one_aborted:
  assumes "tx_aborted tx"
  shows "\<exists>e. evaluate_one_budget env tid db b tx = (tx, [], Inl e)"
  using assms by (auto simp: evaluate_one_budget_def query_spend_def split: sum.splits spend_error.splits)

lemma evaluate_rows_aborted:
  assumes "tx_aborted tx" "evaluate_rows env tid db bs tx = (tx', out, rep)"
  shows "tx' = tx \<and> out = [] \<and> tk_thresholds_fired rep = []"
  using assms(2)
proof (induction bs arbitrary: out rep)
  case (Cons b bs)
  obtain e where "evaluate_one_budget env tid db b tx = (tx, [], Inl e)"
    using evaluate_one_aborted [OF assms(1)] by blast
  moreover obtain tx2 out2 rep2 where "evaluate_rows env tid db bs tx = (tx2, out2, rep2)" by (metis prod_cases3)
  ultimately show ?case using Cons by auto
qed auto

lemma evaluate_rows_append:
  assumes "evaluate_rows env tid db bs tx = (tx1, out1, rep1)" "evaluate_rows env tid db cs tx1 = (tx2, out2, rep2)"
  shows "\<exists>rep. evaluate_rows env tid db (bs @ cs) tx = (tx2, out1 @ out2, rep)
    \<and> tk_thresholds_fired rep = tk_thresholds_fired rep1 @ tk_thresholds_fired rep2
    \<and> tk_failed rep = tk_failed rep1 @ tk_failed rep2"
  using assms(1)
proof (induction bs arbitrary: tx out1 rep1)
  case Nil
  then have "tx1 = tx" "out1 = []" "tk_thresholds_fired rep1 = []" "tk_failed rep1 = []" by auto
  then show ?case using assms(2) by simp
next
  case (Cons b bs)
  obtain tx3 out3 r where one: "evaluate_one_budget env tid db b tx = (tx3, out3, r)" by (metis prod_cases3)
  obtain tx4 out4 rep4 where rest: "evaluate_rows env tid db bs tx3 = (tx4, out4, rep4)" by (metis prod_cases3)
  have "tx4 = tx1" using Cons.prems one rest by simp
  with Cons.IH [of tx3 out4 rep4] rest obtain rep where
    "evaluate_rows env tid db (bs @ cs) tx3 = (tx2, out4 @ out2, rep)"
    "tk_thresholds_fired rep = tk_thresholds_fired rep4 @ tk_thresholds_fired rep2"
    "tk_failed rep = tk_failed rep4 @ tk_failed rep2" by auto
  with Cons.prems one rest show ?case by auto
qed

section \<open>Properties\<close>

text \<open>C12: When the evaluation of a budget returns, it has inserted and sent exactly the thresholds that
  the spend of its current period has reached (spend over cap at least 0.70, 0.85, 1.00, ties
  included) and that this period had not recorded yet, in ascending order, one row and one set of messages each.\<close>

theorem budget_fires_due_thresholds:
  assumes "evaluate_one_budget env tid db b tx = (tx', out, Inr fired)" "0 < bd_threshold_usd b"
  shows "\<exists>w spend. current_period_window (ee_clock env (bd_id b)) (bd_period b) None = Inr w
    \<and> compute_spend_in_window (ee_pg env) tid (pw_start w) (pw_end w) (bd_scope_kind b) (bd_scope_value b) db = Inr spend
    \<and> fired = filter (\<lambda>p. p * bd_threshold_usd b \<le> 100 * spend
          \<and> (bd_id b, start_date w, p, ''current_threshold'') \<notin> alert_keys (tx_alerts tx)) [70, 85, 100]
    \<and> tx_alerts tx' = tx_alerts tx @ map (budget_alert_row tid b w spend) fired
    \<and> out = concat (map (\<lambda>p. expected_outbox (ee_notify env) (normalize_recipients (bd_recipients b))
          (budget_alert_context b w spend p)) fired)"
  using evaluate_one_ok [OF assms]
  unfolding due_def crossed_def ALERT_THRESHOLDS_def messages_def budget_alert_key by blast

definition sample_eval_env :: eval_env where
  "sample_eval_env =
     \<lparr>ee_notify = \<lparr>ne_from_address = ''a@x'', ne_client_builds = True, ne_ses = (\<lambda>_ _. SesId ''1''), ne_post = (\<lambda>_. True)\<rparr>,
      ee_pg = sample_postgres, ee_clock = (\<lambda>_. utc_date 2026 5 20), ee_db_fails = (\<lambda>b. b = ''b2'')\<rparr>"

definition sample_budget :: "string \<Rightarrow> int \<Rightarrow> budget_row" where
  "sample_budget i cap =
     \<lparr>bd_id = i, bd_tenant_id = ''t1'', bd_name = ''prod'', bd_scope_kind = ''tenant'', bd_scope_value = None,
      bd_period = ''monthly'', bd_threshold_usd = cap, bd_recipients = BareList [''ops@x''], bd_deleted = False\<rparr>"

lemma sample_window:
  "current_period_window (utc_date 2026 5 20) ''monthly'' None = Inr (window_of (Date 2026 5 1) (Date 2026 6 1))"
  by (simp add: current_period_window_def utc_date_def utc_midnight_def checked_def py_date_def start_of_month_def
      start_of_next_month_def)

lemma sample_query:
  "compute_spend_in_window sample_postgres ''t1'' (pw_start (window_of (Date 2026 5 1) (Date 2026 6 1)))
     (pw_end (window_of (Date 2026 5 1) (Date 2026 6 1))) ''tenant'' None [sample_usage_row sample_usage] = Inr 8"
  using sample_spend by (simp add: window_of_def utc_date_def)

definition sample_alert :: alert_row where
  "sample_alert = budget_alert_row ''t1'' (sample_budget ''b1'' 10) (window_of (Date 2026 5 1) (Date 2026 6 1)) 8 70"

definition sample_outbox :: outbox where
  "sample_outbox = [(Mail [''ops@x''], budget_alert_context (sample_budget ''b1'' 10) (window_of (Date 2026 5 1) (Date 2026 6 1)) 8 70)]"

lemma sample_evaluation:
  "evaluate_one_budget sample_eval_env ''t1'' [sample_usage_row sample_usage] (sample_budget ''b1'' 10) \<lparr>tx_alerts = [], tx_aborted = False\<rparr>
     = (\<lparr>tx_alerts = [sample_alert], tx_aborted = False\<rparr>, sample_outbox, Inr [70])"
proof -
  let ?b = "sample_budget ''b1'' 10" and ?w = "window_of (Date 2026 5 1) (Date 2026 6 1)"
  let ?tx = "\<lparr>tx_alerts = [], tx_aborted = False\<rparr>"
  have "query_spend sample_eval_env ''t1'' [sample_usage_row sample_usage] ?b ?w ?tx = (?tx, Inr 8)"
    using sample_query by (simp add: query_spend_def sample_eval_env_def sample_budget_def)
  moreover have "fire_thresholds sample_eval_env ''t1'' ?b ?w 8 ALERT_THRESHOLDS ?tx
      = (\<lparr>tx_alerts = [sample_alert], tx_aborted = False\<rparr>, sample_outbox, Inr [70])"
    by (simp add: ALERT_THRESHOLDS_def sample_budget_def numeric_10_2_def insert_alert_def sample_eval_env_def
        send_budget_alert_def send_email_channel_def send_email_def sample_alert_def sample_outbox_def)
  ultimately show ?thesis
    using sample_window by (simp add: evaluate_one_budget_def sample_eval_env_def sample_budget_def)
qed

lemma budget_fires_due_thresholds_witness:
  "\<exists>w spend. compute_spend_in_window (ee_pg sample_eval_env) ''t1'' (pw_start w) (pw_end w)
       (bd_scope_kind (sample_budget ''b1'' 10)) (bd_scope_value (sample_budget ''b1'' 10)) [sample_usage_row sample_usage] = Inr spend
     \<and> [70] = filter (\<lambda>p. p * bd_threshold_usd (sample_budget ''b1'' 10) \<le> 100 * spend
          \<and> (bd_id (sample_budget ''b1'' 10), start_date w, p, ''current_threshold'')
              \<notin> alert_keys (tx_alerts \<lparr>tx_alerts = [], tx_aborted = False\<rparr>)) [70, 85, 100]"
proof -
  have "0 < bd_threshold_usd (sample_budget ''b1'' 10)" by (simp add: sample_budget_def)
  from budget_fires_due_thresholds [OF sample_evaluation this] show ?thesis by blast
qed

text \<open>Alerts fire at most once per period. After a tick in which no budget failed, another tick with the
  same usage and at any later or earlier moment of the same periods fires nothing, sends nothing and leaves
  the table as it is, however its own database and channels behave.\<close>

lemma second_tick_is_silent:
  assumes "evaluate_budgets_for_tenant env tid db budgets alerts = Some (alerts1, out1, rep1)" "tk_failed rep1 = []"
    and "\<forall>b \<in> set (live_budgets tid budgets). 0 < bd_threshold_usd b"
    and "\<forall>i. valid_datetime (ee_clock env i) \<and> dt_off (ee_clock env i) = Some 0"
    and "\<forall>i. valid_datetime (ee_clock env' i) \<and> dt_off (ee_clock env' i) = Some 0"
    and "ee_pg env' = ee_pg env"
    and "\<forall>b \<in> set (live_budgets tid budgets). \<forall>w. current_period_window (ee_clock env (bd_id b)) (bd_period b) None = Inr w
           \<longrightarrow> in_window w (ee_clock env' (bd_id b))"
    and "evaluate_budgets_for_tenant env' tid db budgets alerts1 = Some (alerts2, out2, rep2)"
  shows "alerts2 = alerts1 \<and> out2 = [] \<and> tk_thresholds_fired rep2 = []"
proof -
  let ?live = "live_budgets tid budgets"
  obtain tx where one: "evaluate_rows env tid db ?live \<lparr>tx_alerts = alerts, tx_aborted = False\<rparr> = (tx, out1, rep1)"
    and c1: "alerts1 = commit alerts tx"
    using assms(1) by (auto simp: evaluate_budgets_for_tenant_def split: if_splits prod.splits)
  obtain tx' where two: "evaluate_rows env' tid db ?live \<lparr>tx_alerts = alerts1, tx_aborted = False\<rparr> = (tx', out2, rep2)"
    and c2: "alerts2 = commit alerts1 tx'"
    using assms(8) by (auto simp: evaluate_budgets_for_tenant_def split: if_splits prod.splits)
  have settles: "\<forall>b \<in> set ?live. settled env tid db (tx_alerts tx) b" and ok: "?live \<noteq> [] \<longrightarrow> \<not> tx_aborted tx"
    using evaluate_rows_settles [OF one assms(2,3)] by blast+
  have final: "alerts1 = tx_alerts tx"
  proof (cases "?live = []")
    case True
    then show ?thesis using one c1 by (auto simp: commit_def)
  qed (use ok c1 in \<open>simp add: commit_def\<close>)
  have "settled env' tid db alerts1 b" if b: "b \<in> set ?live" for b
    unfolding settled_def
  proof (intro allI impI, elim conjE)
    fix w spend p
    assume w: "current_period_window (ee_clock env' (bd_id b)) (bd_period b) None = Inr w"
      and rest: "compute_spend_in_window (ee_pg env') tid (pw_start w) (pw_end w) (bd_scope_kind b) (bd_scope_value b) db = Inr spend"
        "p \<in> set ALERT_THRESHOLDS" "crossed b spend p"
    have "current_period_window (ee_clock env (bd_id b)) (bd_period b) None = Inr w"
    proof (cases "current_period_window (ee_clock env (bd_id b)) (bd_period b) None")
      case (Inr v)
      with assms(7) b have "in_window v (ee_clock env' (bd_id b))" by blast
      with Inr window_holds_now(3) [of "ee_clock env (bd_id b)" "bd_period b" "ee_clock env (bd_id b)" v] assms(4,5) w
      show ?thesis by (simp add: current_window_None)
    next
      case (Inl e)
      have "\<exists>t' out'. evaluate_one_budget env tid db b t = (t', out', Inl (EvalPeriod e))" for t
        using Inl by (simp add: evaluate_one_budget_def)
      from evaluate_rows_fails [OF this b one] have "bd_id b \<in> set (tk_failed rep1)" .
      with assms(2) show ?thesis by simp
    qed
    with settles b rest assms(6) show "alert_key (budget_alert_row tid b w spend p) \<in> alert_keys alerts1"
      by (auto simp: settled_def final)
  qed
  with evaluate_rows_silent [OF _ two] have "tx_alerts tx' = alerts1 \<and> out2 = [] \<and> tk_thresholds_fired rep2 = []" by simp
  with c2 show ?thesis by (simp add: commit_def)
qed

lemma sample_tick:
  "evaluate_budgets_for_tenant sample_eval_env ''t1'' [sample_usage_row sample_usage] [sample_budget ''b1'' 10] [] =
     Some ([sample_alert], sample_outbox, \<lparr>tk_budgets_checked = 1, tk_thresholds_fired = [(''b1'', 70)], tk_failed = []\<rparr>)"
  using sample_evaluation
  by (simp add: evaluate_budgets_for_tenant_def live_budgets_def commit_def) (simp add: sample_budget_def)

lemma tick_exists:
  "tid \<noteq> [] \<Longrightarrow> \<exists>alerts' out rep. evaluate_budgets_for_tenant env tid db budgets alerts = Some (alerts', out, rep)"
  by (cases "evaluate_rows env tid db (live_budgets tid budgets) \<lparr>tx_alerts = alerts, tx_aborted = False\<rparr>")
    (simp add: evaluate_budgets_for_tenant_def)

lemma second_tick_is_silent_witness:
  "\<exists>out rep. evaluate_budgets_for_tenant sample_eval_env ''t1'' [sample_usage_row sample_usage] [sample_budget ''b1'' 10] [sample_alert]
     = Some ([sample_alert], out, rep) \<and> out = [] \<and> tk_thresholds_fired rep = []"
proof -
  obtain alerts2 out rep where second:
    "evaluate_budgets_for_tenant sample_eval_env ''t1'' [sample_usage_row sample_usage] [sample_budget ''b1'' 10] [sample_alert]
     = Some (alerts2, out, rep)"
    using tick_exists [of "''t1''"] by blast
  have clock: "valid_datetime (utc_date 2026 5 20)" "dt_off (utc_date 2026 5 20) = Some 0"
    by (simp_all add: utc_date_def valid_datetime_def utc_midnight_def valid_date_def days_in_month_def day_us_def)
  have "in_window w (utc_date 2026 5 20)"
    if "current_period_window (utc_date 2026 5 20) ''monthly'' None = Inr w" for w
    using that sample_window window_holds_now(1) [OF _ clock] by (simp add: current_window_None)
  then have "\<forall>b \<in> set (live_budgets ''t1'' [sample_budget ''b1'' 10]). \<forall>w. current_period_window (ee_clock sample_eval_env (bd_id b)) (bd_period b) None = Inr w
           \<longrightarrow> in_window w (ee_clock sample_eval_env (bd_id b))"
    by (simp add: live_budgets_def sample_budget_def sample_eval_env_def)
  from second_tick_is_silent [OF sample_tick _ _ _ _ refl this second] clock second
  show ?thesis by (simp add: live_budgets_def sample_budget_def sample_eval_env_def)
qed

text \<open>A database error in one budget's spend query loses the whole tick: none of the crossings the
  earlier budgets of the tenant recorded is kept, although their messages are sent and they are
  reported as fired, and the later budgets are not evaluated at all. The comment that one budget
  should not poison the rest does not hold.\<close>

lemma database_error_loses_tick:
  assumes "live_budgets tid budgets = earlier @ b # later" "tid \<noteq> []"
    and "evaluate_rows env tid db earlier \<lparr>tx_alerts = alerts, tx_aborted = False\<rparr> = (tx, sent, earlier_rep)"
    and "ee_db_fails env (bd_id b)" "current_period_window (ee_clock env (bd_id b)) (bd_period b) None = Inr w"
    and "bd_scope_kind b = ''tenant''" "bd_scope_value b = None"
  shows "\<exists>rep. evaluate_budgets_for_tenant env tid db budgets alerts = Some (alerts, sent, rep)
    \<and> tk_thresholds_fired rep = tk_thresholds_fired earlier_rep"
proof -
  have spend: "compute_spend_in_window pg tid s u (bd_scope_kind b) (bd_scope_value b) db \<noteq> Inl SpendValueError"
    "compute_spend_in_window pg tid s u (bd_scope_kind b) (bd_scope_value b) db \<noteq> Inl SpendKeyError" for pg s u
    using tenant_spend_errors [of pg tid s u db] assms(6,7) by auto
  have "\<exists>tx' e. evaluate_one_budget env tid db b tx = (tx', [], Inl e) \<and> tx_aborted tx'"
    using spend assms(4,5)
    by (auto simp: evaluate_one_budget_def query_spend_def split: sum.splits spend_error.splits)
  then obtain tx' e where b: "evaluate_one_budget env tid db b tx = (tx', [], Inl e)" "tx_aborted tx'" by blast
  obtain tx2 out2 rep2 where later: "evaluate_rows env tid db later tx' = (tx2, out2, rep2)" by (metis prod_cases3)
  note lost = evaluate_rows_aborted [OF b(2) later]
  obtain rep2' where rest: "evaluate_rows env tid db (b # later) tx = (tx', [], rep2')" "tk_thresholds_fired rep2' = []"
    using b later lost by auto
  from evaluate_rows_append [OF assms(3) rest(1)] rest(2) assms(1,2) b(2)
  show ?thesis by (auto simp: evaluate_budgets_for_tenant_def commit_def)
qed

lemma database_error_loses_tick_witness:
  "\<exists>rep. evaluate_budgets_for_tenant sample_eval_env ''t1'' [sample_usage_row sample_usage]
       [sample_budget ''b1'' 10, sample_budget ''b2'' 10] [] = Some ([], sample_outbox, rep)
     \<and> tk_thresholds_fired rep = [(''b1'', 70)] \<and> sample_outbox \<noteq> []"
proof -
  let ?b1 = "sample_budget ''b1'' 10" and ?b2 = "sample_budget ''b2'' 10"
  have "live_budgets ''t1'' [?b1, ?b2] = [?b1] @ ?b2 # []" by (simp add: live_budgets_def sample_budget_def)
  moreover have "evaluate_rows sample_eval_env ''t1'' [sample_usage_row sample_usage] [?b1] \<lparr>tx_alerts = [], tx_aborted = False\<rparr>
    = (\<lparr>tx_alerts = [sample_alert], tx_aborted = False\<rparr>, sample_outbox,
       \<lparr>tk_budgets_checked = 1, tk_thresholds_fired = [(''b1'', 70)], tk_failed = []\<rparr>)"
    using sample_evaluation by simp (simp add: sample_budget_def)
  moreover have "current_period_window (ee_clock sample_eval_env (bd_id ?b2)) (bd_period ?b2) None
      = Inr (window_of (Date 2026 5 1) (Date 2026 6 1))"
    using sample_window by (simp add: sample_eval_env_def sample_budget_def)
  ultimately show ?thesis
    using database_error_loses_tick [of "''t1''" "[?b1, ?b2]" "[?b1]" ?b2 "[]" sample_eval_env "[sample_usage_row sample_usage]" "[]"]
    by (simp add: sample_eval_env_def sample_outbox_def) (simp add: sample_budget_def)
qed

end
