(* ===== verification/Bridge.thy ===== *)
theory Bridge
  imports Prelude Json
begin

text \<open>
  The signing key between the dashboard's gateway and the MCP server. Gateway side
  (\<^verbatim>\<open>vargate_telemetry/auth/bridge_keys.py\<close>, served by \<^verbatim>\<open>api/well_known.py\<close>): loading the key file, the JWK,
  signing a bridge token. MCP side (\<^verbatim>\<open>mcp_server/auth/bridge_verifier.py\<close> and the daily refresh
  \<^verbatim>\<open>mcp_server/tasks/refresh_bridge_jwk.py\<close>): reading a JWK, the cache that a malformed refresh must not
  poison, the fetch with its three attempts, the check of a token. The elliptic curve and \<^verbatim>\<open>pyjwt\<close>
  are parameters, the key file and the HTTP answers are arguments. Times are microseconds since the
  epoch.
\<close>

section \<open>Base64url, without padding, as Python reads and writes it\<close>

definition b64_char :: "nat \<Rightarrow> char" where
  "b64_char n =
     (if n < 26 then char_of (65 + n) else if n < 52 then char_of (71 + n)
      else if n < 62 then char_of (n - 4) else if n = 62 then CHR ''-'' else CHR ''_'')"

text \<open>\<^verbatim>\<open>urlsafe_b64decode\<close> maps \<^verbatim>\<open>-_\<close> to \<^verbatim>\<open>+/\<close> and leaves \<^verbatim>\<open>+/\<close> alone, so it reads both.\<close>

definition b64_value :: "char \<Rightarrow> nat option" where
  "b64_value c =
     (let n = of_char c :: nat
      in if 65 \<le> n \<and> n \<le> 90 then Some (n - 65) else if 97 \<le> n \<and> n \<le> 122 then Some (n - 71)
         else if 48 \<le> n \<and> n \<le> 57 then Some (n + 4)
         else if n = 45 \<or> n = 43 then Some 62 else if n = 95 \<or> n = 47 then Some 63 else None)"

fun b64url :: "bytes \<Rightarrow> string" where
  "b64url [] = []"
| "b64url [a] = (let n = of_char a * 65536 in [b64_char (n div 262144), b64_char (n div 4096 mod 64)])"
| "b64url [a, b] =
     (let n = of_char a * 65536 + of_char b * 256
      in [b64_char (n div 262144), b64_char (n div 4096 mod 64), b64_char (n div 64 mod 64)])"
| "b64url (a # b # c # r) =
     (let n = of_char a * 65536 + of_char b * 256 + of_char c
      in [b64_char (n div 262144), b64_char (n div 4096 mod 64), b64_char (n div 64 mod 64), b64_char (n mod 64)]
         @ b64url r)"

text \<open>
  The decoder of \<^verbatim>\<open>binascii\<close> in its lenient mode: characters outside the alphabet are skipped, an
  equals sign ends the text when it completes a group of four, and an incomplete group at the end is
  an error. \<open>q\<close> is the position in the group, \<open>left\<close> the pending bits, \<open>pads\<close> the equals signs seen.
\<close>

fun a2b_base64 :: "nat \<Rightarrow> nat \<Rightarrow> nat \<Rightarrow> string \<Rightarrow> bytes option" where
  "a2b_base64 q left pads [] = (if q = 0 then Some [] else None)"
| "a2b_base64 q left pads (c # s) =
     (if c = CHR ''='' then
        (if 2 \<le> q \<and> 4 \<le> q + (pads + 1) then Some []
         else a2b_base64 q left (if 2 \<le> q then pads + 1 else pads) s)
      else case b64_value c of
        None \<Rightarrow> a2b_base64 q left pads s
      | Some v \<Rightarrow>
          if q = 0 then a2b_base64 1 v 0 s
          else if q = 1 then map_option ((#) (char_of (left * 4 + v div 16))) (a2b_base64 2 (v mod 16) 0 s)
          else if q = 2 then map_option ((#) (char_of (left * 16 + v div 4))) (a2b_base64 3 (v mod 4) 0 s)
          else map_option ((#) (char_of (left * 64 + v))) (a2b_base64 0 0 0 s))"

definition urlsafe_b64decode :: "string \<Rightarrow> bytes option" where
  "urlsafe_b64decode s = a2b_base64 0 0 0 s"

definition bytes_to_nat :: "bytes \<Rightarrow> nat" where
  "bytes_to_nat = foldl (\<lambda>n b. n * 256 + of_char b) 0"

fun bit_length :: "nat \<Rightarrow> nat" where
  "bit_length n = (if n = 0 then 0 else 1 + bit_length (n div 2))"

declare bit_length.simps [simp del]

fun to_bytes :: "nat \<Rightarrow> nat \<Rightarrow> bytes" where
  "to_bytes 0 n = []"
| "to_bytes (Suc k) n = to_bytes k (n div 256) @ [char_of (n mod 256)]"

text \<open>\<open>_b64url_uint\<close> of the gateway, an int to text, and of the MCP server, text to an int.\<close>

definition uint_b64url :: "nat \<Rightarrow> string" where
  "uint_b64url n = b64url (to_bytes (let k = (bit_length n + 7) div 8 in if k = 0 then 1 else k) n)"

section \<open>Errors and external code\<close>

type_synonym claims = "(string \<times> json) list"
type_synonym public_key = "nat \<times> nat"

datatype bridge_error = File_Not_Found | Value_Error | Type_Error | Attribute_Error | Network_Error string

record bridge_env =
  be_on_curve :: "nat \<Rightarrow> nat \<Rightarrow> bool"
  be_public :: "nat \<Rightarrow> public_key"
  be_jwt_encode :: "claims \<Rightarrow> nat \<Rightarrow> string \<Rightarrow> string \<Rightarrow> nat \<Rightarrow> string"
  be_jwt_decode :: "string \<Rightarrow> public_key \<Rightarrow> string list \<Rightarrow> string \<Rightarrow> string \<Rightarrow> int \<Rightarrow> claims option"

definition second :: int where
  "second = 1000000"

definition BRIDGE_JWT_ALGORITHM :: string where
  "BRIDGE_JWT_ALGORITHM = ''ES256''"

definition BRIDGE_JWT_AUDIENCE :: string where
  "BRIDGE_JWT_AUDIENCE = ''mcp-bridge''"

definition BRIDGE_JWT_ISSUER :: string where
  "BRIDGE_JWT_ISSUER = ''ogma.vargate.ai''"

section \<open>The gateway's key\<close>

datatype key_file = No_File | Other_Key | EC_Key string nat

record keypair =
  kp_private :: nat
  kp_public :: public_key
  kp_kid :: string

text \<open>\<open>_load_or_raise\<close>: the cached pair, or the one read from the file.\<close>

definition load_or_raise :: "bridge_env \<Rightarrow> key_file \<Rightarrow> string \<Rightarrow> keypair option \<Rightarrow> bridge_error + keypair" where
  "load_or_raise env file kid cached =
     (case cached of
        Some k \<Rightarrow> Inr k
      | None \<Rightarrow>
          (case file of
             No_File \<Rightarrow> Inl File_Not_Found
           | Other_Key \<Rightarrow> Inl Value_Error
           | EC_Key curve d \<Rightarrow>
               if curve \<noteq> ''secp256r1'' then Inl Value_Error
               else Inr \<lparr>kp_private = d, kp_public = be_public env d, kp_kid = kid\<rparr>))"

definition public_jwk :: "keypair \<Rightarrow> claims" where
  "public_jwk kp =
     [(''kty'', JStr ''EC''), (''crv'', JStr ''P-256''), (''x'', JStr (uint_b64url (fst (kp_public kp)))),
      (''y'', JStr (uint_b64url (snd (kp_public kp)))), (''kid'', JStr (kp_kid kp)),
      (''alg'', JStr BRIDGE_JWT_ALGORITHM), (''use'', JStr ''sig'')]"

definition BRIDGE_JWT_TTL_SECONDS :: int where
  "BRIDGE_JWT_TTL_SECONDS = 60"

definition bridge_payload :: "string \<Rightarrow> string \<Rightarrow> string \<Rightarrow> string \<Rightarrow> int \<Rightarrow> claims" where
  "bridge_payload tenant user email state now =
     [(''iss'', JStr BRIDGE_JWT_ISSUER), (''aud'', JStr BRIDGE_JWT_AUDIENCE), (''iat'', JInt (now div second)),
      (''exp'', JInt ((now + BRIDGE_JWT_TTL_SECONDS * second) div second)), (''tenant_id'', JStr tenant),
      (''user_id'', JStr user), (''user_email'', JStr email), (''mcp_state'', JStr state)]"

text \<open>The last argument of \<^verbatim>\<open>be_jwt_encode\<close> is the randomness of an ECDSA signature.\<close>

definition sign_bridge_token ::
  "bridge_env \<Rightarrow> keypair \<Rightarrow> string \<Rightarrow> string \<Rightarrow> string \<Rightarrow> string \<Rightarrow> int \<Rightarrow> nat \<Rightarrow> string"
where
  "sign_bridge_token env kp tenant user email state now nonce =
     be_jwt_encode env (bridge_payload tenant user email state now) (kp_private kp) BRIDGE_JWT_ALGORITHM
       (kp_kid kp) nonce"

section \<open>The MCP server's cached key\<close>

record bridge_cache =
  bc_jwk :: claims
  bc_public_key :: public_key

definition b64url_uint :: "string \<Rightarrow> bridge_error + nat" where
  "b64url_uint s =
     (let padding = replicate ((4 - length s mod 4) mod 4) CHR ''=''
      in if \<not> is_ascii (s @ padding) then Inl Value_Error
         else case urlsafe_b64decode (s @ padding) of None \<Rightarrow> Inl Value_Error | Some bs \<Rightarrow> Inr (bytes_to_nat bs))"

definition json_uint :: "json \<Rightarrow> bridge_error + nat" where
  "json_uint j = (case j of JStr s \<Rightarrow> b64url_uint s | _ \<Rightarrow> Inl Type_Error)"

definition public_key_from_jwk :: "bridge_env \<Rightarrow> claims \<Rightarrow> bridge_error + public_key" where
  "public_key_from_jwk env jwk =
     (case (map_of jwk ''x'', map_of jwk ''y'') of
        (Some jx, Some jy) \<Rightarrow>
          bindE (json_uint jx) (\<lambda>x. bindE (json_uint jy) (\<lambda>y.
            if be_on_curve env x y then Inr (x, y) else Inl Value_Error))
      | _ \<Rightarrow> Inl Value_Error)"

text \<open>The new cache, or the error with the cache left as it was.\<close>

definition set_jwk :: "bridge_env \<Rightarrow> json \<Rightarrow> bridge_error + bridge_cache" where
  "set_jwk env j =
     (case j of
        JObj jwk \<Rightarrow>
          if map_of jwk ''kty'' \<noteq> Some (JStr ''EC'') \<or> map_of jwk ''crv'' \<noteq> Some (JStr ''P-256'')
          then Inl Value_Error
          else bindE (public_key_from_jwk env jwk) (\<lambda>k. Inr \<lparr>bc_jwk = jwk, bc_public_key = k\<rparr>)
      | _ \<Rightarrow> Inl Attribute_Error)"

section \<open>Fetching it\<close>

definition FETCH_RETRIES :: nat where
  "FETCH_RETRIES = 3"

text \<open>
  The attempts from number \<open>n\<close> on, given their HTTP answers (an exception or the parsed body): the
  seconds slept between them, and the new cache or the last error.
\<close>

fun fetch_attempts ::
  "bridge_env \<Rightarrow> bridge_error \<Rightarrow> nat \<Rightarrow> (bridge_error + json) list \<Rightarrow> nat list \<times> (bridge_error + bridge_cache)"
where
  "fetch_attempts env last_exc n [] = ([], Inl last_exc)"
| "fetch_attempts env last_exc n (a # as) =
     (case bindE a (set_jwk env) of
        Inr c \<Rightarrow> ([], Inr c)
      | Inl e \<Rightarrow>
          (let (naps, r) = fetch_attempts env e (n + 1) as
           in (if n < FETCH_RETRIES then n # naps else naps, r)))"

record jwk_answers =
  ja_first :: "bridge_error + json"
  ja_second :: "bridge_error + json"
  ja_third :: "bridge_error + json"

definition fetch_and_cache_jwk ::
  "bridge_env \<Rightarrow> jwk_answers \<Rightarrow> bridge_cache option \<Rightarrow> bridge_cache option \<times> nat list \<times> (bridge_error + claims)"
where
  "fetch_and_cache_jwk env w cache =
     (case fetch_attempts env Value_Error 1 [ja_first w, ja_second w, ja_third w] of
        (naps, Inl e) \<Rightarrow> (cache, naps, Inl e)
      | (naps, Inr c) \<Rightarrow> (Some c, naps, Inr (bc_jwk c)))"

text \<open>The daily task logs a failure and keeps the stale key; the start-up caller re-raises it. The cache is a
  module variable of the process that runs the function: the task runs in a Celery worker and refreshes the
  worker's own copy, the MCP server's is filled by the fetch of its start-up.\<close>

datatype refresh_result = Refreshed "json option" | Not_Refreshed bridge_error

definition refresh_bridge_jwk ::
  "bridge_env \<Rightarrow> jwk_answers \<Rightarrow> bridge_cache option \<Rightarrow> bridge_cache option \<times> refresh_result"
where
  "refresh_bridge_jwk env w cache =
     (case fetch_and_cache_jwk env w cache of
        (c, naps, Inl e) \<Rightarrow> (c, Not_Refreshed e)
      | (c, naps, Inr jwk) \<Rightarrow> (c, Refreshed (map_of jwk ''kid'')))"

section \<open>Checking a bridge token\<close>

datatype verify_error = Runtime_Error | PyJWT_Error

definition bridge_verify :: "bridge_env \<Rightarrow> bridge_cache option \<Rightarrow> int \<Rightarrow> string \<Rightarrow> verify_error + claims" where
  "bridge_verify env cache now token =
     (case cache of
        None \<Rightarrow> Inl Runtime_Error
      | Some c \<Rightarrow>
          (case be_jwt_decode env token (bc_public_key c) [BRIDGE_JWT_ALGORITHM] BRIDGE_JWT_AUDIENCE
                  BRIDGE_JWT_ISSUER now of
             None \<Rightarrow> Inl PyJWT_Error | Some cs \<Rightarrow> Inr cs))"

section \<open>Reading what was written\<close>

lemma of_char_b64_char:
  "n < 64 \<Longrightarrow> (of_char (b64_char n) :: nat) =
     (if n < 26 then 65 + n else if n < 52 then 71 + n else if n < 62 then n - 4 else if n = 62 then 45 else 95)"
  by (auto simp: b64_char_def)

lemma b64_value_char [simp]: "n < 64 \<Longrightarrow> b64_value (b64_char n) = Some n"
  unfolding b64_value_def Let_def of_char_b64_char by (simp split: if_split, arith)

lemma b64_char_not_pad [simp]: "n < 64 \<Longrightarrow> b64_char n \<noteq> CHR ''=''"
proof
  assume "n < 64" "b64_char n = CHR ''=''"
  then show False
    using of_char_b64_char [of n] by (auto split: if_splits)
qed

lemma b64_char_ascii [simp]: "n < 64 \<Longrightarrow> (of_char (b64_char n) :: nat) < 128"
  by (auto simp: of_char_b64_char)

lemma of_char_less [simp]: "(of_char (c :: char) :: nat) < 256"
  by (rule nat_of_char_less_256)

lemma mod_div_nat: "m mod (k * l) div k = m div k mod (l :: nat)"
  by (cases "k = 0") (simp_all add: mod_mult2_eq)

text \<open>The sextets of a group give its bytes back.\<close>

lemma sextets:
  fixes a b c :: nat
  assumes "a < 256" "b < 256" "c < 256"
  defines "n \<equiv> a * 65536 + b * 256 + c"
  shows "n div 262144 < 64" "n div 262144 * 4 + n div 4096 mod 64 div 16 = a"
    "n div 4096 mod 64 mod 16 * 16 + n div 64 mod 64 div 4 = b" "n div 64 mod 64 mod 4 * 64 + n mod 64 = c"
proof -
  have "n = c + (a * 1024 + b * 4) * 64"
    by (simp add: n_def)
  then have c: "n div 64 = a * 1024 + b * 4 + c div 64" "n mod 64 = c mod 64"
    by (simp_all only: div_mult_self1 mod_mult_self1)
  have b: "n div 4096 = a * 16 + b div 16"
    using assms(3) by (simp add: n_def)
  have a: "n div 262144 = a div 4"
    using assms(2,3) by (simp add: n_def)
  have "n div 4096 mod (16 * 4) div 16 = a mod 4"
    using assms(2) unfolding b mod_div_nat by simp
  then show "n div 262144 < 64" "n div 262144 * 4 + n div 4096 mod 64 div 16 = a"
    using assms(1) by (simp_all add: a)
  have "(a * 16 + b div 16) mod 64 mod 16 = b div 16"
    using assms(2) by (simp add: mod_mod_cancel)
  moreover have "n div 64 div 4 = b + a * 16 * 16"
    using assms(3) by (simp add: c(1))
  then have "n div 64 mod (4 * 16) div 4 = b mod 16"
    unfolding mod_div_nat by (simp only: mod_mult_self1)
  ultimately show "n div 4096 mod 64 mod 16 * 16 + n div 64 mod 64 div 4 = b"
    by (simp add: b)
  have e: "n div 64 = c div 64 + (a * 256 + b) * 4"
    by (simp add: c(1))
  have "n div 64 mod 64 mod 4 = c div 64 mod 4"
    unfolding e by (subst mod_mod_cancel, simp) (simp only: mod_mult_self1)
  moreover have "c div 64 < 4"
    using assms(3) by simp
  ultimately have "n div 64 mod 64 mod 4 = c div 64"
    by simp
  then show "n div 64 mod 64 mod 4 * 64 + n mod 64 = c"
    by (simp add: c(2))
qed

definition padding :: "string \<Rightarrow> string" where
  "padding s = replicate ((4 - length s mod 4) mod 4) CHR ''=''"

lemma length_b64url: "length (b64url bs) mod 4 = (if length bs mod 3 = 0 then 0 else length bs mod 3 + 1)"
  by (induction bs rule: b64url.induct) (auto simp: Let_def)

lemma b64_padding:
  "padding (b64url bs) = (if length bs mod 3 = 1 then ''=='' else if length bs mod 3 = 2 then ''='' else [])"
proof -
  consider "length bs mod 3 = 0" | "length bs mod 3 = 1" | "length bs mod 3 = 2"
    by linarith
  then show ?thesis
    by cases (simp_all add: padding_def length_b64url numeral_2_eq_2)
qed

lemma a2b_four:
  assumes "s0 < 64" "s1 < 64" "s2 < 64" "s3 < 64"
  shows "a2b_base64 0 0 0 (b64_char s0 # b64_char s1 # b64_char s2 # b64_char s3 # s) =
    map_option (\<lambda>t. char_of (s0 * 4 + s1 div 16) # char_of (s1 mod 16 * 16 + s2 div 4)
                    # char_of (s2 mod 4 * 64 + s3) # t) (a2b_base64 0 0 0 s)"
  using assms by (simp add: option.map_comp comp_def)

lemma a2b_group:
  "a2b_base64 0 0 0 (b64url (a # b # c # r) @ s) = map_option (\<lambda>t. a # b # c # t) (a2b_base64 0 0 0 (b64url r @ s))"
proof -
  let ?n = "of_char a * 65536 + of_char b * 256 + of_char c :: nat"
  note q = sextets [of "of_char a" "of_char b" "of_char c", OF of_char_less of_char_less of_char_less]
  have "a2b_base64 0 0 0 (b64url (a # b # c # r) @ s) =
    a2b_base64 0 0 0 (b64_char (?n div 262144) # b64_char (?n div 4096 mod 64) # b64_char (?n div 64 mod 64)
      # b64_char (?n mod 64) # b64url r @ s)"
    by (simp only: b64url.simps Let_def append.simps)
  then show ?thesis
    by (simp only: a2b_four [OF q(1) mod_less_divisor mod_less_divisor mod_less_divisor] zero_less_numeral q(2-4)
          char_of_char)
qed

lemma b64_round_trip: "urlsafe_b64decode (b64url bs @ padding (b64url bs)) = Some bs"
proof (induction bs rule: b64url.induct)
  case (2 a)
  then show ?case
    using sextets [of "of_char a" 0 0] by (simp add: urlsafe_b64decode_def padding_def numeral_2_eq_2 Let_def)
next
  case (3 a b)
  then show ?case
    using sextets [of "of_char a" "of_char b" 0] by (simp add: urlsafe_b64decode_def padding_def Let_def)
next
  case (4 a b c r)
  have "padding (b64url (a # b # c # r)) = padding (b64url r)"
    by (simp add: b64_padding del: b64url.simps)
  then show ?case
    using 4 unfolding urlsafe_b64decode_def a2b_group by (simp del: b64url.simps)
qed (simp add: urlsafe_b64decode_def padding_def)

lemma b64url_Nil_iff: "b64url bs = [] \<longleftrightarrow> bs = []"
  by (cases bs rule: b64url.cases) (simp_all add: Let_def)

lemma is_ascii_b64url: "is_ascii (b64url bs)"
proof (induction bs rule: b64url.induct)
  case (2 a)
  then show ?case
    using sextets(1) [of "of_char a" 0 0] by (simp add: is_ascii_def Let_def)
next
  case (3 a b)
  then show ?case
    using sextets(1) [of "of_char a" "of_char b" 0] by (simp add: is_ascii_def Let_def)
next
  case (4 a b c r)
  then show ?case
    using sextets(1) [of "of_char a" "of_char b" "of_char c"] by (simp add: is_ascii_def Let_def)
qed (simp add: is_ascii_def)

text \<open>An integer and its shortest big-endian bytes.\<close>

lemma bytes_to_nat_snoc [simp]: "bytes_to_nat (bs @ [b]) = bytes_to_nat bs * 256 + of_char b"
  by (simp add: bytes_to_nat_def)

lemma bytes_to_nat_to_bytes: "n < 256 ^ k \<Longrightarrow> bytes_to_nat (to_bytes k n) = n"
proof (induction k arbitrary: n)
  case (Suc k)
  then have "n div 256 < 256 ^ k"
    by (simp add: div_less_iff_less_mult mult.commute)
  then show ?case
    using Suc.IH by simp
qed (simp add: bytes_to_nat_def)

lemma less_bit_length: "n < 2 ^ bit_length n"
proof (induction n rule: bit_length.induct)
  case (1 n)
  show ?case
  proof (cases "n = 0")
    case False
    then have "n div 2 < 2 ^ bit_length (n div 2)"
      using 1 by simp
    then show ?thesis
      using False by (simp add: bit_length.simps [of n])
  qed simp
qed

lemma less_byte_length: "n < 256 ^ (let k = (bit_length n + 7) div 8 in if k = 0 then 1 else k)"
proof -
  define k where "k = (let k = (bit_length n + 7) div 8 in if k = 0 then 1 else k)"
  have "bit_length n \<le> 8 * k"
    unfolding k_def Let_def by presburger
  then have "(2 :: nat) ^ bit_length n \<le> 2 ^ (8 * k)"
    by simp
  then have "n < 256 ^ k"
    using less_bit_length [of n] by (simp add: power_mult)
  then show ?thesis
    by (simp add: k_def)
qed

lemma uint_round_trip: "b64url_uint (uint_b64url n) = Inr n"
proof -
  define bs where "bs = to_bytes (let k = (bit_length n + 7) div 8 in if k = 0 then 1 else k) n"
  have "b64url_uint (b64url bs) = Inr (bytes_to_nat bs)"
    using b64_round_trip [of bs] is_ascii_b64url [of bs]
    by (auto simp: b64url_uint_def padding_def Let_def is_ascii_def list_all_iff in_set_replicate)
  then show ?thesis
    using bytes_to_nat_to_bytes [OF less_byte_length [of n]] by (simp add: uint_b64url_def bs_def)
qed

section \<open>The gateway's key at the MCP server\<close>

text \<open>
  What the code relies on: the public point of a private key is on the curve, and \<^verbatim>\<open>pyjwt\<close> decodes a
  payload of the gateway that it encoded, for the same key, algorithm, audience and issuer, while \<^verbatim>\<open>iat\<close>
  and \<^verbatim>\<open>exp\<close> allow it.
\<close>

definition bridge_contract :: "bridge_env \<Rightarrow> bool" where
  "bridge_contract env \<longleftrightarrow>
     (\<forall>d. be_on_curve env (fst (be_public env d)) (snd (be_public env d))) \<and>
     (\<forall>t u m st now d kid nonce now'.
        now div second * second \<le> now' \<and> now' < (now div second + 60) * second \<longrightarrow>
        be_jwt_decode env (be_jwt_encode env (bridge_payload t u m st now) d BRIDGE_JWT_ALGORITHM kid nonce)
            (be_public env d) [BRIDGE_JWT_ALGORITHM] BRIDGE_JWT_AUDIENCE BRIDGE_JWT_ISSUER now'
          = Some (bridge_payload t u m st now))"

lemma verify_signed:
  assumes "bridge_contract env" "load_or_raise env file kid None = Inr kp" "bc_public_key c = kp_public kp"
    and "now \<le> now'" "now' < now + 59 * second"
  shows "bridge_verify env (Some c) now' (sign_bridge_token env kp t u m st now nonce)
      = Inr (bridge_payload t u m st now)"
proof -
  have "kp_public kp = be_public env (kp_private kp)"
    using assms(2) by (auto simp: load_or_raise_def split: key_file.splits if_splits)
  moreover have "now div second * second \<le> now'" "now' < (now div second + 60) * second"
    using assms(4,5) div_mult_mod_eq [of now second] pos_mod_bound [of second now] pos_mod_sign [of second now]
    by (simp_all add: second_def distrib_right)
  ultimately show ?thesis
    using assms(1,3) unfolding bridge_contract_def bridge_verify_def sign_bridge_token_def by simp
qed

lemma set_jwk_public_jwk:
  assumes "bridge_contract env" "load_or_raise env file kid None = Inr kp"
  shows "set_jwk env (JObj (public_jwk kp)) = Inr \<lparr>bc_jwk = public_jwk kp, bc_public_key = kp_public kp\<rparr>"
proof -
  have "be_on_curve env (fst (kp_public kp)) (snd (kp_public kp))"
    using assms by (auto simp: load_or_raise_def bridge_contract_def split: key_file.splits if_splits)
  then show ?thesis
    by (simp add: set_jwk_def public_key_from_jwk_def public_jwk_def json_uint_def uint_round_trip)
qed

lemma payload_fields:
  "map_of (bridge_payload t u m st now) ''iss'' = Some (JStr BRIDGE_JWT_ISSUER)"
  "map_of (bridge_payload t u m st now) ''aud'' = Some (JStr BRIDGE_JWT_AUDIENCE)"
  "map_of (bridge_payload t u m st now) ''iat'' = Some (JInt (now div second))"
  "map_of (bridge_payload t u m st now) ''exp'' = Some (JInt (now div second + 60))"
  "map_of (bridge_payload t u m st now) ''tenant_id'' = Some (JStr t)"
  "map_of (bridge_payload t u m st now) ''user_id'' = Some (JStr u)"
  "map_of (bridge_payload t u m st now) ''user_email'' = Some (JStr m)"
  "map_of (bridge_payload t u m st now) ''mcp_state'' = Some (JStr st)"
  by (simp_all add: bridge_payload_def BRIDGE_JWT_TTL_SECONDS_def second_def)

definition jwk_tries :: "jwk_answers \<Rightarrow> (bridge_error + json) list" where
  "jwk_tries w = [ja_first w, ja_second w, ja_third w]"

lemma fetch_attempts_first:
  assumes "list_all (\<lambda>a. \<not> is_ok (bindE a (set_jwk env))) failed" "bindE a (set_jwk env) = Inr c"
  shows "\<exists>naps. fetch_attempts env e n (failed @ a # rest) = (naps, Inr c)"
  using assms(1)
proof (induction failed arbitrary: e n)
  case Nil
  then show ?case
    by (simp add: assms(2))
next
  case (Cons b failed)
  then obtain e' where "bindE b (set_jwk env) = Inl e'"
    by (cases "bindE b (set_jwk env)") auto
  moreover obtain naps where "fetch_attempts env e' (n + 1) (failed @ a # rest) = (naps, Inr c)"
    using Cons by fastforce
  ultimately show ?case
    by (simp add: Let_def)
qed

lemma refresh_first:
  assumes "jwk_tries w = failed @ a # rest" "list_all (\<lambda>a. \<not> is_ok (bindE a (set_jwk env))) failed"
    and "bindE a (set_jwk env) = Inr c"
  shows "refresh_bridge_jwk env w old = (Some c, Refreshed (map_of (bc_jwk c) ''kid''))"
  using fetch_attempts_first [OF assms(2,3), of Value_Error 1 rest] assms(1)
  by (auto simp: refresh_bridge_jwk_def fetch_and_cache_jwk_def jwk_tries_def)

text \<open>C16: Key distribution works end to end. Whatever key file on the right curve the gateway loads, and
  whatever happens before: if the first of the three answers that is a valid JWK at all is the document
  of \<^verbatim>\<open>/.well-known/ogma-public-key.json\<close>, the refresh leaves the MCP server with exactly the gateway's
  public key, and every token the gateway signs is then accepted with its four claims for the 59
  seconds after it was signed (the sub-second part of the signing time is cut from \<^verbatim>\<open>exp\<close>).\<close>

theorem bridge_key_distribution:
  assumes "bridge_contract env" "load_or_raise env file kid None = Inr kp"
    and "jwk_tries w = failed @ Inr (JObj (public_jwk kp)) # rest"
    and "list_all (\<lambda>a. \<not> is_ok (bindE a (set_jwk env))) failed"
  shows "\<exists>cache. refresh_bridge_jwk env w old = (Some cache, Refreshed (Some (JStr (kp_kid kp))))
      \<and> bc_public_key cache = kp_public kp
      \<and> (\<forall>t u m st now nonce now'. now \<le> now' \<and> now' < now + 59 * second \<longrightarrow>
           bridge_verify env (Some cache) now' (sign_bridge_token env kp t u m st now nonce)
             = Inr (bridge_payload t u m st now))"
proof -
  let ?c = "\<lparr>bc_jwk = public_jwk kp, bc_public_key = kp_public kp\<rparr>"
  have "bindE (Inr (JObj (public_jwk kp))) (set_jwk env) = Inr ?c"
    using set_jwk_public_jwk [OF assms(1,2)] by simp
  then have "refresh_bridge_jwk env w old = (Some ?c, Refreshed (Some (JStr (kp_kid kp))))"
    using refresh_first [OF assms(3,4)] by (simp add: public_jwk_def)
  moreover have "bridge_verify env (Some ?c) now' (sign_bridge_token env kp t u m st now nonce)
      = Inr (bridge_payload t u m st now)"
    if "now \<le> now'" "now' < now + 59 * second" for t u m st now nonce now'
    using verify_signed [OF assms(1,2), of ?c] that by simp
  ultimately show ?thesis
    by auto
qed

text \<open>A concrete environment: a token spells its fields, each after its length in unary.\<close>

definition unary :: "string \<Rightarrow> string" where
  "unary s = replicate (length s) CHR ''n'' @ CHR ''.'' # s"

definition read_unary :: "string \<Rightarrow> string \<times> string" where
  "read_unary x = (let n = length (takeWhile (\<lambda>c. c = CHR ''n'') x) in (take n (drop (n + 1) x), drop (2 * n + 1) x))"

lemma read_unary [simp]: "read_unary (unary s @ x) = (s, x)"
proof -
  have "takeWhile (\<lambda>c. c = CHR ''n'') (unary s @ x) = replicate (length s) CHR ''n''"
    by (simp add: unary_def takeWhile_append)
  then show ?thesis
    by (simp add: read_unary_def Let_def) (simp add: unary_def)
qed

definition int_marks :: "int \<Rightarrow> string" where
  "int_marks i = (if i < 0 then CHR ''m'' else CHR ''p'') # replicate (nat \<bar>i\<bar>) CHR ''x''"

definition marks_int :: "string \<Rightarrow> int" where
  "marks_int s = (if hd s = CHR ''m'' then - int (length s - 1) else int (length s - 1))"

lemma marks_int [simp]: "marks_int (int_marks i) = i"
  by (simp add: marks_int_def int_marks_def)

definition str_claim :: "claims \<Rightarrow> string \<Rightarrow> string" where
  "str_claim cs k = (case map_of cs k of Some (JStr s) \<Rightarrow> s | _ \<Rightarrow> [])"

definition int_claim :: "claims \<Rightarrow> string \<Rightarrow> int" where
  "int_claim cs k = (case map_of cs k of Some (JInt i) \<Rightarrow> i | _ \<Rightarrow> 0)"

definition toy_encode :: "claims \<Rightarrow> nat \<Rightarrow> string \<Rightarrow> string \<Rightarrow> nat \<Rightarrow> string" where
  "toy_encode cs d alg kid nonce =
     unary (str_claim cs ''tenant_id'') @ unary (str_claim cs ''user_id'') @ unary (str_claim cs ''user_email'')
     @ unary (str_claim cs ''mcp_state'') @ unary (int_marks (int_claim cs ''iat'')) @ replicate d CHR ''k''"

definition toy_decode :: "string \<Rightarrow> public_key \<Rightarrow> string list \<Rightarrow> string \<Rightarrow> string \<Rightarrow> int \<Rightarrow> claims option" where
  "toy_decode token key algs aud iss now =
     (let (t, r) = read_unary token; (u, r) = read_unary r; (m, r) = read_unary r; (st, r) = read_unary r;
          (i, d) = read_unary r; iat = marks_int i
      in if fst key = length d \<and> algs = [BRIDGE_JWT_ALGORITHM] \<and> aud = BRIDGE_JWT_AUDIENCE
            \<and> iss = BRIDGE_JWT_ISSUER \<and> iat * second \<le> now \<and> now < (iat + 60) * second
         then Some (bridge_payload t u m st (iat * second)) else None)"

definition sample_bridge_env :: bridge_env where
  "sample_bridge_env = \<lparr>be_on_curve = (\<lambda>x y. y = x + 1), be_public = (\<lambda>d. (d, d + 1)),
     be_jwt_encode = toy_encode, be_jwt_decode = toy_decode\<rparr>"

lemma bridge_payload_second: "bridge_payload t u m st (now div second * second) = bridge_payload t u m st now"
  by (simp add: bridge_payload_def BRIDGE_JWT_TTL_SECONDS_def second_def)

lemma sample_bridge_contract: "bridge_contract sample_bridge_env"
  by (simp add: bridge_contract_def sample_bridge_env_def toy_encode_def toy_decode_def str_claim_def
      int_claim_def payload_fields bridge_payload_second)

definition sample_keypair :: keypair where
  "sample_keypair = \<lparr>kp_private = 5, kp_public = (5, 6), kp_kid = ''v1''\<rparr>"

lemma load_sample_keypair: "load_or_raise sample_bridge_env (EC_Key ''secp256r1'' 5) ''v1'' None = Inr sample_keypair"
  by (simp add: load_or_raise_def sample_bridge_env_def sample_keypair_def)

lemma bridge_key_distribution_witness:
  "\<exists>cache. refresh_bridge_jwk sample_bridge_env
        \<lparr>ja_first = Inl (Network_Error ''timeout''), ja_second = Inr (JObj (public_jwk sample_keypair)),
         ja_third = Inr JNull\<rparr> None = (Some cache, Refreshed (Some (JStr ''v1'')))
      \<and> bridge_verify sample_bridge_env (Some cache) 2000000
          (sign_bridge_token sample_bridge_env sample_keypair ''t1'' ''u1'' ''e1'' ''s1'' 1000000 0)
        = Inr (bridge_payload ''t1'' ''u1'' ''e1'' ''s1'' 1000000)"
proof -
  have kid: "kp_kid sample_keypair = ''v1''"
    by (simp add: sample_keypair_def)
  show ?thesis
    using bridge_key_distribution [OF sample_bridge_contract load_sample_keypair,
        where w = "\<lparr>ja_first = Inl (Network_Error ''timeout''),
          ja_second = Inr (JObj (public_jwk sample_keypair)), ja_third = Inr JNull\<rparr>"
        and failed = "[Inl (Network_Error ''timeout'')]" and rest = "[Inr JNull]" and old = None]
    by (auto simp: jwk_tries_def second_def kid)
qed

text \<open>A refresh that fails keeps the old key. When none of the three answers is a usable JWK (HTTP or
  parse error, a document that is no object, a wrong \<^verbatim>\<open>kty\<close> or \<^verbatim>\<open>crv\<close>, a missing, ill-typed or
  undecodable coordinate, a point off the curve), the cached key is unchanged, so tokens are checked as
  before; the task reports the third attempt's error after sleeping one and two seconds.\<close>

lemma failed_refresh_keeps_key:
  assumes "list_all (\<lambda>a. \<not> is_ok (bindE a (set_jwk env))) (jwk_tries w)"
  shows "\<exists>e. refresh_bridge_jwk env w old = (old, Not_Refreshed e)
      \<and> bindE (ja_third w) (set_jwk env) = Inl e \<and> fst (snd (fetch_and_cache_jwk env w old)) = [1, 2]"
proof -
  obtain e1 e2 e3 where "bindE (ja_first w) (set_jwk env) = Inl e1" "bindE (ja_second w) (set_jwk env) = Inl e2"
    "bindE (ja_third w) (set_jwk env) = Inl e3"
    using assms by (auto simp: jwk_tries_def is_ok_def split: sum.splits)
  then show ?thesis
    by (simp add: refresh_bridge_jwk_def fetch_and_cache_jwk_def FETCH_RETRIES_def)
qed

lemma failed_refresh_keeps_key_witness:
  "\<exists>e. refresh_bridge_jwk sample_bridge_env
        \<lparr>ja_first = Inl (Network_Error ''timeout''), ja_second = Inr JNull,
         ja_third = Inr (JObj [(''kty'', JStr ''EC''), (''crv'', JStr ''P-256''), (''x'', JStr ''BQ''), (''y'', JStr ''BQ'')])\<rparr>
        None = (None, Not_Refreshed e)"
proof -
  have "set_jwk sample_bridge_env (JObj [(''kty'', JStr ''EC''), (''crv'', JStr ''P-256''), (''x'', JStr ''BQ''), (''y'', JStr ''BQ'')])
      = Inl Value_Error"
    by (simp add: set_jwk_def public_key_from_jwk_def json_uint_def b64url_uint_def is_ascii_def
        urlsafe_b64decode_def b64_value_def bytes_to_nat_def sample_bridge_env_def numeral_2_eq_2)
  then show ?thesis
    using failed_refresh_keeps_key [where env = sample_bridge_env and old = None and
        w = "\<lparr>ja_first = Inl (Network_Error ''timeout''), ja_second = Inr JNull,
         ja_third = Inr (JObj [(''kty'', JStr ''EC''), (''crv'', JStr ''P-256''), (''x'', JStr ''BQ''), (''y'', JStr ''BQ'')])\<rparr>"]
    by (simp add: jwk_tries_def set_jwk_def)
qed

end
