(* ===== verification/OAuth.thy ===== *)
theory OAuth
  imports Bridge "HOL-Library.AList"
begin

text \<open>
  The MCP authorization server (\<^verbatim>\<open>mcp_server/auth/oauth_routes.py\<close>, \<^verbatim>\<open>oauth_state.py\<close>,
  \<^verbatim>\<open>token_verifier.py\<close>, the redirect allowlist and spike-mode switch of \<^verbatim>\<open>config.py\<close>): client registration, the
  authorization request and its SSO callback, the exchange of codes and refresh tokens, and the check
  of a bearer token. Every handler is a function from the server's state and the time (microseconds
  since the epoch) to a new state and a response. Random tokens are arguments, SHA-256 and the
  verification of a bridge JWT are parameters.
\<close>

section \<open>Stores that give a value out once\<close>

text \<open>
  The contract of the auth-code store, the refresh-token store and the Redis state store:
  \<open>peek\<close> is what a \<open>pop\<close> at that time would return.
\<close>

locale one_shot_store =
  fixes put :: "'s \<Rightarrow> string \<Rightarrow> 'v \<Rightarrow> int \<Rightarrow> int \<Rightarrow> 's"
    and pop :: "'s \<Rightarrow> string \<Rightarrow> int \<Rightarrow> 's \<times> 'v option"
    and peek :: "'s \<Rightarrow> string \<Rightarrow> int \<Rightarrow> 'v option"
  assumes pop_returns: "snd (pop s k t) = peek s k t"
    and pop_removes: "peek (fst (pop s k t)) k' t' = (if k' = k then None else peek s k' t')"
    and put_stores: "t \<le> t' \<Longrightarrow> peek (put s k v ttl t) k t' = (if t' < t + ttl then Some v else None)"
    and put_keeps: "k' \<noteq> k \<Longrightarrow> t \<le> t' \<Longrightarrow> peek (put s k v ttl t) k' t' = peek s k' t'"
    and put_adds_nothing: "k' \<noteq> k \<Longrightarrow> peek (put s k v ttl t) k' t' = Some w \<Longrightarrow> peek s k' t' = Some w"
begin

definition gone :: "'s \<Rightarrow> string \<Rightarrow> bool" where
  "gone s k \<longleftrightarrow> (\<forall>t. peek s k t = None)"

lemma gone_after_pop: "gone (fst (pop s k t)) k"
  by (simp add: gone_def pop_removes)

lemma gone_pop_other: "gone s k \<Longrightarrow> gone (fst (pop s k' t)) k"
  by (simp add: gone_def pop_removes)

lemma gone_put_other: "gone s k \<Longrightarrow> k' \<noteq> k \<Longrightarrow> gone (put s k' v ttl t) k"
  unfolding gone_def using put_adds_nothing by (metis not_Some_eq)

lemma gone_pop: "gone s k \<Longrightarrow> snd (pop s k t) = None"
  by (simp add: gone_def pop_returns)

end

section \<open>State\<close>

record identity =
  id_tenant_id :: string
  id_user_id :: string
  id_user_email :: string

type_synonym 'v ttl_store = "string \<rightharpoonup> 'v \<times> int"

text \<open>\<open>_store_put\<close> sweeps the expired entries first; \<open>_store_pop\<close> removes the entry even when it has
  expired.\<close>

definition store_put :: "'v ttl_store \<Rightarrow> string \<Rightarrow> 'v \<Rightarrow> int \<Rightarrow> int \<Rightarrow> 'v ttl_store" where
  "store_put store key payload ttl now =
     (\<lambda>k. case store k of Some (v, e) \<Rightarrow> if e \<le> now then None else Some (v, e) | None \<Rightarrow> None)
       (key \<mapsto> (payload, now + ttl))"

definition store_pop :: "'v ttl_store \<Rightarrow> string \<Rightarrow> int \<Rightarrow> 'v ttl_store \<times> 'v option" where
  "store_pop store key now =
     (store(key := None),
      case store key of None \<Rightarrow> None | Some (v, e) \<Rightarrow> if e \<le> now then None else Some v)"

definition store_peek :: "'v ttl_store \<Rightarrow> string \<Rightarrow> int \<Rightarrow> 'v option" where
  "store_peek store key now =
     (case store key of None \<Rightarrow> None | Some (v, e) \<Rightarrow> if e \<le> now then None else Some v)"

interpretation memory: one_shot_store store_put store_pop store_peek
  by unfold_locales (auto simp: store_put_def store_pop_def store_peek_def split: option.splits if_splits)

text \<open>The Redis store behind \<^verbatim>\<open>oauth_state\<close>: \<^verbatim>\<open>SET ... EX\<close> and \<^verbatim>\<open>GETDEL\<close>, where an expired key reads as
  missing.\<close>

definition redis_set :: "'v ttl_store \<Rightarrow> string \<Rightarrow> 'v \<Rightarrow> int \<Rightarrow> int \<Rightarrow> 'v ttl_store" where
  "redis_set store key v ttl now = store(key \<mapsto> (v, now + ttl))"

definition redis_getdel :: "'v ttl_store \<Rightarrow> string \<Rightarrow> int \<Rightarrow> 'v ttl_store \<times> 'v option" where
  "redis_getdel store key now = (store(key := None), store_peek store key now)"

interpretation redis: one_shot_store redis_set redis_getdel store_peek
  by unfold_locales (auto simp: redis_set_def redis_getdel_def store_peek_def split: option.splits)

record oauth_client =
  oc_client_id :: string
  oc_client_secret_hash :: string
  oc_client_name :: string
  oc_redirect_uris :: "string list"
  oc_grant_types :: "string list"
  oc_response_types :: "string list"
  oc_auth_method :: "string option"
  oc_deleted_at :: "int option"

record access_token_row =
  at_token_hash :: string
  at_client_id :: string
  at_identity :: identity
  at_resource :: string
  at_scopes :: "string list option"
  at_expires_at :: int
  at_refresh_token_hash :: "string option"
  at_revoked_at :: "int option"

record code_payload =
  cp_client_id :: string
  cp_redirect_uri :: string
  cp_code_challenge :: string
  cp_code_challenge_method :: string
  cp_identity :: identity
  cp_resource :: string
  cp_scope :: string

record refresh_payload =
  rp_client_id :: string
  rp_identity :: identity
  rp_resource :: string
  rp_scopes :: "string list"

record state_payload =
  sp_client_id :: string
  sp_redirect_uri :: string
  sp_code_challenge :: string
  sp_code_challenge_method :: string
  sp_scope :: string
  sp_resource :: string
  sp_claude_state :: "string option"

record access_token =
  ac_token :: string
  ac_client_id :: string
  ac_scopes :: "string list"
  ac_expires_at :: int
  ac_resource :: string

record oauth_server =
  os_clients :: "oauth_client list"
  os_tokens :: "access_token_row list"
  os_codes :: "code_payload ttl_store"
  os_refresh :: "refresh_payload ttl_store"
  os_states :: "state_payload ttl_store"
  os_cache :: "(string \<times> access_token \<times> int) list"
  os_bridge :: "bridge_cache option"

definition empty_server :: oauth_server where
  "empty_server = \<lparr>os_clients = [], os_tokens = [], os_codes = Map.empty, os_refresh = Map.empty,
     os_states = Map.empty, os_cache = [], os_bridge = None\<rparr>"

section \<open>Environment and configuration\<close>

record oauth_env =
  oe_sha256 :: "bytes \<Rightarrow> bytes"
  oe_bridge :: bridge_env
  oe_server_url :: string
  oe_ogma_bridge_url :: string
  oe_callback_url :: string
  oe_spike_mode :: string
  oe_allow_spike :: string
  oe_test_tenant_id :: string
  oe_test_user_id :: string
  oe_test_user_email :: string
  oe_access_ttl :: int
  oe_refresh_ttl :: int
  oe_db_up :: bool
  oe_redis_up :: bool

definition AUTH_CODE_TTL :: int where
  "AUTH_CODE_TTL = 600 * second"

definition STATE_TTL :: int where
  "STATE_TTL = 600 * second"

definition ALLOWED_REDIRECT_URI_PREFIXES :: "string list" where
  "ALLOWED_REDIRECT_URI_PREFIXES =
     [''https://claude.ai/api/mcp/auth_callback'', ''https://claude.com/api/mcp/auth_callback'',
      ''http://localhost:6274/oauth/callback'', ''http://localhost:6274/oauth/callback/debug'']"

definition redirect_uri_allowed :: "string \<Rightarrow> bool" where
  "redirect_uri_allowed uri = list_ex (\<lambda>p. uri = p \<or> startswith uri p) ALLOWED_REDIRECT_URI_PREFIXES"

definition truthy :: "string \<Rightarrow> bool" where
  "truthy v = (map ascii_lower v \<in> set [''1'', ''true'', ''yes'', ''on''])"

definition spike_mode_enabled :: "oauth_env \<Rightarrow> bool" where
  "spike_mode_enabled env = truthy (oe_spike_mode env)"

definition test_identity :: "oauth_env \<Rightarrow> identity option" where
  "test_identity env =
     (if oe_test_tenant_id env = [] \<or> oe_test_user_id env = [] \<or> oe_test_user_email env = [] then None
      else Some \<lparr>id_tenant_id = oe_test_tenant_id env, id_user_id = oe_test_user_id env,
                 id_user_email = oe_test_user_email env\<rparr>)"

definition rstrip_slash :: "string \<Rightarrow> string" where
  "rstrip_slash s = rev (dropWhile (\<lambda>c. c = CHR ''/'') (rev s))"

definition hexdigest :: "bytes \<Rightarrow> string" where
  "hexdigest bs = concat (map (\<lambda>b. [hexdig (of_char b div 16), hexdig (of_char b mod 16)]) bs)"

definition hash_bearer :: "oauth_env \<Rightarrow> string \<Rightarrow> string" where
  "hash_bearer env token = hexdigest (oe_sha256 env (utf8_encode token))"

text \<open>\<^verbatim>\<open>secrets.compare_digest\<close> raises \<^verbatim>\<open>TypeError\<close> on a text that is not ASCII: \<open>None\<close>.\<close>

definition verify_pkce :: "oauth_env \<Rightarrow> string \<Rightarrow> string \<Rightarrow> bool option" where
  "verify_pkce env verifier expected =
     (if is_ascii expected then Some (b64url (oe_sha256 env (utf8_encode verifier)) = expected) else None)"

text \<open>\<^verbatim>\<open>config.assert_spike_mode_safe\<close>: whether the server boots at all.\<close>

definition assert_spike_mode_safe :: "oauth_env \<Rightarrow> bool" where
  "assert_spike_mode_safe env = (\<not> spike_mode_enabled env \<or> truthy (oe_allow_spike env))"

definition authorize_callback_url :: "oauth_env \<Rightarrow> string" where
  "authorize_callback_url env =
     (if oe_callback_url env \<noteq> [] then oe_callback_url env
      else rstrip_slash (oe_server_url env) @ ''/authorize/callback'')"

section \<open>Responses\<close>

record token_body =
  tb_access_token :: string
  tb_refresh_token :: string
  tb_expires_in :: int
  tb_scope :: string

text \<open>
  A redirect is its base URL and the query parameters before \<^verbatim>\<open>urlencode\<close>; a failure is its status,
  error code and description (the description that quotes a rejected URI of a registration is left
  empty). An unhandled exception is status 500.
\<close>

datatype response =
  Redirect string "(string \<times> string) list"
| Token_Issued token_body
| Registered string string oauth_client
| Failure nat string string

definition server_error :: response where
  "server_error = Failure 500 [] []"

section \<open>Metadata and registration\<close>

definition authorization_server_metadata :: "oauth_env \<Rightarrow> (string \<times> json) list" where
  "authorization_server_metadata env =
     (let base = rstrip_slash (oe_server_url env)
      in [(''issuer'', JStr base), (''authorization_endpoint'', JStr (base @ ''/authorize'')),
          (''token_endpoint'', JStr (base @ ''/token'')), (''registration_endpoint'', JStr (base @ ''/register'')),
          (''response_types_supported'', JList [JStr ''code'']),
          (''grant_types_supported'', JList [JStr ''authorization_code'', JStr ''refresh_token'']),
          (''code_challenge_methods_supported'', JList [JStr ''S256'']),
          (''token_endpoint_auth_methods_supported'',
             JList [JStr ''client_secret_post'', JStr ''client_secret_basic'', JStr ''none'']),
          (''scopes_supported'', JList [JStr ''log_interaction''])])"

definition protected_resource_metadata :: "oauth_env \<Rightarrow> (string \<times> json) list" where
  "protected_resource_metadata env =
     (let base = rstrip_slash (oe_server_url env)
      in [(''resource'', JStr base), (''authorization_servers'', JList [JStr base]),
          (''scopes_supported'', JList [JStr ''log_interaction'']),
          (''bearer_methods_supported'', JList [JStr ''header''])])"

record registration =
  rr_client_name :: "string option"
  rr_redirect_uris :: "string list"
  rr_grant_types :: "string list"
  rr_response_types :: "string list"
  rr_auth_method :: "string option"

definition present :: "string option \<Rightarrow> bool" where
  "present v = (v \<noteq> None \<and> v \<noteq> Some [])"

text \<open>The INSERT of \<^verbatim>\<open>mcp_oauth_clients\<close>: its primary key and column widths.\<close>

definition client_fits :: "oauth_client \<Rightarrow> bool" where
  "client_fits c =
     (length (oc_client_id c) \<le> 64 \<and> length (oc_client_secret_hash c) \<le> 128 \<and> length (oc_client_name c) \<le> 256
      \<and> list_all (\<lambda>u. length u \<le> 512) (oc_redirect_uris c) \<and> list_all (\<lambda>g. length g \<le> 64) (oc_grant_types c)
      \<and> list_all (\<lambda>g. length g \<le> 64) (oc_response_types c)
      \<and> (case oc_auth_method c of None \<Rightarrow> True | Some m \<Rightarrow> length m \<le> 64))"

definition register_client ::
  "oauth_env \<Rightarrow> oauth_server \<Rightarrow> registration \<Rightarrow> string \<Rightarrow> string \<Rightarrow> oauth_server \<times> response"
where
  "register_client env s body client_id client_secret =
     (if rr_redirect_uris body = [] then (s, Failure 422 [] [])
      else if \<not> list_all redirect_uri_allowed (rr_redirect_uris body)
      then (s, Failure 400 ''invalid_redirect_uri'' [])
      else
        (let c = \<lparr>oc_client_id = client_id, oc_client_secret_hash = hash_bearer env client_secret,
               oc_client_name = (if present (rr_client_name body) then the (rr_client_name body)
                                 else ''Unnamed MCP Client''),
               oc_redirect_uris = rr_redirect_uris body, oc_grant_types = rr_grant_types body,
               oc_response_types = rr_response_types body, oc_auth_method = rr_auth_method body,
               oc_deleted_at = None\<rparr>
         in if oe_db_up env \<and> client_fits c \<and> \<not> list_ex (\<lambda>d. oc_client_id d = client_id) (os_clients s)
            then (s\<lparr>os_clients := os_clients s @ [c]\<rparr>, Registered client_id client_secret c)
            else (s, server_error)))"

section \<open>The authorization request\<close>

definition mint_code_and_redirect ::
  "oauth_server \<Rightarrow> int \<Rightarrow> string \<Rightarrow> code_payload \<Rightarrow> string option \<Rightarrow> oauth_server \<times> response"
where
  "mint_code_and_redirect s now auth_code p claude_state =
     (s\<lparr>os_codes := store_put (os_codes s) auth_code p AUTH_CODE_TTL now\<rparr>,
      Redirect (cp_redirect_uri p)
        ((''code'', auth_code) # (case claude_state of None \<Rightarrow> [] | Some v \<Rightarrow> [(''state'', v)])))"

record authorize_request =
  aq_client_id :: string
  aq_redirect_uri :: string
  aq_response_type :: string
  aq_code_challenge :: "string option"
  aq_code_challenge_method :: "string option"
  aq_state :: "string option"
  aq_resource :: "string option"
  aq_scope :: "string option"

definition live_client :: "oauth_server \<Rightarrow> string \<Rightarrow> oauth_client option" where
  "live_client s cid = find (\<lambda>c. oc_client_id c = cid \<and> oc_deleted_at c = None) (os_clients s)"

definition or_else :: "string option \<Rightarrow> string \<Rightarrow> string" where
  "or_else v d = (if present v then the v else d)"

definition authorize_check :: "oauth_env \<Rightarrow> oauth_server \<Rightarrow> authorize_request \<Rightarrow> response option" where
  "authorize_check env s q =
     (if aq_response_type q \<noteq> ''code''
      then Some (Failure 400 ''unsupported_response_type'' ''Only response_type=code is supported.'')
      else if \<not> present (aq_code_challenge q) \<or> aq_code_challenge_method q \<noteq> Some ''S256''
      then Some (Failure 400 ''invalid_request'' ''PKCE required: code_challenge + code_challenge_method=S256.'')
      else if \<not> redirect_uri_allowed (aq_redirect_uri q)
      then Some (Failure 400 ''invalid_redirect_uri'' ''redirect_uri not on the Claude allowlist.'')
      else if \<not> oe_db_up env then Some server_error
      else case live_client s (aq_client_id q) of
        None \<Rightarrow> Some (Failure 400 ''invalid_client'' ''Unknown client_id.'')
      | Some c \<Rightarrow>
          if aq_redirect_uri q \<in> set (oc_redirect_uris c) then None
          else Some (Failure 400 ''invalid_redirect_uri'' ''redirect_uri does not match the registered set.''))"

definition state_key :: "string \<Rightarrow> string" where
  "state_key mcp_state = ''mcp:oauth_state:'' @ mcp_state"

lemma state_key_inject [simp]: "state_key a = state_key b \<longleftrightarrow> a = b"
  by (simp add: state_key_def)

text \<open>\<^verbatim>\<open>oauth_state.store\<close> and \<^verbatim>\<open>claim\<close>; \<open>None\<close> is an exception, of an empty key or of Redis.\<close>

definition oauth_state_store ::
  "oauth_env \<Rightarrow> oauth_server \<Rightarrow> int \<Rightarrow> string \<Rightarrow> state_payload \<Rightarrow> oauth_server option"
where
  "oauth_state_store env s now mcp_state p =
     (if mcp_state = [] \<or> \<not> oe_redis_up env then None
      else Some (s\<lparr>os_states := redis_set (os_states s) (state_key mcp_state) p STATE_TTL now\<rparr>))"

definition oauth_state_claim ::
  "oauth_env \<Rightarrow> oauth_server \<Rightarrow> int \<Rightarrow> string \<Rightarrow> (oauth_server \<times> state_payload option) option"
where
  "oauth_state_claim env s now mcp_state =
     (if mcp_state = [] then Some (s, None)
      else if \<not> oe_redis_up env then None
      else (case redis_getdel (os_states s) (state_key mcp_state) now of
              (st, v) \<Rightarrow> Some (s\<lparr>os_states := st\<rparr>, v)))"

text \<open>\<open>fresh\<close> is the random text of this request: the code in spike mode, else the state.\<close>

definition authorize ::
  "oauth_env \<Rightarrow> oauth_server \<Rightarrow> int \<Rightarrow> authorize_request \<Rightarrow> string \<Rightarrow> oauth_server \<times> response"
where
  "authorize env s now q fresh =
     (case authorize_check env s q of
        Some failure \<Rightarrow> (s, failure)
      | None \<Rightarrow>
          (let resource = or_else (aq_resource q) (oe_server_url env);
               scope = or_else (aq_scope q) ''log_interaction'';
               challenge = the (aq_code_challenge q)
           in if spike_mode_enabled env then
                (case test_identity env of
                   None \<Rightarrow> (s, Failure 503 ''spike_misconfigured''
                     ''MCP_SPIKE_MODE is on but MCP_TEST_IDENTITY_{TENANT_ID,USER_ID,USER_EMAIL} is not fully populated.'')
                 | Some i \<Rightarrow>
                     mint_code_and_redirect s now fresh
                       \<lparr>cp_client_id = aq_client_id q, cp_redirect_uri = aq_redirect_uri q,
                        cp_code_challenge = challenge, cp_code_challenge_method = ''S256'',
                        cp_identity = i, cp_resource = resource, cp_scope = scope\<rparr> (aq_state q))
              else
                (case oauth_state_store env s now fresh
                   \<lparr>sp_client_id = aq_client_id q, sp_redirect_uri = aq_redirect_uri q,
                    sp_code_challenge = challenge, sp_code_challenge_method = ''S256'',
                    sp_scope = scope, sp_resource = resource, sp_claude_state = aq_state q\<rparr> of
                   None \<Rightarrow> (s, server_error)
                 | Some s' \<Rightarrow>
                     (s', Redirect (oe_ogma_bridge_url env)
                        [(''state'', fresh), (''return'', authorize_callback_url env)]))))"

section \<open>The callback of the SSO bridge\<close>

definition claim_text :: "claims \<Rightarrow> string \<Rightarrow> string option" where
  "claim_text cs k = (case map_of cs k of Some (JStr s) \<Rightarrow> if s = [] then None else Some s | _ \<Rightarrow> None)"

definition identity_of_claims :: "claims \<Rightarrow> identity option" where
  "identity_of_claims cs =
     (case (claim_text cs ''tenant_id'', claim_text cs ''user_id'', claim_text cs ''user_email'') of
        (Some t, Some u, Some m) \<Rightarrow> Some \<lparr>id_tenant_id = t, id_user_id = u, id_user_email = m\<rparr>
      | _ \<Rightarrow> None)"

definition bridge_callback_400 :: "string \<Rightarrow> response" where
  "bridge_callback_400 d = Failure 400 ''invalid_grant'' d"

definition authorize_callback ::
  "oauth_env \<Rightarrow> oauth_server \<Rightarrow> int \<Rightarrow> string \<Rightarrow> string \<Rightarrow> oauth_server \<times> response"
where
  "authorize_callback env s now bridge_token fresh =
     (if os_bridge s = None
      then (s, Failure 503 ''server_not_ready'' ''Bridge JWT verifier not yet initialized.'')
      else case bridge_verify (oe_bridge env) (os_bridge s) now bridge_token of
        Inl Runtime_Error \<Rightarrow> (s, server_error)
      | Inl PyJWT_Error \<Rightarrow> (s, bridge_callback_400 ''Bridge token verification failed.'')
      | Inr cs \<Rightarrow>
          (case claim_text cs ''mcp_state'' of
             None \<Rightarrow> (s, bridge_callback_400 ''Bridge token missing mcp_state claim.'')
           | Some mcp_state \<Rightarrow>
               (case oauth_state_claim env s now mcp_state of
                  None \<Rightarrow> (s, server_error)
                | Some (s', None) \<Rightarrow>
                    (s', bridge_callback_400 ''Bridge state expired, replayed, or never registered.'')
                | Some (s', Some p) \<Rightarrow>
                    (case identity_of_claims cs of
                       None \<Rightarrow> (s', bridge_callback_400 ''Bridge token missing identity claims.'')
                     | Some i \<Rightarrow>
                         mint_code_and_redirect s' now fresh
                           \<lparr>cp_client_id = sp_client_id p, cp_redirect_uri = sp_redirect_uri p,
                            cp_code_challenge = sp_code_challenge p,
                            cp_code_challenge_method = sp_code_challenge_method p, cp_identity = i,
                            cp_resource = sp_resource p, cp_scope = sp_scope p\<rparr> (sp_claude_state p)))))"

section \<open>The token endpoint\<close>

record token_form =
  tf_grant_type :: "string option"
  tf_code :: "string option"
  tf_code_verifier :: "string option"
  tf_client_id :: "string option"
  tf_redirect_uri :: "string option"
  tf_refresh_token :: "string option"

definition invalid_grant :: "string \<Rightarrow> response" where
  "invalid_grant d = Failure 400 ''invalid_grant'' d"

fun join_space :: "string list \<Rightarrow> string" where
  "join_space [] = []"
| "join_space [x] = x"
| "join_space (x # y # ys) = x @ '' '' @ join_space (y # ys)"

text \<open>The INSERT of \<^verbatim>\<open>mcp_access_tokens\<close>: primary key, foreign key and column widths.\<close>

definition token_row_fits :: "oauth_server \<Rightarrow> access_token_row \<Rightarrow> bool" where
  "token_row_fits s r =
     (length (at_token_hash r) \<le> 64 \<and> \<not> list_ex (\<lambda>x. at_token_hash x = at_token_hash r) (os_tokens s)
      \<and> list_ex (\<lambda>c. oc_client_id c = at_client_id r) (os_clients s)
      \<and> length (id_tenant_id (at_identity r)) \<le> 64 \<and> length (id_user_id (at_identity r)) \<le> 128
      \<and> length (id_user_email (at_identity r)) \<le> 256 \<and> length (at_resource r) \<le> 512
      \<and> (case at_scopes r of None \<Rightarrow> True | Some sc \<Rightarrow> list_all (\<lambda>x. length x \<le> 64) sc)
      \<and> (case at_refresh_token_hash r of None \<Rightarrow> True | Some h \<Rightarrow> length h \<le> 64))"

definition issued_row ::
  "oauth_env \<Rightarrow> int \<Rightarrow> string \<Rightarrow> identity \<Rightarrow> string \<Rightarrow> string list \<Rightarrow> string \<Rightarrow> string \<Rightarrow> access_token_row"
where
  "issued_row env now client_id i resource scopes access refresh =
     \<lparr>at_token_hash = hash_bearer env access, at_client_id = client_id, at_identity = i,
      at_resource = resource, at_scopes = Some scopes, at_expires_at = now + oe_access_ttl env * second,
      at_refresh_token_hash = Some (hash_bearer env refresh), at_revoked_at = None\<rparr>"

definition issue_token_pair ::
  "oauth_env \<Rightarrow> oauth_server \<Rightarrow> int \<Rightarrow> string \<Rightarrow> identity \<Rightarrow> string \<Rightarrow> string list \<Rightarrow> string \<Rightarrow> string
   \<Rightarrow> oauth_server \<times> response"
where
  "issue_token_pair env s now client_id i resource scopes access refresh =
     (let r = issued_row env now client_id i resource scopes access refresh
      in if oe_db_up env \<and> token_row_fits s r then
           (s\<lparr>os_tokens := os_tokens s @ [r],
              os_refresh := store_put (os_refresh s) (hash_bearer env refresh)
                \<lparr>rp_client_id = client_id, rp_identity = i, rp_resource = resource, rp_scopes = scopes\<rparr>
                (oe_refresh_ttl env * second) now\<rparr>,
            Token_Issued \<lparr>tb_access_token = access, tb_refresh_token = refresh,
              tb_expires_in = oe_access_ttl env, tb_scope = join_space scopes\<rparr>)
         else (s, server_error))"

text \<open>The checks after a code was popped, in the order of the handler.\<close>

definition exchange_check :: "oauth_env \<Rightarrow> token_form \<Rightarrow> code_payload \<Rightarrow> response option" where
  "exchange_check env f p =
     (if cp_client_id p \<noteq> the (tf_client_id f) then Some (invalid_grant ''client_id mismatch.'')
      else if present (tf_redirect_uri f) \<and> cp_redirect_uri p \<noteq> the (tf_redirect_uri f)
      then Some (invalid_grant ''redirect_uri mismatch.'')
      else case verify_pkce env (the (tf_code_verifier f)) (cp_code_challenge p) of
        None \<Rightarrow> Some server_error
      | Some ok \<Rightarrow> if ok then None else Some (invalid_grant ''PKCE verifier mismatch.''))"

definition token_authorization_code ::
  "oauth_env \<Rightarrow> oauth_server \<Rightarrow> int \<Rightarrow> token_form \<Rightarrow> string \<Rightarrow> string \<Rightarrow> oauth_server \<times> response"
where
  "token_authorization_code env s now f access refresh =
     (if \<not> (present (tf_code f) \<and> present (tf_code_verifier f) \<and> present (tf_client_id f))
      then (s, Failure 400 ''invalid_request'' ''code, code_verifier, and client_id are all required.'')
      else case store_pop (os_codes s) (the (tf_code f)) now of
        (codes, payload) \<Rightarrow>
          (let s' = s\<lparr>os_codes := codes\<rparr>
           in case payload of
                None \<Rightarrow> (s', invalid_grant ''Unknown / expired code.'')
              | Some p \<Rightarrow>
                  (case exchange_check env f p of
                     Some failure \<Rightarrow> (s', failure)
                   | None \<Rightarrow>
                       issue_token_pair env s' now (the (tf_client_id f)) (cp_identity p) (cp_resource p)
                         [cp_scope p] access refresh)))"

definition token_refresh ::
  "oauth_env \<Rightarrow> oauth_server \<Rightarrow> int \<Rightarrow> token_form \<Rightarrow> string \<Rightarrow> string \<Rightarrow> oauth_server \<times> response"
where
  "token_refresh env s now f access refresh =
     (if \<not> (present (tf_refresh_token f) \<and> present (tf_client_id f))
      then (s, Failure 400 ''invalid_request'' ''refresh_token and client_id required.'')
      else case store_pop (os_refresh s) (hash_bearer env (the (tf_refresh_token f))) now of
        (rs, payload) \<Rightarrow>
          (let s' = s\<lparr>os_refresh := rs\<rparr>
           in case payload of
                None \<Rightarrow> (s', invalid_grant ''Unknown / expired refresh token.'')
              | Some p \<Rightarrow>
                  if rp_client_id p \<noteq> the (tf_client_id f)
                  then (s', invalid_grant ''Unknown / expired refresh token.'')
                  else issue_token_pair env s' now (the (tf_client_id f)) (rp_identity p) (rp_resource p)
                         (rp_scopes p) access refresh))"

definition token_endpoint ::
  "oauth_env \<Rightarrow> oauth_server \<Rightarrow> int \<Rightarrow> token_form \<Rightarrow> string \<Rightarrow> string \<Rightarrow> oauth_server \<times> response"
where
  "token_endpoint env s now f access refresh =
     (if tf_grant_type f = Some ''authorization_code'' then token_authorization_code env s now f access refresh
      else if tf_grant_type f = Some ''refresh_token'' then token_refresh env s now f access refresh
      else (s, Failure 400 ''unsupported_grant_type''
              ''Only authorization_code and refresh_token are supported.''))"

section \<open>The bearer check\<close>

definition CACHE_MAX_ENTRIES :: nat where
  "CACHE_MAX_ENTRIES = 1024"

text \<open>The cache is a Python dict, so in insertion order: an expired entry is dropped when read, the first
  one when the cache is full.\<close>

definition cache_get :: "oauth_server \<Rightarrow> int \<Rightarrow> string \<Rightarrow> oauth_server \<times> access_token option" where
  "cache_get s now h =
     (case map_of (os_cache s) h of
        None \<Rightarrow> (s, None)
      | Some (a, e) \<Rightarrow>
          if e \<le> now then (s\<lparr>os_cache := AList.delete h (os_cache s)\<rparr>, None) else (s, Some a))"

definition cache_put :: "oauth_server \<Rightarrow> string \<Rightarrow> access_token \<Rightarrow> int \<Rightarrow> oauth_server" where
  "cache_put s h a e =
     s\<lparr>os_cache := AList.update h (a, e)
         (if CACHE_MAX_ENTRIES \<le> length (os_cache s) then tl (os_cache s) else os_cache s)\<rparr>"

definition live_token_row :: "oauth_server \<Rightarrow> int \<Rightarrow> string \<Rightarrow> access_token_row option" where
  "live_token_row s now h =
     find (\<lambda>r. at_token_hash r = h \<and> at_revoked_at r = None \<and> now < at_expires_at r) (os_tokens s)"

definition identity_scopes :: "identity \<Rightarrow> string list" where
  "identity_scopes i =
     [''ogma:tenant_id='' @ id_tenant_id i, ''ogma:user_id='' @ id_user_id i,
      ''ogma:user_email='' @ id_user_email i]"

definition token_of_row :: "string \<Rightarrow> access_token_row \<Rightarrow> access_token" where
  "token_of_row token r =
     \<lparr>ac_token = token, ac_client_id = at_client_id r,
      ac_scopes = (case at_scopes r of None \<Rightarrow> [''log_interaction''] | Some [] \<Rightarrow> [''log_interaction''] | Some sc \<Rightarrow> sc)
                    @ identity_scopes (at_identity r),
      ac_expires_at = at_expires_at r div second, ac_resource = at_resource r\<rparr>"

definition verify_token ::
  "oauth_env \<Rightarrow> oauth_server \<Rightarrow> int \<Rightarrow> string \<Rightarrow> oauth_server \<times> access_token option"
where
  "verify_token env s now token =
     (if token = [] then (s, None)
      else case cache_get s now (hash_bearer env token) of
        (s, Some a) \<Rightarrow> (s, Some a)
      | (s, None) \<Rightarrow>
          if \<not> oe_db_up env then (s, None)
          else case live_token_row s now (hash_bearer env token) of
            None \<Rightarrow> (s, None)
          | Some r \<Rightarrow>
              if rstrip_slash (at_resource r) \<noteq> rstrip_slash (oe_server_url env) then (s, None)
              else (let a = token_of_row token r
                    in (cache_put s (hash_bearer env token) a (at_expires_at r), Some a)))"

text \<open>The markers are read in order and a later one overrides an earlier one.\<close>

fun read_markers ::
  "string list \<Rightarrow> string option \<times> string option \<times> string option \<Rightarrow> string option \<times> string option \<times> string option"
where
  "read_markers [] acc = acc"
| "read_markers (x # xs) (t, u, m) =
     (if startswith x ''ogma:tenant_id='' then
        read_markers xs (Some (drop (length ''ogma:tenant_id='') x), u, m)
      else if startswith x ''ogma:user_id='' then
        read_markers xs (t, Some (drop (length ''ogma:user_id='') x), m)
      else if startswith x ''ogma:user_email='' then
        read_markers xs (t, u, Some (drop (length ''ogma:user_email='') x))
      else read_markers xs (t, u, m))"

definition identity_from_access_token :: "access_token \<Rightarrow> identity option" where
  "identity_from_access_token a =
     (case read_markers (ac_scopes a) (None, None, None) of
        (t, u, m) \<Rightarrow>
          if present t \<and> present u \<and> present m
          then Some \<lparr>id_tenant_id = the t, id_user_id = the u, id_user_email = the m\<rparr> else None)"

section \<open>Runs of the server\<close>

text \<open>
  \<open>Refresh_Key\<close> is a fetch of the key by the process of the server, which its start-up makes (the daily task
  changes the copy of a worker process only, which no handler reads).
  An operator can revoke a token or retire a client by writing its timestamp. A restart of the process
  loses what it holds in memory (the database and Redis stay). Each step says whether
  the database and Redis answer; \<^verbatim>\<open>fresh\<close> texts are what \<^verbatim>\<open>secrets.token_urlsafe\<close> returned.
\<close>

datatype event =
  Register registration string string
| Authorize authorize_request string
| Callback string string
| Token token_form string string
| Verify string
| Refresh_Key jwk_answers
| Revoke string
| Retire string
| Restart

datatype outcome = Answer response | Checked "access_token option" | Key refresh_result | Done

type_synonym timed_event = "int \<times> bool \<times> bool \<times> event"

fun step :: "oauth_env \<Rightarrow> oauth_server \<Rightarrow> timed_event \<Rightarrow> oauth_server \<times> outcome" where
  "step env s (now, db, redis, ev) =
     (let env = env\<lparr>oe_db_up := db, oe_redis_up := redis\<rparr>
      in case ev of
           Register body cid secret \<Rightarrow> map_prod id Answer (register_client env s body cid secret)
         | Authorize q fresh \<Rightarrow> map_prod id Answer (authorize env s now q fresh)
         | Callback token fresh \<Rightarrow> map_prod id Answer (authorize_callback env s now token fresh)
         | Token f access refresh \<Rightarrow> map_prod id Answer (token_endpoint env s now f access refresh)
         | Verify token \<Rightarrow> map_prod id Checked (verify_token env s now token)
         | Refresh_Key w \<Rightarrow>
             (case refresh_bridge_jwk (oe_bridge env) w (os_bridge s) of (c, r) \<Rightarrow> (s\<lparr>os_bridge := c\<rparr>, Key r))
         | Revoke h \<Rightarrow>
             (s\<lparr>os_tokens := map (\<lambda>r. if at_token_hash r = h then r\<lparr>at_revoked_at := Some now\<rparr> else r)
                (os_tokens s)\<rparr>, Done)
         | Retire cid \<Rightarrow>
             (s\<lparr>os_clients := map (\<lambda>c. if oc_client_id c = cid then c\<lparr>oc_deleted_at := Some now\<rparr> else c)
                (os_clients s)\<rparr>, Done)
         | Restart \<Rightarrow>
             (s\<lparr>os_codes := Map.empty, os_refresh := Map.empty, os_cache := [], os_bridge := None\<rparr>, Done))"

primrec run :: "oauth_env \<Rightarrow> oauth_server \<Rightarrow> timed_event list \<Rightarrow> oauth_server" where
  "run env s [] = s"
| "run env s (e # es) = run env (fst (step env s e)) es"

lemma run_append [simp]: "run env s (es @ es') = run env (run env s es) es'"
  by (induction es arbitrary: s) simp_all

section \<open>Where identities come from\<close>

definition store_all :: "('v \<Rightarrow> bool) \<Rightarrow> 'v ttl_store \<Rightarrow> bool" where
  "store_all P st \<longleftrightarrow> (\<forall>k v e. st k = Some (v, e) \<longrightarrow> P v)"

lemma store_all_empty [simp]: "store_all P Map.empty"
  by (simp add: store_all_def)

lemma store_all_put [intro]: "store_all P st \<Longrightarrow> P v \<Longrightarrow> store_all P (store_put st k v ttl now)"
  by (auto simp: store_all_def store_put_def split: option.splits if_splits)

lemma store_all_pop: "store_all P st \<Longrightarrow> store_pop st k now = (st', v) \<Longrightarrow> store_all P st' \<and> (\<forall>x. v = Some x \<longrightarrow> P x)"
  by (fastforce simp: store_all_def store_pop_def split: option.splits if_splits)

text \<open>A key some answer of a refresh delivered, and an identity some presented bridge token asserted
  under such a key.\<close>

definition fetched :: "oauth_env \<Rightarrow> timed_event list \<Rightarrow> public_key \<Rightarrow> bool" where
  "fetched env es key \<longleftrightarrow>
     (\<exists>now db redis w a c. (now, db, redis, Refresh_Key w) \<in> set es \<and> a \<in> set (jwk_tries w)
        \<and> bindE a (set_jwk (oe_bridge env)) = Inr c \<and> bc_public_key c = key)"

definition vouched :: "oauth_env \<Rightarrow> timed_event list \<Rightarrow> identity \<Rightarrow> bool" where
  "vouched env es i \<longleftrightarrow>
     (\<exists>now db redis token fresh key cs. (now, db, redis, Callback token fresh) \<in> set es \<and> fetched env es key
        \<and> be_jwt_decode (oe_bridge env) token key [BRIDGE_JWT_ALGORITHM] BRIDGE_JWT_AUDIENCE BRIDGE_JWT_ISSUER now
            = Some cs
        \<and> identity_of_claims cs = Some i)"

definition rightful :: "oauth_env \<Rightarrow> timed_event list \<Rightarrow> identity \<Rightarrow> bool" where
  "rightful env es i \<longleftrightarrow> vouched env es i \<or> spike_mode_enabled env \<and> test_identity env = Some i"

definition named :: "identity \<Rightarrow> bool" where
  "named i \<longleftrightarrow> id_tenant_id i \<noteq> [] \<and> id_user_id i \<noteq> [] \<and> id_user_email i \<noteq> []"

lemma identity_of_claims_named: "identity_of_claims cs = Some i \<Longrightarrow> named i"
  by (auto simp: identity_of_claims_def claim_text_def named_def split: option.splits json.splits if_splits)

lemma rightful_named: "rightful env es i \<Longrightarrow> named i"
  by (auto simp: rightful_def vouched_def test_identity_def named_def identity_of_claims_named [unfolded named_def]
      split: if_splits)

lemma read_markers_append: "read_markers (xs @ ys) acc = read_markers ys (read_markers xs acc)"
  by (induction xs acc rule: read_markers.induct) simp_all

lemma identity_scopes_win:
  "named i \<Longrightarrow> read_markers (xs @ identity_scopes i) acc = (Some (id_tenant_id i), Some (id_user_id i), Some (id_user_email i))"
  by (cases "read_markers xs acc") (simp add: read_markers_append identity_scopes_def startswith_def)

lemma identity_token_of_row: "named (at_identity r) \<Longrightarrow> identity_from_access_token (token_of_row token r) = Some (at_identity r)"
  by (simp add: identity_from_access_token_def token_of_row_def identity_scopes_win present_def) (simp add: named_def)

definition token_ok :: "oauth_env \<Rightarrow> timed_event list \<Rightarrow> access_token \<Rightarrow> int \<Rightarrow> bool" where
  "token_ok env es a e \<longleftrightarrow>
     (\<exists>i. identity_from_access_token a = Some i \<and> rightful env es i)
     \<and> rstrip_slash (ac_resource a) = rstrip_slash (oe_server_url env) \<and> ac_expires_at a = e div second"

definition provenance :: "oauth_env \<Rightarrow> timed_event list \<Rightarrow> oauth_server \<Rightarrow> bool" where
  "provenance env es s \<longleftrightarrow>
     store_all (\<lambda>p. rightful env es (cp_identity p)) (os_codes s)
     \<and> store_all (\<lambda>p. rightful env es (rp_identity p)) (os_refresh s)
     \<and> (\<forall>r\<in>set (os_tokens s). rightful env es (at_identity r))
     \<and> (\<forall>h a e. (h, a, e) \<in> set (os_cache s) \<longrightarrow> token_ok env es a e)
     \<and> (\<forall>c. os_bridge s = Some c \<longrightarrow> fetched env es (bc_public_key c))"

lemma provenance_empty: "provenance env es empty_server"
  by (simp add: provenance_def empty_server_def)

lemma set_update_subset: "set (AList.update k v xs) \<subseteq> insert (k, v) (set xs)"
  by (induction xs) auto

lemma provenance_cache_get:
  assumes "provenance env es s" "cache_get s now h = (s', r)"
  shows "provenance env es s' \<and> (\<forall>a. r = Some a \<longrightarrow> (\<exists>e. now < e \<and> token_ok env es a e))"
proof -
  have "set (AList.delete h (os_cache s)) \<subseteq> set (os_cache s)"
    by (simp add: AList.delete_eq)
  then show ?thesis
    using assms by (fastforce simp: cache_get_def provenance_def not_le split: option.splits if_splits dest!: map_of_SomeD)
qed

lemma provenance_cache_put:
  assumes "provenance env es s" "token_ok env es a e"
  shows "provenance env es (cache_put s h a e)"
proof -
  let ?base = "if CACHE_MAX_ENTRIES \<le> length (os_cache s) then tl (os_cache s) else os_cache s"
  have "set ?base \<subseteq> set (os_cache s)"
    by (cases "os_cache s") auto
  then have "set (AList.update h (a, e) ?base) \<subseteq> insert (h, a, e) (set (os_cache s))"
    using set_update_subset [of h "(a, e)" ?base] by blast
  then show ?thesis
    using assms unfolding cache_put_def provenance_def by auto
qed

lemma find_SomeD: "find P xs = Some x \<Longrightarrow> x \<in> set xs \<and> P x"
  by (auto simp: find_Some_iff)

lemma provenance_verify:
  assumes "provenance env es s" "verify_token env s now token = (s', r)"
  shows "provenance env es s' \<and> (\<forall>a. r = Some a \<longrightarrow> (\<exists>e. now < e \<and> token_ok env es a e))"
proof (cases "token = []")
  case False
  obtain s1 c where g: "cache_get s now (hash_bearer env token) = (s1, c)"
    by fastforce
  note p = provenance_cache_get [OF assms(1) g]
  show ?thesis
  proof (cases c)
    case None
    have "token_ok env es (token_of_row token x) (at_expires_at x) \<and> now < at_expires_at x"
      if "live_token_row s1 now (hash_bearer env token) = Some x"
        "rstrip_slash (at_resource x) = rstrip_slash (oe_server_url env)" for x
      using that p unfolding live_token_row_def
      by (auto dest!: find_SomeD simp: provenance_def token_ok_def identity_token_of_row rightful_named)
         (auto simp: token_of_row_def)
    then show ?thesis
      using assms(2) p False None
      by (auto simp: verify_token_def g Let_def provenance_cache_put split: if_splits option.splits)
  qed (use assms(2) p False in \<open>auto simp: verify_token_def g\<close>)
qed (use assms in \<open>simp add: verify_token_def\<close>)

lemma provenance_fields:
  "provenance env es (s\<lparr>os_clients := cl\<rparr>) = provenance env es s"
  "provenance env es (s\<lparr>os_states := st\<rparr>) = provenance env es s"
  by (simp_all add: provenance_def)

lemma provenance_issue:
  assumes "provenance env es s" "rightful env es i"
  shows "provenance env es (fst (issue_token_pair env s now cid i res sc access refresh))"
  using assms by (auto simp: issue_token_pair_def issued_row_def Let_def provenance_def)

lemma provenance_mint:
  assumes "provenance env es s" "rightful env es (cp_identity p)"
  shows "provenance env es (fst (mint_code_and_redirect s now code p st))"
  using assms by (auto simp: mint_code_and_redirect_def provenance_def)

lemma provenance_register: "provenance env es s \<Longrightarrow> provenance env es (fst (register_client env s body cid secret))"
  by (simp add: register_client_def Let_def provenance_fields)

lemma provenance_authorize:
  assumes "provenance env es s"
  shows "provenance env es (fst (authorize env s now q fresh))"
  using assms
  by (auto simp: authorize_def Let_def oauth_state_store_def provenance_fields rightful_def
      intro!: provenance_mint split: option.splits if_splits)

lemma provenance_claim: "provenance env es s \<Longrightarrow> oauth_state_claim env s now m = Some (s', v) \<Longrightarrow> provenance env es s'"
  by (auto simp: oauth_state_claim_def provenance_fields split: if_splits prod.splits)

lemma vouchedI:
  assumes "(now, db, redis, Callback token fresh) \<in> set es" "fetched env es key"
    and "be_jwt_decode (oe_bridge env) token key [BRIDGE_JWT_ALGORITHM] BRIDGE_JWT_AUDIENCE BRIDGE_JWT_ISSUER now = Some cs"
    and "identity_of_claims cs = Some i"
  shows "vouched env es i"
  using assms unfolding vouched_def by blast

lemma provenance_callback:
  assumes "provenance env es s" "(now, db, redis, Callback token fresh) \<in> set es"
  shows "provenance env es (fst (authorize_callback env s now token fresh))"
proof -
  have "rightful env es i"
    if v: "bridge_verify (oe_bridge env) (os_bridge s) now token = Inr cs" and i: "identity_of_claims cs = Some i" for cs i
  proof -
    obtain c where c: "os_bridge s = Some c"
      "be_jwt_decode (oe_bridge env) token (bc_public_key c) [BRIDGE_JWT_ALGORITHM] BRIDGE_JWT_AUDIENCE BRIDGE_JWT_ISSUER now = Some cs"
      using v by (auto simp: bridge_verify_def split: option.splits)
    moreover have "fetched env es (bc_public_key c)"
      using assms(1) c(1) by (simp add: provenance_def)
    ultimately show ?thesis
      using vouchedI [OF assms(2)] i by (simp add: rightful_def)
  qed
  then show ?thesis
    using assms(1)
    by (auto simp: authorize_callback_def split: option.splits sum.splits verify_error.splits
        intro!: provenance_mint dest: provenance_claim)
qed

lemma provenance_token:
  assumes "provenance env es s"
  shows "provenance env es (fst (token_endpoint env s now f access refresh))"
proof -
  have codes: "provenance env es (s\<lparr>os_codes := st\<rparr>) \<and> (\<forall>p. v = Some p \<longrightarrow> rightful env es (cp_identity p))"
    if "store_pop (os_codes s) k now = (st, v)" for k st v
    using store_all_pop [OF _ that] assms by (auto simp: provenance_def)
  have refreshes: "provenance env es (s\<lparr>os_refresh := st\<rparr>) \<and> (\<forall>p. v = Some p \<longrightarrow> rightful env es (rp_identity p))"
    if "store_pop (os_refresh s) k now = (st, v)" for k st v
    using store_all_pop [OF _ that] assms by (auto simp: provenance_def)
  have "provenance env es (fst (token_authorization_code env s now f access refresh))"
    using assms codes [of "the (tf_code f)"]
    by (auto simp: token_authorization_code_def Let_def split: prod.splits option.splits intro!: provenance_issue)
  moreover have "provenance env es (fst (token_refresh env s now f access refresh))"
    using assms refreshes [of "hash_bearer env (the (tf_refresh_token f))"]
    by (auto simp: token_refresh_def Let_def split: prod.splits option.splits intro!: provenance_issue)
  ultimately show ?thesis
    using assms by (simp add: token_endpoint_def)
qed

text \<open>Whether the database and Redis answer does not matter to provenance.\<close>

lemma rightful_up [simp]: "rightful (env\<lparr>oe_db_up := b, oe_redis_up := c\<rparr>) es i = rightful env es i"
  by (simp add: rightful_def vouched_def fetched_def spike_mode_enabled_def test_identity_def)

lemma provenance_up [simp]:
  "provenance (env\<lparr>oe_db_up := b, oe_redis_up := c\<rparr>) es s = provenance env es s"
  by (simp add: provenance_def token_ok_def fetched_def)

lemma provenance_refresh_key:
  assumes "provenance env es s" "(now, db, redis, Refresh_Key w) \<in> set es"
    and "refresh_bridge_jwk (oe_bridge env) w (os_bridge s) = (c, r)"
  shows "provenance env es (s\<lparr>os_bridge := c\<rparr>)"
proof -
  have "fetched env es (bc_public_key k)" if "a \<in> set (jwk_tries w)" "bindE a (set_jwk (oe_bridge env)) = Inr k" for a k
    using assms(2) that unfolding fetched_def by blast
  then show ?thesis
    using assms(1,3)
    by (auto simp: refresh_bridge_jwk_def fetch_and_cache_jwk_def jwk_tries_def provenance_def Let_def
        split: sum.splits prod.splits if_splits)
qed

lemma provenance_step:
  assumes "provenance env es s" "e \<in> set es"
  shows "provenance env es (fst (step env s e))"
proof -
  obtain now db redis ev where e: "e = (now, db, redis, ev)"
    by (metis prod_cases4)
  let ?env = "env\<lparr>oe_db_up := db, oe_redis_up := redis\<rparr>"
  have p: "provenance ?env es s"
    by (simp add: assms(1))
  show ?thesis
  proof (cases ev)
    case (Register body cid secret)
    show ?thesis
      using provenance_register [OF p] by (simp add: e Register)
  next
    case (Authorize q fresh)
    show ?thesis
      using provenance_authorize [OF p] by (simp add: e Authorize)
  next
    case (Callback token fresh)
    show ?thesis
      using provenance_callback [OF p assms(2) [unfolded e Callback]] by (simp add: e Callback)
  next
    case (Token f access refresh)
    show ?thesis
      using provenance_token [OF p] by (simp add: e Token)
  next
    case (Verify token)
    obtain s' r where "verify_token ?env s now token = (s', r)"
      by fastforce
    then show ?thesis
      using provenance_verify [OF p] by (simp add: e Verify)
  next
    case (Refresh_Key w)
    obtain c r where "refresh_bridge_jwk (oe_bridge env) w (os_bridge s) = (c, r)"
      by fastforce
    then show ?thesis
      using provenance_refresh_key [OF assms(1) assms(2) [unfolded e Refresh_Key]] by (simp add: e Refresh_Key)
  qed (use assms(1) in \<open>auto simp: e provenance_def\<close>)
qed

lemma provenance_run: "provenance env es s \<Longrightarrow> set es' \<subseteq> set es \<Longrightarrow> provenance env es (run env s es')"
  by (induction es' arbitrary: s) (simp_all add: provenance_step)

text \<open>A sample deployment and a login through it. The digest is the text cut or filled to 32 bytes.\<close>

definition sample_oauth_env :: oauth_env where
  "sample_oauth_env = \<lparr>oe_sha256 = (\<lambda>x. take 32 (x @ replicate 32 CHR ''0'')), oe_bridge = sample_bridge_env,
     oe_server_url = ''https://m/'', oe_ogma_bridge_url = ''https://o/b'', oe_callback_url = [],
     oe_spike_mode = [], oe_allow_spike = [], oe_test_tenant_id = [], oe_test_user_id = [], oe_test_user_email = [],
     oe_access_ttl = 3600, oe_refresh_ttl = 2592000, oe_db_up = True, oe_redis_up = True\<rparr>"

definition sample_uri :: string where
  "sample_uri = ''https://claude.ai/api/mcp/auth_callback''"

definition sample_bridge_token :: "string \<Rightarrow> string" where
  "sample_bridge_token st = sign_bridge_token sample_bridge_env sample_keypair ''t1'' ''u1'' ''e1'' st 1000000 0"

definition sample_exchange :: token_form where
  "sample_exchange = \<lparr>tf_grant_type = Some ''authorization_code'', tf_code = Some ''c1'', tf_code_verifier = Some ''v'',
     tf_client_id = Some ''cl'', tf_redirect_uri = None, tf_refresh_token = None\<rparr>"

definition sample_key_answers :: jwk_answers where
  "sample_key_answers = \<lparr>ja_first = Inr (JObj (public_jwk sample_keypair)), ja_second = Inr JNull, ja_third = Inr JNull\<rparr>"

definition sample_login_for :: "string \<Rightarrow> timed_event list" where
  "sample_login_for scope =
     [(0, True, True, Refresh_Key sample_key_answers),
      (0, True, True, Register \<lparr>rr_client_name = None, rr_redirect_uris = [sample_uri], rr_grant_types = [],
         rr_response_types = [], rr_auth_method = None\<rparr> ''cl'' ''sec''),
      (0, True, True, Authorize \<lparr>aq_client_id = ''cl'', aq_redirect_uri = sample_uri, aq_response_type = ''code'',
         aq_code_challenge = Some (b64url (oe_sha256 sample_oauth_env ''v'')), aq_code_challenge_method = Some ''S256'',
         aq_state = Some ''x'', aq_resource = None, aq_scope = Some scope\<rparr> ''st''),
      (1000000, True, True, Callback (sample_bridge_token ''st'') ''c1'')]"

abbreviation sample_login :: "timed_event list" where
  "sample_login \<equiv> sample_login_for ''ogma:tenant_id=evil''"

lemma verified_token_ok:
  assumes "assert_spike_mode_safe env" "\<not> truthy (oe_allow_spike env)"
    and "snd (verify_token env (run env empty_server es) now token) = Some a"
  shows "\<exists>e i. now < e \<and> token_ok env es a e \<and> identity_from_access_token a = Some i \<and> vouched env es i"
proof -
  have "provenance env es (run env empty_server es)"
    using provenance_run [OF provenance_empty] by blast
  then obtain e where e: "now < e" "token_ok env es a e"
    using provenance_verify [of env es "run env empty_server es" now token] assms(3) by (metis prod.collapse)
  have "\<not> spike_mode_enabled env"
    using assms(1,2) by (simp add: assert_spike_mode_safe_def)
  then show ?thesis
    using e by (auto simp: token_ok_def rightful_def)
qed

lemma accepted_is_vouched:
  assumes "assert_spike_mode_safe env" "\<not> truthy (oe_allow_spike env)"
    and "verify_token env (run env empty_server es) now token = (s', Some a)" "identity_from_access_token a = Some i"
  shows "vouched env es i"
  using verified_token_ok [OF assms(1,2), of es now token a] assms(3,4) by auto

text \<open>C14: Every accepted token belongs to somebody the identity provider vouched for. In a server that
  booted without the test override, after any sequence of registrations, authorizations, callbacks,
  exchanges, refreshes, checks, key refreshes, revocations and restarts, with any failures of the
  database and Redis: if the verifier accepts a bearer token, then the three identity fields the tools
  read from it are those of a bridge token that was presented to the callback and verified under a
  fetched key, whatever scopes the client had asked for (a scope such as \<^verbatim>\<open>ogma:tenant_id=evil\<close> cannot
  override them); its audience is this server and its expiry second has not passed.\<close>

theorem accepted_token_is_vouched:
  assumes "assert_spike_mode_safe env" "\<not> truthy (oe_allow_spike env)"
    and "snd (verify_token env (run env empty_server es) now token) = Some a"
  shows "(\<exists>i. identity_from_access_token a = Some i \<and> vouched env es i)
      \<and> rstrip_slash (ac_resource a) = rstrip_slash (oe_server_url env) \<and> now < (ac_expires_at a + 1) * second"
proof -
  obtain e i where e: "now < e" "token_ok env es a e" "identity_from_access_token a = Some i" "vouched env es i"
    using verified_token_ok [OF assms] by blast
  moreover have "e < (e div second + 1) * second"
    using div_mult_mod_eq [of e second] pos_mod_bound [of second e] by (simp add: second_def distrib_right)
  ultimately show ?thesis
    by (auto simp: token_ok_def)
qed

section \<open>Codes, refresh tokens and states are used once\<close>

fun mints_code :: "timed_event \<Rightarrow> string \<Rightarrow> bool" where
  "mints_code (now, db, redis, ev) c = (case ev of Authorize q fresh \<Rightarrow> fresh = c | Callback t fresh \<Rightarrow> fresh = c | _ \<Rightarrow> False)"

fun mints_refresh :: "oauth_env \<Rightarrow> timed_event \<Rightarrow> string \<Rightarrow> bool" where
  "mints_refresh env (now, db, redis, ev) h = (case ev of Token f a r \<Rightarrow> hash_bearer env r = h | _ \<Rightarrow> False)"

fun mints_state :: "timed_event \<Rightarrow> string \<Rightarrow> bool" where
  "mints_state (now, db, redis, ev) st = (case ev of Authorize q fresh \<Rightarrow> fresh = st | _ \<Rightarrow> False)"

lemmas handler_defs = register_client_def authorize_def authorize_callback_def token_endpoint_def
  token_authorization_code_def token_refresh_def issue_token_pair_def mint_code_and_redirect_def
  oauth_state_store_def oauth_state_claim_def verify_token_def cache_get_def cache_put_def Let_def

lemma memory_gone_empty [simp]: "memory.gone Map.empty k"
  by (simp add: memory.gone_def store_peek_def)

lemma gone_store_pop: "memory.gone st k \<Longrightarrow> store_pop st k' t = (st', v) \<Longrightarrow> memory.gone st' k"
  using memory.gone_pop_other [of st k k' t] by simp

lemma hash_bearer_up [simp]: "hash_bearer (env\<lparr>oe_db_up := b, oe_redis_up := c\<rparr>) t = hash_bearer env t"
  by (simp add: hash_bearer_def)

lemma codes_step:
  assumes "memory.gone (os_codes s) c" "\<not> mints_code e c"
  shows "memory.gone (os_codes (fst (step env s e))) c"
proof -
  obtain now db redis ev where e: "e = (now, db, redis, ev)"
    by (metis prod_cases4)
  show ?thesis
    using assms
    by (cases ev)
       (auto simp: e handler_defs memory.gone_put_other gone_store_pop
          split: option.splits prod.splits sum.splits verify_error.splits if_splits)
qed

lemma refresh_step:
  assumes "memory.gone (os_refresh s) h" "\<not> mints_refresh env e h"
  shows "memory.gone (os_refresh (fst (step env s e))) h"
proof -
  obtain now db redis ev where e: "e = (now, db, redis, ev)"
    by (metis prod_cases4)
  show ?thesis
    using assms
    by (cases ev)
       (auto simp: e handler_defs memory.gone_put_other gone_store_pop
          split: option.splits prod.splits sum.splits verify_error.splits if_splits)
qed

lemma states_step:
  assumes "redis.gone (os_states s) (state_key st)" "\<not> mints_state e st"
  shows "redis.gone (os_states (fst (step env s e))) (state_key st)"
proof -
  obtain now db redis ev where e: "e = (now, db, redis, ev)"
    by (metis prod_cases4)
  have pop: "redis.gone m k \<Longrightarrow> redis_getdel m k' t = (m', v) \<Longrightarrow> redis.gone m' k" for m m' :: "state_payload ttl_store" and k k' t v
    using redis.gone_pop_other [of m k k' t] by simp
  show ?thesis
    using assms
    by (cases ev)
       (auto simp: e handler_defs redis.gone_put_other pop
          split: option.splits prod.splits sum.splits verify_error.splits if_splits)
qed

lemma codes_run:
  "memory.gone (os_codes s) c \<Longrightarrow> list_all (\<lambda>e. \<not> mints_code e c) es \<Longrightarrow> memory.gone (os_codes (run env s es)) c"
  by (induction es arbitrary: s) (simp_all add: codes_step)

lemma refresh_run:
  "memory.gone (os_refresh s) h \<Longrightarrow> list_all (\<lambda>e. \<not> mints_refresh env e h) es \<Longrightarrow>
   memory.gone (os_refresh (run env s es)) h"
  by (induction es arbitrary: s) (simp_all add: refresh_step)

lemma states_run:
  "redis.gone (os_states s) (state_key st) \<Longrightarrow> list_all (\<lambda>e. \<not> mints_state e st) es \<Longrightarrow>
   redis.gone (os_states (run env s es)) (state_key st)"
  by (induction es arbitrary: s) (simp_all add: states_step)

definition code_form :: "token_form \<Rightarrow> string \<Rightarrow> bool" where
  "code_form f c \<longleftrightarrow> tf_grant_type f = Some ''authorization_code'' \<and> tf_code f = Some c \<and> c \<noteq> []
     \<and> present (tf_code_verifier f) \<and> present (tf_client_id f)"

definition refresh_form :: "token_form \<Rightarrow> string \<Rightarrow> bool" where
  "refresh_form f t \<longleftrightarrow> tf_grant_type f = Some ''refresh_token'' \<and> tf_refresh_token f = Some t \<and> t \<noteq> []
     \<and> present (tf_client_id f)"

lemma code_form_present: "code_form f c \<Longrightarrow> present (tf_code f) \<and> the (tf_code f) = c"
  by (simp add: code_form_def present_def)

lemma refresh_form_present: "refresh_form f t \<Longrightarrow> present (tf_refresh_token f) \<and> the (tf_refresh_token f) = t"
  by (simp add: refresh_form_def present_def)

lemma os_codes_issue [simp]: "os_codes (fst (issue_token_pair env s now cid i res sc a r)) = os_codes s"
  by (simp add: issue_token_pair_def Let_def)

lemma code_gone_after:
  assumes "code_form f c"
  shows "memory.gone (os_codes (fst (token_endpoint env s now f a r))) c"
proof -
  obtain codes v where p: "store_pop (os_codes s) c now = (codes, v)"
    by fastforce
  then have "memory.gone codes c"
    using memory.gone_after_pop [of "os_codes s" c now] by simp
  then show ?thesis
    using assms code_form_present [OF assms]
    by (auto simp: token_endpoint_def token_authorization_code_def p Let_def code_form_def
        split: option.splits)
qed

lemma code_gone_answer:
  assumes "code_form f c" "memory.gone (os_codes s) c"
  shows "snd (token_endpoint env s now f a r) = invalid_grant ''Unknown / expired code.''"
proof -
  obtain codes where "store_pop (os_codes s) c now = (codes, None)"
    using memory.gone_pop [OF assms(2), of now] by (metis prod.collapse)
  then show ?thesis
    using assms(1) code_form_present [OF assms(1)]
    by (simp add: token_endpoint_def token_authorization_code_def code_form_def Let_def)
qed

lemma refresh_gone_after:
  assumes "refresh_form f t" "hash_bearer env r \<noteq> hash_bearer env t"
  shows "memory.gone (os_refresh (fst (token_endpoint env s now f a r))) (hash_bearer env t)"
proof -
  obtain rs v where p: "store_pop (os_refresh s) (hash_bearer env t) now = (rs, v)"
    by fastforce
  then have "memory.gone rs (hash_bearer env t)"
    using memory.gone_after_pop [of "os_refresh s" "hash_bearer env t" now] by simp
  then show ?thesis
    using assms refresh_form_present [OF assms(1)] memory.gone_put_other [of rs "hash_bearer env t" "hash_bearer env r"]
    by (auto simp: token_endpoint_def token_refresh_def issue_token_pair_def p Let_def refresh_form_def
        split: option.splits)
qed

lemma refresh_gone_answer:
  assumes "refresh_form f t" "memory.gone (os_refresh s) (hash_bearer env t)"
  shows "snd (token_endpoint env s now f a r) = invalid_grant ''Unknown / expired refresh token.''"
proof -
  obtain rs where "store_pop (os_refresh s) (hash_bearer env t) now = (rs, None)"
    using memory.gone_pop [OF assms(2), of now] by (metis prod.collapse)
  then show ?thesis
    using assms(1) refresh_form_present [OF assms(1)]
    by (simp add: token_endpoint_def token_refresh_def refresh_form_def Let_def)
qed

definition callback_state :: "oauth_env \<Rightarrow> oauth_server \<Rightarrow> int \<Rightarrow> string \<Rightarrow> string option" where
  "callback_state env s now token =
     (case bridge_verify (oe_bridge env) (os_bridge s) now token of
        Inl e \<Rightarrow> None | Inr cs \<Rightarrow> claim_text cs ''mcp_state'')"

lemma callback_state_gone_after:
  assumes "callback_state env s now token = Some st" "oe_redis_up env"
  shows "redis.gone (os_states (fst (authorize_callback env s now token fresh))) (state_key st)"
proof -
  obtain cs where v: "bridge_verify (oe_bridge env) (os_bridge s) now token = Inr cs" "claim_text cs ''mcp_state'' = Some st"
    using assms(1) by (auto simp: callback_state_def split: sum.splits)
  then have "st \<noteq> []" "os_bridge s \<noteq> None"
    by (auto simp: claim_text_def bridge_verify_def split: option.splits json.splits if_splits)
  moreover obtain m w where p: "redis_getdel (os_states s) (state_key st) now = (m, w)"
    by fastforce
  then have "redis.gone m (state_key st)"
    using redis.gone_after_pop [of "os_states s" "state_key st" now] by simp
  ultimately show ?thesis
    using v p assms(2)
    by (auto simp: authorize_callback_def oauth_state_claim_def mint_code_and_redirect_def split: option.splits)
qed

lemma callback_state_gone_answer:
  assumes "callback_state env s now token = Some st" "oe_redis_up env"
    and "redis.gone (os_states s) (state_key st)"
  shows "snd (authorize_callback env s now token fresh)
    = bridge_callback_400 ''Bridge state expired, replayed, or never registered.''"
proof -
  obtain cs where v: "bridge_verify (oe_bridge env) (os_bridge s) now token = Inr cs" "claim_text cs ''mcp_state'' = Some st"
    using assms(1) by (auto simp: callback_state_def split: sum.splits)
  then have "st \<noteq> []" "os_bridge s \<noteq> None"
    by (auto simp: claim_text_def bridge_verify_def split: option.splits json.splits if_splits)
  moreover obtain m where "redis_getdel (os_states s) (state_key st) now = (m, None)"
    using redis.gone_pop [OF assms(3), of now] by (metis prod.collapse)
  ultimately show ?thesis
    using v assms(2) by (auto simp: authorize_callback_def oauth_state_claim_def)
qed

text \<open>C15: Codes, refresh tokens and bridge states work once. After a well-formed request has presented
  a code, whether it succeeded or failed, every later request with that code is answered
  \<^verbatim>\<open>invalid_grant\<close> as long as the random generator does not produce the same code again, across any
  other requests, failures and restarts. The same holds for a refresh token and, with Redis up, for the
  state of a bridge token at the callback, so a replayed bridge token mints no second code.\<close>

theorem grants_are_single_use:
  shows "(code_form f c \<and> code_form f' c \<and> list_all (\<lambda>e. \<not> mints_code e c) es \<longrightarrow>
      snd (token_endpoint env (run env (fst (token_endpoint env s now f a r)) es) now' f' a' r')
        = invalid_grant ''Unknown / expired code.'')
    \<and> (refresh_form f t \<and> refresh_form f' t \<and> hash_bearer env r \<noteq> hash_bearer env t
        \<and> list_all (\<lambda>e. \<not> mints_refresh env e (hash_bearer env t)) es \<longrightarrow>
      snd (token_endpoint env (run env (fst (token_endpoint env s now f a r)) es) now' f' a' r')
        = invalid_grant ''Unknown / expired refresh token.'')
    \<and> (oe_redis_up env \<and> callback_state env s now token = Some st \<and> list_all (\<lambda>e. \<not> mints_state e st) es
        \<and> callback_state env (run env (fst (authorize_callback env s now token c)) es) now' token' = Some st \<longrightarrow>
      snd (authorize_callback env (run env (fst (authorize_callback env s now token c)) es) now' token' c')
        = bridge_callback_400 ''Bridge state expired, replayed, or never registered.'')"
proof (intro conjI impI)
  assume a: "code_form f c \<and> code_form f' c \<and> list_all (\<lambda>e. \<not> mints_code e c) es"
  then have "memory.gone (os_codes (run env (fst (token_endpoint env s now f a r)) es)) c"
    by (intro codes_run code_gone_after) simp_all
  then show "snd (token_endpoint env (run env (fst (token_endpoint env s now f a r)) es) now' f' a' r')
        = invalid_grant ''Unknown / expired code.''"
    using a code_gone_answer by blast
next
  assume a: "refresh_form f t \<and> refresh_form f' t \<and> hash_bearer env r \<noteq> hash_bearer env t
        \<and> list_all (\<lambda>e. \<not> mints_refresh env e (hash_bearer env t)) es"
  then have "memory.gone (os_refresh (run env (fst (token_endpoint env s now f a r)) es)) (hash_bearer env t)"
    by (intro refresh_run refresh_gone_after) simp_all
  then show "snd (token_endpoint env (run env (fst (token_endpoint env s now f a r)) es) now' f' a' r')
        = invalid_grant ''Unknown / expired refresh token.''"
    using a refresh_gone_answer by blast
next
  let ?s = "run env (fst (authorize_callback env s now token c)) es"
  assume a: "oe_redis_up env \<and> callback_state env s now token = Some st \<and> list_all (\<lambda>e. \<not> mints_state e st) es
        \<and> callback_state env ?s now' token' = Some st"
  then have "redis.gone (os_states ?s) (state_key st)"
    by (intro states_run callback_state_gone_after) simp_all
  then show "snd (authorize_callback env ?s now' token' c')
        = bridge_callback_400 ''Bridge state expired, replayed, or never registered.''"
    using a callback_state_gone_answer by blast
qed

section \<open>The exchange of a code and the life of a token\<close>

text \<open>A code may be exchanged by the client it was minted for, with the registered redirect URI if one is
  sent, by whoever knows the PKCE verifier; and the row must fit its table.\<close>

definition may_exchange ::
  "oauth_env \<Rightarrow> oauth_server \<Rightarrow> int \<Rightarrow> token_form \<Rightarrow> string \<Rightarrow> string \<Rightarrow> code_payload \<Rightarrow> bool"
where
  "may_exchange env s now f access refresh p \<longleftrightarrow>
     tf_client_id f = Some (cp_client_id p)
     \<and> (tf_redirect_uri f = None \<or> tf_redirect_uri f = Some [] \<or> tf_redirect_uri f = Some (cp_redirect_uri p))
     \<and> is_ascii (cp_code_challenge p)
     \<and> (\<exists>v. tf_code_verifier f = Some v \<and> b64url (oe_sha256 env (utf8_encode v)) = cp_code_challenge p)
     \<and> oe_db_up env
     \<and> token_row_fits s (issued_row env now (cp_client_id p) (cp_identity p) (cp_resource p) [cp_scope p] access refresh)"

lemma presentE: "present v \<Longrightarrow> \<exists>x. v = Some x \<and> x \<noteq> []"
  by (cases v) (simp_all add: present_def)

lemma token_row_fits_codes [simp]: "token_row_fits (s\<lparr>os_codes := x\<rparr>) r = token_row_fits s r"
  by (simp add: token_row_fits_def)

lemma exchange_check_None:
  assumes "code_form f c"
  shows "exchange_check env f p = None \<longleftrightarrow>
     tf_client_id f = Some (cp_client_id p)
     \<and> (tf_redirect_uri f = None \<or> tf_redirect_uri f = Some [] \<or> tf_redirect_uri f = Some (cp_redirect_uri p))
     \<and> is_ascii (cp_code_challenge p)
     \<and> (\<exists>v. tf_code_verifier f = Some v \<and> b64url (oe_sha256 env (utf8_encode v)) = cp_code_challenge p)"
proof -
  obtain v cid where f: "tf_code_verifier f = Some v" "tf_client_id f = Some cid"
    using assms by (auto simp: code_form_def dest!: presentE)
  show ?thesis
    by (auto simp: exchange_check_def verify_pkce_def f present_def split: option.splits)
qed

lemma exchange_check_Some: "exchange_check env f p = Some x \<Longrightarrow> x = server_error \<or> (\<exists>d. x = invalid_grant d)"
  by (auto simp: exchange_check_def split: if_splits option.splits)

lemma store_pop_alt: "store_pop st k now = (st(k := None), store_peek st k now)"
  by (simp add: store_pop_def store_peek_def)

lemma exchange_form:
  assumes "code_form f c"
  shows "token_endpoint env s now f a r =
    (let s1 = s\<lparr>os_codes := (os_codes s)(c := None)\<rparr>
     in case store_peek (os_codes s) c now of
          None \<Rightarrow> (s1, invalid_grant ''Unknown / expired code.'')
        | Some p \<Rightarrow>
            (case exchange_check env f p of
               Some failure \<Rightarrow> (s1, failure)
             | None \<Rightarrow>
                 issue_token_pair env s1 now (the (tf_client_id f)) (cp_identity p) (cp_resource p) [cp_scope p] a r))"
  using assms code_form_present [OF assms]
  by (simp add: token_endpoint_def token_authorization_code_def code_form_def store_pop_alt Let_def)

text \<open>What an exchange does. A well-formed code request always uses the code up. It issues tokens
  exactly when the code is live, was minted for this client, the redirect URI (if sent) is the one of
  the request, the PKCE verifier hashes to the challenge, and the row can be stored; then the new row
  and the refresh entry carry the identity, audience and scope of the code. Otherwise no token or
  refresh entry changes and the answer is \<^verbatim>\<open>invalid_grant\<close>, or 500 where the challenge is not ASCII or
  the row cannot be stored.\<close>

lemma exchange_outcome:
  assumes "code_form f c" "token_endpoint env s now f a r = (s', answer)"
  shows "os_codes s' = (os_codes s)(c := None)
    \<and> (case store_peek (os_codes s) c now of
         Some p \<Rightarrow>
           if may_exchange env s now f a r p
           then answer = Token_Issued \<lparr>tb_access_token = a, tb_refresh_token = r, tb_expires_in = oe_access_ttl env,
                    tb_scope = cp_scope p\<rparr>
              \<and> os_tokens s' = os_tokens s @ [issued_row env now (cp_client_id p) (cp_identity p) (cp_resource p) [cp_scope p] a r]
              \<and> store_peek (os_refresh s') (hash_bearer env r) now
                  = (if 0 < oe_refresh_ttl env then Some \<lparr>rp_client_id = cp_client_id p, rp_identity = cp_identity p,
                       rp_resource = cp_resource p, rp_scopes = [cp_scope p]\<rparr> else None)
           else os_tokens s' = os_tokens s \<and> os_refresh s' = os_refresh s
              \<and> (answer = server_error \<or> (\<exists>d. answer = invalid_grant d))
       | None \<Rightarrow> os_tokens s' = os_tokens s \<and> os_refresh s' = os_refresh s
              \<and> answer = invalid_grant ''Unknown / expired code.'')"
proof (cases "store_peek (os_codes s) c now")
  case None
  then show ?thesis
    using assms(2) exchange_form [OF assms(1)] by (auto simp: Let_def)
next
  case (Some p)
  show ?thesis
  proof (cases "exchange_check env f p")
    case None
    then show ?thesis
      using assms(2) exchange_form [OF assms(1)] exchange_check_None [OF assms(1), of env p] \<open>store_peek _ _ _ = Some p\<close>
      by (auto simp: Let_def issue_token_pair_def may_exchange_def second_def memory.put_stores split: if_splits)
  next
    case (Some x)
    then show ?thesis
      using assms(2) exchange_form [OF assms(1)] exchange_check_None [OF assms(1), of env p]
        exchange_check_Some [OF Some] \<open>store_peek _ _ _ = Some p\<close>
      by (auto simp: Let_def may_exchange_def)
  qed
qed

lemma find_last_fresh:
  assumes "find P xs = None" "P x"
  shows "find P (xs @ [x]) = Some x"
  using assms by (induction xs) (auto split: if_splits)

lemma live_row_issued:
  assumes "token_row_fits s r" "at_revoked_at r = None" "now < at_expires_at r"
  shows "live_token_row (s'\<lparr>os_tokens := os_tokens s @ [r]\<rparr>) now (at_token_hash r) = Some r"
proof -
  have "find (\<lambda>x. at_token_hash x = at_token_hash r \<and> at_revoked_at x = None \<and> now < at_expires_at x) (os_tokens s) = None"
    using assms(1) by (auto simp: token_row_fits_def find_None_iff list_ex_iff)
  then show ?thesis
    using assms(2,3) by (simp add: live_token_row_def find_last_fresh)
qed

lemma map_of_update [simp]: "map_of (AList.update k v al) k' = (if k' = k then Some v else map_of al k')"
  by (simp add: AList.update_conv')

lemma cache_get_put:
  "now < e \<Longrightarrow> os_cache s' = os_cache (cache_put s h a e) \<Longrightarrow> snd (cache_get s' now h) = Some a"
  by (simp add: cache_get_def cache_put_def)

lemma issued_checked:
  assumes "issue_token_pair env s now cid i res sc a r = (s1, Token_Issued b)"
    and "a \<noteq> []" "rstrip_slash res = rstrip_slash (oe_server_url env)" "oe_db_up env"
    and "map_of (os_cache s) (hash_bearer env a) = None" "t < now + oe_access_ttl env * second"
  shows "verify_token env s1 t a =
    (cache_put s1 (hash_bearer env a) (token_of_row a (issued_row env now cid i res sc a r))
       (now + oe_access_ttl env * second), Some (token_of_row a (issued_row env now cid i res sc a r)))"
proof -
  let ?r = "issued_row env now cid i res sc a r" and ?h = "hash_bearer env a"
  have fits: "token_row_fits s ?r" and s1: "os_tokens s1 = os_tokens s @ [?r]" "os_cache s1 = os_cache s"
    using assms(1) by (auto simp: issue_token_pair_def server_error_def Let_def split: if_splits)
  have "live_token_row (s1\<lparr>os_tokens := os_tokens s @ [?r]\<rparr>) t ?h = Some ?r"
    using live_row_issued [OF fits, of t s1] assms(6) by (simp add: issued_row_def)
  then have "live_token_row s1 t ?h = Some ?r"
    using s1(1) by (simp add: live_token_row_def)
  then show ?thesis
    using assms(2-5) s1(2) by (auto simp: verify_token_def cache_get_def Let_def issued_row_def)
qed

text \<open>The life of an issued token. Tokens issued for this server's audience to a named identity are
  accepted from then on until the access lifetime has passed, and the tools read that identity from
  them. But the check is cached: once a token has been accepted, writing \<^verbatim>\<open>revoked_at\<close> has no effect
  before its expiry.\<close>

lemma issued_token_until_expiry:
  assumes "issue_token_pair env s now cid i res sc a r = (s1, Token_Issued b)"
    and "named i" "a \<noteq> []" "rstrip_slash res = rstrip_slash (oe_server_url env)" "oe_db_up env"
    and "map_of (os_cache s) (hash_bearer env a) = None"
    and "now \<le> t" "t < now + oe_access_ttl env * second"
    and "verify_token env s1 t a = (s2, checked)"
  shows "\<exists>token. checked = Some token \<and> identity_from_access_token token = Some i \<and> ac_client_id token = cid
      \<and> ac_expires_at token = (now + oe_access_ttl env * second) div second
      \<and> (\<forall>t' t'' db redis. t'' < now + oe_access_ttl env * second \<longrightarrow>
           snd (verify_token env (fst (step env s2 (t', db, redis, Revoke (hash_bearer env a)))) t'' a) = Some token)"
proof -
  let ?r = "issued_row env now cid i res sc a r" and ?h = "hash_bearer env a"
  let ?tok = "token_of_row a ?r"
  have v: "s2 = cache_put s1 ?h ?tok (now + oe_access_ttl env * second)" "checked = Some ?tok"
    using issued_checked [OF assms(1,3-6,8)] assms(9) by simp_all
  have "snd (verify_token env (fst (step env s2 (t', db, redis, Revoke ?h))) t'' a) = Some ?tok"
    if "t'' < now + oe_access_ttl env * second" for t' t'' db redis
  proof -
    have "snd (cache_get (fst (step env s2 (t', db, redis, Revoke ?h))) t'' ?h) = Some ?tok"
      by (rule cache_get_put [OF that]) (simp add: v(1))
    then obtain s3 where "cache_get (fst (step env s2 (t', db, redis, Revoke ?h))) t'' ?h = (s3, Some ?tok)"
      by (metis prod.collapse)
    then show ?thesis
      using assms(3) by (simp add: verify_token_def del: step.simps)
  qed
  then show ?thesis
    using identity_token_of_row [of ?r a] assms(2) by (auto simp: v(2) issued_row_def) (simp_all add: token_of_row_def)
qed

section \<open>A login from start to end\<close>

definition sample_identity :: identity where
  "sample_identity = \<lparr>id_tenant_id = ''t1'', id_user_id = ''u1'', id_user_email = ''e1''\<rparr>"

definition sample_code_for :: "string \<Rightarrow> code_payload" where
  "sample_code_for scope = \<lparr>cp_client_id = ''cl'', cp_redirect_uri = sample_uri,
     cp_code_challenge = b64url (oe_sha256 sample_oauth_env ''v''), cp_code_challenge_method = ''S256'',
     cp_identity = sample_identity, cp_resource = ''https://m/'', cp_scope = scope\<rparr>"

abbreviation sample_code :: code_payload where
  "sample_code \<equiv> sample_code_for ''ogma:tenant_id=evil''"

lemma length_sample_hash: "length (hash_bearer sample_oauth_env t) = 64"
proof -
  have "length (hexdigest bs) = 2 * length bs" for bs
    by (induction bs) (simp_all add: hexdigest_def)
  then show ?thesis
    by (simp add: hash_bearer_def sample_oauth_env_def)
qed

lemma sample_callback_claims:
  "bridge_verify sample_bridge_env (Some \<lparr>bc_jwk = j, bc_public_key = kp_public sample_keypair\<rparr>) 1000000 (sample_bridge_token ''st'')
    = Inr (bridge_payload ''t1'' ''u1'' ''e1'' ''st'' 1000000)"
  unfolding sample_bridge_token_def
  by (rule verify_signed [OF sample_bridge_contract load_sample_keypair]) (simp_all add: second_def)

lemma sample_key_fetch:
  "refresh_bridge_jwk sample_bridge_env sample_key_answers None
    = (Some \<lparr>bc_jwk = public_jwk sample_keypair, bc_public_key = kp_public sample_keypair\<rparr>,
       Refreshed (map_of (public_jwk sample_keypair) ''kid''))"
  using refresh_first [of sample_key_answers "[]" _ _ sample_bridge_env]
    set_jwk_public_jwk [OF sample_bridge_contract load_sample_keypair]
  by (simp add: sample_key_answers_def jwk_tries_def)

lemma sample_uri_allowed: "redirect_uri_allowed sample_uri"
  by (simp add: redirect_uri_allowed_def ALLOWED_REDIRECT_URI_PREFIXES_def sample_uri_def)

lemma length_sample_uri: "length sample_uri = 39"
  by (simp add: sample_uri_def)

lemma sample_oauth_simps:
  "oe_bridge sample_oauth_env = sample_bridge_env" "oe_server_url sample_oauth_env = ''https://m/''"
  "\<not> spike_mode_enabled sample_oauth_env" "oe_access_ttl sample_oauth_env = 3600" "oe_db_up sample_oauth_env"
  "\<not> spike_mode_enabled (sample_oauth_env\<lparr>oe_db_up := b, oe_redis_up := c\<rparr>)"
  by (simp_all add: sample_oauth_env_def spike_mode_enabled_def truthy_def)

lemma sample_login_state:
  assumes "scope \<noteq> []"
  shows "\<exists>s. run sample_oauth_env empty_server (sample_login_for scope) = s \<and> os_codes s = [''c1'' \<mapsto> (sample_code_for scope, 601000000)]
     \<and> os_tokens s = [] \<and> os_cache s = [] \<and> (\<exists>c. os_clients s = [c] \<and> oc_client_id c = ''cl'')"
proof -
  have challenge: "b64url (oe_sha256 sample_oauth_env ''v'') \<noteq> []"
    by (simp add: sample_oauth_env_def b64url_Nil_iff)
  show ?thesis
    using assms by (simp add: sample_login_for_def handler_defs sample_oauth_simps empty_server_def sample_key_fetch
        sample_uri_allowed length_sample_hash client_fits_def present_def authorize_check_def live_client_def challenge
        or_else_def sample_callback_claims payload_fields claim_text_def identity_of_claims_def redis_set_def
        redis_getdel_def store_peek_def STATE_TTL_def AUTH_CODE_TTL_def second_def store_put_def sample_code_for_def
        sample_identity_def length_sample_uri)
qed

definition sample_refresh :: token_form where
  "sample_refresh = \<lparr>tf_grant_type = Some ''refresh_token'', tf_code = None, tf_code_verifier = None,
     tf_client_id = Some ''cl'', tf_redirect_uri = None, tf_refresh_token = Some ''rt''\<rparr>"

lemma sample_exchange_form: "code_form sample_exchange ''c1''"
  by (simp add: code_form_def sample_exchange_def present_def)

lemma utf8_v: "utf8_char CHR ''v'' = ''v''"
  by (simp add: utf8_char_def)

lemma sample_may_exchange:
  assumes "scope \<noteq> []" "length scope \<le> 64"
  shows "may_exchange sample_oauth_env (run sample_oauth_env empty_server (sample_login_for scope)) 2000000 sample_exchange
    ''at'' ''rt'' (sample_code_for scope)"
  using sample_login_state [OF assms(1)]
  by (auto simp: may_exchange_def sample_exchange_def sample_code_for_def sample_oauth_simps token_row_fits_def issued_row_def
      length_sample_hash sample_identity_def is_ascii_b64url utf8_v assms(2))

lemma sample_issued:
  assumes "scope \<noteq> []" "length scope \<le> 64"
  shows "\<exists>s s1 b. issue_token_pair sample_oauth_env s 2000000 ''cl'' sample_identity ''https://m/'' [scope]
        ''at'' ''rt'' = (s1, Token_Issued b)
     \<and> os_cache s = [] \<and> run sample_oauth_env empty_server (sample_login_for scope @ [(2000000, True, True, Token sample_exchange ''at'' ''rt'')]) = s1"
proof -
  define s where "s = run sample_oauth_env empty_server (sample_login_for scope)"
  have s: "os_codes s = [''c1'' \<mapsto> (sample_code_for scope, 601000000)]" "os_cache s = []"
    using sample_login_state [OF assms(1)] by (auto simp: s_def)
  have up: "sample_oauth_env\<lparr>oe_db_up := True, oe_redis_up := True\<rparr> = sample_oauth_env"
    by (simp add: sample_oauth_env_def)
  have "exchange_check sample_oauth_env sample_exchange (sample_code_for scope) = None"
    using sample_may_exchange [OF assms] exchange_check_None [OF sample_exchange_form] unfolding may_exchange_def by blast
  then have "token_endpoint sample_oauth_env s 2000000 sample_exchange ''at'' ''rt''
      = issue_token_pair sample_oauth_env (s\<lparr>os_codes := (os_codes s)(''c1'' := None)\<rparr>) 2000000 ''cl'' sample_identity
          ''https://m/'' [scope] ''at'' ''rt''"
    by (simp add: exchange_form [OF sample_exchange_form] s store_peek_def Let_def)
       (simp add: sample_exchange_def sample_code_for_def)
  moreover have "token_row_fits s (issued_row sample_oauth_env 2000000 ''cl'' sample_identity ''https://m/'' [scope] ''at'' ''rt'')"
    using sample_may_exchange [OF assms] by (simp add: may_exchange_def s_def [symmetric] sample_code_for_def)
  then have "\<exists>s1 b. issue_token_pair sample_oauth_env (s\<lparr>os_codes := (os_codes s)(''c1'' := None)\<rparr>) 2000000 ''cl''
      sample_identity ''https://m/'' [scope] ''at'' ''rt'' = (s1, Token_Issued b)"
    by (simp add: issue_token_pair_def Let_def sample_oauth_simps(5))
  ultimately show ?thesis
    using s(2) by (rule_tac exI [of _ "s\<lparr>os_codes := (os_codes s)(''c1'' := None)\<rparr>"]) (auto simp: up s_def [symmetric])
qed

lemma accepted_token_is_vouched_witness:
  "\<exists>a es. snd (verify_token sample_oauth_env (run sample_oauth_env empty_server es) 3000000 ''at'') = Some a
     \<and> (\<exists>i. identity_from_access_token a = Some i \<and> vouched sample_oauth_env es i) \<and> 3000000 < (ac_expires_at a + 1) * second"
proof -
  obtain a where a: "snd (verify_token sample_oauth_env (run sample_oauth_env empty_server
      (sample_login @ [(2000000, True, True, Token sample_exchange ''at'' ''rt'')])) 3000000 ''at'') = Some a"
    using sample_issued [of "''ogma:tenant_id=evil''"] issued_checked [of sample_oauth_env _ 2000000 "''cl''" sample_identity "''https://m/''"
        "[''ogma:tenant_id=evil'']" "''at''" "''rt''" _ _ 3000000]
    by (auto simp: sample_oauth_simps second_def)
  have "assert_spike_mode_safe sample_oauth_env" "\<not> truthy (oe_allow_spike sample_oauth_env)"
    by (simp_all add: assert_spike_mode_safe_def sample_oauth_simps) (simp add: sample_oauth_env_def truthy_def)
  from accepted_token_is_vouched [OF this a] a show ?thesis
    by blast
qed

lemma exchange_outcome_witness:
  "\<exists>s'. token_endpoint sample_oauth_env (run sample_oauth_env empty_server sample_login) 2000000 sample_exchange ''at'' ''rt''
      = (s', Token_Issued \<lparr>tb_access_token = ''at'', tb_refresh_token = ''rt'', tb_expires_in = 3600,
               tb_scope = ''ogma:tenant_id=evil''\<rparr>)
      \<and> os_codes s' ''c1'' = None"
proof -
  let ?s = "run sample_oauth_env empty_server sample_login"
  obtain s' answer where e: "token_endpoint sample_oauth_env ?s 2000000 sample_exchange ''at'' ''rt'' = (s', answer)"
    by fastforce
  have "store_peek (os_codes ?s) ''c1'' 2000000 = Some sample_code"
    using sample_login_state [of "''ogma:tenant_id=evil''"] by (auto simp: store_peek_def)
  then show ?thesis
    using exchange_outcome [OF sample_exchange_form e] e sample_may_exchange [of "''ogma:tenant_id=evil''"]
    by (simp add: sample_oauth_simps(4)) (simp add: sample_code_for_def)
qed

lemma issued_token_until_expiry_witness:
  "\<exists>s s2 token. verify_token sample_oauth_env s 3000000 ''at'' = (s2, Some token)
     \<and> identity_from_access_token token = Some sample_identity
     \<and> snd (verify_token sample_oauth_env (fst (step sample_oauth_env s2
            (4000000, True, True, Revoke (hash_bearer sample_oauth_env ''at'')))) 3000000000 ''at'') = Some token"
proof -
  obtain s s1 b where i: "issue_token_pair sample_oauth_env s 2000000 ''cl'' sample_identity ''https://m/''
      [''ogma:tenant_id=evil''] ''at'' ''rt'' = (s1, Token_Issued b)" "os_cache s = []"
    using sample_issued [of "''ogma:tenant_id=evil''"] by auto
  obtain s2 c where v: "verify_token sample_oauth_env s1 3000000 ''at'' = (s2, c)"
    by fastforce
  have "named sample_identity"
    by (simp add: named_def sample_identity_def)
  then obtain token where "c = Some token" "identity_from_access_token token = Some sample_identity"
    "snd (verify_token sample_oauth_env (fst (step sample_oauth_env s2
            (4000000, True, True, Revoke (hash_bearer sample_oauth_env ''at'')))) 3000000000 ''at'') = Some token"
    using issued_token_until_expiry [OF i(1) _ _ _ _ _ _ _ v] i(2)
    by (fastforce simp add: sample_oauth_simps second_def simp del: step.simps)
  with v show ?thesis
    by blast
qed

lemma hexdigest_inject: "length x = length y \<Longrightarrow> hexdigest x = hexdigest y \<Longrightarrow> x = y"
proof (induction x y rule: list_induct2)
  case (Cons a x b y)
  have "list_all (\<lambda>n. list_all (\<lambda>m. hexdig n = hexdig m \<longrightarrow> n = m) [0..<16]) [0..<16]"
    by (simp add: upt_rec hexdig_def)
  then have hex: "hexdig n = hexdig m \<Longrightarrow> n < 16 \<Longrightarrow> m < 16 \<Longrightarrow> n = m" for n m
    by (simp add: list_all_iff)
  have "(of_char a :: nat) div 16 = of_char b div 16" "(of_char a :: nat) mod 16 = of_char b mod 16"
    using Cons.prems by (auto simp: hexdigest_def div_less_iff_less_mult intro!: hex)
  then have "(of_char a :: nat) = of_char b"
    by (metis div_mult_mod_eq)
  then show ?case
    using Cons by (simp add: hexdigest_def)
qed simp

lemma sample_hash_differs: "hash_bearer sample_oauth_env ''r2'' \<noteq> hash_bearer sample_oauth_env ''rt''"
proof
  assume "hash_bearer sample_oauth_env ''r2'' = hash_bearer sample_oauth_env ''rt''"
  then have "oe_sha256 sample_oauth_env (utf8_encode ''r2'') = oe_sha256 sample_oauth_env (utf8_encode ''rt'')"
    unfolding hash_bearer_def by (rule hexdigest_inject [rotated]) (simp add: sample_oauth_env_def)
  then show False
    by (simp add: sample_oauth_env_def utf8_char_def)
qed

lemma sample_callback_state:
  "callback_state sample_oauth_env (empty_server\<lparr>os_bridge := Some \<lparr>bc_jwk = [], bc_public_key = kp_public sample_keypair\<rparr>\<rparr>)
     1000000 (sample_bridge_token ''st'') = Some ''st''"
  by (simp add: callback_state_def sample_oauth_simps sample_callback_claims claim_text_def payload_fields)

lemma os_bridge_callback: "os_bridge (fst (authorize_callback env s now token fresh)) = os_bridge s"
  by (auto simp: handler_defs split: option.splits prod.splits sum.splits verify_error.splits)

lemma grants_are_single_use_witness:
  "snd (token_endpoint sample_oauth_env (run sample_oauth_env (fst (token_endpoint sample_oauth_env
          (run sample_oauth_env empty_server sample_login) 2000000 sample_exchange ''at'' ''rt'')) [(2500000, True, True, Restart)])
        3000000 sample_exchange ''a2'' ''r2'') = invalid_grant ''Unknown / expired code.''
   \<and> snd (token_endpoint sample_oauth_env (run sample_oauth_env (fst (token_endpoint sample_oauth_env
          (run sample_oauth_env empty_server sample_login) 2000000 sample_refresh ''a3'' ''r2'')) [])
        3000000 sample_refresh ''a4'' ''r3'') = invalid_grant ''Unknown / expired refresh token.''
   \<and> (let s = empty_server\<lparr>os_bridge := Some \<lparr>bc_jwk = [], bc_public_key = kp_public sample_keypair\<rparr>\<rparr>;
          s1 = fst (authorize_callback sample_oauth_env s 1000000 (sample_bridge_token ''st'') ''c1'')
      in snd (authorize_callback sample_oauth_env s1 1000000 (sample_bridge_token ''st'') ''c2'')
           = bridge_callback_400 ''Bridge state expired, replayed, or never registered.'')"
proof -
  have f: "refresh_form sample_refresh ''rt''"
    by (simp add: refresh_form_def sample_refresh_def present_def)
  have "oe_redis_up sample_oauth_env"
    by (simp add: sample_oauth_env_def)
  moreover note grants_are_single_use [where f = sample_exchange and f' = sample_exchange and c = "''c1''"
      and es = "[(2500000, True, True, Restart)]" and env = sample_oauth_env and now = 2000000 and now' = 3000000
      and s = "run sample_oauth_env empty_server sample_login" and a = "''at''" and r = "''rt''" and a' = "''a2''" and r' = "''r2''",
      THEN conjunct1]
  moreover note grants_are_single_use [where f = sample_refresh and f' = sample_refresh and t = "''rt''"
      and es = "[]" and env = sample_oauth_env and now = 2000000 and now' = 3000000
      and s = "run sample_oauth_env empty_server sample_login" and a = "''a3''" and r = "''r2''" and a' = "''a4''" and r' = "''r3''",
      THEN conjunct2, THEN conjunct1]
  moreover note grants_are_single_use [where es = "[]" and env = sample_oauth_env and now = 1000000 and now' = 1000000
      and s = "empty_server\<lparr>os_bridge := Some \<lparr>bc_jwk = [], bc_public_key = kp_public sample_keypair\<rparr>\<rparr>"
      and token = "sample_bridge_token ''st''" and token' = "sample_bridge_token ''st''" and st = "''st''"
      and c = "''c1''" and c' = "''c2''", THEN conjunct2, THEN conjunct2]
  ultimately show ?thesis
    unfolding Let_def using f sample_exchange_form sample_hash_differs sample_callback_state
    by (simp del: step.simps add: callback_state_def os_bridge_callback)
qed

end
