(* ===== verification/McpServer.thy ===== *)
theory McpServer
  imports Chain OAuth
begin

text \<open>
  The MCP tool (\<^verbatim>\<open>mcp_server/mcp/server.py\<close>, \<^verbatim>\<open>mcp_server/mcp/tools/log_interaction.py\<close>) between the bearer
  check of theory \<open>OAuth\<close> and the task \<^verbatim>\<open>persist_event\<close> of theory \<open>Chain\<close>: the SDK's middleware checks
  the token and the scopes the server requires, the tool reads the identity out of it, the handler queues a message, and the worker turns
  the message into a row. The schema check of the SDK on the tool's arguments is written out; the
  queue delivers a message as it was sent, any number of times.
\<close>

section \<open>The tool\<close>

record tool_args =
  ta_kind :: string
  ta_model :: string
  ta_summary :: string
  ta_input_tokens_estimate :: int
  ta_output_tokens_estimate :: int
  ta_tool_calls_count :: int
  ta_surface :: "string option"

record mcp_message =
  mm_event_id :: string
  mm_tenant_id :: string
  mm_user_id :: string
  mm_user_email :: string
  mm_kind :: string
  mm_model :: string
  mm_summary :: string
  mm_input_tokens_estimate :: int
  mm_output_tokens_estimate :: int
  mm_tool_calls_count :: int
  mm_surface :: "string option"
  mm_client_received_at :: string

definition InteractionKind :: "string list" where
  "InteractionKind = [''chat'', ''edit'', ''search'', ''tool_use'', ''other'']"

definition Surface :: "string list" where
  "Surface = [''claude_code'', ''claude_desktop'', ''claude_web'', ''other'']"

definition schema_ok :: "tool_args \<Rightarrow> bool" where
  "schema_ok a = (ta_kind a \<in> set InteractionKind \<and> (case ta_surface a of None \<Rightarrow> True | Some s \<Rightarrow> s \<in> set Surface))"

datatype tool_result =
  Logged mcp_message
| Unauthorized
| Insufficient_Scope
| Bad_Arguments
| Summary_Required
| Missing_Identity

text \<open>\<open>event_id\<close> is \<^verbatim>\<open>uuid4\<close>, \<open>received\<close> the clock at the start of the handler.\<close>

definition handle_log_interaction :: "tool_args \<Rightarrow> identity \<Rightarrow> string \<Rightarrow> datetime \<Rightarrow> tool_result" where
  "handle_log_interaction a i event_id received =
     (if ta_summary a = [] then Summary_Required
      else Logged
        \<lparr>mm_event_id = event_id, mm_tenant_id = id_tenant_id i, mm_user_id = id_user_id i,
         mm_user_email = id_user_email i, mm_kind = ta_kind a, mm_model = ta_model a,
         mm_summary = take 500 (ta_summary a), mm_input_tokens_estimate = ta_input_tokens_estimate a,
         mm_output_tokens_estimate = ta_output_tokens_estimate a,
         mm_tool_calls_count = ta_tool_calls_count a, mm_surface = ta_surface a,
         mm_client_received_at = isoformat received\<rparr>)"

text \<open>\<^verbatim>\<open>AuthSettings(required_scopes=...)\<close>: the SDK answers 403 unless every one of them is among the token's
  scopes, compared as whole texts.\<close>

definition required_scopes :: "string list" where
  "required_scopes = [''log_interaction'']"

definition scopes_ok :: "access_token \<Rightarrow> bool" where
  "scopes_ok access \<longleftrightarrow> set required_scopes \<subseteq> set (ac_scopes access)"

definition log_interaction ::
  "oauth_env \<Rightarrow> oauth_server \<Rightarrow> int \<Rightarrow> string \<Rightarrow> tool_args \<Rightarrow> string \<Rightarrow> datetime \<Rightarrow> oauth_server \<times> tool_result"
where
  "log_interaction env s now bearer a event_id received =
     (case verify_token env s now bearer of
        (s', None) \<Rightarrow> (s', Unauthorized)
      | (s', Some access) \<Rightarrow>
          (s', if \<not> scopes_ok access then Insufficient_Scope
               else if \<not> schema_ok a then Bad_Arguments
               else case identity_from_access_token access of
                 None \<Rightarrow> Missing_Identity
               | Some i \<Rightarrow> handle_log_interaction a i event_id received))"

section \<open>The worker\<close>

definition message_event :: "mcp_message \<Rightarrow> mcp_event option" where
  "message_event m =
     map_option (\<lambda>t. \<lparr>ev_event_id = mm_event_id m, ev_tenant_id = mm_tenant_id m, ev_user_id = mm_user_id m,
         ev_user_email = mm_user_email m, ev_kind = mm_kind m, ev_model = mm_model m,
         ev_summary = mm_summary m, ev_input_tokens_estimate = mm_input_tokens_estimate m,
         ev_output_tokens_estimate = mm_output_tokens_estimate m, ev_tool_calls_count = mm_tool_calls_count m,
         ev_surface = mm_surface m, ev_client_received_at = t\<rparr>)
       (fromisoformat (mm_client_received_at m))"

text \<open>A message without a tenant or with an unreadable time raises \<^verbatim>\<open>ValueError\<close> before the retry block.\<close>

definition persist_message ::
  "chain_env \<Rightarrow> nat \<Rightarrow> mcp_message \<Rightarrow> records_table \<Rightarrow> records_table \<Rightarrow> records_table \<times> persist_result"
where
  "persist_message env retries m snap db =
     (case message_event m of None \<Rightarrow> (db, Rejected) | Some e \<Rightarrow> persist_event env retries e snap db)"

lemma log_interaction_Logged:
  assumes "log_interaction env s now bearer a event_id received = (s', Logged m)"
  shows "\<exists>access i. verify_token env s now bearer = (s', Some access) \<and> identity_from_access_token access = Some i
     \<and> schema_ok a \<and> ta_summary a \<noteq> [] \<and> handle_log_interaction a i event_id received = Logged m"
  using assms
  by (auto simp: log_interaction_def handle_log_interaction_def split: prod.splits option.splits if_splits)

text \<open>A token issued for a scope carries it as one text, so only the scope \<^verbatim>\<open>log_interaction\<close> itself will do.\<close>

lemma scopes_ok_token_of_row:
  assumes "at_scopes r = Some [scope]"
  shows "scopes_ok (token_of_row token r) \<longleftrightarrow> scope = ''log_interaction''"
  using assms by (simp add: scopes_ok_def required_scopes_def token_of_row_def identity_scopes_def) blast

lemma message_event_Logged:
  assumes "handle_log_interaction a i event_id received = Logged m" "py_datetime received"
  shows "\<exists>e. message_event m = Some e \<and> ev_tenant_id e = id_tenant_id i \<and> ev_user_id e = id_user_id i
     \<and> ev_event_id e = event_id \<and> ev_client_received_at e = received"
  using assms
  by (auto simp: handle_log_interaction_def message_event_def fromisoformat_isoformat split: if_splits)

text \<open>C18: From the login to the ledger. When the server, booted without the test override, answers a
  tool call with a queued message and a worker persists it, however often it was delivered before, then
  exactly one row is appended, and its tenant and subject are those of a person the SSO bridge vouched
  for, not anything the client sent; the row's source is MCP, its key names tenant, user and event id,
  and its time is the instant of the call. Rows of other tenants stay as they were.\<close>

theorem tool_call_to_ledger:
  assumes "assert_spike_mode_safe env" "\<not> truthy (oe_allow_spike env)"
    and "log_interaction env (run env empty_server es) now bearer a event_id received = (s', Logged m)"
    and "py_datetime received" "dt_off received = Some 0"
    and "persist_message cenv n m snap db = (db', Persisted eid q)"
  shows "\<exists>i r. vouched env es i \<and> db' = db @ [r] \<and> tr_tenant_id r = id_tenant_id i
      \<and> tr_subject_user_id r = Some (id_user_id i) \<and> tr_source_api r = ''mcp'' \<and> tr_chain_seq r = q
      \<and> tr_external_id r = ''mcp:'' @ id_tenant_id i @ '':'' @ id_user_id i @ '':'' @ event_id \<and> eid = event_id
      \<and> instant (tr_occurred_at r) = instant received
      \<and> (\<forall>t. t \<noteq> id_tenant_id i \<longrightarrow> rows_of t db' = rows_of t db)"
proof -
  obtain access i where v: "verify_token env (run env empty_server es) now bearer = (s', Some access)"
    "identity_from_access_token access = Some i" "handle_log_interaction a i event_id received = Logged m"
    using log_interaction_Logged [OF assms(3)] by blast
  have i: "vouched env es i"
    using accepted_is_vouched [OF assms(1,2) v(1,2)] .
  obtain e where e: "message_event m = Some e" "ev_tenant_id e = id_tenant_id i" "ev_user_id e = id_user_id i"
    "ev_event_id e = event_id" "ev_client_received_at e = received"
    using message_event_Logged [OF v(3) assms(4)] by blast
  obtain x r where r: "db' = db @ [x]" "x = store_row cenv r" "eid = event_id" "q = tr_chain_seq x"
    and b: "build_record cenv (id_tenant_id i) (event_args cenv e) (chain_tip (rows_of (id_tenant_id i) snap)) = Inr r"
    using persist_event_Persisted [of cenv n e snap db db' eid q] assms(6) e
    by (auto simp: persist_message_def append_between_Inr)
  note f = build_record_fields [OF b]
  have "tr_occurred_at r = received"
    using b e(5) by (auto simp: build_record_def event_args_def Let_def split: if_splits option.splits)
  then have "instant (tr_occurred_at x) = instant received"
    using assms(4,5) by (simp add: r(2) store_row_def timestamptz_def py_datetime_def)
  then show ?thesis
    using i r f e by (intro exI [of _ i] exI [of _ x]) (auto simp: event_args_def event_external_id_def rows_of_def)
qed

definition sample_tool_args :: tool_args where
  "sample_tool_args = \<lparr>ta_kind = ''chat'', ta_model = ''m'', ta_summary = ''s'', ta_input_tokens_estimate = 1,
     ta_output_tokens_estimate = 2, ta_tool_calls_count = 0, ta_surface = None\<rparr>"

lemma persist_first:
  assumes "ev_tenant_id e = t" "t \<noteq> []" "args_fit t (event_args sample_env e)"
  shows "\<exists>x. persist_event sample_env 0 e [] [] = ([x], Persisted (ev_event_id e) 1)"
proof -
  obtain r where r: "build_record sample_env t (event_args sample_env e) (chain_tip (rows_of t [])) = Inr r"
    using build_record_ok [OF sample_contract, of t "event_args sample_env e"] assms(2) by auto
  show ?thesis
    using build_record_fields(1,8) [OF r] r build_record_fits [OF r] assms
    by (simp add: persist_event_def append_between_def insert_row_def rows_of_def chain_tip_def)
qed

lemma sample_tool_call:
  "\<exists>es s m. log_interaction sample_oauth_env (run sample_oauth_env empty_server es) 3000000 ''at'' sample_tool_args ''x1''
      sample_time = (s, Logged m) \<and> (\<exists>x. persist_message sample_env 0 m [] [] = ([x], Persisted ''x1'' 1))"
proof -
  obtain s s1 b where i: "issue_token_pair sample_oauth_env s 2000000 ''cl'' sample_identity ''https://m/''
      [''log_interaction''] ''at'' ''rt'' = (s1, Token_Issued b)" "os_cache s = []"
    "run sample_oauth_env empty_server (sample_login_for ''log_interaction'' @ [(2000000, True, True, Token sample_exchange ''at'' ''rt'')]) = s1"
    using sample_issued [of "''log_interaction''"] by auto
  let ?tok = "token_of_row ''at'' (issued_row sample_oauth_env 2000000 ''cl'' sample_identity ''https://m/'' [''log_interaction''] ''at'' ''rt'')"
  have "\<exists>s2. verify_token sample_oauth_env s1 3000000 ''at'' = (s2, Some ?tok)"
    using issued_checked [OF i(1), of 3000000] i(2) by (simp add: sample_oauth_simps second_def)
  moreover have "identity_from_access_token ?tok = Some sample_identity"
    by (simp add: identity_token_of_row issued_row_def named_def sample_identity_def)
  moreover have "scopes_ok ?tok"
    by (simp add: scopes_ok_token_of_row issued_row_def)
  ultimately obtain s2 m where l: "log_interaction sample_oauth_env s1 3000000 ''at'' sample_tool_args ''x1'' sample_time = (s2, Logged m)"
    "handle_log_interaction sample_tool_args sample_identity ''x1'' sample_time = Logged m"
    by (auto simp: log_interaction_def schema_ok_def sample_tool_args_def InteractionKind_def handle_log_interaction_def)
  obtain e where e: "message_event m = Some e" "ev_tenant_id e = ''t1''" "ev_user_id e = ''u1''" "ev_event_id e = ''x1''"
    using message_event_Logged [OF l(2)] valid_sample_time
    by (auto simp: sample_identity_def sample_time_def py_datetime_def)
  have "args_fit ''t1'' (event_args sample_env e)"
    by (simp add: args_fit_def opt_fits_def event_args_def event_external_id_def e)
  then have "\<exists>x. persist_message sample_env 0 m [] [] = ([x], Persisted ''x1'' 1)"
    using persist_first [OF e(2)] by (simp add: persist_message_def e)
  then show ?thesis
    using l(1) i(3) by blast
qed

lemma tool_call_to_ledger_witness:
  "\<exists>es i (r :: telemetry_row). vouched sample_oauth_env es i \<and> tr_tenant_id r = id_tenant_id i \<and> tr_chain_seq r = 1
     \<and> tr_source_api r = ''mcp''"
proof -
  obtain es s m x where t: "log_interaction sample_oauth_env (run sample_oauth_env empty_server es) 3000000 ''at''
      sample_tool_args ''x1'' sample_time = (s, Logged m)" "persist_message sample_env 0 m [] [] = ([x], Persisted ''x1'' 1)"
    using sample_tool_call by blast
  have safe: "assert_spike_mode_safe sample_oauth_env" "\<not> truthy (oe_allow_spike sample_oauth_env)"
    by (simp_all add: assert_spike_mode_safe_def sample_oauth_simps) (simp add: sample_oauth_env_def truthy_def)
  have time: "py_datetime sample_time" "dt_off sample_time = Some 0"
    using valid_sample_time by (simp_all add: sample_time_def py_datetime_def)
  obtain i and r :: telemetry_row where "vouched sample_oauth_env es i" "tr_tenant_id r = id_tenant_id i" "tr_source_api r = ''mcp''"
    "tr_chain_seq r = 1"
    using tool_call_to_ledger [OF safe t(1) time t(2)] by blast
  then show ?thesis
    by blast
qed

end
