(* ===== verification/Session.thy ===== *)
theory Session
  imports Prelude
begin

text \<open>
  Who is signed in and what they may do (\<^verbatim>\<open>vargate_telemetry/auth/jwt.py\<close>, \<^verbatim>\<open>auth/middleware.py\<close>,
  \<^verbatim>\<open>auth/roles.py\<close> and the role endpoint of \<^verbatim>\<open>api/users.py\<close>): issuing and reading the session cookie,
  the dependencies \<^verbatim>\<open>current_user\<close>, \<^verbatim>\<open>require_admin\<close> and \<^verbatim>\<open>require_content_capture\<close>, and the change of a role
  with its last-admin guard, whose two statements run at read-committed isolation. \<^verbatim>\<open>pyjwt\<close> is a
  parameter that encodes and decodes the claims the code writes; times are microseconds since the
  epoch.
\<close>

section \<open>Session tokens\<close>

record jwt_payload =
  jp_sub :: string
  jp_email :: string
  jp_sso :: string
  jp_tenant_id :: "string option"
  jp_iat :: int
  jp_exp :: int

datatype jwt_failure = Expired_Signature | Invalid_Token string

record session_env =
  se_jwt_encode :: "jwt_payload \<Rightarrow> string \<Rightarrow> string \<Rightarrow> string"
  se_jwt_decode :: "string \<Rightarrow> string \<Rightarrow> string list \<Rightarrow> int \<Rightarrow> jwt_failure + jwt_payload"
  se_signing_key :: string

datatype session_error = Key_Missing | Session_Value_Error | Invalid_Jwt string

definition SESSION_TOKEN_TTL_SECONDS :: int where
  "SESSION_TOKEN_TTL_SECONDS = 8 * 60 * 60"

definition JWT_ALGORITHM :: string where
  "JWT_ALGORITHM = ''HS256''"

definition signing_key :: "session_env \<Rightarrow> session_error + string" where
  "signing_key env = (if se_signing_key env = [] then Inl Key_Missing else Inr (se_signing_key env))"

definition issue_session_jwt ::
  "session_env \<Rightarrow> string \<Rightarrow> string \<Rightarrow> string \<Rightarrow> string option \<Rightarrow> int \<Rightarrow> int \<Rightarrow> session_error + string"
where
  "issue_session_jwt env user_id email sso_provider tenant_id ttl_seconds now =
     (if user_id = [] \<or> email = [] \<or> sso_provider = [] then Inl Session_Value_Error
      else bindE (signing_key env) (\<lambda>k.
        Inr (se_jwt_encode env
          \<lparr>jp_sub = user_id, jp_email = email, jp_sso = sso_provider, jp_tenant_id = tenant_id,
           jp_iat = now div 1000000, jp_exp = (now + ttl_seconds * 1000000) div 1000000\<rparr> k JWT_ALGORITHM)))"

definition decode_session_jwt :: "session_env \<Rightarrow> int \<Rightarrow> string \<Rightarrow> session_error + jwt_payload" where
  "decode_session_jwt env now token =
     (if token = [] then Inl (Invalid_Jwt ''empty token'')
      else bindE (signing_key env) (\<lambda>k.
        case se_jwt_decode env token k [JWT_ALGORITHM] now of
          Inl Expired_Signature \<Rightarrow> Inl (Invalid_Jwt ''session token expired'')
        | Inl (Invalid_Token m) \<Rightarrow> Inl (Invalid_Jwt (''session token invalid: '' @ m))
        | Inr p \<Rightarrow> Inr p))"

text \<open>What the code relies on: a token decodes to what was encoded under the same key and algorithm,
  between \<^verbatim>\<open>iat\<close> and \<^verbatim>\<open>exp\<close>, it is refused as expired afterwards, and it is not empty.\<close>

definition session_contract :: "session_env \<Rightarrow> bool" where
  "session_contract env \<longleftrightarrow>
     (\<forall>p k alg now. se_jwt_encode env p k alg \<noteq> [] \<and>
        (jp_iat p * 1000000 \<le> now \<longrightarrow>
         se_jwt_decode env (se_jwt_encode env p k alg) k [alg] now
           = (if now < jp_exp p * 1000000 then Inr p else Inl Expired_Signature)))"

section \<open>The caller of a request\<close>

record authenticated_user =
  au_user_id :: string
  au_email :: string
  au_sso_provider :: string
  au_tenant_id :: "string option"

definition from_jwt :: "jwt_payload \<Rightarrow> authenticated_user" where
  "from_jwt p = \<lparr>au_user_id = jp_sub p, au_email = jp_email p, au_sso_provider = jp_sso p, au_tenant_id = jp_tenant_id p\<rparr>"

record request =
  rq_session_cookie :: "string option"
  rq_authorization :: "string option"

fun partition_space :: "string \<Rightarrow> string \<times> string" where
  "partition_space [] = ([], [])"
| "partition_space (c # s) = (if c = CHR '' '' then ([], s) else (case partition_space s of (a, b) \<Rightarrow> (c # a, b)))"

definition extract_token :: "request \<Rightarrow> string option" where
  "extract_token r =
     (case rq_session_cookie r of
        Some (c # cs) \<Rightarrow> Some (c # cs)
      | _ \<Rightarrow>
          (case partition_space (case rq_authorization r of None \<Rightarrow> [] | Some h \<Rightarrow> h) of
             (scheme, token) \<Rightarrow> if map ascii_lower scheme = ''bearer'' \<and> token \<noteq> [] then Some token else None))"

datatype http_error = Http nat string

definition current_user :: "session_env \<Rightarrow> int \<Rightarrow> request \<Rightarrow> http_error + authenticated_user" where
  "current_user env now r =
     (case extract_token r of
        None \<Rightarrow> Inl (Http 401 ''unauthenticated'')
      | Some token \<Rightarrow>
          (case decode_session_jwt env now token of
             Inl Key_Missing \<Rightarrow> Inl (Http 500 [])
           | Inl e \<Rightarrow> Inl (Http 401 ''unauthenticated'')
           | Inr p \<Rightarrow> Inr (from_jwt p)))"

section \<open>Roles\<close>

record user_row =
  us_id :: string
  us_email :: string
  us_tenant_id :: "string option"
  us_role :: string

definition ROLE_ADMIN :: string where
  "ROLE_ADMIN = ''admin''"

definition ROLE_MEMBER :: string where
  "ROLE_MEMBER = ''member''"

definition get_role :: "user_row list \<Rightarrow> string \<Rightarrow> string \<Rightarrow> string option" where
  "get_role users uid tid =
     map_option us_role (find (\<lambda>u. us_id u = uid \<and> us_tenant_id u = Some tid) users)"

definition count_admins :: "user_row list \<Rightarrow> string \<Rightarrow> nat" where
  "count_admins users tid = length (filter (\<lambda>u. us_tenant_id u = Some tid \<and> us_role u = ROLE_ADMIN) users)"

text \<open>The session scope raises \<^verbatim>\<open>ValueError\<close> on an empty tenant id, here status 500.\<close>

definition require_admin :: "user_row list \<Rightarrow> authenticated_user \<Rightarrow> http_error + authenticated_user" where
  "require_admin users user =
     (case au_tenant_id user of
        None \<Rightarrow> Inl (Http 400 ''no_tenant_bound'')
      | Some tid \<Rightarrow>
          if tid = [] then Inl (Http 500 [])
          else if get_role users (au_user_id user) tid = Some ROLE_ADMIN then Inr user
          else Inl (Http 403 ''admin_required''))"

text \<open>\<open>secrets\<close> holds the (tenant, name) pairs of \<^verbatim>\<open>encrypted_secrets\<close>, which row-level security confines
  to the tenant of the session.\<close>

definition require_content_capture ::
  "(string \<times> string) list \<Rightarrow> string \<Rightarrow> authenticated_user \<Rightarrow> http_error + authenticated_user"
where
  "require_content_capture secrets key_name user =
     (case au_tenant_id user of
        None \<Rightarrow> Inl (Http 400 ''no_tenant_bound'')
      | Some tid \<Rightarrow>
          if tid = [] then Inl (Http 500 [])
          else if (tid, key_name) \<in> set secrets then Inr user
          else Inl (Http 403 ''compliance_tier_required''))"

section \<open>Changing a role\<close>

text \<open>
  \<^verbatim>\<open>set_user_role\<close> in its two statements: the reads, on the rows its transaction sees, and the UPDATE, on
  the rows committed by then. \<open>target\<close> is a parsed UUID, so it is written canonically.
\<close>

definition role_reads :: "string \<Rightarrow> authenticated_user \<Rightarrow> string \<Rightarrow> user_row list \<Rightarrow> http_error + string" where
  "role_reads role admin target users =
     (let new_role = map ascii_lower (strip role)
      in if new_role \<notin> {ROLE_ADMIN, ROLE_MEMBER} then Inl (Http 422 ''invalid_role'')
         else case au_tenant_id admin of
           None \<Rightarrow> Inl (Http 500 [])
         | Some tid \<Rightarrow>
             (case get_role users target tid of
                None \<Rightarrow> Inl (Http 404 ''user_not_found'')
              | Some r \<Rightarrow>
                  if r = ROLE_ADMIN \<and> new_role \<noteq> ROLE_ADMIN \<and> count_admins users tid \<le> 1
                  then Inl (Http 409 ''last_admin'') else Inr new_role))"

definition role_update :: "string \<Rightarrow> string \<Rightarrow> string \<Rightarrow> user_row list \<Rightarrow> user_row list" where
  "role_update new_role tid target users =
     map (\<lambda>u. if us_id u = target \<and> us_tenant_id u = Some tid then u\<lparr>us_role := new_role\<rparr> else u) users"

definition set_user_role_between ::
  "string \<Rightarrow> authenticated_user \<Rightarrow> string \<Rightarrow> user_row list \<Rightarrow> user_row list \<Rightarrow> user_row list \<times> (http_error + string)"
where
  "set_user_role_between role admin target snap users =
     (case require_admin snap admin of
        Inl e \<Rightarrow> (users, Inl e)
      | Inr admin \<Rightarrow>
          (case role_reads role admin target snap of
             Inl e \<Rightarrow> (users, Inl e)
           | Inr new_role \<Rightarrow>
               (role_update new_role (the (au_tenant_id admin)) target users, Inr new_role)))"

definition set_user_role ::
  "string \<Rightarrow> authenticated_user \<Rightarrow> string \<Rightarrow> user_row list \<Rightarrow> user_row list \<times> (http_error + string)"
where
  "set_user_role role admin target users = set_user_role_between role admin target users users"

section \<open>Admins\<close>

lemma role_update_simps [simp]:
  "role_update r tid t [] = []"
  "role_update r tid t (u # us) =
     (if us_id u = t \<and> us_tenant_id u = Some tid then u\<lparr>us_role := r\<rparr> else u) # role_update r tid t us"
  "map us_id (role_update r tid t us) = map us_id us"
  by (auto simp: role_update_def)

lemma role_update_absent: "t \<notin> us_id ` set users \<Longrightarrow> role_update r tid t users = users"
  by (induction users) auto

lemma role_update_other_tenant:
  "t' \<noteq> tid \<Longrightarrow> filter (\<lambda>u. us_tenant_id u = Some t') (role_update r tid t users) = filter (\<lambda>u. us_tenant_id u = Some t') users"
  by (induction users) auto

lemma count_admins_simps [simp]:
  "count_admins [] tid = 0"
  "count_admins (u # us) tid = (if us_tenant_id u = Some tid \<and> us_role u = ROLE_ADMIN then 1 else 0) + count_admins us tid"
  by (simp_all add: count_admins_def)

lemma count_admins_promote: "count_admins users tid \<le> count_admins (role_update ROLE_ADMIN tid t users) tid"
  by (induction users) auto

lemma count_admins_demote:
  "distinct (map us_id users) \<Longrightarrow> count_admins users tid \<le> count_admins (role_update r tid t users) tid + 1"
  by (induction users) (auto simp: role_update_absent)

lemma get_role_simps [simp]:
  "get_role [] uid tid = None"
  "get_role (u # us) uid tid = (if us_id u = uid \<and> us_tenant_id u = Some tid then Some (us_role u) else get_role us uid tid)"
  by (simp_all add: get_role_def)

lemma count_admins_demote_member:
  "distinct (map us_id users) \<Longrightarrow> get_role users t tid \<noteq> Some ROLE_ADMIN \<Longrightarrow>
     count_admins users tid \<le> count_admins (role_update r tid t users) tid"
  by (induction users) (auto simp: role_update_absent split: if_splits)

lemma get_role_admin: "get_role users uid tid = Some ROLE_ADMIN \<Longrightarrow> 1 \<le> count_admins users tid"
  by (induction users) (auto split: if_splits)

lemma role_reads_Inr:
  "role_reads role admin t users = Inr r \<longleftrightarrow>
     r = map ascii_lower (strip role) \<and> r \<in> {ROLE_ADMIN, ROLE_MEMBER} \<and>
     (\<exists>tid old. au_tenant_id admin = Some tid \<and> get_role users t tid = Some old
        \<and> (old = ROLE_ADMIN \<and> r \<noteq> ROLE_ADMIN \<longrightarrow> 2 \<le> count_admins users tid))"
  by (auto simp: role_reads_def Let_def split: option.splits if_splits)

lemma require_admin_Inr:
  "require_admin users user = Inr a \<longleftrightarrow>
     a = user \<and> (\<exists>tid. au_tenant_id user = Some tid \<and> tid \<noteq> [] \<and> get_role users (au_user_id user) tid = Some ROLE_ADMIN)"
  by (auto simp: require_admin_def split: option.splits)

lemma set_user_role_cases:
  assumes "set_user_role role user t users = (users', res)"
  obtains (refused) e where "users' = users" "res = Inl e"
  | (changed) tid r where "res = Inr r" "users' = role_update r tid t users" "au_tenant_id user = Some tid"
      "get_role users (au_user_id user) tid = Some ROLE_ADMIN" "r \<in> {ROLE_ADMIN, ROLE_MEMBER}"
      "get_role users t tid = Some ROLE_ADMIN \<and> r \<noteq> ROLE_ADMIN \<longrightarrow> 2 \<le> count_admins users tid"
proof (cases "require_admin users user")
  case (Inl e)
  then show ?thesis
    using assms refused by (auto simp: set_user_role_def set_user_role_between_def)
next
  case (Inr a)
  then obtain tid where a: "a = user" "au_tenant_id user = Some tid" "get_role users (au_user_id user) tid = Some ROLE_ADMIN"
    by (auto simp: require_admin_Inr)
  show ?thesis
  proof (cases "role_reads role user t users")
    case (Inl e)
    then show ?thesis
      using assms \<open>require_admin users user = Inr a\<close> a
      by (intro refused [of e]) (auto simp: set_user_role_def set_user_role_between_def)
  next
    case (Inr r)
    have "res = Inr r" "users' = role_update r tid t users"
      using assms \<open>require_admin users user = Inr a\<close> Inr a by (simp_all add: set_user_role_def set_user_role_between_def)
    moreover have "r \<in> {ROLE_ADMIN, ROLE_MEMBER}"
      "get_role users t tid = Some ROLE_ADMIN \<and> r \<noteq> ROLE_ADMIN \<longrightarrow> 2 \<le> count_admins users tid"
      using Inr a(2) unfolding role_reads_Inr by auto
    ultimately show ?thesis
      using changed a(2,3) by blast
  qed
qed

lemma set_user_role_keeps:
  assumes "set_user_role role user t users = (users', res)" "distinct (map us_id users)"
  shows "distinct (map us_id users') \<and> (1 \<le> count_admins users tid \<longrightarrow> 1 \<le> count_admins users' tid)
    \<and> (au_tenant_id user \<noteq> Some tid \<longrightarrow>
         filter (\<lambda>u. us_tenant_id u = Some tid) users' = filter (\<lambda>u. us_tenant_id u = Some tid) users)"
  using assms(1)
proof (cases rule: set_user_role_cases)
  case (changed tid' r)
  show ?thesis
  proof (cases "tid' = tid")
    case False
    then have "count_admins users' tid = count_admins users tid"
      using role_update_other_tenant [of tid tid' r t users] changed(2)
      by (simp add: count_admins_def flip: filter_filter)
    then show ?thesis
      using False changed(2) assms(2) role_update_other_tenant [of tid tid' r t users] by simp
  next
    case True
    have "1 \<le> count_admins users' tid"
      using changed(4-6) True changed(2) assms(2) get_role_admin [of users "au_user_id user" tid]
        count_admins_promote [of users tid t] count_admins_demote [of users tid r t]
        count_admins_demote_member [of users t tid r]
      by fastforce
    then show ?thesis
      using True changed(2,3) assms(2) by simp
  qed
qed (use assms in simp)

type_synonym role_call = "string \<times> authenticated_user \<times> string"

primrec role_calls :: "role_call list \<Rightarrow> user_row list \<Rightarrow> user_row list" where
  "role_calls [] users = users"
| "role_calls (c # cs) users = (case c of (role, user, t) \<Rightarrow> role_calls cs (fst (set_user_role role user t users)))"

text \<open>C19: A tenant keeps its admins and its roles to itself. Whatever role changes anybody requests, one
  after the other, a tenant that had an admin still has one, and a sequence of calls by users of other
  tenants leaves its members and their roles untouched.\<close>

theorem admins_never_run_out:
  assumes "distinct (map us_id users)"
  shows "(1 \<le> count_admins users tid \<longrightarrow> 1 \<le> count_admins (role_calls calls users) tid)
    \<and> (list_all (\<lambda>(role, user, t). au_tenant_id user \<noteq> Some tid) calls \<longrightarrow>
         filter (\<lambda>u. us_tenant_id u = Some tid) (role_calls calls users) = filter (\<lambda>u. us_tenant_id u = Some tid) users)"
  using assms
proof (induction calls arbitrary: users)
  case (Cons c calls)
  obtain role user t where c: "c = (role, user, t)"
    by (metis prod_cases3)
  obtain users' res where r: "set_user_role role user t users = (users', res)"
    by fastforce
  show ?case
    using set_user_role_keeps [OF r Cons.prems, of tid] Cons.IH [of users'] by (auto simp: c r)
qed simp

definition sample_members :: "user_row list" where
  "sample_members =
     [\<lparr>us_id = ''a'', us_email = ''a@x'', us_tenant_id = Some ''t1'', us_role = ROLE_ADMIN\<rparr>,
      \<lparr>us_id = ''b'', us_email = ''b@x'', us_tenant_id = Some ''t1'', us_role = ROLE_ADMIN\<rparr>]"

definition sample_user :: "string \<Rightarrow> authenticated_user" where
  "sample_user i = \<lparr>au_user_id = i, au_email = i @ ''@x'', au_sso_provider = ''google'', au_tenant_id = Some ''t1''\<rparr>"

lemma admins_never_run_out_witness:
  "1 \<le> count_admins (role_calls [('' Member '', sample_user ''a'', ''b''), (''member'', sample_user ''a'', ''a'')] sample_members) ''t1''
   \<and> filter (\<lambda>u. us_tenant_id u = Some ''t2'') (role_calls [(''member'', sample_user ''a'', ''b'')] sample_members) = []"
  using admins_never_run_out [of sample_members "''t1''" "[('' Member '', sample_user ''a'', ''b''), (''member'', sample_user ''a'', ''a'')]"]
    admins_never_run_out [of sample_members "''t2''" "[(''member'', sample_user ''a'', ''b'')]"]
  by (simp add: sample_members_def sample_user_def del: role_calls.simps)

lemma role_text_member: "map ascii_lower (strip ''member'') = ROLE_MEMBER"
  by (simp add: strip_def py_space_def ascii_lower_def ROLE_MEMBER_def)

lemma roles_differ [simp]: "ROLE_MEMBER \<noteq> ROLE_ADMIN" "ROLE_ADMIN \<noteq> ROLE_MEMBER"
  by (simp_all add: ROLE_MEMBER_def ROLE_ADMIN_def)

lemma count_admins_demoted:
  "distinct (map us_id users) \<Longrightarrow> get_role users t tid = Some ROLE_ADMIN \<Longrightarrow>
     count_admins (role_update ROLE_MEMBER tid t users) tid + 1 = count_admins users tid"
  by (induction users) (auto simp: role_update_absent split: if_splits)

lemma get_role_update_other: "t' \<noteq> t \<Longrightarrow> get_role (role_update r tid t users) t' tid' = get_role users t' tid'"
  by (induction users) auto

lemma no_admin_refused:
  assumes "count_admins users tid = 0" "au_tenant_id user = Some tid"
  shows "\<exists>e. require_admin users user = Inl e"
  using assms get_role_admin [of users "au_user_id user" tid] by (auto simp: require_admin_def)

lemma no_admin_stays:
  assumes "count_admins users tid = 0" "distinct (map us_id users)"
  shows "count_admins (role_calls calls users) tid = 0"
  using assms
proof (induction calls arbitrary: users)
  case (Cons c calls)
  obtain role user t where c: "c = (role, user, t)"
    by (metis prod_cases3)
  obtain users' res where r: "set_user_role role user t users = (users', res)"
    by fastforce
  have "count_admins users' tid = 0"
  proof (cases "au_tenant_id user = Some tid")
    case True
    then obtain e where "require_admin users user = Inl e"
      using no_admin_refused [OF Cons.prems(1)] by blast
    then have "users' = users"
      using r by (simp add: set_user_role_def set_user_role_between_def)
    then show ?thesis
      using Cons.prems(1) by simp
  next
    case False
    then show ?thesis
      using set_user_role_keeps [OF r Cons.prems(2), of tid] Cons.prems(1)
      by (simp add: count_admins_def flip: filter_filter)
  qed
  then show ?case
    using Cons.IH [of users'] set_user_role_keeps [OF r Cons.prems(2)] by (simp add: c r)
qed simp

text \<open>C20: The last-admin guard does not survive a race. When the only two admins of a tenant demote each
  other at the same time (each transaction counts two admins before the other commits), both calls
  succeed and the tenant has no admin; from then on, whatever role changes anybody requests, every
  admin action of every member is refused, so nobody can ever be promoted again.\<close>

theorem concurrent_demotion_locks_out:
  assumes "distinct (map us_id users)" "tid \<noteq> []" "au_tenant_id a = Some tid" "au_tenant_id b = Some tid"
    and "au_user_id a \<noteq> au_user_id b" "count_admins users tid = 2"
    and "get_role users (au_user_id a) tid = Some ROLE_ADMIN" "get_role users (au_user_id b) tid = Some ROLE_ADMIN"
    and "set_user_role_between ''member'' a (au_user_id b) users users = (users1, res1)"
    and "set_user_role_between ''member'' b (au_user_id a) users users1 = (users2, res2)"
  shows "is_ok res1 \<and> is_ok res2 \<and> count_admins users2 tid = 0
    \<and> (\<forall>calls user. au_tenant_id user = Some tid \<longrightarrow> \<not> is_ok (require_admin (role_calls calls users2) user))"
proof -
  have reads: "role_reads ''member'' a (au_user_id b) users = Inr ROLE_MEMBER" "role_reads ''member'' b (au_user_id a) users = Inr ROLE_MEMBER"
    using assms by (simp_all add: role_reads_Inr role_text_member)
  have allowed: "require_admin users a = Inr a" "require_admin users b = Inr b"
    using assms by (simp_all add: require_admin_Inr)
  have u: "users1 = role_update ROLE_MEMBER tid (au_user_id b) users" "is_ok res1"
    "users2 = role_update ROLE_MEMBER tid (au_user_id a) users1" "is_ok res2"
    using assms(9,10) by (auto simp: set_user_role_between_def reads allowed assms(3,4))
  have "get_role users1 (au_user_id a) tid = Some ROLE_ADMIN"
    using assms(5,7) by (simp add: u(1) get_role_update_other)
  then have "count_admins users2 tid + 1 + 1 = 2"
    using count_admins_demoted [of users1 "au_user_id a" tid] count_admins_demoted [of users "au_user_id b" tid] assms(1,6,8)
    by (simp add: u(1,3))
  then have zero: "count_admins users2 tid = 0"
    by simp
  have "distinct (map us_id users2)"
    using assms(1) by (simp add: u(1,3))
  then have "\<not> is_ok (require_admin (role_calls calls users2) user)" if "au_tenant_id user = Some tid" for calls user
    using no_admin_refused [OF no_admin_stays [OF zero]] that by (metis is_ok_simps(2))
  then show ?thesis
    using u(2,4) zero by blast
qed

lemma concurrent_demotion_locks_out_witness:
  "count_admins (fst (set_user_role_between ''member'' (sample_user ''b'') ''a'' sample_members
     (fst (set_user_role_between ''member'' (sample_user ''a'') ''b'' sample_members sample_members)))) ''t1'' = 0"
proof -
  obtain u1 r1 where 1: "set_user_role_between ''member'' (sample_user ''a'') ''b'' sample_members sample_members = (u1, r1)"
    by fastforce
  obtain u2 r2 where 2: "set_user_role_between ''member'' (sample_user ''b'') ''a'' sample_members u1 = (u2, r2)"
    by fastforce
  show ?thesis
    using concurrent_demotion_locks_out [of sample_members "''t1''" "sample_user ''a''" "sample_user ''b''" u1 r1 u2 r2] 1 2
    by (simp add: sample_user_def sample_members_def)
qed

end
