(* ===== verification/Login.thy ===== *)
theory Login
  imports McpServer Session
begin

text \<open>
  The SSO bridge endpoint of the gateway (\<^verbatim>\<open>vargate_telemetry/api/mcp_bridge.py\<close>), which turns a session of
  the dashboard into a bridge token for the MCP server, and the whole connector login that it is the
  middle of: \<^verbatim>\<open>/authorize\<close>, the bridge, \<^verbatim>\<open>/authorize/callback\<close>, \<^verbatim>\<open>/token\<close> and the first tool call.
\<close>

section \<open>Query strings\<close>

definition upper_hexdig :: "nat \<Rightarrow> char" where
  "upper_hexdig n = (if n < 10 then char_of (48 + n) else char_of (55 + n))"

text \<open>\<^verbatim>\<open>urllib.parse.quote_plus\<close> and \<^verbatim>\<open>urlencode\<close>.\<close>

definition quote_byte :: "char \<Rightarrow> string" where
  "quote_byte c =
     (let n = of_char c :: nat
      in if 65 \<le> n \<and> n \<le> 90 \<or> 97 \<le> n \<and> n \<le> 122 \<or> 48 \<le> n \<and> n \<le> 57 \<or> n = 95 \<or> n = 46 \<or> n = 45 \<or> n = 126
         then [c] else if n = 32 then ''+'' else [CHR ''%'', upper_hexdig (n div 16), upper_hexdig (n mod 16)])"

definition quote_plus :: "string \<Rightarrow> string" where
  "quote_plus s = concat (map quote_byte (utf8_encode s))"

fun urlencode :: "(string \<times> string) list \<Rightarrow> string" where
  "urlencode [] = []"
| "urlencode [(k, v)] = quote_plus k @ ''='' @ quote_plus v"
| "urlencode ((k, v) # q # qs) = quote_plus k @ ''='' @ quote_plus v @ ''&'' @ urlencode (q # qs)"

section \<open>The bridge\<close>

record gateway =
  gw_session :: session_env
  gw_bridge :: bridge_env
  gw_key_file :: key_file
  gw_kid :: string
  gw_keypair :: "keypair option"
  gw_allowed_returns :: string
  gw_origin :: string
  gw_bridge_path :: string

fun split_comma :: "string \<Rightarrow> string list" where
  "split_comma [] = [[]]"
| "split_comma (c # s) =
     (if c = CHR '','' then [] # split_comma s else (case split_comma s of [] \<Rightarrow> [[c]] | x # xs \<Rightarrow> (c # x) # xs))"

definition allowed_returns :: "string \<Rightarrow> string list" where
  "allowed_returns raw = filter (\<lambda>u. u \<noteq> []) (map strip (split_comma raw))"

text \<open>The session of a request, and \<open>None\<close> for a missing or refused cookie; the outer error is an unset
  signing key. \<open>nonce\<close> is the randomness of the signature.\<close>

definition bridge_session :: "gateway \<Rightarrow> int \<Rightarrow> string option \<Rightarrow> session_error + jwt_payload option" where
  "bridge_session g now cookie =
     (case cookie of
        Some (c # cs) \<Rightarrow>
          (case decode_session_jwt (gw_session g) now (c # cs) of
             Inl Key_Missing \<Rightarrow> Inl Key_Missing
           | Inl e \<Rightarrow> Inr None
           | Inr p \<Rightarrow> Inr (Some p))
      | _ \<Rightarrow> Inr None)"

definition mcp_bridge ::
  "gateway \<Rightarrow> int \<Rightarrow> string option \<Rightarrow> string \<Rightarrow> string \<Rightarrow> nat \<Rightarrow> response"
where
  "mcp_bridge g now cookie state return_to nonce =
     (if state = [] \<or> 256 < length state \<or> return_to = [] \<or> 512 < length return_to then Failure 422 [] []
      else if return_to \<notin> set (allowed_returns (gw_allowed_returns g)) then Failure 400 ''invalid_return_url'' []
      else case bridge_session g now cookie of
        Inl e \<Rightarrow> server_error
      | Inr None \<Rightarrow>
          Redirect (rstrip_slash (gw_origin g) @ ''/onboarding/sso'')
            [(''next_url'', gw_bridge_path g @ ''?'' @ urlencode [(''state'', state), (''return'', return_to)])]
      | Inr (Some p) \<Rightarrow>
          (case jp_tenant_id p of
             None \<Rightarrow> Redirect (rstrip_slash (gw_origin g) @ ''/onboarding/select-region'') []
           | Some tenant \<Rightarrow>
               (case load_or_raise (gw_bridge g) (gw_key_file g) (gw_kid g) (gw_keypair g) of
                  Inl e \<Rightarrow> server_error
                | Inr kp \<Rightarrow>
                    Redirect return_to
                      [(''bridge_token'',
                        sign_bridge_token (gw_bridge g) kp tenant (jp_sub p) (jp_email p) state now nonce)])))"

section \<open>A login from start to end\<close>

lemma decode_issued:
  assumes "session_contract env" "issue_session_jwt env u m sso tenant ttl t0 = Inr cookie"
    and "t0 \<le> now" "now + 1000000 \<le> t0 + ttl * 1000000"
  shows "cookie \<noteq> [] \<and> (\<exists>p. decode_session_jwt env now cookie = Inr p
      \<and> jp_sub p = u \<and> jp_email p = m \<and> jp_tenant_id p = tenant)"
proof -
  let ?p = "\<lparr>jp_sub = u, jp_email = m, jp_sso = sso, jp_tenant_id = tenant,
           jp_iat = t0 div 1000000, jp_exp = (t0 + ttl * 1000000) div 1000000\<rparr>"
  have k: "se_signing_key env \<noteq> []" "cookie = se_jwt_encode env ?p (se_signing_key env) JWT_ALGORITHM"
    using assms(2) by (auto simp: issue_session_jwt_def signing_key_def split: if_splits)
  have "t0 div 1000000 * 1000000 \<le> now"
    using assms(3) div_mult_mod_eq [of t0 1000000] pos_mod_sign [of 1000000 t0] by linarith
  moreover have "now < (t0 + ttl * 1000000) div 1000000 * 1000000"
    using assms(4) div_mult_mod_eq [of "t0 + ttl * 1000000" 1000000] pos_mod_bound [of 1000000 "t0 + ttl * 1000000"]
    by linarith
  ultimately have "se_jwt_decode env cookie (se_signing_key env) [JWT_ALGORITHM] now = Inr ?p" "cookie \<noteq> []"
    using assms(1) unfolding session_contract_def k(2) by (simp_all del: times_divide_eq_left)
  then show ?thesis
    using k(1) by (simp add: decode_session_jwt_def signing_key_def)
qed

lemma authorize_stores:
  assumes "authorize_check env s q = None" "\<not> spike_mode_enabled env" "oe_redis_up env" "st \<noteq> []"
  shows "\<exists>s1. authorize env s now q st = (s1, Redirect (oe_ogma_bridge_url env) [(''state'', st), (''return'', authorize_callback_url env)])
     \<and> s1 = s\<lparr>os_states := redis_set (os_states s) (state_key st)
         \<lparr>sp_client_id = aq_client_id q, sp_redirect_uri = aq_redirect_uri q, sp_code_challenge = the (aq_code_challenge q),
          sp_code_challenge_method = ''S256'', sp_scope = or_else (aq_scope q) ''log_interaction'',
          sp_resource = or_else (aq_resource q) (oe_server_url env), sp_claude_state = aq_state q\<rparr> STATE_TTL now\<rparr>"
  using assms by (simp add: authorize_def oauth_state_store_def Let_def)

lemma callback_mints:
  assumes "os_bridge s = Some c" "bridge_verify (oe_bridge env) (Some c) now token = Inr (bridge_payload t u m st t1)"
    and "oe_redis_up env" "st \<noteq> []" "t \<noteq> []" "u \<noteq> []" "m \<noteq> []" "store_peek (os_states s) (state_key st) now = Some p"
  shows "\<exists>s2. authorize_callback env s now token code = (s2, Redirect (sp_redirect_uri p)
        ((''code'', code) # (case sp_claude_state p of None \<Rightarrow> [] | Some v \<Rightarrow> [(''state'', v)])))
     \<and> os_codes s2 = store_put (os_codes s) code
         \<lparr>cp_client_id = sp_client_id p, cp_redirect_uri = sp_redirect_uri p, cp_code_challenge = sp_code_challenge p,
          cp_code_challenge_method = sp_code_challenge_method p,
          cp_identity = \<lparr>id_tenant_id = t, id_user_id = u, id_user_email = m\<rparr>,
          cp_resource = sp_resource p, cp_scope = sp_scope p\<rparr> AUTH_CODE_TTL now
     \<and> os_clients s2 = os_clients s \<and> os_tokens s2 = os_tokens s \<and> os_cache s2 = os_cache s"
  using assms
  by (simp add: authorize_callback_def claim_text_def payload_fields oauth_state_claim_def redis_getdel_def
      identity_of_claims_def mint_code_and_redirect_def)

lemma exchange_issues:
  assumes "code_form f c" "store_peek (os_codes s) c now = Some p" "exchange_check env f p = None"
    and "tf_client_id f = Some (cp_client_id p)"
    and "oe_db_up env" "token_row_fits s (issued_row env now (cp_client_id p) (cp_identity p) (cp_resource p) [cp_scope p] a r)"
  shows "\<exists>s0 s3 b. token_endpoint env s now f a r = (s3, Token_Issued b) \<and> os_cache s0 = os_cache s
     \<and> issue_token_pair env s0 now (cp_client_id p) (cp_identity p) (cp_resource p) [cp_scope p] a r = (s3, Token_Issued b)"
  using assms by (auto simp: exchange_form [OF assms(1)] Let_def issue_token_pair_def intro!: exI [of _ "s\<lparr>os_codes := (os_codes s)(c := None)\<rparr>"])

text \<open>The terms of a login: who, when, with which random texts.\<close>

record login =
  lg_tenant :: string
  lg_user :: string
  lg_email :: string
  lg_cookie :: string
  lg_state :: string
  lg_code :: string
  lg_verifier :: string
  lg_access :: string
  lg_refresh :: string
  lg_nonce :: nat
  lg_authorize_at :: int
  lg_bridge_at :: int
  lg_callback_at :: int
  lg_token_at :: int
  lg_call_at :: int

definition login_identity :: "login \<Rightarrow> identity" where
  "login_identity l = \<lparr>id_tenant_id = lg_tenant l, id_user_id = lg_user l, id_user_email = lg_email l\<rparr>"

definition login_form :: "login \<Rightarrow> authorize_request \<Rightarrow> token_form" where
  "login_form l q = \<lparr>tf_grant_type = Some ''authorization_code'', tf_code = Some (lg_code l),
     tf_code_verifier = Some (lg_verifier l), tf_client_id = Some (aq_client_id q),
     tf_redirect_uri = Some (aq_redirect_uri q), tf_refresh_token = None\<rparr>"

text \<open>The steps are in order and in time: the bridge token within 59 seconds, the state and the code within
  ten minutes, the call within the access lifetime.\<close>

definition login_in_time :: "oauth_env \<Rightarrow> login \<Rightarrow> bool" where
  "login_in_time env l \<longleftrightarrow>
     lg_authorize_at l \<le> lg_bridge_at l \<and> lg_bridge_at l \<le> lg_callback_at l \<and> lg_callback_at l \<le> lg_token_at l
     \<and> lg_token_at l \<le> lg_call_at l
     \<and> lg_callback_at l < lg_bridge_at l + 59 * second \<and> lg_callback_at l < lg_authorize_at l + 600 * second
     \<and> lg_token_at l < lg_callback_at l + 600 * second
     \<and> lg_call_at l < lg_token_at l + oe_access_ttl env * second"

definition login_texts :: "login \<Rightarrow> bool" where
  "login_texts l \<longleftrightarrow> lg_tenant l \<noteq> [] \<and> lg_user l \<noteq> [] \<and> lg_email l \<noteq> [] \<and> lg_state l \<noteq> [] \<and> length (lg_state l) \<le> 256
     \<and> lg_code l \<noteq> [] \<and> lg_verifier l \<noteq> [] \<and> lg_access l \<noteq> []"

text \<open>The request passes the checks of \<^verbatim>\<open>/authorize\<close>, its challenge belongs to the verifier, its audience is this
  server, and the row of the token will fit.\<close>

definition login_request :: "oauth_env \<Rightarrow> oauth_server \<Rightarrow> authorize_request \<Rightarrow> login \<Rightarrow> bool" where
  "login_request env s q l \<longleftrightarrow>
     authorize_check env s q = None \<and> aq_client_id q \<noteq> []
     \<and> aq_code_challenge q = Some (b64url (oe_sha256 env (utf8_encode (lg_verifier l))))
     \<and> rstrip_slash (or_else (aq_resource q) (oe_server_url env)) = rstrip_slash (oe_server_url env)
     \<and> map_of (os_cache s) (hash_bearer env (lg_access l)) = None
     \<and> token_row_fits s (issued_row env (lg_token_at l) (aq_client_id q) (login_identity l)
          (or_else (aq_resource q) (oe_server_url env)) [or_else (aq_scope q) ''log_interaction''] (lg_access l) (lg_refresh l))"

definition services_up :: "oauth_env \<Rightarrow> bool" where
  "services_up env \<longleftrightarrow> \<not> spike_mode_enabled env \<and> oe_db_up env \<and> oe_redis_up env"

text \<open>The gateway signs with the key the MCP server has cached and lets bridge tokens go to its callback.\<close>

definition trusts :: "oauth_env \<Rightarrow> oauth_server \<Rightarrow> gateway \<Rightarrow> bool" where
  "trusts env s g \<longleftrightarrow>
     gw_bridge g = oe_bridge env \<and> gw_keypair g = None
     \<and> (\<exists>kp c. load_or_raise (gw_bridge g) (gw_key_file g) (gw_kid g) None = Inr kp \<and> os_bridge s = Some c
            \<and> bc_public_key c = kp_public kp)
     \<and> authorize_callback_url env \<in> set (allowed_returns (gw_allowed_returns g))
     \<and> length (authorize_callback_url env) \<le> 512"

definition login_payload :: "oauth_env \<Rightarrow> authorize_request \<Rightarrow> login \<Rightarrow> code_payload" where
  "login_payload env q l =
     \<lparr>cp_client_id = aq_client_id q, cp_redirect_uri = aq_redirect_uri q,
      cp_code_challenge = the (aq_code_challenge q), cp_code_challenge_method = ''S256'',
      cp_identity = login_identity l, cp_resource = or_else (aq_resource q) (oe_server_url env),
      cp_scope = or_else (aq_scope q) ''log_interaction''\<rparr>"

text \<open>The first three steps leave the code of this user in the store.\<close>

lemma login_code:
  assumes "bridge_contract (gw_bridge g)" "session_contract (gw_session g)" "trusts env s g" "services_up env"
    and "issue_session_jwt (gw_session g) (lg_user l) (lg_email l) sso (Some (lg_tenant l)) ttl signed_in = Inr (lg_cookie l)"
    and "signed_in \<le> lg_bridge_at l" "lg_bridge_at l + second \<le> signed_in + ttl * second"
    and "login_texts l" "login_in_time env l" "authorize_check env s q = None"
  shows "\<exists>s1 s2 bridge_token.
      authorize env s (lg_authorize_at l) q (lg_state l)
        = (s1, Redirect (oe_ogma_bridge_url env) [(''state'', lg_state l), (''return'', authorize_callback_url env)])
    \<and> mcp_bridge g (lg_bridge_at l) (Some (lg_cookie l)) (lg_state l) (authorize_callback_url env) (lg_nonce l)
        = Redirect (authorize_callback_url env) [(''bridge_token'', bridge_token)]
    \<and> authorize_callback env s1 (lg_callback_at l) bridge_token (lg_code l)
        = (s2, Redirect (aq_redirect_uri q)
                 ((''code'', lg_code l) # (case aq_state q of None \<Rightarrow> [] | Some v \<Rightarrow> [(''state'', v)])))
    \<and> store_peek (os_codes s2) (lg_code l) (lg_token_at l) = Some (login_payload env q l)
    \<and> os_clients s2 = os_clients s \<and> os_tokens s2 = os_tokens s \<and> os_cache s2 = os_cache s"
proof -
  let ?st = "lg_state l" and ?ret = "authorize_callback_url env"
  let ?sp = "\<lparr>sp_client_id = aq_client_id q, sp_redirect_uri = aq_redirect_uri q, sp_code_challenge = the (aq_code_challenge q),
          sp_code_challenge_method = ''S256'', sp_scope = or_else (aq_scope q) ''log_interaction'',
          sp_resource = or_else (aq_resource q) (oe_server_url env), sp_claude_state = aq_state q\<rparr>"
  note texts = assms(8) [unfolded login_texts_def] and time = assms(9) [unfolded login_in_time_def]
    and up = assms(4) [unfolded services_up_def]
  obtain kp c where t: "gw_bridge g = oe_bridge env" "gw_keypair g = None" "os_bridge s = Some c"
    "load_or_raise (gw_bridge g) (gw_key_file g) (gw_kid g) None = Inr kp" "bc_public_key c = kp_public kp"
    "?ret \<in> set (allowed_returns (gw_allowed_returns g))" "length ?ret \<le> 512" "?ret \<noteq> []"
    using assms(3) by (auto simp: trusts_def allowed_returns_def)
  obtain s1 where s1: "authorize env s (lg_authorize_at l) q ?st
      = (s1, Redirect (oe_ogma_bridge_url env) [(''state'', ?st), (''return'', ?ret)])"
    "s1 = s\<lparr>os_states := redis_set (os_states s) (state_key ?st) ?sp STATE_TTL (lg_authorize_at l)\<rparr>"
    using authorize_stores [of env s q ?st "lg_authorize_at l"] assms(10) texts up by auto
  let ?tok = "sign_bridge_token (gw_bridge g) kp (lg_tenant l) (lg_user l) (lg_email l) ?st (lg_bridge_at l) (lg_nonce l)"
  obtain p where "lg_cookie l \<noteq> []" "decode_session_jwt (gw_session g) (lg_bridge_at l) (lg_cookie l) = Inr p"
    "jp_sub p = lg_user l" "jp_email p = lg_email l" "jp_tenant_id p = Some (lg_tenant l)"
    using decode_issued [OF assms(2,5,6)] assms(7) by (auto simp: second_def)
  then have "mcp_bridge g (lg_bridge_at l) (Some (lg_cookie l)) ?st ?ret (lg_nonce l) = Redirect ?ret [(''bridge_token'', ?tok)]"
    using t texts by (auto simp: mcp_bridge_def bridge_session_def split: list.splits)
  moreover have "bridge_verify (oe_bridge env) (Some c) (lg_callback_at l) ?tok
      = Inr (bridge_payload (lg_tenant l) (lg_user l) (lg_email l) ?st (lg_bridge_at l))"
    using verify_signed [OF assms(1) t(4,5), of "lg_bridge_at l" "lg_callback_at l"] time unfolding t(1) by simp
  moreover have "store_peek (os_states s1) (state_key ?st) (lg_callback_at l) = Some ?sp"
    using time by (simp add: s1(2) redis_set_def store_peek_def STATE_TTL_def)
  ultimately show ?thesis
    using callback_mints [of s1 c env "lg_callback_at l" ?tok "lg_tenant l" "lg_user l" "lg_email l" ?st "lg_bridge_at l" ?sp "lg_code l"]
      texts up time t(3) s1
    by (auto simp: login_identity_def login_payload_def store_put_def store_peek_def AUTH_CODE_TTL_def)
qed

text \<open>C17: Signing in to the connector works. For a user with a session of the dashboard and a tenant, a
  valid request of a registered client, both services up, and a gateway whose key the MCP server has,
  the five steps succeed when they follow each other in time: \<^verbatim>\<open>/authorize\<close> redirects to the bridge, the
  bridge back to the callback with a token, the callback to the client's redirect URI with a code and
  the client's state, \<^verbatim>\<open>/token\<close> issues tokens, and the verifier then accepts the access token for the
  identity of that session. A tool call with it answers by the scope the client had asked for: with none, or
  with exactly \<^verbatim>\<open>log_interaction\<close>, it runs the handler for that identity on every argument the schema admits;
  with any other scope, one that contains \<^verbatim>\<open>log_interaction\<close> among others included, every call is refused.\<close>

theorem login_completes:
  assumes "bridge_contract (gw_bridge g)" "session_contract (gw_session g)" "trusts env s g" "services_up env"
    and "issue_session_jwt (gw_session g) (lg_user l) (lg_email l) sso (Some (lg_tenant l)) ttl signed_in = Inr (lg_cookie l)"
    and "signed_in \<le> lg_bridge_at l" "lg_bridge_at l + second \<le> signed_in + ttl * second"
    and "login_texts l" "login_in_time env l" "login_request env s q l"
  shows "\<exists>s1 s2 s3 bridge_token body a.
      authorize env s (lg_authorize_at l) q (lg_state l)
        = (s1, Redirect (oe_ogma_bridge_url env) [(''state'', lg_state l), (''return'', authorize_callback_url env)])
    \<and> mcp_bridge g (lg_bridge_at l) (Some (lg_cookie l)) (lg_state l) (authorize_callback_url env) (lg_nonce l)
        = Redirect (authorize_callback_url env) [(''bridge_token'', bridge_token)]
    \<and> authorize_callback env s1 (lg_callback_at l) bridge_token (lg_code l)
        = (s2, Redirect (aq_redirect_uri q)
                 ((''code'', lg_code l) # (case aq_state q of None \<Rightarrow> [] | Some v \<Rightarrow> [(''state'', v)])))
    \<and> token_endpoint env s2 (lg_token_at l) (login_form l q) (lg_access l) (lg_refresh l) = (s3, Token_Issued body)
    \<and> snd (verify_token env s3 (lg_call_at l) (lg_access l)) = Some a
    \<and> identity_from_access_token a = Some (login_identity l)
    \<and> (\<forall>args event_id received.
         snd (log_interaction env s3 (lg_call_at l) (lg_access l) args event_id received)
           = (if or_else (aq_scope q) ''log_interaction'' \<noteq> ''log_interaction'' then Insufficient_Scope
              else if \<not> schema_ok args then Bad_Arguments
              else handle_log_interaction args (login_identity l) event_id received))"
proof -
  let ?p = "login_payload env q l"
  note texts = assms(8) [unfolded login_texts_def] and time = assms(9) [unfolded login_in_time_def]
    and req = assms(10) [unfolded login_request_def] and up = assms(4) [unfolded services_up_def]
  obtain s1 s2 bridge_token where steps:
    "authorize env s (lg_authorize_at l) q (lg_state l)
      = (s1, Redirect (oe_ogma_bridge_url env) [(''state'', lg_state l), (''return'', authorize_callback_url env)])"
    "mcp_bridge g (lg_bridge_at l) (Some (lg_cookie l)) (lg_state l) (authorize_callback_url env) (lg_nonce l)
      = Redirect (authorize_callback_url env) [(''bridge_token'', bridge_token)]"
    "authorize_callback env s1 (lg_callback_at l) bridge_token (lg_code l)
      = (s2, Redirect (aq_redirect_uri q) ((''code'', lg_code l) # (case aq_state q of None \<Rightarrow> [] | Some v \<Rightarrow> [(''state'', v)])))"
    and s2: "store_peek (os_codes s2) (lg_code l) (lg_token_at l) = Some ?p" "os_clients s2 = os_clients s"
      "os_tokens s2 = os_tokens s" "os_cache s2 = os_cache s"
    using login_code [OF assms(1-9) conjunct1 [OF req]] by blast
  have form: "code_form (login_form l q) (lg_code l)"
    using texts req by (simp add: code_form_def login_form_def present_def)
  have "exchange_check env (login_form l q) ?p = None"
    using req by (simp add: exchange_check_None [OF form]) (simp add: login_form_def login_payload_def is_ascii_b64url)
  moreover have "token_row_fits s2 r = token_row_fits s r" for r
    by (simp add: token_row_fits_def s2)
  ultimately obtain s0 s3 b where s3: "token_endpoint env s2 (lg_token_at l) (login_form l q) (lg_access l) (lg_refresh l) = (s3, Token_Issued b)"
    "os_cache s0 = os_cache s"
    "issue_token_pair env s0 (lg_token_at l) (cp_client_id ?p) (cp_identity ?p) (cp_resource ?p) [cp_scope ?p]
       (lg_access l) (lg_refresh l) = (s3, Token_Issued b)"
    using exchange_issues [OF form s2(1), of env "lg_access l" "lg_refresh l"] req up s2(4)
    by (auto simp: login_form_def login_payload_def)
  have "named (cp_identity ?p)" "cp_identity ?p = login_identity l"
    using texts by (simp_all add: named_def login_identity_def login_payload_def)
  moreover have "rstrip_slash (cp_resource ?p) = rstrip_slash (oe_server_url env)"
    using req by (simp add: login_payload_def)
  then have "\<exists>a. snd (verify_token env s3 (lg_call_at l) (lg_access l)) = Some a
      \<and> a = token_of_row (lg_access l) (issued_row env (lg_token_at l) (cp_client_id ?p) (cp_identity ?p) (cp_resource ?p)
          [cp_scope ?p] (lg_access l) (lg_refresh l))"
    using issued_checked [OF s3(3), of "lg_call_at l"] texts req up time s3(2) by simp
  then obtain a where a: "snd (verify_token env s3 (lg_call_at l) (lg_access l)) = Some a"
      "a = token_of_row (lg_access l) (issued_row env (lg_token_at l) (cp_client_id ?p) (cp_identity ?p) (cp_resource ?p)
          [cp_scope ?p] (lg_access l) (lg_refresh l))" by blast
  ultimately have i: "identity_from_access_token a = Some (login_identity l)"
    by (simp add: identity_token_of_row issued_row_def)
  have "scopes_ok a \<longleftrightarrow> or_else (aq_scope q) ''log_interaction'' = ''log_interaction''"
    by (simp add: a(2) scopes_ok_token_of_row issued_row_def login_payload_def)
  then have "snd (log_interaction env s3 (lg_call_at l) (lg_access l) args event_id received)
      = (if or_else (aq_scope q) ''log_interaction'' \<noteq> ''log_interaction'' then Insufficient_Scope
         else if \<not> schema_ok args then Bad_Arguments
         else handle_log_interaction args (login_identity l) event_id received)" for args event_id received
    using a(1) i by (auto simp: log_interaction_def split: prod.splits)
  then show ?thesis
    using steps s3(1) a(1) i by blast
qed

definition toy_session_encode :: "jwt_payload \<Rightarrow> string \<Rightarrow> string \<Rightarrow> string" where
  "toy_session_encode p k alg =
     unary (jp_sub p) @ unary (jp_email p) @ unary (jp_sso p)
     @ unary (case jp_tenant_id p of None \<Rightarrow> ''n'' | Some t \<Rightarrow> CHR ''s'' # t)
     @ unary (int_marks (jp_iat p)) @ unary (int_marks (jp_exp p)) @ unary k @ alg"

definition toy_session_decode :: "string \<Rightarrow> string \<Rightarrow> string list \<Rightarrow> int \<Rightarrow> jwt_failure + jwt_payload" where
  "toy_session_decode token key algs now =
     (let (u, r) = read_unary token; (m, r) = read_unary r; (sso, r) = read_unary r; (t, r) = read_unary r;
          (i, r) = read_unary r; (e, r) = read_unary r; (k, alg) = read_unary r
      in if k \<noteq> key \<or> alg \<notin> set algs then Inl (Invalid_Token ''signature'')
         else if marks_int e * 1000000 \<le> now then Inl Expired_Signature
         else Inr \<lparr>jp_sub = u, jp_email = m, jp_sso = sso, jp_tenant_id = (if hd t = CHR ''n'' then None else Some (tl t)),
           jp_iat = marks_int i, jp_exp = marks_int e\<rparr>)"

definition sample_session_env :: session_env where
  "sample_session_env = \<lparr>se_jwt_encode = toy_session_encode, se_jwt_decode = toy_session_decode, se_signing_key = ''key''\<rparr>"

lemma unary_not_Nil: "unary s \<noteq> []"
  by (simp add: unary_def)

lemma sample_session_contract: "session_contract sample_session_env"
  by (auto simp: session_contract_def sample_session_env_def toy_session_encode_def toy_session_decode_def
      unary_not_Nil split: option.splits)

definition sample_gateway :: gateway where
  "sample_gateway = \<lparr>gw_session = sample_session_env, gw_bridge = sample_bridge_env,
     gw_key_file = EC_Key ''secp256r1'' 5, gw_kid = ''v1'', gw_keypair = None,
     gw_allowed_returns = ''https://m/authorize/callback , '', gw_origin = ''https://o'', gw_bridge_path = ''/auth/mcp-bridge''\<rparr>"

definition sample_server :: oauth_server where
  "sample_server = empty_server\<lparr>
     os_clients := [\<lparr>oc_client_id = ''cl'', oc_client_secret_hash = [], oc_client_name = ''Claude'',
       oc_redirect_uris = [sample_uri], oc_grant_types = [], oc_response_types = [], oc_auth_method = None, oc_deleted_at = None\<rparr>],
     os_bridge := Some \<lparr>bc_jwk = public_jwk sample_keypair, bc_public_key = kp_public sample_keypair\<rparr>\<rparr>"

definition sample_request :: authorize_request where
  "sample_request = \<lparr>aq_client_id = ''cl'', aq_redirect_uri = sample_uri, aq_response_type = ''code'',
     aq_code_challenge = Some (b64url (oe_sha256 sample_oauth_env (utf8_encode ''v''))),
     aq_code_challenge_method = Some ''S256'', aq_state = Some ''x'', aq_resource = None, aq_scope = None\<rparr>"

definition sample_cookie :: string where
  "sample_cookie = toy_session_encode \<lparr>jp_sub = ''u1'', jp_email = ''e1'', jp_sso = ''google'', jp_tenant_id = Some ''t1'',
     jp_iat = 0, jp_exp = 28800\<rparr> ''key'' ''HS256''"

definition sample_session_login :: login where
  "sample_session_login = \<lparr>lg_tenant = ''t1'', lg_user = ''u1'', lg_email = ''e1'', lg_cookie = sample_cookie, lg_state = ''st'',
     lg_code = ''c1'', lg_verifier = ''v'', lg_access = ''at'', lg_refresh = ''rt'', lg_nonce = 0,
     lg_authorize_at = 10000000, lg_bridge_at = 20000000, lg_callback_at = 21000000, lg_token_at = 22000000,
     lg_call_at = 23000000\<rparr>"

lemma sample_allowed_return: "authorize_callback_url sample_oauth_env \<in> set (allowed_returns (gw_allowed_returns sample_gateway))"
  by (simp add: authorize_callback_url_def sample_oauth_env_def allowed_returns_def sample_gateway_def strip_def
      py_space_def rstrip_slash_def)

lemma sample_trusts: "trusts sample_oauth_env sample_server sample_gateway"
proof -
  have "load_or_raise (gw_bridge sample_gateway) (gw_key_file sample_gateway) (gw_kid sample_gateway) None = Inr sample_keypair"
    using load_sample_keypair by (simp add: sample_gateway_def)
  moreover have "length (authorize_callback_url sample_oauth_env) \<le> 512"
    by (simp add: authorize_callback_url_def sample_oauth_env_def rstrip_slash_def)
  ultimately show ?thesis
    using sample_allowed_return unfolding trusts_def
    by (auto simp: sample_oauth_simps) (simp_all add: sample_gateway_def sample_server_def)
qed

lemma sample_login_request: "login_request sample_oauth_env sample_server sample_request sample_session_login"
proof -
  have "b64url (oe_sha256 sample_oauth_env (utf8_encode ''v'')) \<noteq> []"
    by (simp add: sample_oauth_env_def b64url_Nil_iff)
  then have "authorize_check sample_oauth_env sample_server sample_request = None"
    by (simp add: authorize_check_def sample_request_def present_def sample_uri_allowed sample_oauth_simps live_client_def
        sample_server_def)
  moreover have "token_row_fits sample_server (issued_row sample_oauth_env n ''cl'' sample_identity ''https://m/''
      [''log_interaction''] ''at'' ''rt'')" for n
    by (simp add: token_row_fits_def issued_row_def length_sample_hash sample_server_def empty_server_def sample_identity_def)
  moreover have "login_identity sample_session_login = sample_identity"
    by (simp add: login_identity_def sample_session_login_def sample_identity_def)
  ultimately show ?thesis
    unfolding login_request_def
    by (simp add: or_else_def present_def sample_oauth_simps)
       (simp add: sample_request_def sample_session_login_def sample_server_def empty_server_def)
qed

lemma sample_cookie_issued:
  "issue_session_jwt sample_session_env ''u1'' ''e1'' ''google'' (Some ''t1'') 28800 0 = Inr sample_cookie"
  by (simp add: issue_session_jwt_def signing_key_def sample_session_env_def sample_cookie_def JWT_ALGORITHM_def)

lemma login_completes_witness:
  "\<exists>s1 s2 s3 bridge_token body a.
      mcp_bridge sample_gateway 20000000 (Some sample_cookie) ''st'' (authorize_callback_url sample_oauth_env) 0
        = Redirect (authorize_callback_url sample_oauth_env) [(''bridge_token'', bridge_token)]
    \<and> authorize_callback sample_oauth_env s1 21000000 bridge_token ''c1''
        = (s2, Redirect sample_uri [(''code'', ''c1''), (''state'', ''x'')])
    \<and> token_endpoint sample_oauth_env s2 22000000 (login_form sample_session_login sample_request) ''at'' ''rt''
        = (s3, Token_Issued body)
    \<and> snd (verify_token sample_oauth_env s3 23000000 ''at'') = Some a
    \<and> identity_from_access_token a = Some sample_identity
    \<and> snd (log_interaction sample_oauth_env s3 23000000 ''at'' sample_tool_args ''x1'' sample_time)
        = handle_log_interaction sample_tool_args sample_identity ''x1'' sample_time"
proof -
  let ?l = sample_session_login
  have l: "lg_tenant ?l = ''t1''" "lg_user ?l = ''u1''" "lg_email ?l = ''e1''" "lg_cookie ?l = sample_cookie"
    "lg_state ?l = ''st''" "lg_code ?l = ''c1''" "lg_verifier ?l = ''v''" "lg_access ?l = ''at''" "lg_refresh ?l = ''rt''"
    "lg_nonce ?l = 0" "lg_authorize_at ?l = 10000000" "lg_bridge_at ?l = 20000000" "lg_callback_at ?l = 21000000"
    "lg_token_at ?l = 22000000" "lg_call_at ?l = 23000000" "login_identity ?l = sample_identity"
    by (simp_all add: sample_session_login_def login_identity_def sample_identity_def)
  have q: "aq_redirect_uri sample_request = sample_uri" "aq_state sample_request = Some ''x''"
    by (simp_all add: sample_request_def)
  have g: "gw_bridge sample_gateway = sample_bridge_env" "gw_session sample_gateway = sample_session_env"
    by (simp_all add: sample_gateway_def)
  have "services_up sample_oauth_env"
    by (simp add: services_up_def sample_oauth_simps) (simp add: sample_oauth_env_def)
  moreover have "login_texts ?l" "login_in_time sample_oauth_env ?l"
    by (simp_all add: login_texts_def login_in_time_def l second_def sample_oauth_simps)
  moreover have "0 \<le> lg_bridge_at ?l" "lg_bridge_at ?l + second \<le> 0 + 28800 * second"
    by (simp_all add: l second_def)
  moreover have "or_else (aq_scope sample_request) ''log_interaction'' = ''log_interaction''" "schema_ok sample_tool_args"
    by (simp_all add: sample_request_def or_else_def present_def schema_ok_def sample_tool_args_def InteractionKind_def)
  ultimately show ?thesis
    using login_completes [where g = sample_gateway and env = sample_oauth_env and s = sample_server and l = ?l
        and q = sample_request and sso = "''google''" and ttl = 28800 and signed_in = 0]
      sample_bridge_contract sample_session_contract sample_trusts sample_login_request sample_cookie_issued
    unfolding l q g option.case by metis
qed

end
