(* ===== verification/ApiClient.thy ===== *)
theory ApiClient
  imports Json PyTime
begin

text \<open>
  \<^verbatim>\<open>anthropic/client.py\<close>: the HTTP client of the Admin and Compliance APIs, as the pull tasks use it.
  A request costs one tick of a counter, and what the server answers is a function of that counter and
  of the request, so every behaviour of the remote side is a value of the model. A generator is a loop
  whose body is given: \<open>pages\<close> fetches a page, feeds its rows to the body and goes on while the
  envelope names a next page. Nothing bounds the number of pages, so the result is an option and
  \<^const>\<open>None\<close> means the loop does not return.
\<close>

section \<open>Exceptions and JSON access\<close>

text \<open>The Python exceptions that cross the pull tasks.\<close>

datatype exn =
  InsufficientScope string
| RateLimited int
| AnthropicAPIError int string
| HTTPStatusError int
| TransportError
| PyValueError
| PyTypeError
| PyAttributeError
| PyLookupError
| PyValidationError
| PyIntegrityError
| PyDataError
| PyRedisError
| PyOperationalError
| PyStorageError
| PyCryptoError
| PyOverflowError

text \<open>Python's truth value of a decoded JSON value; a float zero prints as zeros around a point.\<close>

definition json_true :: "json \<Rightarrow> bool" where
  "json_true j =
     (case j of JNull \<Rightarrow> False | JBool b \<Rightarrow> b | JInt n \<Rightarrow> n \<noteq> 0
      | JReal s \<Rightarrow> s \<notin> {''0.0'', ''-0.0''} | JStr s \<Rightarrow> s \<noteq> [] | JList xs \<Rightarrow> xs \<noteq> [] | JObj kvs \<Rightarrow> kvs \<noteq> [])"

text \<open>\<^verbatim>\<open>envelope.get(key)\<close>; only a dict has a \<^verbatim>\<open>get\<close>.\<close>

definition json_get :: "string \<Rightarrow> json \<Rightarrow> exn + json option" where
  "json_get key j = (case j of JObj kvs \<Rightarrow> Inr (map_of kvs key) | _ \<Rightarrow> Inl PyAttributeError)"

text \<open>Iterating a decoded value: a dict yields its keys, a text its characters.\<close>

definition json_iter :: "json \<Rightarrow> exn + json list" where
  "json_iter j =
     (case j of
        JList xs \<Rightarrow> Inr xs
      | JStr s \<Rightarrow> Inr (map (\<lambda>c. JStr [c]) s)
      | JObj kvs \<Rightarrow> Inr (map (JStr \<circ> fst) kvs)
      | _ \<Rightarrow> Inl PyTypeError)"

text \<open>\<^verbatim>\<open>envelope.get("data", [])\<close>, iterated.\<close>

definition data_rows :: "json \<Rightarrow> exn + json list" where
  "data_rows env =
     bindE (json_get ''data'' env) (\<lambda>d. case d of None \<Rightarrow> Inr [] | Some v \<Rightarrow> json_iter v)"

text \<open>\<^verbatim>\<open>int(text)\<close>: white space around, one sign, digits with single underscores between them.\<close>

fun digit_groups :: "bool \<Rightarrow> string \<Rightarrow> string option" where
  "digit_groups after [] = (if after then Some [] else None)"
| "digit_groups after (c # s) =
     (if is_digit c then map_option (Cons c) (digit_groups True s)
      else if after \<and> c = CHR ''_'' \<and> s \<noteq> [] then digit_groups False s else None)"

definition py_int :: "string \<Rightarrow> int option" where
  "py_int text =
     (case strip text of
        [] \<Rightarrow> None
      | c # s \<Rightarrow>
          if c = CHR ''-'' then map_option (\<lambda>ds. - int (nat_val ds)) (digit_groups False s)
          else if c = CHR ''+'' then map_option (\<lambda>ds. int (nat_val ds)) (digit_groups False s)
          else map_option (\<lambda>ds. int (nat_val ds)) (digit_groups False (c # s)))"

section \<open>One request\<close>

type_synonym params = "(string \<times> json) list"

record request =
  rq_path :: string
  rq_params :: params

datatype http_answer =
  Unreachable
| Answer (ha_status: int) (ha_retry_after: "string option") (ha_text: string) (ha_json: "json option")

record http_env =
  he_send :: "nat \<Rightarrow> request \<Rightarrow> http_answer"
  he_wait_exponential :: "nat \<Rightarrow> int"

text \<open>What every task's state has: the tick counter, and the waits between attempts so far.\<close>

record net =
  n_tick :: nat
  n_slept :: "int list"

definition DEFAULT_RETRY_AFTER_SECONDS :: string where
  "DEFAULT_RETRY_AFTER_SECONDS = ''10''"

definition MAX_ATTEMPTS :: nat where
  "MAX_ATTEMPTS = 5"

definition raw_get :: "http_answer \<Rightarrow> exn + http_answer" where
  "raw_get a =
     (case a of
        Unreachable \<Rightarrow> Inl TransportError
      | Answer status retry_after text body \<Rightarrow>
          if status = 403 then Inl (InsufficientScope text)
          else if status = 429 then
            (case py_int (case retry_after of None \<Rightarrow> DEFAULT_RETRY_AFTER_SECONDS | Some v \<Rightarrow> v) of
               None \<Rightarrow> Inl PyValueError
             | Some n \<Rightarrow> Inl (RateLimited n))
          else if 500 \<le> status then Inl (AnthropicAPIError status text)
          else if status < 200 \<or> 300 \<le> status then Inl (HTTPStatusError status)
          else Inr a)"

text \<open>
  \<^verbatim>\<open>_retrying\<close>: attempt number \<open>k\<close> with \<open>n\<close> more allowed. Only \<open>RateLimited\<close> is tried again, after
  the wait the policy gives for that attempt; the last error is re-raised.
\<close>

primrec get_attempts ::
  "http_env \<Rightarrow> request \<Rightarrow> nat \<Rightarrow> nat \<Rightarrow> 'a net_scheme \<Rightarrow> 'a net_scheme \<times> (exn + http_answer)"
where
  "get_attempts env rq 0 k w =
     (w\<lparr>n_tick := Suc (n_tick w)\<rparr>, raw_get (he_send env (n_tick w) rq))"
| "get_attempts env rq (Suc n) k w =
     (case raw_get (he_send env (n_tick w) rq) of
        Inl (RateLimited retry_after) \<Rightarrow>
          get_attempts env rq n (Suc k)
            (w\<lparr>n_tick := Suc (n_tick w), n_slept := n_slept w @ [he_wait_exponential env k]\<rparr>)
      | r \<Rightarrow> (w\<lparr>n_tick := Suc (n_tick w)\<rparr>, r))"

definition http_get ::
  "http_env \<Rightarrow> string \<Rightarrow> params \<Rightarrow> 'a net_scheme \<Rightarrow> 'a net_scheme \<times> (exn + json)"
where
  "http_get env path params w =
     (case get_attempts env \<lparr>rq_path = path, rq_params = params\<rparr> (MAX_ATTEMPTS - 1) 1 w of
        (w', Inl e) \<Rightarrow> (w', Inl e)
      | (w', Inr a) \<Rightarrow> (w', case ha_json a of None \<Rightarrow> Inl PyValueError | Some j \<Rightarrow> Inr j))"

section \<open>Pages\<close>

text \<open>What the body of a \<^verbatim>\<open>for\<close> loop over a generator does: go on, break, or raise.\<close>

datatype flow = Go | Break | Raise exn

definition raises :: "flow \<Rightarrow> bool" where
  "raises f = (case f of Raise e \<Rightarrow> True | _ \<Rightarrow> False)"

lemma raises_simps [simp]: "\<not> raises Go" "\<not> raises Break" "raises (Raise e)"
  by (simp_all add: raises_def)

fun feed :: "('r \<Rightarrow> 's \<Rightarrow> 's \<times> flow) \<Rightarrow> 'r list \<Rightarrow> 's \<Rightarrow> 's \<times> flow" where
  "feed body [] s = (s, Go)"
| "feed body (r # rs) s = (case body r s of (s', Go) \<Rightarrow> feed body rs s' | (s', x) \<Rightarrow> (s', x))"

partial_function (option) pages ::
  "('c option \<Rightarrow> 's \<Rightarrow> 's \<times> (exn + json)) \<Rightarrow> (json \<Rightarrow> exn + 'c option) \<Rightarrow> (json \<Rightarrow> 's \<Rightarrow> 's \<times> flow)
     \<Rightarrow> 'c option \<Rightarrow> 's \<Rightarrow> ('s \<times> flow) option"
where
  "pages fetch next body cursor s =
     (case fetch cursor s of
        (s1, Inl e) \<Rightarrow> Some (s1, Raise e)
      | (s1, Inr envelope) \<Rightarrow>
          (case data_rows envelope of
             Inl e \<Rightarrow> Some (s1, Raise e)
           | Inr rows \<Rightarrow>
               (case feed body rows s1 of
                  (s2, Go) \<Rightarrow>
                    (case next envelope of
                       Inl e \<Rightarrow> Some (s2, Raise e)
                     | Inr None \<Rightarrow> Some (s2, Go)
                     | Inr (Some c) \<Rightarrow> pages fetch next body (Some c) s2)
                | (s2, x) \<Rightarrow> Some (s2, x))))"

text \<open>The two cursor schemes. An empty \<^verbatim>\<open>next_page\<close> ends the list; an empty \<^verbatim>\<open>last_id\<close> does not.\<close>

definition next_page :: "json \<Rightarrow> exn + json option" where
  "next_page envelope =
     bindE (json_get ''next_page'' envelope) (\<lambda>c. Inr (case c of None \<Rightarrow> None
       | Some v \<Rightarrow> if json_true v then Some v else None))"

definition next_after :: "json \<Rightarrow> exn + json option" where
  "next_after envelope =
     bindE (json_get ''has_more'' envelope) (\<lambda>m.
       if \<not> (case m of None \<Rightarrow> False | Some v \<Rightarrow> json_true v) then Inr None
       else bindE (json_get ''last_id'' envelope) (\<lambda>l. Inr (case l of None \<Rightarrow> None
              | Some v \<Rightarrow> if v = JNull then None else Some v)))"

text \<open>\<^verbatim>\<open>p[key] = value\<close> on a dict of parameters.\<close>

fun set_param :: "string \<Rightarrow> json \<Rightarrow> params \<Rightarrow> params" where
  "set_param k v [] = [(k, v)]"
| "set_param k v ((k', v') # ps) = (if k = k' then (k, v) # ps else (k', v') # set_param k v ps)"

definition page_params :: "params \<Rightarrow> json option \<Rightarrow> params" where
  "page_params params c = (case c of None \<Rightarrow> params | Some v \<Rightarrow> set_param ''page'' v params)"

definition paginate ::
  "http_env \<Rightarrow> string \<Rightarrow> params \<Rightarrow> (json \<Rightarrow> 'a net_scheme \<Rightarrow> 'a net_scheme \<times> flow)
     \<Rightarrow> 'a net_scheme \<Rightarrow> ('a net_scheme \<times> flow) option"
where
  "paginate env path params body w =
     pages (\<lambda>c. http_get env path (page_params params c)) next_page body None w"

definition paginate_admin ::
  "http_env \<Rightarrow> string \<Rightarrow> params \<Rightarrow> (json \<Rightarrow> 'a net_scheme \<Rightarrow> 'a net_scheme \<times> flow)
     \<Rightarrow> 'a net_scheme \<Rightarrow> ('a net_scheme \<times> flow) option"
where
  "paginate_admin env path params body w =
     pages (\<lambda>c. http_get env path (case c of None \<Rightarrow> params | Some v \<Rightarrow> set_param ''after_id'' v params))
       next_after body None w"

text \<open>The same over a list of pairs, where a key may repeat: the cursor is added at the end.\<close>

definition paginate_compliance ::
  "http_env \<Rightarrow> string \<Rightarrow> params \<Rightarrow> (json \<Rightarrow> 'a net_scheme \<Rightarrow> 'a net_scheme \<times> flow)
     \<Rightarrow> 'a net_scheme \<Rightarrow> ('a net_scheme \<times> flow) option"
where
  "paginate_compliance env path params body w =
     pages (\<lambda>c. http_get env path (case c of None \<Rightarrow> params | Some v \<Rightarrow> params @ [(''after_id'', v)]))
       next_after body None w"

text \<open>\<^verbatim>\<open>Model.model_validate(raw)\<close> in front of a loop body, and \<^verbatim>\<open>list(generator)\<close>.\<close>

definition validated ::
  "(json \<Rightarrow> 'm option) \<Rightarrow> ('m \<Rightarrow> 's \<Rightarrow> 's \<times> flow) \<Rightarrow> json \<Rightarrow> 's \<Rightarrow> 's \<times> flow"
where
  "validated validate body raw s =
     (case validate raw of None \<Rightarrow> (s, Raise PyValidationError) | Some m \<Rightarrow> body m s)"

section \<open>Endpoints\<close>

definition opt_param :: "string \<Rightarrow> datetime option \<Rightarrow> params" where
  "opt_param key t = (case t of None \<Rightarrow> [] | Some d \<Rightarrow> [(key, JStr (isoformat d))])"

definition each_param :: "string \<Rightarrow> string list \<Rightarrow> params" where
  "each_param key vs = map (\<lambda>v. (key, JStr v)) vs"

record compliance_query =
  cq_created_at_gte :: "datetime option"
  cq_created_at_gt :: "datetime option"
  cq_created_at_lte :: "datetime option"
  cq_created_at_lt :: "datetime option"
  cq_updated_at_gte :: "datetime option"
  cq_updated_at_lte :: "datetime option"
  cq_activity_types :: "string list"
  cq_actor_ids :: "string list"
  cq_organization_ids :: "string list"
  cq_user_ids :: "string list"
  cq_project_ids :: "string list"
  cq_limit :: "int option"

definition no_filter :: compliance_query where
  "no_filter = \<lparr>cq_created_at_gte = None, cq_created_at_gt = None, cq_created_at_lte = None,
     cq_created_at_lt = None, cq_updated_at_gte = None, cq_updated_at_lte = None,
     cq_activity_types = [], cq_actor_ids = [], cq_organization_ids = [], cq_user_ids = [],
     cq_project_ids = [], cq_limit = None\<rparr>"

definition build_compliance_query :: "compliance_query \<Rightarrow> params" where
  "build_compliance_query q =
     opt_param ''created_at.gte'' (cq_created_at_gte q) @ opt_param ''created_at.gt'' (cq_created_at_gt q)
     @ opt_param ''created_at.lte'' (cq_created_at_lte q) @ opt_param ''created_at.lt'' (cq_created_at_lt q)
     @ opt_param ''updated_at.gte'' (cq_updated_at_gte q) @ opt_param ''updated_at.lte'' (cq_updated_at_lte q)
     @ each_param ''activity_types[]'' (cq_activity_types q) @ each_param ''actor_ids[]'' (cq_actor_ids q)
     @ each_param ''organization_ids[]'' (cq_organization_ids q) @ each_param ''user_ids[]'' (cq_user_ids q)
     @ each_param ''project_ids[]'' (cq_project_ids q)
     @ (case cq_limit q of None \<Rightarrow> [] | Some n \<Rightarrow> [(''limit'', JStr (int_str n))])"

definition list_workspaces where
  "list_workspaces env validate body w =
     paginate_admin env ''/v1/organizations/workspaces'' [] (validated validate body) w"

definition list_members where
  "list_members env validate body w =
     paginate_admin env ''/v1/organizations/users'' [] (validated validate body) w"

definition list_api_keys where
  "list_api_keys env validate body w =
     paginate_admin env ''/v1/organizations/api_keys'' [] (validated validate body) w"

text \<open>The default width and breakdown are the ones every caller uses.\<close>

definition usage_params :: "datetime \<Rightarrow> datetime \<Rightarrow> params" where
  "usage_params starting_at ending_at =
     [(''starting_at'', JStr (isoformat starting_at)), (''ending_at'', JStr (isoformat ending_at)),
      (''bucket_width'', JStr ''1d''),
      (''group_by[]'', JList [JStr ''model'', JStr ''workspace_id'', JStr ''api_key_id''])]"

definition list_usage where
  "list_usage env validate starting_at ending_at body w =
     paginate env ''/v1/organizations/usage_report/messages'' (usage_params starting_at ending_at)
       (validated validate body) w"

definition list_activities where
  "list_activities env validate q body w =
     paginate_compliance env ''/v1/compliance/activities'' (build_compliance_query q)
       (validated validate body) w"

definition list_chats where
  "list_chats env validate q body w =
     (if cq_user_ids q = [] then Some (w, Raise PyValueError)
      else paginate_compliance env ''/v1/compliance/apps/chats'' (build_compliance_query q)
             (validated validate body) w)"

definition get_chat_messages ::
  "http_env \<Rightarrow> (json \<Rightarrow> 'm option) \<Rightarrow> string \<Rightarrow> 'a net_scheme \<Rightarrow> 'a net_scheme \<times> (exn + 'm)"
where
  "get_chat_messages env validate chat_id w =
     (if chat_id = [] then (w, Inl PyValueError)
      else case http_get env (''/v1/compliance/apps/chats/'' @ chat_id @ ''/messages'') [] w of
             (w', Inl e) \<Rightarrow> (w', Inl e)
           | (w', Inr raw) \<Rightarrow>
               (w', case validate raw of None \<Rightarrow> Inl PyValidationError | Some m \<Rightarrow> Inr m))"

text \<open>One page only; a server with more organizations answers with an error.\<close>

definition list_organizations where
  "list_organizations env validate body w =
     (case http_get env ''/v1/compliance/organizations'' [] w of
        (w1, Inl e) \<Rightarrow> (w1, Raise e)
      | (w1, Inr envelope) \<Rightarrow>
          (case data_rows envelope of
             Inl e \<Rightarrow> (w1, Raise e)
           | Inr rows \<Rightarrow> feed (validated validate body) rows w1))"

definition list_organization_users where
  "list_organization_users env validate org_uuid body w =
     (if org_uuid = [] then Some (w, Raise PyValueError)
      else paginate env (''/v1/compliance/organizations/'' @ org_uuid @ ''/users'') []
             (validated validate body) w)"

definition code_params :: "date \<Rightarrow> int option \<Rightarrow> params" where
  "code_params starting_at limit =
     (''starting_at'', JStr (isodate starting_at))
       # (case limit of None \<Rightarrow> [] | Some n \<Rightarrow> [(''limit'', JStr (int_str n))])"

definition list_code_analytics where
  "list_code_analytics env validate starting_at limit body w =
     paginate env ''/v1/organizations/usage_report/claude_code'' (code_params starting_at limit)
       (validated validate body) w"

section \<open>Lemmas on requests\<close>

lemma raw_get_Inr:
  "raw_get a = Inr b \<longleftrightarrow>
     b = a \<and> (\<exists>s ra t j. a = Answer s ra t j \<and> 200 \<le> s \<and> s < 300)"
  by (auto simp: raw_get_def split: http_answer.split option.splits)

text \<open>How many attempts a call made shows in the ticks; the waits are those of the policy, in order.\<close>

lemma get_attempts_budget:
  assumes "get_attempts env rq n k w = (w', r)"
  shows "\<exists>j \<le> n. n_tick w' = n_tick w + Suc j
      \<and> n_slept w' = n_slept w @ map (he_wait_exponential env) [k..<k + j]
      \<and> r = raw_get (he_send env (n_tick w + j) rq)
      \<and> (\<forall>i < j. \<exists>s. raw_get (he_send env (n_tick w + i) rq) = Inl (RateLimited s))
      \<and> (j < n \<longrightarrow> (\<forall>s. r \<noteq> Inl (RateLimited s)))"
  using assms
proof (induction n arbitrary: k w)
  case 0
  then show ?case by auto
next
  case (Suc n)
  show ?case
  proof (cases "\<exists>s. raw_get (he_send env (n_tick w) rq) = Inl (RateLimited s)")
    case False
    then have "w' = w\<lparr>n_tick := Suc (n_tick w)\<rparr> \<and> r = raw_get (he_send env (n_tick w) rq)"
      using Suc.prems by (auto split: sum.splits exn.splits)
    with False show ?thesis by (intro exI [of _ 0]) auto
  next
    case True
    then obtain s where s: "raw_get (he_send env (n_tick w) rq) = Inl (RateLimited s)" by blast
    let ?w = "w\<lparr>n_tick := Suc (n_tick w), n_slept := n_slept w @ [he_wait_exponential env k]\<rparr>"
    have "get_attempts env rq n (Suc k) ?w = (w', r)" using Suc.prems s by simp
    from Suc.IH [OF this] obtain j where j: "j \<le> n" "n_tick w' = n_tick ?w + Suc j"
      "n_slept w' = n_slept ?w @ map (he_wait_exponential env) [Suc k..<Suc k + j]"
      "r = raw_get (he_send env (n_tick ?w + j) rq)"
      "\<And>i. i < j \<Longrightarrow> \<exists>s. raw_get (he_send env (n_tick ?w + i) rq) = Inl (RateLimited s)"
      "j < n \<longrightarrow> (\<forall>s. r \<noteq> Inl (RateLimited s))"
      by blast
    have "\<exists>s. raw_get (he_send env (n_tick w + i) rq) = Inl (RateLimited s)" if "i < Suc j" for i
      using that s j(5) [of "i - 1"] by (cases i) auto
    moreover have "[k..<k + Suc j] = k # [Suc k..<Suc k + j]" by (simp add: upt_conv_Cons)
    ultimately show ?thesis using j(1-4,6) by (intro exI [of _ "Suc j"]) auto
  qed
qed

section \<open>Lemmas on pages\<close>

lemma feed_append:
  "feed body (xs @ ys) s = (case feed body xs s of (s', Go) \<Rightarrow> feed body ys s' | r \<Rightarrow> r)"
  by (induction xs arbitrary: s) (auto split: prod.splits flow.splits)

lemma feed_goes:
  assumes "\<And>r s. snd (body r s) = Go"
  shows "snd (feed body rs s) = Go"
proof (induction rs arbitrary: s)
  case (Cons r rs)
  obtain s' where "body r s = (s', Go)" using assms [of r s] by (cases "body r s") simp
  with Cons show ?case by simp
qed simp

text \<open>
  A server whose answer depends on the cursor alone: \<open>book\<close> is the envelope of each cursor, and
  \<open>nth_cursor\<close> the cursor of the \<open>n\<close>-th request, if the pages before it lead to one.
\<close>

primrec nth_cursor :: "(json \<Rightarrow> exn + 'c option) \<Rightarrow> ('c option \<Rightarrow> json) \<Rightarrow> nat \<Rightarrow> 'c option option" where
  "nth_cursor next book 0 = Some None"
| "nth_cursor next book (Suc n) =
     (case nth_cursor next book n of
        None \<Rightarrow> None
      | Some c \<Rightarrow> (case next (book c) of Inr (Some v) \<Rightarrow> Some (Some v) | _ \<Rightarrow> None))"

lemma nth_cursor_stays: "nth_cursor next book n = None \<Longrightarrow> nth_cursor next book (n + k) = None"
  by (induction k) simp_all

lemma pages_returns:
  assumes "\<And>c s. \<exists>s'. fetch c s = (s', Inr (book c))" "\<And>c. \<exists>rows. data_rows (book c) = Inr rows"
    and "\<And>r s. snd (body r s) = Go"
    and "nth_cursor next book n = Some c" "nth_cursor next book (n + k) = None"
  shows "\<exists>r. pages fetch next body c s = Some r"
  using assms(4,5)
proof (induction k arbitrary: n c s)
  case (Suc k)
  obtain s1 where s1: "fetch c s = (s1, Inr (book c))" using assms(1) by blast
  obtain rows where rows: "data_rows (book c) = Inr rows" using assms(2) by blast
  obtain s2 where s2: "feed body rows s1 = (s2, Go)"
    using feed_goes [of body rows s1] assms(3) by (cases "feed body rows s1") auto
  show ?case
  proof (cases "\<exists>v. next (book c) = Inr (Some v)")
    case True
    then obtain v where v: "next (book c) = Inr (Some v)" by blast
    have "nth_cursor next book (Suc n) = Some (Some v)" using Suc.prems(1) v by simp
    from Suc.IH [OF this, of s2] Suc.prems(2) obtain r where
      "pages fetch next body (Some v) s2 = Some r" by auto
    then show ?thesis by (subst pages.simps) (simp add: s1 rows s2 v)
  next
    case False
    then show ?thesis
      by (subst pages.simps) (auto simp: s1 rows s2 split: sum.split option.split)
  qed
qed simp

lemma pages_diverges:
  assumes "\<And>c s. \<exists>s'. fetch c s = (s', Inr (book c))" "\<And>c. \<exists>rows. data_rows (book c) = Inr rows"
    and "\<And>r s. snd (body r s) = Go"
    and "\<And>n. nth_cursor next book n \<noteq> None"
    and "nth_cursor next book n = Some c"
  shows "pages fetch next body c s = None"
proof (rule ccontr)
  assume "pages fetch next body c s \<noteq> None"
  then obtain r where r: "pages fetch next body c s = Some r" by blast
  have "fetch = fetch \<and> next = next \<and> body = body \<longrightarrow> (\<exists>n. nth_cursor next book n = Some c) \<longrightarrow> False"
  proof (rule pages.raw_induct [where P = "\<lambda>f' n' b' c s r. f' = fetch \<and> n' = next \<and> b' = body \<longrightarrow>
      (\<exists>n. nth_cursor next book n = Some c) \<longrightarrow> False", OF _ r], intro impI, elim conjE exE)
    fix P f' n' b' c s r m
    assume IH: "\<And>f' n' b' c s r. P f' n' b' c s = Some r \<Longrightarrow>
        f' = fetch \<and> n' = next \<and> b' = body \<longrightarrow> (\<exists>n. nth_cursor next book n = Some c) \<longrightarrow> False"
      and eq: "(case f' c s of
          (s1, Inl e) \<Rightarrow> Some (s1, Raise e)
        | (s1, Inr envelope) \<Rightarrow>
            (case data_rows envelope of
               Inl e \<Rightarrow> Some (s1, Raise e)
             | Inr rows \<Rightarrow>
                 (case feed b' rows s1 of
                    (s2, Go) \<Rightarrow>
                      (case n' envelope of
                         Inl e \<Rightarrow> Some (s2, Raise e)
                       | Inr None \<Rightarrow> Some (s2, Go)
                       | Inr (Some c) \<Rightarrow> P f' n' b' (Some c) s2)
                  | (s2, x) \<Rightarrow> Some (s2, x)))) = Some r"
      and same: "f' = fetch" "n' = next" "b' = body" and m: "nth_cursor next book m = Some c"
    obtain s1 where s1: "fetch c s = (s1, Inr (book c))" using assms(1) by blast
    obtain rows where rows: "data_rows (book c) = Inr rows" using assms(2) by blast
    obtain s2 where s2: "feed body rows s1 = (s2, Go)"
      using feed_goes [of body rows s1] assms(3) by (cases "feed body rows s1") auto
    obtain d where d: "nth_cursor next book (Suc m) = Some d" using assms(4) by blast
    then obtain v where v: "next (book c) = Inr (Some v)" "d = Some v"
      using m by (auto split: sum.splits option.splits)
    have "P fetch next body (Some v) s2 = Some r"
      using eq by (simp add: same s1 rows s2 v(1))
    from IH [OF this] d v(2) show False by blast
  qed
  with assms(5) show False by blast
qed

lemma pages_return_iff:
  assumes "\<And>c s. \<exists>s'. fetch c s = (s', Inr (book c))" "\<And>c. \<exists>rows. data_rows (book c) = Inr rows"
    and "\<And>r s. snd (body r s) = Go"
  shows "(\<exists>r. pages fetch next body None s = Some r) \<longleftrightarrow> (\<exists>n. nth_cursor next book n = None)"
proof
  assume "\<exists>n. nth_cursor next book n = None"
  then obtain n where "nth_cursor next book (0 + n) = None" by auto
  from pages_returns [OF assms _ this, of None] show "\<exists>r. pages fetch next body None s = Some r" by simp
next
  assume "\<exists>r. pages fetch next body None s = Some r"
  then show "\<exists>n. nth_cursor next book n = None"
    using pages_diverges [OF assms, where n = 0 and c = None and s = s] by fastforce
qed

text \<open>The pages of a finite book, and what the loop does to them one after the other.\<close>

inductive page_run :: "(json \<Rightarrow> exn + 'c option) \<Rightarrow> ('c option \<Rightarrow> json) \<Rightarrow> 'c option \<Rightarrow> json list list \<Rightarrow> bool"
  for "next" book where
  last_page: "data_rows (book c) = Inr rs \<Longrightarrow> next (book c) = Inr None \<Longrightarrow> page_run next book c [rs]"
| more_pages: "data_rows (book c) = Inr rs \<Longrightarrow> next (book c) = Inr (Some v) \<Longrightarrow>
    page_run next book (Some v) rss \<Longrightarrow> page_run next book c (rs # rss)"

fun visit :: "('s \<Rightarrow> 's) \<Rightarrow> ('x \<Rightarrow> 's \<Rightarrow> 's \<times> flow) \<Rightarrow> 'x list list \<Rightarrow> 's \<Rightarrow> 's \<times> flow" where
  "visit tk body [] s = (s, Go)"
| "visit tk body (rs # rss) s =
     (case feed body rs (tk s) of (s', Go) \<Rightarrow> visit tk body rss s' | r \<Rightarrow> r)"

lemma feed_no_break:
  assumes "\<And>r s. snd (body r s) \<noteq> Break"
  shows "snd (feed body rs s) \<noteq> Break"
proof (induction rs arbitrary: s)
  case (Cons r rs)
  then show ?case using assms [of r s] by (auto split: prod.split flow.split)
qed simp

lemma visit_no_break:
  assumes "\<And>r s. snd (body r s) \<noteq> Break"
  shows "snd (visit tk body rss s) \<noteq> Break"
proof (induction rss arbitrary: s)
  case (Cons rs rss)
  then show ?case using feed_no_break [where body = body and rs = rs and s = "tk s", OF assms] by (auto split: prod.split flow.split)
qed simp

lemma pages_visit:
  assumes "page_run next book c rss" "\<And>c s. fetch c s = (tk s, Inr (book c))"
  shows "pages fetch next body c s = Some (visit tk body rss s)"
proof -
  have fetch: "fetch = (\<lambda>c s. (tk s, Inr (book c)))" by (intro ext) (rule assms(2))
  show ?thesis
    unfolding fetch using assms(1)
  proof (induction arbitrary: s rule: page_run.induct)
    case (last_page c rs)
    then show ?case by (subst pages.simps) (auto split: prod.split flow.split)
  next
    case (more_pages c rs v rss)
    then show ?case by (subst pages.simps) (auto split: prod.split flow.split)
  qed
qed

text \<open>
  What the pull tasks rely on in a loop body: \<open>acct\<close> tells what dealing with rows in order makes of the
  state, it composes, a body that goes on keeps it for its row and a request changes nothing it speaks of.
  A loop that ran to its end has then accounted for all its rows.
\<close>

locale row_log =
  fixes body :: "'x \<Rightarrow> 's \<Rightarrow> 's \<times> flow"
    and tick :: "'s \<Rightarrow> 's"
    and acct :: "'x list \<Rightarrow> 's \<Rightarrow> 's \<Rightarrow> bool"
  assumes acct_Nil: "acct [] s s"
    and acct_append: "acct xs s t \<Longrightarrow> acct ys t u \<Longrightarrow> acct (xs @ ys) s u"
    and acct_body: "body r s = (s', Go) \<Longrightarrow> acct [r] s s'"
    and acct_tick: "acct [] s (tick s)"
begin

lemma feed_acct: "feed body rs s = (s', Go) \<Longrightarrow> acct rs s s'"
proof (induction rs arbitrary: s)
  case (Cons r rs)
  obtain t where t: "body r s = (t, Go)" "feed body rs t = (s', Go)"
    using Cons.prems by (auto split: prod.splits flow.splits)
  from acct_append [OF acct_body [OF t(1)] Cons.IH [OF t(2)]] show ?case by simp
qed (simp add: acct_Nil)

lemma visit_acct: "visit tick body rss s = (s', Go) \<Longrightarrow> acct (concat rss) s s'"
proof (induction rss arbitrary: s)
  case (Cons rs rss)
  obtain t where t: "feed body rs (tick s) = (t, Go)" "visit tick body rss t = (s', Go)"
    using Cons.prems by (auto split: prod.splits flow.splits)
  from acct_append [OF acct_tick acct_append [OF feed_acct [OF t(1)] Cons.IH [OF t(2)]]] show ?case by simp
qed (simp add: acct_Nil)

end

text \<open>
  A loop body that stops the loop after a fixed number of rows: \<open>seen xs\<close> holds once the rows \<open>xs\<close> have
  been dealt with. A listing is then dealt with up to the cap and no further.
\<close>

locale capped_sink =
  fixes body :: "'m \<Rightarrow> 's \<Rightarrow> 's \<times> flow"
    and tick :: "'s \<Rightarrow> 's"
    and seen :: "'m list \<Rightarrow> 's \<Rightarrow> bool"
    and cap :: nat
  assumes body_seen: "seen xs s \<Longrightarrow> length xs < cap \<Longrightarrow> body m s = (s', f) \<Longrightarrow> \<not> raises f \<Longrightarrow>
        seen (xs @ [m]) s' \<and> f = (if cap \<le> Suc (length xs) then Break else Go)"
    and seen_tick: "seen xs (tick s) = seen xs s"
begin

lemma feed_seen:
  assumes "\<And>r. r \<in> set rs \<Longrightarrow> parse r = Some (act r)"
    and "seen xs w" "length xs < cap"
    and "feed (validated parse body) rs w = (w', f)" "\<not> raises f"
  shows "seen (xs @ take (cap - length xs) (map act rs)) w'
      \<and> f = (if cap \<le> length xs + length rs then Break else Go)"
  using assms
proof (induction rs arbitrary: w xs)
  case (Cons r rs)
  obtain v g where v: "body (act r) w = (v, g)" by (cases "body (act r) w")
  have step: "validated parse body r w = (v, g)"
    using Cons.prems(1) [of r] v by (simp add: validated_def)
  have "\<not> raises g" using Cons.prems(4,5) step by (cases g) auto
  note s = body_seen [OF Cons.prems(2,3) v this]
  show ?case
  proof (cases "cap \<le> Suc (length xs)")
    case True
    then have "cap - length xs = 1" using Cons.prems(3) by simp
    then show ?thesis using s True Cons.prems(4) step by simp
  next
    case False
    then have "feed (validated parse body) rs v = (w', f)"
      using Cons.prems(4) step s by simp
    from Cons.IH [OF Cons.prems(1) s [THEN conjunct1] _ this Cons.prems(5)] False
    have "seen ((xs @ [act r]) @ take (cap - Suc (length xs)) (map act rs)) w'
        \<and> f = (if cap \<le> Suc (length xs) + length rs then Break else Go)" by simp
    moreover have "cap - length xs = Suc (cap - Suc (length xs))" using False by simp
    ultimately show ?thesis by simp
  qed
qed simp

lemma visit_seen:
  assumes "\<And>r. r \<in> set (concat rss) \<Longrightarrow> parse r = Some (act r)"
    and "seen xs w" "length xs < cap"
    and "visit tick (validated parse body) rss w = (w', f)" "\<not> raises f"
  shows "seen (xs @ take (cap - length xs) (map act (concat rss))) w'
      \<and> f = (if cap \<le> length xs + length (concat rss) then Break else Go)"
  using assms
proof (induction rss arbitrary: w xs)
  case (Cons rs rss)
  obtain v g where v: "feed (validated parse body) rs (tick w) = (v, g)"
    by (cases "feed (validated parse body) rs (tick w)")
  have "\<not> raises g" using Cons.prems(4,5) v by (cases g) auto
  from feed_seen [OF _ _ Cons.prems(3) v this] Cons.prems(1,2)
  have s: "seen (xs @ take (cap - length xs) (map act rs)) v"
    "g = (if cap \<le> length xs + length rs then Break else Go)"
    by (auto simp: seen_tick)
  show ?case
  proof (cases "cap \<le> length xs + length rs")
    case True
    then show ?thesis using s Cons.prems(4) v by (simp add: map_concat)
  next
    case False
    then have rest: "visit tick (validated parse body) rss v = (w', f)"
      using Cons.prems(4) v s(2) by simp
    have "seen (xs @ map act rs) v" "length (xs @ map act rs) < cap" using s(1) False by simp_all
    from Cons.IH [OF _ this rest Cons.prems(5)] Cons.prems(1) False show ?thesis
      by (simp add: add.assoc)
  qed
qed simp

end

lemma next_page_truthy: "next_page j = Inr (Some v) \<Longrightarrow> json_true v"
  by (auto simp: next_page_def json_get_def split: json.splits option.splits if_splits)

text \<open>A server that answers every request for a path at once with the page of its parameters.\<close>

definition serves :: "http_env \<Rightarrow> string \<Rightarrow> (params \<Rightarrow> json) \<Rightarrow> bool" where
  "serves env path book \<longleftrightarrow>
     (\<forall>t ps. he_send env t \<lparr>rq_path = path, rq_params = ps\<rparr> = Answer 200 None [] (Some (book ps)))"

lemma http_get_serves:
  "serves env path book \<Longrightarrow> http_get env path ps w = (w\<lparr>n_tick := Suc (n_tick w)\<rparr>, Inr (book ps))"
  by (simp add: http_get_def MAX_ATTEMPTS_def serves_def raw_get_def numeral_eq_Suc)

lemma get_attempts_more: "net.more (fst (get_attempts env rq n k w)) = net.more w"
  by (induction n arbitrary: k w) (auto split: sum.split exn.split)

lemma http_get_more: "http_get env path ps w = (w', r) \<Longrightarrow> net.more w' = net.more w"
  using get_attempts_more [of env "\<lparr>rq_path = path, rq_params = ps\<rparr>" "MAX_ATTEMPTS - 1" 1 w]
  by (auto simp: http_get_def split: prod.splits sum.splits)

text \<open>What a request or a body never breaks holds after any loop over pages that returns.\<close>

lemma feed_preserves:
  assumes "\<And>r s s' f. P s \<Longrightarrow> body r s = (s', f) \<Longrightarrow> P s'" "P s" "feed body rs s = (s', f)"
  shows "P s'"
  using assms(2,3)
proof (induction rs arbitrary: s)
  case (Cons r rs)
  obtain t g where t: "body r s = (t, g)" by (cases "body r s")
  from assms(1) [OF Cons.prems(1) t] Cons.IH Cons.prems(2) show ?case
    by (cases g) (auto simp: t)
qed simp

lemma pages_preserve:
  assumes ret: "pages fetch next body c s = Some (s', f)"
    and fetch: "\<And>c s s' r. P s \<Longrightarrow> fetch c s = (s', r) \<Longrightarrow> P s'"
    and body: "\<And>r s s' f. P s \<Longrightarrow> body r s = (s', f) \<Longrightarrow> P s'"
    and start: "P s"
  shows "P s'"
proof -
  have "fetch = fetch \<and> body = body \<longrightarrow> P s \<longrightarrow> P (fst (s', f))"
  proof (rule pages.raw_induct [where P = "\<lambda>f' n' b' c s r. f' = fetch \<and> b' = body \<longrightarrow> P s \<longrightarrow> P (fst r)",
        OF _ ret], intro impI, elim conjE)
    fix F f' n' b' c s r
    assume IH: "\<And>f' n' b' c s r. F f' n' b' c s = Some r \<Longrightarrow> f' = fetch \<and> b' = body \<longrightarrow> P s \<longrightarrow> P (fst r)"
      and eq: "(case f' c s of
          (s1, Inl e) \<Rightarrow> Some (s1, Raise e)
        | (s1, Inr envelope) \<Rightarrow>
            (case data_rows envelope of
               Inl e \<Rightarrow> Some (s1, Raise e)
             | Inr rows \<Rightarrow>
                 (case feed b' rows s1 of
                    (s2, Go) \<Rightarrow>
                      (case n' envelope of
                         Inl e \<Rightarrow> Some (s2, Raise e)
                       | Inr None \<Rightarrow> Some (s2, Go)
                       | Inr (Some c) \<Rightarrow> F f' n' b' (Some c) s2)
                  | (s2, x) \<Rightarrow> Some (s2, x)))) = Some r"
      and same: "f' = fetch" "b' = body" and s: "P s"
    obtain s1 q where s1: "fetch c s = (s1, q)" by (cases "fetch c s")
    note p1 = fetch [OF s s1]
    show "P (fst r)"
    proof (cases q)
      case (Inl e)
      with eq p1 show ?thesis by (auto simp: same s1)
    next
      case (Inr envelope)
      show ?thesis
      proof (cases "data_rows envelope")
        case (Inl e)
        with eq p1 show ?thesis by (auto simp: same s1 \<open>q = Inr envelope\<close>)
      next
        case rows: (Inr rows)
        obtain s2 g where s2: "feed body rows s1 = (s2, g)" by (cases "feed body rows s1")
        have p2: "P s2" by (rule feed_preserves [where P = P, OF body p1 s2])
        note eq' = eq [unfolded same s1, unfolded Inr, simplified, unfolded rows, simplified, unfolded s2, simplified]
        show ?thesis
          using eq' p2 IH by (auto split: flow.splits sum.splits option.splits)
      qed
    qed
  qed
  with start show ?thesis by simp
qed

section \<open>Properties\<close>

text \<open>C25: When pagination ends. Against a server whose answer depends on the request alone, and with a
  loop body that neither breaks nor raises, \<^verbatim>\<open>paginate\<close> returns if and only if the cursors, followed
  from the first page, come to a page that names no next one. There is no other bound: a server that
  hands out a cursor it has handed out before keeps the task in the loop for ever.\<close>

theorem paginate_returns_iff:
  assumes "serves env path book" "\<And>ps. \<exists>rows. data_rows (book ps) = Inr rows"
    and "\<And>r w. snd (body r w) = Go"
  shows "(\<exists>r. paginate env path params body w = Some r)
     \<longleftrightarrow> (\<exists>n. nth_cursor next_page (\<lambda>c. book (page_params params c)) n = None)"
  unfolding paginate_def
  by (rule pages_return_iff) (simp_all add: http_get_serves [OF assms(1)] assms(2,3))

definition book_of :: "json list \<Rightarrow> json \<Rightarrow> json \<Rightarrow> params \<Rightarrow> json" where
  "book_of rows first later ps =
     JObj [(''data'', JList rows),
           (''next_page'', case map_of ps ''page'' of None \<Rightarrow> first | Some _ \<Rightarrow> later)]"

definition sample_http :: "(params \<Rightarrow> json) \<Rightarrow> http_env" where
  "sample_http book = \<lparr>he_send = \<lambda>t rq. Answer 200 None [] (Some (book (rq_params rq))), he_wait_exponential = int\<rparr>"

lemma sample_http_serves: "serves (sample_http book) path book"
  by (simp add: serves_def sample_http_def)

lemma data_rows_book_of: "data_rows (book_of rows a b ps) = Inr rows"
  by (simp add: data_rows_def json_get_def book_of_def json_iter_def)

lemma paginate_returns_iff_witness:
  "(\<exists>r. paginate (sample_http (book_of [JNull] (JStr ''p2'') JNull)) ''/x'' []
        (\<lambda>r w. (w, Go)) \<lparr>n_tick = 0, n_slept = []\<rparr> = Some r)
   \<and> paginate (sample_http (book_of [JNull] (JStr ''p2'') (JStr ''p2''))) ''/x'' []
        (\<lambda>r w. (w, Go)) \<lparr>n_tick = 0, n_slept = []\<rparr> = None"
proof
  let ?w = "\<lparr>n_tick = 0, n_slept = []\<rparr>" and ?p2 = "JStr ''p2''"
  note pages_iff = paginate_returns_iff [OF sample_http_serves, where path = "''/x''" and params = "[]"
      and body = "\<lambda>r w. (w, Go)" and w = ?w]
  have rows: "\<exists>rows. data_rows (book_of [JNull] a b ps) = Inr rows" for a b ps
    by (simp add: data_rows_book_of)
  have "nth_cursor next_page (\<lambda>c. book_of [JNull] ?p2 JNull (page_params [] c)) 2 = None"
    by (simp add: numeral_2_eq_2 next_page_def json_get_def book_of_def json_true_def page_params_def)
  with pages_iff [where book = "book_of [JNull] ?p2 JNull"] rows
  show "\<exists>r. paginate (sample_http (book_of [JNull] ?p2 JNull)) ''/x'' [] (\<lambda>r w. (w, Go)) ?w = Some r"
    by auto
  have "nth_cursor next_page (\<lambda>c. book_of [JNull] ?p2 ?p2 (page_params [] c)) n
      = Some (if n = 0 then None else Some ?p2)" for n
    by (induction n) (auto simp: next_page_def json_get_def book_of_def json_true_def page_params_def)
  with pages_iff [where book = "book_of [JNull] ?p2 ?p2"] rows
  show "paginate (sample_http (book_of [JNull] ?p2 ?p2)) ''/x'' [] (\<lambda>r w. (w, Go)) ?w = None"
    by (cases "paginate (sample_http (book_of [JNull] ?p2 ?p2)) ''/x'' [] (\<lambda>r w. (w, Go)) ?w") auto
qed

text \<open>What one API call costs and when it gives up. A call makes one to five attempts; every attempt
  but the last was answered 429; a call that made fewer than five did not end on a 429; and between
  the attempts it waited what the policy gives for attempts 1, 2, \<dots>. The error of the last attempt is
  the error of the call.\<close>

lemma http_get_attempts:
  assumes "http_get env path params w = (w', r)"
  shows "\<exists>j. j \<le> 4 \<and> n_tick w' = n_tick w + Suc j
      \<and> n_slept w' = n_slept w @ map (he_wait_exponential env) [1..<1 + j]
      \<and> (\<forall>i < j. \<exists>s. raw_get (he_send env (n_tick w + i) \<lparr>rq_path = path, rq_params = params\<rparr>)
            = Inl (RateLimited s))
      \<and> (\<forall>e. raw_get (he_send env (n_tick w + j) \<lparr>rq_path = path, rq_params = params\<rparr>) = Inl e
            \<longrightarrow> r = Inl e \<and> ((\<exists>s. e = RateLimited s) \<longrightarrow> j = 4))"
proof -
  let ?rq = "\<lparr>rq_path = path, rq_params = params\<rparr>"
  obtain v a where a: "get_attempts env ?rq 4 1 w = (v, a)" by (cases "get_attempts env ?rq 4 1 w")
  then have w': "w' = v" "a = Inl e \<Longrightarrow> r = Inl e" for e
    using assms by (auto simp: http_get_def MAX_ATTEMPTS_def split: sum.splits)
  from get_attempts_budget [OF a] obtain j where j: "j \<le> 4" "n_tick v = n_tick w + Suc j"
      "n_slept v = n_slept w @ map (he_wait_exponential env) [1..<1 + j]"
      "a = raw_get (he_send env (n_tick w + j) ?rq)"
      "\<forall>i < j. \<exists>s. raw_get (he_send env (n_tick w + i) ?rq) = Inl (RateLimited s)"
      "j < 4 \<longrightarrow> (\<forall>s. a \<noteq> Inl (RateLimited s))"
    by blast
  then show ?thesis using w' by (intro exI [of _ j]) auto
qed

definition busy_http :: "nat \<Rightarrow> string \<Rightarrow> http_env" where
  "busy_http n after =
     \<lparr>he_send = \<lambda>t rq. if t < n then Answer 429 (Some after) ''busy'' None else Answer 200 None [] (Some (JObj [])),
      he_wait_exponential = int\<rparr>"

lemma http_get_attempts_witness:
  "n_slept (fst (http_get (busy_http 9 ''7'') ''/x'' [] \<lparr>n_tick = 0, n_slept = []\<rparr>)) = [1, 2, 3, 4]
   \<and> snd (http_get (busy_http 9 ''7'') ''/x'' [] \<lparr>n_tick = 0, n_slept = []\<rparr>) = Inl (RateLimited 7)"
proof -
  let ?w = "\<lparr>n_tick = 0, n_slept = []\<rparr>"
  obtain w' r where c: "http_get (busy_http 9 ''7'') ''/x'' [] ?w = (w', r)"
    by (cases "http_get (busy_http 9 ''7'') ''/x'' [] ?w")
  from http_get_attempts [OF c] obtain j where j: "j \<le> 4"
    "n_slept w' = map int [1..<1 + j]"
    "\<And>e. raw_get (he_send (busy_http 9 ''7'') j \<lparr>rq_path = ''/x'', rq_params = []\<rparr>) = Inl e
       \<Longrightarrow> r = Inl e \<and> ((\<exists>s. e = RateLimited s) \<longrightarrow> j = 4)"
    by (auto simp: busy_http_def simp del: upt_Suc)
  have "py_int ''7'' = Some 7"
    by (simp add: py_int_def strip_def py_space_def is_digit_def nat_val_def)
  with j(1) have "raw_get (he_send (busy_http 9 ''7'') j \<lparr>rq_path = ''/x'', rq_params = []\<rparr>)
      = Inl (RateLimited 7)"
    by (simp add: busy_http_def raw_get_def)
  from j(3) [OF this] j(2) show ?thesis by (simp add: c upt_rec)
qed

text \<open>Answers that are the same up to the hint a 429 carries, where there is one or where it is numeric.\<close>

definition same_but_hint :: "http_answer \<Rightarrow> http_answer \<Rightarrow> bool" where
  "same_but_hint a b \<longleftrightarrow> a = b \<or>
     (\<exists>h h' t j. a = Answer 429 h t j \<and> b = Answer 429 h' t j
        \<and> (case h of None \<Rightarrow> True | Some v \<Rightarrow> py_int v \<noteq> None)
        \<and> (case h' of None \<Rightarrow> True | Some v \<Rightarrow> py_int v \<noteq> None))"

lemma py_int_default [simp]: "py_int DEFAULT_RETRY_AFTER_SECONDS = Some 10"
  by (simp add: py_int_def DEFAULT_RETRY_AFTER_SECONDS_def strip_def py_space_def is_digit_def nat_val_def)

lemma raw_get_same_but_hint:
  "same_but_hint a b \<Longrightarrow> raw_get b = raw_get a
     \<or> (\<exists>n m. raw_get a = Inl (RateLimited n) \<and> raw_get b = Inl (RateLimited m))"
  by (auto simp: same_but_hint_def raw_get_def split: option.splits)

lemma get_attempts_same_but_hint:
  assumes "\<And>t. same_but_hint (he_send env t rq) (he_send env' t rq)"
    and "he_wait_exponential env' = he_wait_exponential env"
  shows "fst (get_attempts env' rq n k w) = fst (get_attempts env rq n k w)
      \<and> (snd (get_attempts env' rq n k w) = snd (get_attempts env rq n k w)
         \<or> (\<exists>i m. snd (get_attempts env rq n k w) = Inl (RateLimited i)
              \<and> snd (get_attempts env' rq n k w) = Inl (RateLimited m)))"
proof (induction n arbitrary: k w)
  case 0
  show ?case using raw_get_same_but_hint [OF assms(1)] by auto
next
  case (Suc n)
  from raw_get_same_but_hint [OF assms(1), of "n_tick w"]
  consider "raw_get (he_send env' (n_tick w) rq) = raw_get (he_send env (n_tick w) rq)"
    | i m where "raw_get (he_send env (n_tick w) rq) = Inl (RateLimited i)"
        "raw_get (he_send env' (n_tick w) rq) = Inl (RateLimited m)"
    by blast
  then show ?case
  proof cases
    case 1
    then show ?thesis using Suc.IH assms(2) by (simp split: sum.split exn.split)
  next
    case 2
    then show ?thesis using Suc.IH assms(2) by simp
  qed
qed

text \<open>C26: The server's \<^verbatim>\<open>Retry-After\<close> changes nothing. Two servers whose answers to a request differ
  only in the (numeric) hint they send along with a 429 get the same number of requests from a call,
  after the same waits, and the call ends the same way up to the number inside the error.\<close>

theorem retry_after_is_ignored:
  assumes "\<And>t. same_but_hint (he_send env t \<lparr>rq_path = path, rq_params = params\<rparr>)
      (he_send env' t \<lparr>rq_path = path, rq_params = params\<rparr>)"
    and "he_wait_exponential env' = he_wait_exponential env"
  shows "fst (http_get env' path params w) = fst (http_get env path params w)
      \<and> (snd (http_get env' path params w) = snd (http_get env path params w)
         \<or> (\<exists>n m. snd (http_get env path params w) = Inl (RateLimited n)
              \<and> snd (http_get env' path params w) = Inl (RateLimited m)))"
  using get_attempts_same_but_hint [OF assms, of "MAX_ATTEMPTS - 1" 1 w]
  by (auto simp: http_get_def split: prod.split sum.split)

lemma retry_after_is_ignored_witness:
  "n_slept (fst (http_get (busy_http 2 ''600'') ''/x'' [] \<lparr>n_tick = 0, n_slept = []\<rparr>)) = [1, 2]
   \<and> n_slept (fst (http_get (busy_http 2 ''1'') ''/x'' [] \<lparr>n_tick = 0, n_slept = []\<rparr>)) = [1, 2]"
proof -
  let ?w = "\<lparr>n_tick = 0, n_slept = []\<rparr>"
  have ints: "py_int ''600'' = Some 600" "py_int ''1'' = Some 1"
    by (simp_all add: py_int_def strip_def py_space_def is_digit_def nat_val_def)
  have same: "same_but_hint (he_send (busy_http 2 ''600'') t rq) (he_send (busy_http 2 ''1'') t rq)" for t rq
    by (auto simp: same_but_hint_def busy_http_def ints)
  have "n_slept (fst (http_get (busy_http 2 ''600'') ''/x'' [] ?w)) = [1, 2]"
    by (simp add: http_get_def MAX_ATTEMPTS_def busy_http_def raw_get_def ints numeral_eq_Suc)
  with retry_after_is_ignored [where env = "busy_http 2 ''600''" and env' = "busy_http 2 ''1''"
      and path = "''/x''" and params = "[]" and w = ?w, OF same]
  show ?thesis by (simp add: busy_http_def)
qed

end
