(* ===== verification/Ingest.thy ===== *)
theory Ingest
  imports ApiClient Chain Metering Crypto
begin

text \<open>
  What every pull task does for a tenant: read the stream's cursor from \<^verbatim>\<open>pull_state\<close>, append each
  fetched item to the tenant's chain, meter it when it was new, count it as a duplicate when the table
  refused it, and write the cursor back. The state is one record: the database tables and Redis keys
  the tasks touch, and the running task's counters and the list \<^verbatim>\<open>list(generator)\<close> has collected. The clock, Redis and the appends of other
  workers are functions of the tick, like the answers of the API.
\<close>

section \<open>State\<close>

record pull_row =
  pl_cursor :: "string option"
  pl_last_pulled_at :: "datetime option"
  pl_last_status :: "string option"
  pl_last_error :: "string option"

record api_key_row =
  ak_name :: string
  ak_status :: string
  ak_workspace_id :: "string option"

record pull_world = net +
  pw_records :: records_table
  pw_meter :: meter
  pw_pull_state :: "string \<times> string \<Rightarrow> pull_row option"
  pw_workspaces :: "string \<times> string \<Rightarrow> string option"
  pw_api_keys :: "string \<times> string \<Rightarrow> api_key_row option"
  pw_vault :: vault
  pw_inserted :: int
  pw_deduped :: int
  pw_listed :: "json list"

text \<open>
  \<open>pe_rivals t\<close> are the rows other transactions commit between the append's reading of the tip and its
  INSERT at tick \<open>t\<close>; \<open>pe_redis t\<close> tells whether Redis answers.
\<close>

record pull_env =
  pe_http :: http_env
  pe_chain :: chain_env
  pe_crypto :: crypto_env
  pe_now :: "nat \<Rightarrow> datetime"
  pe_redis :: "nat \<Rightarrow> bool"
  pe_rivals :: "nat \<Rightarrow> records_table"

text \<open>
  A task's body: it may not return, and when it does it has changed the state and raised or returned.
\<close>

type_synonym ('w, 'a) task_result = "('w \<times> (exn + 'a)) option"

fun after :: "('w, 'a) task_result \<Rightarrow> ('a \<Rightarrow> 'w \<Rightarrow> ('w, 'b) task_result) \<Rightarrow> ('w, 'b) task_result" where
  "after None f = None"
| "after (Some (w, Inl e)) f = Some (w, Inl e)"
| "after (Some (w, Inr x)) f = f x w"

lemma after_Some_Inr:
  "after m f = Some (w, Inr y) \<longleftrightarrow> (\<exists>v x. m = Some (v, Inr x) \<and> f x v = Some (w, Inr y))"
  by (cases "(m, f)" rule: after.cases) auto

lemma after_Some_Inl:
  "after m f = Some (w, Inl e) \<longleftrightarrow>
     m = Some (w, Inl e) \<or> (\<exists>v x. m = Some (v, Inr x) \<and> f x v = Some (w, Inl e))"
  by (cases "(m, f)" rule: after.cases) auto

text \<open>A loop as a statement: a break ends it normally.\<close>

definition loop_result :: "('w \<times> flow) option \<Rightarrow> ('w, unit) task_result" where
  "loop_result r =
     (case r of None \<Rightarrow> None | Some (w, Raise e) \<Rightarrow> Some (w, Inl e) | Some (w, _) \<Rightarrow> Some (w, Inr ()))"

lemma loop_result_Inr:
  "loop_result r = Some (w, Inr u) \<longleftrightarrow> (\<exists>f. r = Some (w, f) \<and> \<not> raises f)"
  by (auto simp: loop_result_def raises_def split: option.splits flow.splits)

lemma loop_result_Inl: "loop_result r = Some (w, Inl e) \<longleftrightarrow> r = Some (w, Raise e)"
  by (auto simp: loop_result_def split: option.splits flow.splits)

section \<open>Cursors\<close>

definition load_cursor ::
  "string \<Rightarrow> string \<Rightarrow> 'a pull_world_scheme \<Rightarrow> exn + datetime option"
where
  "load_cursor tenant_id source_api w =
     (case pw_pull_state w (tenant_id, source_api) of
        None \<Rightarrow> Inr None
      | Some row \<Rightarrow>
          (case pl_cursor row of
             None \<Rightarrow> Inr None
           | Some c \<Rightarrow> (case fromisoformat c of None \<Rightarrow> Inl PyValueError | Some t \<Rightarrow> Inr (Some t))))"

definition save_cursor ::
  "pull_env \<Rightarrow> string \<Rightarrow> string \<Rightarrow> datetime \<Rightarrow> 'a pull_world_scheme \<Rightarrow> 'a pull_world_scheme \<times> flow"
where
  "save_cursor env tenant_id source_api cursor w =
     (if 64 < length tenant_id \<or> 32 < length source_api then (w, Raise PyDataError)
      else (w\<lparr>pw_pull_state := (pw_pull_state w)((tenant_id, source_api) \<mapsto>
                \<lparr>pl_cursor = Some (isoformat cursor), pl_last_pulled_at = Some (pe_now env (n_tick w)),
                 pl_last_status = Some ''ok'', pl_last_error = None\<rparr>)\<rparr>, Go))"

section \<open>One item\<close>

definition exn_of_chain :: "chain_error \<Rightarrow> exn" where
  "exn_of_chain e =
     (case e of chain_error.ValueError \<Rightarrow> PyValueError | chain_error.IntegrityError \<Rightarrow> PyIntegrityError
      | chain_error.DataError \<Rightarrow> PyDataError)"

definition exn_of_crypto :: "crypto_error \<Rightarrow> exn" where
  "exn_of_crypto e = (case e of crypto_error.ValueError \<Rightarrow> PyValueError | LookupError \<Rightarrow> PyLookupError
     | crypto_error.DataError \<Rightarrow> PyDataError | _ \<Rightarrow> PyCryptoError)"

definition exn_of_meter :: "meter_error \<Rightarrow> exn" where
  "exn_of_meter e = (case e of meter_error.ValueError \<Rightarrow> PyValueError | meter_error.DataError \<Rightarrow> PyDataError
     | ConnectionError \<Rightarrow> PyRedisError | OperationalError \<Rightarrow> PyOperationalError)"

text \<open>\<^verbatim>\<open>append_telemetry_record(...)\<close> in its own transaction.\<close>

definition try_append ::
  "pull_env \<Rightarrow> string \<Rightarrow> append_args \<Rightarrow> 'a pull_world_scheme \<Rightarrow> 'a pull_world_scheme \<times> (exn + unit)"
where
  "try_append env tenant_id a w =
     (let db = pw_records w @ pe_rivals env (n_tick w)
      in case append_between (pe_chain env) tenant_id a (pw_records w) db of
           Inl e \<Rightarrow> (w\<lparr>n_tick := Suc (n_tick w), pw_records := db\<rparr>, Inl (exn_of_chain e))
         | Inr (db', r) \<Rightarrow> (w\<lparr>n_tick := Suc (n_tick w), pw_records := db'\<rparr>, Inr ()))"

text \<open>\<^verbatim>\<open>increment(tenant_id, record_type)\<close>.\<close>

definition try_increment ::
  "pull_env \<Rightarrow> string \<Rightarrow> string \<Rightarrow> 'a pull_world_scheme \<Rightarrow> 'a pull_world_scheme \<times> (exn + unit)"
where
  "try_increment env tenant_id record_type w =
     (let w' = w\<lparr>n_tick := Suc (n_tick w)\<rparr>
      in case increment (pe_now env (n_tick w)) tenant_id record_type 1 (pw_meter w) of
           Inl e \<Rightarrow> (w', Inl (exn_of_meter e))
         | Inr m \<Rightarrow> if pe_redis env (n_tick w) then (w'\<lparr>pw_meter := m\<rparr>, Inr ()) else (w', Inl PyRedisError))"

text \<open>
  The \<^verbatim>\<open>try\<close> of the loops: append, meter, count; an \<^verbatim>\<open>IntegrityError\<close>, whatever its cause, counts as a
  duplicate, and anything else leaves the loop.
\<close>

definition append_and_meter ::
  "pull_env \<Rightarrow> string \<Rightarrow> append_args \<Rightarrow> 'a pull_world_scheme \<Rightarrow> 'a pull_world_scheme \<times> flow"
where
  "append_and_meter env tenant_id a w =
     (case try_append env tenant_id a w of
        (w1, Inl PyIntegrityError) \<Rightarrow> (w1\<lparr>pw_deduped := pw_deduped w1 + 1\<rparr>, Go)
      | (w1, Inl e) \<Rightarrow> (w1, Raise e)
      | (w1, Inr _) \<Rightarrow>
          (case try_increment env tenant_id (ap_record_type a) w1 of
             (w2, Inl e) \<Rightarrow> (w2, Raise e)
           | (w2, Inr _) \<Rightarrow> (w2\<lparr>pw_inserted := pw_inserted w2 + 1\<rparr>, Go)))"

section \<open>Lemmas on cursors\<close>

lemma load_save_cursor:
  assumes "py_datetime t" "save_cursor env tid sa t w = (w', Go)"
  shows "load_cursor tid sa w' = Inr (Some t)"
  using assms by (auto simp: save_cursor_def load_cursor_def fromisoformat_isoformat split: if_splits)

lemma load_save_other:
  "save_cursor env tid sa t w = (w', f) \<Longrightarrow> (tid', sa') \<noteq> (tid, sa) \<Longrightarrow>
     load_cursor tid' sa' w' = load_cursor tid' sa' w"
  by (auto simp: save_cursor_def load_cursor_def split: if_splits)

lemma save_cursor_keeps:
  "save_cursor env tid sa t w = (w', f) \<Longrightarrow> pw_records w' = pw_records w \<and> pw_meter w' = pw_meter w"
  by (auto simp: save_cursor_def split: if_splits)

section \<open>Lemmas on one item\<close>

text \<open>Whether a record is in the table, and that rows are only ever added.\<close>

definition recorded :: "string \<Rightarrow> string \<Rightarrow> string \<Rightarrow> 'a pull_world_scheme \<Rightarrow> bool" where
  "recorded tid sa ei w = duplicate tid sa ei (pw_records w)"

lemma duplicate_append_rows [simp]: "duplicate tid sa ei (xs @ ys) \<longleftrightarrow> duplicate tid sa ei xs \<or> duplicate tid sa ei ys"
  by (auto simp: duplicate_def)

lemma try_append_grows:
  "try_append env tid a w = (w', r) \<Longrightarrow> \<exists>xs. pw_records w' = pw_records w @ xs"
  by (auto simp: try_append_def Let_def append_between_def insert_row_def split: sum.splits if_splits)

lemma try_increment_keeps:
  "try_increment env tid rt w = (w', r) \<Longrightarrow>
     pw_records w' = pw_records w \<and> pw_pull_state w' = pw_pull_state w \<and> pw_inserted w' = pw_inserted w
       \<and> pw_deduped w' = pw_deduped w"
  by (auto simp: try_increment_def Let_def split: sum.splits if_splits)

lemma append_and_meter_grows:
  assumes "append_and_meter env tid a w = (w', f)"
  shows "\<exists>xs. pw_records w' = pw_records w @ xs"
proof -
  obtain w1 r where w1: "try_append env tid a w = (w1, r)" by (cases "try_append env tid a w")
  obtain w2 q where w2: "try_increment env tid (ap_record_type a) w1 = (w2, q)"
    by (cases "try_increment env tid (ap_record_type a) w1")
  have "pw_records w' = pw_records w1"
    using assms try_increment_keeps [OF w2]
    by (auto simp: append_and_meter_def w1 w2 split: sum.splits exn.splits)
  with try_append_grows [OF w1] show ?thesis by simp
qed

lemma recorded_append_and_meter:
  "append_and_meter env tid a w = (w', f) \<Longrightarrow> recorded t sa ei w \<Longrightarrow> recorded t sa ei w'"
  using append_and_meter_grows [of env tid a w w' f] by (auto simp: recorded_def)

section \<open>A worker that has the tenant to itself\<close>

definition alone :: "pull_env \<Rightarrow> string \<Rightarrow> bool" where
  "alone env tid \<longleftrightarrow> (\<forall>t. \<forall>x \<in> set (pe_rivals env t). tr_tenant_id x \<noteq> tid)"

lemma rows_of_append_lists [simp]: "rows_of tid (xs @ ys) = rows_of tid xs @ rows_of tid ys"
  by (simp add: rows_of_def)

lemma rows_of_rivals [simp]: "alone env tid \<Longrightarrow> rows_of tid (pe_rivals env t) = []"
  by (auto simp: alone_def rows_of_def filter_empty_conv)

lemma chain_tip_max:
  assumes "chain_tip rows = Some t" "x \<in> set rows"
  shows "tr_chain_seq x \<le> tr_chain_seq t"
proof -
  have fold_max: "tr_chain_seq b \<le> tr_chain_seq (foldl (\<lambda>b x. if tr_chain_seq b < tr_chain_seq x then x else b) b xs)
      \<and> (\<forall>x \<in> set xs. tr_chain_seq x
            \<le> tr_chain_seq (foldl (\<lambda>b x. if tr_chain_seq b < tr_chain_seq x then x else b) b xs))"
    for b :: telemetry_row and xs
  proof (induction xs arbitrary: b)
    case (Cons x xs)
    show ?case
      using Cons.IH [of "if tr_chain_seq b < tr_chain_seq x then x else b"] by auto
  qed simp
  from assms show ?thesis
    using fold_max by (auto simp: chain_tip_def split: list.splits)
qed

lemma fresh_seq:
  assumes "build_record env tid a (chain_tip (rows_of tid db)) = Inr r" "x \<in> set db" "tr_tenant_id x = tid"
  shows "tr_chain_seq x < tr_chain_seq r"
proof -
  have x: "x \<in> set (rows_of tid db)" using assms(2,3) by (simp add: rows_of_def)
  then obtain t where t: "chain_tip (rows_of tid db) = Some t"
    by (cases "rows_of tid db") (auto simp: chain_tip_def)
  from chain_tip_max [OF t x] build_record_fields(8) [OF assms(1)] show ?thesis by (simp add: t)
qed

lemma build_record_no_integrity: "build_record env tid a tip \<noteq> Inl chain_error.IntegrityError"
  by (auto simp: build_record_def Let_def split: option.split)

text \<open>The row that an append of \<open>a\<close> leaves in the table, the columns of the chain apart.\<close>

definition carries :: "chain_env \<Rightarrow> string \<Rightarrow> append_args \<Rightarrow> telemetry_row \<Rightarrow> bool" where
  "carries env tid a x \<longleftrightarrow>
     tr_tenant_id x = tid \<and> tr_record_type x = ap_record_type a \<and> tr_source_api x = ap_source_api a
     \<and> tr_external_id x = ap_external_id a \<and> tr_subject_user_id x = ap_subject_user_id a
     \<and> tr_occurred_at x = timestamptz env (ap_occurred_at a) \<and> tr_content_ref x = ap_content_ref a
     \<and> tr_content_hash x = ap_content_hash a \<and> tr_content_size_bytes x = ap_content_size_bytes a
     \<and> tr_record_metadata x = jsonb env (case ap_record_metadata a of None \<Rightarrow> JObj [] | Some m \<Rightarrow> m)"

lemma carries_stored: "build_record env tid a tip = Inr r \<Longrightarrow> carries env tid a (store_row env r)"
  by (auto simp: build_record_def carries_def store_row_def Let_def split: if_splits option.splits)

text \<open>
  Alone, an \<^verbatim>\<open>IntegrityError\<close> has one cause, the record being there already; an append that succeeds
  adds one row of the tenant.
\<close>

lemma try_append_alone:
  fixes w w' :: "'a pull_world_scheme"
  assumes "alone env tid" "try_append env tid a w = (w', r)"
  shows "r = Inl PyIntegrityError \<Longrightarrow> recorded tid (ap_source_api a) (ap_external_id a) w'
           \<and> rows_of tid (pw_records w') = rows_of tid (pw_records w)"
    and "r = Inr u \<Longrightarrow> recorded tid (ap_source_api a) (ap_external_id a) w'
           \<and> (\<exists>x. rows_of tid (pw_records w') = rows_of tid (pw_records w) @ [x]
                \<and> tr_external_id x = ap_external_id a \<and> tr_source_api x = ap_source_api a
                \<and> tr_content_hash x = ap_content_hash a \<and> carries (pe_chain env) tid a x)"
proof -
  let ?db = "pw_records w @ pe_rivals env (n_tick w)"
  have rows: "rows_of tid ?db = rows_of tid (pw_records w)" using assms(1) by simp
  { assume "r = Inl PyIntegrityError"
    then have "append_between (pe_chain env) tid a (pw_records w) ?db = Inl chain_error.IntegrityError"
      "pw_records w' = ?db"
      using assms(2)
      by (auto simp: try_append_def Let_def exn_of_chain_def split: sum.splits chain_error.splits)
    moreover from this obtain q where q0: "build_record (pe_chain env) tid a (chain_tip (rows_of tid (pw_records w))) = Inr q"
      and q2: "insert_row (pe_chain env) ?db q = Inl chain_error.IntegrityError"
      using build_record_no_integrity
      by (auto simp: append_between_def bindE_eq_Inl)
    moreover have q: "build_record (pe_chain env) tid a (chain_tip (rows_of tid ?db)) = Inr q"
      unfolding rows by (rule q0)
    moreover from q2 obtain x where "x \<in> set ?db" "conflicts q x"
      by (auto simp: insert_row_def list_ex_iff split: if_splits)
    moreover have "tr_chain_seq x \<noteq> tr_chain_seq q"
      using fresh_seq [OF q \<open>x \<in> set ?db\<close>] \<open>conflicts q x\<close> build_record_fields(1) [OF q]
      by (auto simp: conflicts_def)
    ultimately show "recorded tid (ap_source_api a) (ap_external_id a) w'
        \<and> rows_of tid (pw_records w') = rows_of tid (pw_records w)"
      using build_record_fields(1-3) [OF q] assms(1)
      by (auto simp: recorded_def duplicate_def list_ex_iff conflicts_def) }
  { assume "r = Inr u"
    then obtain q where q: "build_record (pe_chain env) tid a (chain_tip (rows_of tid (pw_records w))) = Inr q"
      "pw_records w' = ?db @ [store_row (pe_chain env) q]"
      using assms(2)
      by (auto simp: try_append_def Let_def append_between_def insert_row_def split: sum.splits if_splits)
    then show "recorded tid (ap_source_api a) (ap_external_id a) w'
        \<and> (\<exists>x. rows_of tid (pw_records w') = rows_of tid (pw_records w) @ [x]
             \<and> tr_external_id x = ap_external_id a \<and> tr_source_api x = ap_source_api a
             \<and> tr_content_hash x = ap_content_hash a \<and> carries (pe_chain env) tid a x)"
      using build_record_fields [OF q(1)] carries_stored [OF q(1)] assms(1)
      by (auto simp: recorded_def duplicate_def rows_of_def alone_def filter_empty_conv) }
qed

text \<open>A record whose key the table has is never appended.\<close>

lemma try_append_fresh_key:
  fixes w w' :: "'a pull_world_scheme"
  assumes "alone env tid" "try_append env tid a w = (w', Inr u)"
  shows "\<not> recorded tid (ap_source_api a) (ap_external_id a) w"
proof -
  obtain q where q: "build_record (pe_chain env) tid a (chain_tip (rows_of tid (pw_records w))) = Inr q"
    "\<not> list_ex (conflicts q) (pw_records w @ pe_rivals env (n_tick w))"
    using assms(2)
    by (auto simp: try_append_def Let_def append_between_def insert_row_def split: sum.splits if_splits)
  then show ?thesis
    using build_record_fields(1-3) [OF q(1)]
    by (auto simp: recorded_def duplicate_def list_ex_iff conflicts_def)
qed

section \<open>Known and new records\<close>

text \<open>What the append requires of its arguments besides being new.\<close>

definition appendable :: "string \<Rightarrow> append_args \<Rightarrow> bool" where
  "appendable tid a \<longleftrightarrow> tid \<noteq> [] \<and> length (ap_content_hash a) = 32 \<and> args_fit tid a"

lemma append_and_meter_known:
  fixes w :: "'a pull_world_scheme"
  assumes "package_contract (pe_chain env)" "appendable tid a"
    and "recorded tid (ap_source_api a) (ap_external_id a) w"
  shows "append_and_meter env tid a w =
     (w\<lparr>n_tick := Suc (n_tick w), pw_records := pw_records w @ pe_rivals env (n_tick w),
        pw_deduped := pw_deduped w + 1\<rparr>, Go)"
proof -
  let ?db = "pw_records w @ pe_rivals env (n_tick w)"
  obtain r where r: "build_record (pe_chain env) tid a (chain_tip (rows_of tid (pw_records w))) = Inr r"
    using build_record_ok [OF assms(1)] assms(2) unfolding appendable_def by blast
  have "list_ex (conflicts r) ?db"
    using assms(3) build_record_fields(1-3) [OF r]
    by (auto simp: recorded_def duplicate_def list_ex_iff conflicts_def)
  then have "append_between (pe_chain env) tid a (pw_records w) ?db = Inl chain_error.IntegrityError"
    using assms(2) build_record_fits [OF r] by (simp add: append_between_def r insert_row_def appendable_def)
  then show ?thesis by (simp add: append_and_meter_def try_append_def Let_def exn_of_chain_def)
qed

lemma append_and_meter_new:
  fixes w :: "'a pull_world_scheme"
  assumes "package_contract (pe_chain env)" "appendable tid a" "alone env tid"
    and "\<not> recorded tid (ap_source_api a) (ap_external_id a) w"
  obtains x where "try_append env tid a w =
     (w\<lparr>n_tick := Suc (n_tick w), pw_records := pw_records w @ pe_rivals env (n_tick w) @ [x]\<rparr>, Inr ())"
    and "tr_tenant_id x = tid" "tr_source_api x = ap_source_api a" "tr_external_id x = ap_external_id a"
    and "tr_content_hash x = ap_content_hash a" "tr_content_ref x = ap_content_ref a"
proof -
  let ?db = "pw_records w @ pe_rivals env (n_tick w)"
  obtain r where r: "build_record (pe_chain env) tid a (chain_tip (rows_of tid (pw_records w))) = Inr r"
    using build_record_ok [OF assms(1)] assms(2) unfolding appendable_def by blast
  have "\<not> conflicts r x" if "x \<in> set ?db" for x
  proof
    assume c: "conflicts r x"
    have "x \<in> set (pw_records w)"
      using that c build_record_fields(1) [OF r] assms(3) by (auto simp: conflicts_def alone_def)
    with c fresh_seq [OF r this] build_record_fields(1-3) [OF r] assms(4) show False
      by (auto simp: conflicts_def recorded_def duplicate_def list_ex_iff)
  qed
  then have "append_between (pe_chain env) tid a (pw_records w) ?db
      = Inr (?db @ [store_row (pe_chain env) r], store_row (pe_chain env) r)"
    using assms(2) build_record_fits [OF r]
    by (auto simp: append_between_def r insert_row_def list_ex_iff appendable_def)
  then have "try_append env tid a w =
     (w\<lparr>n_tick := Suc (n_tick w),
        pw_records := pw_records w @ pe_rivals env (n_tick w) @ [store_row (pe_chain env) r]\<rparr>, Inr ())"
    by (simp add: try_append_def Let_def)
  then show thesis using that build_record_fields [OF r] by simp
qed

section \<open>What a loop has added\<close>

text \<open>Of the items whose keys are not known yet the first of each key.\<close>

fun fresh_by :: "('x \<Rightarrow> 'k) \<Rightarrow> 'k set \<Rightarrow> 'x list \<Rightarrow> 'x list" where
  "fresh_by key K [] = []"
| "fresh_by key K (x # xs) =
     (if key x \<in> K then fresh_by key K xs else x # fresh_by key (insert (key x) K) xs)"

lemma fresh_by_keys: "K \<union> key ` set (fresh_by key K xs) = K \<union> key ` set xs"
  by (induction key K xs rule: fresh_by.induct) auto

lemma fresh_by_append: "fresh_by key K (xs @ ys) = fresh_by key K xs @ fresh_by key (K \<union> key ` set xs) ys"
proof (induction key K xs rule: fresh_by.induct)
  case (2 key K x xs)
  then show ?case by (cases "key x \<in> K") (simp_all add: insert_absorb)
qed simp

lemma fresh_by_map: "fresh_by key K (map f xs) = map f (fresh_by (\<lambda>x. key (f x)) K xs)"
  by (induction "\<lambda>x. key (f x)" K xs rule: fresh_by.induct) auto

lemma fresh_by_le: "length (fresh_by key K xs) \<le> length xs"
  by (induction key K xs rule: fresh_by.induct) auto

definition args_key :: "append_args \<Rightarrow> string \<times> string" where
  "args_key a = (ap_source_api a, ap_external_id a)"

definition row_key :: "telemetry_row \<Rightarrow> string \<times> string" where
  "row_key x = (tr_source_api x, tr_external_id x)"

definition known :: "string \<Rightarrow> 'a pull_world_scheme \<Rightarrow> (string \<times> string) set" where
  "known tid w = row_key ` set (rows_of tid (pw_records w))"

lemma recorded_rows:
  "recorded tid sa ei w \<longleftrightarrow>
     (\<exists>x \<in> set (rows_of tid (pw_records w)). tr_source_api x = sa \<and> tr_external_id x = ei)"
  by (auto simp: recorded_def duplicate_def rows_of_def list_ex_iff)

lemma recorded_known: "recorded tid sa ei w \<longleftrightarrow> (sa, ei) \<in> known tid w"
  by (auto simp: recorded_rows known_def row_key_def)

text \<open>
  Dealing with the records \<open>as\<close> in order has led from \<open>w\<close> to \<open>w'\<close>: one row was added for each of them whose
  key was new, with what the record says, the meter took one increment for each of these rows, and the
  others are counted as duplicates.
\<close>

definition logged :: "pull_env \<Rightarrow> string \<Rightarrow> append_args list \<Rightarrow> 'a pull_world_scheme \<Rightarrow> 'a pull_world_scheme \<Rightarrow> bool" where
  "logged env tid as w w' \<longleftrightarrow>
     (let new = fresh_by args_key (known tid w) as
      in (\<exists>xs nows. pw_records w' = pw_records w @ xs \<and> list_all2 (carries (pe_chain env) tid) new (rows_of tid xs)
            \<and> length nows = length new
            \<and> pw_meter w' = meter_run (map2 (\<lambda>now a. Increment now tid (ap_record_type a) 1) nows new) (pw_meter w))
         \<and> pw_inserted w' = pw_inserted w + int (length new)
         \<and> pw_deduped w' = pw_deduped w + int (length as) - int (length new))"

lemma carries_keys: "list_all2 (carries env tid) as xs \<Longrightarrow> row_key ` set xs = args_key ` set as"
  by (induction rule: list_all2_induct) (auto simp: carries_def row_key_def args_key_def)

lemma logged_known: "logged env tid as w w' \<Longrightarrow> known tid w' = known tid w \<union> args_key ` set as"
proof -
  let ?new = "fresh_by args_key (known tid w) as"
  assume "logged env tid as w w'"
  then obtain xs where "pw_records w' = pw_records w @ xs" "list_all2 (carries (pe_chain env) tid) ?new (rows_of tid xs)"
    unfolding logged_def Let_def by blast
  then have "known tid w' = known tid w \<union> args_key ` set ?new"
    using carries_keys [of "pe_chain env" tid ?new "rows_of tid xs"] by (simp add: known_def image_Un)
  then show ?thesis unfolding fresh_by_keys .
qed

lemma logged_Nil: "pw_records w' = pw_records w \<Longrightarrow> pw_meter w' = pw_meter w \<Longrightarrow>
    pw_inserted w' = pw_inserted w \<Longrightarrow> pw_deduped w' = pw_deduped w \<Longrightarrow> logged env tid [] w w'"
  by (simp add: logged_def rows_of_def meter_run_def)

lemma logged_append:
  assumes "logged env tid as u v" "logged env tid bs v w"
  shows "logged env tid (as @ bs) u w"
proof -
  let ?new = "fresh_by args_key (known tid u) as" and ?new' = "fresh_by args_key (known tid v) bs"
  have new: "fresh_by args_key (known tid u) (as @ bs) = ?new @ ?new'"
    by (simp add: fresh_by_append logged_known [OF assms(1)])
  obtain xs ns where u: "pw_records v = pw_records u @ xs" "list_all2 (carries (pe_chain env) tid) ?new (rows_of tid xs)"
    "length ns = length ?new"
    "pw_meter v = meter_run (map2 (\<lambda>now a. Increment now tid (ap_record_type a) 1) ns ?new) (pw_meter u)"
    using assms(1) unfolding logged_def Let_def by blast
  obtain ys ms where v: "pw_records w = pw_records v @ ys" "list_all2 (carries (pe_chain env) tid) ?new' (rows_of tid ys)"
    "length ms = length ?new'"
    "pw_meter w = meter_run (map2 (\<lambda>now a. Increment now tid (ap_record_type a) 1) ms ?new') (pw_meter v)"
    using assms(2) unfolding logged_def Let_def by blast
  have "pw_records w = pw_records u @ (xs @ ys)" using u(1) v(1) by simp
  moreover have "list_all2 (carries (pe_chain env) tid) (?new @ ?new') (rows_of tid (xs @ ys))"
    using u(2) v(2) by (simp add: list_all2_appendI)
  moreover have "pw_meter w = meter_run (map2 (\<lambda>now a. Increment now tid (ap_record_type a) 1) (ns @ ms) (?new @ ?new')) (pw_meter u)"
    using u(3) v(3) by (simp add: u(4) v(4) meter_run_def)
  moreover have "length (ns @ ms) = length (?new @ ?new')" using u(3) v(3) by simp
  moreover have "pw_inserted w = pw_inserted u + int (length (?new @ ?new'))"
    "pw_deduped w = pw_deduped u + int (length (as @ bs)) - int (length (?new @ ?new'))"
    using assms by (simp_all add: logged_def Let_def)
  ultimately show ?thesis unfolding logged_def new Let_def by blast
qed

lemma append_and_meter_logged:
  fixes w w' :: "'a pull_world_scheme"
  assumes "alone env tid" "append_and_meter env tid a w = (w', f)" "\<not> raises f"
  shows "logged env tid [a] w w'"
proof -
  obtain w1 r where w1: "try_append env tid a w = (w1, r)" by (cases "try_append env tid a w")
  obtain xs where xs: "pw_records w1 = pw_records w @ xs" using try_append_grows [OF w1] by blast
  have keep: "pw_meter w1 = pw_meter w" "pw_inserted w1 = pw_inserted w" "pw_deduped w1 = pw_deduped w"
    using w1 by (auto simp: try_append_def Let_def split: sum.splits)
  from assms(2,3) consider (dup) "r = Inl PyIntegrityError" "w' = w1\<lparr>pw_deduped := pw_deduped w1 + 1\<rparr>"
    | (new) w2 where "r = Inr ()" "try_increment env tid (ap_record_type a) w1 = (w2, Inr ())"
        "w' = w2\<lparr>pw_inserted := pw_inserted w2 + 1\<rparr>"
    by (auto simp: append_and_meter_def w1 split: sum.splits exn.splits prod.splits)
  then show ?thesis
  proof cases
    case dup
    from try_append_alone(1) [OF assms(1) w1 dup(1)] have "rows_of tid xs = []" "args_key a \<in> known tid w"
      using xs by (auto simp: recorded_known args_key_def) (simp add: known_def)
    then show ?thesis
      using dup(2) keep xs by (simp add: logged_def meter_run_def)
  next
    case new
    from try_append_alone(2) [OF assms(1) w1 new(1)] xs obtain x where
      x: "rows_of tid xs = [x]" "carries (pe_chain env) tid a x" by auto
    have fresh: "args_key a \<notin> known tid w"
      using try_append_fresh_key [OF assms(1)] w1 new(1) by (simp add: recorded_known args_key_def)
    let ?b = "pe_now env (n_tick w1)"
    have "increment ?b tid (ap_record_type a) 1 (pw_meter w1) = Inr (pw_meter w')"
      "pw_records w' = pw_records w1" "pw_inserted w' = pw_inserted w1 + 1" "pw_deduped w' = pw_deduped w1"
      using new(2,3) by (auto simp: try_increment_def Let_def split: sum.splits if_splits)
    then show ?thesis
      unfolding logged_def using keep xs x fresh
      by (auto simp: meter_run_def meter_step_def intro!: exI [of _ xs] exI [of _ "[?b]"])
  qed
qed

lemma append_and_meter_recorded:
  fixes w w' :: "'a pull_world_scheme"
  assumes "alone env tid" "append_and_meter env tid a w = (w', f)" "\<not> raises f"
  shows "recorded tid (ap_source_api a) (ap_external_id a) w'"
  using logged_known [OF append_and_meter_logged [OF assms]] by (simp add: recorded_known args_key_def)

text \<open>The loop body of a stream: a raw row is validated and turned into the records it stands for.\<close>

definition ingest_row ::
  "pull_env \<Rightarrow> string \<Rightarrow> (json \<Rightarrow> 'm option) \<Rightarrow> ('m \<Rightarrow> append_args list) \<Rightarrow> json
     \<Rightarrow> 'a pull_world_scheme \<Rightarrow> 'a pull_world_scheme \<times> flow"
where
  "ingest_row env tenant_id validate to_args =
     validated validate (\<lambda>m. feed (append_and_meter env tenant_id) (to_args m))"

definition http_tick :: "'a net_scheme \<Rightarrow> 'a net_scheme" where
  "http_tick w = w\<lparr>n_tick := Suc (n_tick w)\<rparr>"

definition made_of :: "(json \<Rightarrow> 'm option) \<Rightarrow> ('m \<Rightarrow> append_args list) \<Rightarrow> json list \<Rightarrow> append_args list" where
  "made_of validate to_args rs = concat (map (\<lambda>r. case validate r of None \<Rightarrow> [] | Some m \<Rightarrow> to_args m) rs)"

lemma append_and_meter_no_break: "snd (append_and_meter env tid a w) \<noteq> Break"
  by (auto simp: append_and_meter_def split: sum.split exn.split prod.split)

lemma append_and_meter_feed_no_break: "snd (feed (append_and_meter env tid) as w) \<noteq> Break"
  by (rule feed_no_break) (rule append_and_meter_no_break)

lemma ingest_row_no_break: "snd (ingest_row env tid validate to_args r w) \<noteq> Break"
  using append_and_meter_feed_no_break by (auto simp: ingest_row_def validated_def split: option.split)

lemma ingest_visit_no_break: "snd (visit tk (ingest_row env tid validate to_args) rss w) \<noteq> Break"
  by (rule visit_no_break) (rule ingest_row_no_break)

lemma ingest_row_cases:
  assumes "ingest_row env tid validate to_args r w = (w', f)" "\<not> raises f"
  shows "\<exists>m. validate r = Some m \<and> feed (append_and_meter env tid) (to_args m) w = (w', f)"
  using assms by (auto simp: ingest_row_def validated_def split: option.splits)

lemma logged_http_tick: "logged env tid [] w (http_tick w)"
  by (rule logged_Nil) (simp_all add: http_tick_def)

interpretation item: row_log "append_and_meter env tid" http_tick "\<lambda>as w w'. alone env tid \<longrightarrow> logged env tid as w w'"
  for env tid
proof (unfold_locales, goal_cases)
  case (3 a w w')
  then show ?case using append_and_meter_logged [OF _ 3] by (simp add: raises_def)
qed (auto intro: logged_append logged_Nil logged_http_tick)

interpretation row: row_log "ingest_row env tid validate to_args" http_tick
  "\<lambda>rs w w'. alone env tid \<longrightarrow> logged env tid (made_of validate to_args rs) w w'"
  for env tid validate to_args
proof (unfold_locales, goal_cases)
  case (2 xs s t ys u)
  then show ?case by (auto simp: made_of_def intro: logged_append)
next
  case (3 r s s')
  then obtain m where m: "validate r = Some m" "feed (append_and_meter env tid) (to_args m) s = (s', Go)"
    using ingest_row_cases [OF 3] by (auto simp: raises_def)
  from item.feed_acct [OF m(2)] m(1) show ?case by (simp add: made_of_def)
qed (auto simp: made_of_def intro: logged_Nil logged_http_tick)

end
