(* ===== verification/PullAdmin.thy ===== *)
theory PullAdmin
  imports Ingest
begin

text \<open>
  \<^verbatim>\<open>tasks/pull_admin.py\<close>: the scheduled pull of the usage report and the backfill of older windows.
  Both append one record per breakdown of every usage bucket. The pull asks for everything since the
  cursor and moves the cursor to the moment it started; the backfill walks its period in chunks and
  moves the cursor after each.
\<close>

section \<open>Buckets and their records\<close>

text \<open>
  \<open>bd_dump\<close>, \<open>ub_dump_starting_at\<close> and \<open>ub_dump_ending_at\<close> are what pydantic's \<^verbatim>\<open>model_dump\<close> makes of
  the breakdown and of the two times.
\<close>

record usage_breakdown =
  bd_model :: "string option"
  bd_workspace_id :: "string option"
  bd_api_key_id :: "string option"
  bd_dump :: json

record usage_bucket =
  ub_starting_at :: datetime
  ub_ending_at :: datetime
  ub_results :: "usage_breakdown list"
  ub_dump_starting_at :: json
  ub_dump_ending_at :: json

record workspace =
  ws_id :: string
  ws_name :: string

record api_key =
  akr_id :: string
  akr_name :: string
  akr_status :: string
  akr_workspace_id :: "string option"

definition SOURCE_API_ADMIN :: string where
  "SOURCE_API_ADMIN = ''admin''"

definition DEFAULT_INITIAL_LOOKBACK_DAYS :: int where
  "DEFAULT_INITIAL_LOOKBACK_DAYS = 1"

text \<open>\<^verbatim>\<open>x or "-"\<close>: an empty text counts as missing.\<close>

definition or_dash :: "string option \<Rightarrow> string" where
  "or_dash x = (case x of None \<Rightarrow> ''-'' | Some s \<Rightarrow> if s = [] then ''-'' else s)"

definition bucket_meta :: "usage_bucket \<Rightarrow> json list \<Rightarrow> json" where
  "bucket_meta b results =
     JObj [(''starting_at'', ub_dump_starting_at b), (''ending_at'', ub_dump_ending_at b),
           (''results'', JList results)]"

definition usage_window :: "usage_bucket \<Rightarrow> string" where
  "usage_window b = ''usage:'' @ isoformat (ub_starting_at b) @ '':'' @ isoformat (ub_ending_at b) @ '':''"

definition usage_args :: "(bytes \<Rightarrow> bytes) \<Rightarrow> usage_bucket \<Rightarrow> string \<Rightarrow> json \<Rightarrow> append_args" where
  "usage_args sha b key sub_meta =
     \<lparr>ap_record_type = ''usage'', ap_source_api = SOURCE_API_ADMIN, ap_external_id = usage_window b @ key,
      ap_occurred_at = ub_starting_at b, ap_content_hash = sha (utf8_encode (dumps sub_meta)),
      ap_record_metadata = Some sub_meta, ap_subject_user_id = None, ap_content_ref = None,
      ap_content_size_bytes = None\<rparr>"

definition breakdown_key :: "usage_breakdown \<Rightarrow> string" where
  "breakdown_key d =
     or_dash (bd_model d) @ '':'' @ or_dash (bd_workspace_id d) @ '':'' @ or_dash (bd_api_key_id d)"

definition normalize_usage :: "(bytes \<Rightarrow> bytes) \<Rightarrow> usage_bucket \<Rightarrow> append_args list" where
  "normalize_usage sha b =
     (if ub_results b = [] then [usage_args sha b ''-:-'' (bucket_meta b [])]
      else map (\<lambda>d. usage_args sha b (breakdown_key d) (bucket_meta b [bd_dump d])) (ub_results b))"

section \<open>Client and catalogues\<close>

text \<open>What \<^verbatim>\<open>bytes.decode("utf-8")\<close> accepts.\<close>

definition cont_byte :: "nat \<Rightarrow> nat \<Rightarrow> char \<Rightarrow> bool" where
  "cont_byte lo hi c \<longleftrightarrow> lo \<le> of_char c \<and> of_char c \<le> hi"

fun is_utf8 :: "bytes \<Rightarrow> bool" where
  "is_utf8 [] = True"
| "is_utf8 (a # bs) =
     (let n = of_char a :: nat
      in if n < 128 then is_utf8 bs
         else case bs of
           [] \<Rightarrow> False
         | b # bs1 \<Rightarrow>
             if 194 \<le> n \<and> n \<le> 223 then cont_byte 128 191 b \<and> is_utf8 bs1
             else case bs1 of
               [] \<Rightarrow> False
             | c # bs2 \<Rightarrow>
                 if 224 \<le> n \<and> n \<le> 239
                 then cont_byte (if n = 224 then 160 else 128) (if n = 237 then 159 else 191) b
                   \<and> cont_byte 128 191 c \<and> is_utf8 bs2
                 else case bs2 of
                   [] \<Rightarrow> False
                 | d # bs3 \<Rightarrow>
                     240 \<le> n \<and> n \<le> 244
                     \<and> cont_byte (if n = 240 then 144 else 128) (if n = 244 then 143 else 191) b
                     \<and> cont_byte 128 191 c \<and> cont_byte 128 191 d \<and> is_utf8 bs3)"

text \<open>The client is the key in its header; an empty key is refused by the constructor.\<close>

definition client_for_tenant ::
  "pull_env \<Rightarrow> string \<Rightarrow> string \<Rightarrow> 'a pull_world_scheme \<Rightarrow> exn + bytes"
where
  "client_for_tenant env secret_name tenant_id w =
     (if tenant_id = [] then Inl PyValueError
      else case unseal_secret (pe_crypto env) tenant_id secret_name (pw_vault w) of
        Inl e \<Rightarrow> Inl (exn_of_crypto e)
      | Inr key \<Rightarrow> if \<not> is_utf8 key \<or> key = [] then Inl PyValueError else Inr key)"

definition admin_client_for_tenant :: "pull_env \<Rightarrow> string \<Rightarrow> 'a pull_world_scheme \<Rightarrow> exn + bytes" where
  "admin_client_for_tenant env = client_for_tenant env ''anthropic_admin_key''"

definition compliance_client_for_tenant :: "pull_env \<Rightarrow> string \<Rightarrow> 'a pull_world_scheme \<Rightarrow> exn + bytes" where
  "compliance_client_for_tenant env = client_for_tenant env ''anthropic_compliance_access_key''"

definition collect :: "json \<Rightarrow> 'a pull_world_scheme \<Rightarrow> 'a pull_world_scheme \<times> flow" where
  "collect r w = (w\<lparr>pw_listed := pw_listed w @ [r]\<rparr>, Go)"

definition valid_row :: "(json \<Rightarrow> 'm option) \<Rightarrow> json \<Rightarrow> json option" where
  "valid_row validate r = (if validate r = None then None else Some r)"

definition upsert_workspace ::
  "string \<Rightarrow> workspace \<Rightarrow> (string \<times> string \<Rightarrow> string option) \<Rightarrow> exn + (string \<times> string \<Rightarrow> string option)"
where
  "upsert_workspace tid ws t =
     (if 64 < length tid \<or> 64 < length (ws_id ws) \<or> 256 < length (ws_name ws) then Inl PyDataError
      else Inr (t((tid, ws_id ws) \<mapsto> ws_name ws)))"

definition upsert_api_key ::
  "string \<Rightarrow> api_key \<Rightarrow> (string \<times> string \<Rightarrow> api_key_row option) \<Rightarrow> exn + (string \<times> string \<Rightarrow> api_key_row option)"
where
  "upsert_api_key tid k t =
     (if 64 < length tid \<or> 128 < length (akr_id k) \<or> 256 < length (akr_name k) \<or> 32 < length (akr_status k)
         \<or> \<not> opt_fits 64 (akr_workspace_id k) then Inl PyDataError
      else Inr (t((tid, akr_id k) \<mapsto>
             \<lparr>ak_name = akr_name k, ak_status = akr_status k, ak_workspace_id = akr_workspace_id k\<rparr>)))"

text \<open>One transaction: the first row the table refuses undoes all.\<close>

fun upsert_all :: "('r \<Rightarrow> 't \<Rightarrow> exn + 't) \<Rightarrow> 'r list \<Rightarrow> 't \<Rightarrow> exn + 't" where
  "upsert_all f [] t = Inr t"
| "upsert_all f (r # rs) t = bindE (f r t) (upsert_all f rs)"

text \<open>
  Only the listing stands inside the \<^verbatim>\<open>try\<close>: an error there is logged and counts as no rows, an error
  of the upserts leaves the function.
\<close>

definition sync_workspaces ::
  "pull_env \<Rightarrow> (json \<Rightarrow> workspace option) \<Rightarrow> string \<Rightarrow> 'a pull_world_scheme \<Rightarrow> ('a pull_world_scheme, int) task_result"
where
  "sync_workspaces env validate tid w =
     (case list_workspaces (pe_http env) (valid_row validate) collect (w\<lparr>pw_listed := []\<rparr>) of
        None \<Rightarrow> None
      | Some (w1, Raise e) \<Rightarrow> Some (w1, Inr 0)
      | Some (w1, _) \<Rightarrow>
          (let rows = pw_listed w1
           in case upsert_all (upsert_workspace tid) (map (the \<circ> validate) rows) (pw_workspaces w1) of
                Inl e \<Rightarrow> Some (w1, Inl e)
              | Inr t \<Rightarrow> Some (w1\<lparr>pw_workspaces := t\<rparr>, Inr (int (length rows)))))"

definition sync_api_keys ::
  "pull_env \<Rightarrow> (json \<Rightarrow> api_key option) \<Rightarrow> string \<Rightarrow> 'a pull_world_scheme \<Rightarrow> ('a pull_world_scheme, int) task_result"
where
  "sync_api_keys env validate tid w =
     (case list_api_keys (pe_http env) (valid_row validate) collect (w\<lparr>pw_listed := []\<rparr>) of
        None \<Rightarrow> None
      | Some (w1, Raise e) \<Rightarrow> Some (w1, Inr 0)
      | Some (w1, _) \<Rightarrow>
          (let rows = pw_listed w1
           in case upsert_all (upsert_api_key tid) (map (the \<circ> validate) rows) (pw_api_keys w1) of
                Inl e \<Rightarrow> Some (w1, Inl e)
              | Inr t \<Rightarrow> Some (w1\<lparr>pw_api_keys := t\<rparr>, Inr (int (length rows)))))"

section \<open>The pull\<close>

text \<open>How pydantic reads the three kinds of row.\<close>

record admin_models =
  am_bucket :: "json \<Rightarrow> usage_bucket option"
  am_workspace :: "json \<Rightarrow> workspace option"
  am_api_key :: "json \<Rightarrow> api_key option"

text \<open>\<^verbatim>\<open>t + timedelta(days=n)\<close>; a result outside the years 1 to 9999 raises.\<close>

definition plus_days :: "datetime \<Rightarrow> int \<Rightarrow> exn + datetime" where
  "plus_days t n =
     (let d = add_days (dt_date t) n
      in if 1 \<le> d_year d \<and> d_year d \<le> 9999 then Inr (t\<lparr>dt_date := d\<rparr>) else Inl PyOverflowError)"

definition ingest_usage ::
  "pull_env \<Rightarrow> admin_models \<Rightarrow> string \<Rightarrow> datetime \<Rightarrow> datetime \<Rightarrow> 'a pull_world_scheme \<Rightarrow> ('a pull_world_scheme, unit) task_result"
where
  "ingest_usage env models tid starting_at ending_at w =
     loop_result (list_usage (pe_http env) (am_bucket models) starting_at ending_at
       (\<lambda>b. feed (append_and_meter env tid) (normalize_usage (sha256 (pe_chain env)) b)) w)"

definition pull_admin_for_tenant ::
  "pull_env \<Rightarrow> admin_models \<Rightarrow> string \<Rightarrow> 'a pull_world_scheme \<Rightarrow> ('a pull_world_scheme, int \<times> int) task_result"
where
  "pull_admin_for_tenant env models tenant_id w0 =
     (let w = w0\<lparr>pw_inserted := 0, pw_deduped := 0\<rparr>
      in if tenant_id = [] then Some (w, Inl PyValueError)
         else
           (let pull_started = pe_now env (n_tick w)
            in case bindE (load_cursor tenant_id SOURCE_API_ADMIN w) (\<lambda>cursor.
                    case cursor of Some c \<Rightarrow> Inr c
                    | None \<Rightarrow> plus_days pull_started (- DEFAULT_INITIAL_LOOKBACK_DAYS)) of
                 Inl e \<Rightarrow> Some (w, Inl e)
               | Inr starting_at \<Rightarrow>
                   (case admin_client_for_tenant env tenant_id w of
                      Inl e \<Rightarrow> Some (w, Inl e)
                    | Inr client \<Rightarrow>
                        after (sync_workspaces env (am_workspace models) tenant_id w) (\<lambda>_ w.
                        after (sync_api_keys env (am_api_key models) tenant_id w) (\<lambda>_ w.
                        after (ingest_usage env models tenant_id starting_at pull_started w) (\<lambda>_ w.
                        after (loop_result (Some (save_cursor env tenant_id SOURCE_API_ADMIN pull_started w))) (\<lambda>_ w.
                          Some (w, Inr (pw_inserted w, pw_deduped w)))))))))"

section \<open>The backfill\<close>

text \<open>\<^verbatim>\<open>max(a, b)\<close> and \<^verbatim>\<open>min(a, b)\<close> of two aware datetimes; of equal instants the first is kept.\<close>

definition max_dt :: "datetime \<Rightarrow> datetime \<Rightarrow> datetime" where
  "max_dt a b = (if instant a < instant b then b else a)"

definition min_dt :: "datetime \<Rightarrow> datetime \<Rightarrow> datetime" where
  "min_dt a b = (if instant b < instant a then b else a)"

partial_function (option) backfill_loop ::
  "pull_env \<Rightarrow> admin_models \<Rightarrow> string \<Rightarrow> int \<Rightarrow> datetime \<Rightarrow> int \<Rightarrow> datetime \<Rightarrow> 'a pull_world_scheme
     \<Rightarrow> ('a pull_world_scheme \<times> (exn + int)) option"
where
  "backfill_loop env models tid chunk_days now n chunk_start w =
     (if \<not> instant chunk_start < instant now then Some (w, Inr n)
      else case plus_days chunk_start chunk_days of
        Inl e \<Rightarrow> Some (w, Inl e)
      | Inr next_start \<Rightarrow>
          (case ingest_usage env models tid chunk_start (min_dt next_start now) w of
             None \<Rightarrow> None
           | Some (w1, Inl e) \<Rightarrow> Some (w1, Inl e)
           | Some (w1, Inr u) \<Rightarrow>
               (case save_cursor env tid SOURCE_API_ADMIN (min_dt next_start now) w1 of
                  (w2, Raise e) \<Rightarrow> Some (w2, Inl e)
                | (w2, f) \<Rightarrow>
                    backfill_loop env models tid chunk_days now (n + 1) (min_dt next_start now) w2)))"

definition backfill_admin_for_tenant ::
  "pull_env \<Rightarrow> admin_models \<Rightarrow> string \<Rightarrow> int \<Rightarrow> int \<Rightarrow> 'a pull_world_scheme
     \<Rightarrow> ('a pull_world_scheme, int \<times> int \<times> int) task_result"
where
  "backfill_admin_for_tenant env models tenant_id days chunk_days w0 =
     (let w = w0\<lparr>pw_inserted := 0, pw_deduped := 0\<rparr>
      in if tenant_id = [] \<or> days \<le> 0 \<or> chunk_days \<le> 0 then Some (w, Inl PyValueError)
         else
           (let now = pe_now env (n_tick w)
            in case bindE (load_cursor tenant_id SOURCE_API_ADMIN w) (\<lambda>cursor.
                    bindE (plus_days now (- days)) (\<lambda>backfill_start.
                      Inr (case cursor of Some c \<Rightarrow> max_dt c backfill_start | None \<Rightarrow> backfill_start))) of
                 Inl e \<Rightarrow> Some (w, Inl e)
               | Inr start \<Rightarrow>
                   (case admin_client_for_tenant env tenant_id w of
                      Inl e \<Rightarrow> Some (w, Inl e)
                    | Inr client \<Rightarrow>
                        after (sync_workspaces env (am_workspace models) tenant_id w) (\<lambda>_ w.
                        after (backfill_loop env models tenant_id chunk_days now 0 start w) (\<lambda>n w.
                          Some (w, Inr (pw_inserted w, pw_deduped w, n)))))))"

section \<open>The dispatcher\<close>

record tenant_entry =
  te_tenant_id :: string
  te_active :: bool
  te_region :: string

text \<open>The tenants one task is queued for, in the order of the rows; the result is their number.\<close>

definition dispatch_pulls :: "string option \<Rightarrow> tenant_entry list \<Rightarrow> string list \<times> int" where
  "dispatch_pulls region tenants =
     (let rows = filter (\<lambda>t. te_active t \<and> (case region of None \<Rightarrow> True | Some r \<Rightarrow> te_region t = r)) tenants
      in (map te_tenant_id rows, int (length rows)))"

section \<open>Lemmas\<close>

text \<open>The part of the state that only records, cursors and the meter are.\<close>

definition books :: "'a pull_world_scheme \<Rightarrow> records_table \<times> meter \<times> (string \<times> string \<Rightarrow> pull_row option) \<times> int \<times> int" where
  "books w = (pw_records w, pw_meter w, pw_pull_state w, pw_inserted w, pw_deduped w)"

lemma books_more:
  fixes w w' :: "'a pull_world_scheme"
  assumes "net.more w' = net.more w"
  shows "books w' = books w"
  using assms by (cases w; cases w') (simp add: books_def)

lemma books_http_get: "http_get env path ps (w :: 'a pull_world_scheme) = (w', r) \<Longrightarrow> books w' = books w"
  by (rule books_more) (rule http_get_more)

lemma validated_preserves:
  assumes "\<And>m s s' f. P s \<Longrightarrow> body m s = (s', f) \<Longrightarrow> P s'" "P s" "validated validate body r s = (s', f)"
  shows "P s'"
  using assms by (auto simp: validated_def split: option.splits)

lemma paginate_preserves:
  fixes w w' :: "'a pull_world_scheme"
  assumes "paginate env path ps (validated validate body) w = Some (w', f)"
    and "\<And>u v :: 'a pull_world_scheme. P u \<Longrightarrow> net.more v = net.more u \<Longrightarrow> P v"
    and "\<And>m u v g. P u \<Longrightarrow> body m u = (v, g) \<Longrightarrow> P v" "P w"
  shows "P w'"
  by (rule pages_preserve [where P = P, OF assms(1) [unfolded paginate_def]])
     (use assms(2-4) in \<open>blast intro: http_get_more validated_preserves [where P = P]\<close>)+

lemma paginate_admin_preserves:
  fixes w w' :: "'a pull_world_scheme"
  assumes "paginate_admin env path ps (validated validate body) w = Some (w', f)"
    and "\<And>u v :: 'a pull_world_scheme. P u \<Longrightarrow> net.more v = net.more u \<Longrightarrow> P v"
    and "\<And>m u v g. P u \<Longrightarrow> body m u = (v, g) \<Longrightarrow> P v" "P w"
  shows "P w'"
  by (rule pages_preserve [where P = P, OF assms(1) [unfolded paginate_admin_def]])
     (use assms(2-4) in \<open>blast intro: http_get_more validated_preserves [where P = P]\<close>)+

lemma collected_books:
  fixes w w' :: "'a pull_world_scheme"
  assumes "paginate_admin env path ps (validated validate collect) w = Some (w', f)"
  shows "books w' = books w"
  by (rule paginate_admin_preserves [where P = "\<lambda>u. books u = books w", OF assms])
     (auto dest: books_more simp: collect_def books_def)

lemma sync_books:
  fixes w w' :: "'a pull_world_scheme"
  shows "sync_workspaces env validate_ws tid w = Some (w', r) \<Longrightarrow> books w' = books w"
    and "sync_api_keys env validate_ak tid w = Some (w', r) \<Longrightarrow> books w' = books w"
proof -
  let ?w = "w\<lparr>pw_listed := []\<rparr>"
  have cl: "books ?w = books w" by (simp add: books_def)
  assume a: "sync_workspaces env validate_ws tid w = Some (w', r)"
  then obtain w1 f where w1: "list_workspaces (pe_http env) (valid_row validate_ws) collect ?w = Some (w1, f)"
    by (auto simp: sync_workspaces_def split: option.splits)
  from collected_books [OF w1 [unfolded list_workspaces_def]] cl have "books w1 = books w" by simp
  with a show "books w' = books w"
    by (auto simp: sync_workspaces_def w1 Let_def books_def split: flow.splits sum.splits)
next
  let ?w = "w\<lparr>pw_listed := []\<rparr>"
  have cl: "books ?w = books w" by (simp add: books_def)
  assume a: "sync_api_keys env validate_ak tid w = Some (w', r)"
  then obtain w1 f where w1: "list_api_keys (pe_http env) (valid_row validate_ak) collect ?w = Some (w1, f)"
    by (auto simp: sync_api_keys_def split: option.splits)
  from collected_books [OF w1 [unfolded list_api_keys_def]] cl have "books w1 = books w" by simp
  with a show "books w' = books w"
    by (auto simp: sync_api_keys_def w1 Let_def books_def split: flow.splits sum.splits)
qed

text \<open>A loop over the usage report only adds rows and leaves the cursors alone, however it ends.\<close>

definition extended :: "'a pull_world_scheme \<Rightarrow> 'a pull_world_scheme \<Rightarrow> bool" where
  "extended w w' \<longleftrightarrow> pw_pull_state w' = pw_pull_state w \<and> (\<exists>xs. pw_records w' = pw_records w @ xs)"

lemma extended_refl [simp]: "extended w w"
  by (simp add: extended_def)

lemma extended_trans: "extended u v \<Longrightarrow> extended v w \<Longrightarrow> extended u w"
  by (auto simp: extended_def)

lemma extended_books: "books w' = books w \<Longrightarrow> extended w w'"
  by (simp add: books_def extended_def)

lemma extended_append_and_meter:
  fixes w w' :: "'a pull_world_scheme"
  assumes "append_and_meter env tid a w = (w', f)"
  shows "extended w w'"
proof -
  obtain w1 r where w1: "try_append env tid a w = (w1, r)" by (cases "try_append env tid a w")
  have "pw_pull_state w1 = pw_pull_state w"
    using w1 by (auto simp: try_append_def Let_def split: sum.splits)
  moreover have "pw_pull_state w' = pw_pull_state w1"
    using assms try_increment_keeps [of env tid "ap_record_type a" w1]
    by (auto simp: append_and_meter_def w1 split: sum.splits exn.splits prod.splits)
  ultimately show ?thesis using append_and_meter_grows [OF assms] by (simp add: extended_def)
qed

lemma extended_feed:
  "feed (append_and_meter env tid) as w = (w', f) \<Longrightarrow> extended w (w' :: 'a pull_world_scheme)"
  by (rule feed_preserves [where P = "extended w" and body = "append_and_meter env tid" and s = w])
     (auto dest: extended_append_and_meter intro: extended_trans)

lemma ingest_usage_extended:
  fixes w w' :: "'a pull_world_scheme"
  assumes "ingest_usage env models tid s e w = Some (w', r)"
  shows "extended w w'"
proof -
  obtain f where f: "list_usage (pe_http env) (am_bucket models) s e
      (\<lambda>b. feed (append_and_meter env tid) (normalize_usage (sha256 (pe_chain env)) b)) w = Some (w', f)"
    using assms by (auto simp: ingest_usage_def loop_result_def split: option.splits flow.splits)
  show ?thesis
    by (rule paginate_preserves [where P = "extended w", OF f [unfolded list_usage_def]])
       (auto dest: extended_feed books_more extended_books intro: extended_trans)
qed

definition pull_since :: "datetime \<Rightarrow> string \<Rightarrow> 'a pull_world_scheme \<Rightarrow> exn + datetime" where
  "pull_since started tid w =
     bindE (load_cursor tid SOURCE_API_ADMIN w) (\<lambda>cursor.
       case cursor of Some c \<Rightarrow> Inr c | None \<Rightarrow> plus_days started (- DEFAULT_INITIAL_LOOKBACK_DAYS))"

lemma pull_admin_cases:
  fixes w w' :: "'a pull_world_scheme"
  assumes "pull_admin_for_tenant env models tid w = Some (w', r)"
  obtains (early) e where "r = Inl e" "books w' = (pw_records w, pw_meter w, pw_pull_state w, 0, 0)"
  | (middle) e u since where "r = Inl e" "extended u w'" "books u = (pw_records w, pw_meter w, pw_pull_state w, 0, 0)"
  | (success) u since v where "pull_since (pe_now env (n_tick w)) tid w = Inr since"
      "books u = (pw_records w, pw_meter w, pw_pull_state w, 0, 0)"
      "ingest_usage env models tid since (pe_now env (n_tick w)) u = Some (v, Inr ())"
      "save_cursor env tid SOURCE_API_ADMIN (pe_now env (n_tick w)) v = (w', Go)"
      "r = Inr (pw_inserted w', pw_deduped w')"
proof -
  define w0 where "w0 = w\<lparr>pw_inserted := 0, pw_deduped := 0\<rparr>"
  let ?now = "pe_now env (n_tick w)"
  have b0: "books w0 = (pw_records w, pw_meter w, pw_pull_state w, 0, 0)" by (simp add: w0_def books_def)
  have load: "load_cursor tid SOURCE_API_ADMIN w0 = load_cursor tid SOURCE_API_ADMIN w"
    by (simp add: w0_def load_cursor_def)
  note d = assms [unfolded pull_admin_for_tenant_def Let_def, folded w0_def, unfolded load]
  have tick: "n_tick w0 = n_tick w" by (simp add: w0_def)
  show thesis
  proof (cases "r")
    case (Inl e)
    consider "w' = w0" | (sync) "sync_workspaces env (am_workspace models) tid w0 = Some (w', Inl e)"
      | (keys) w1 a where "sync_workspaces env (am_workspace models) tid w0 = Some (w1, Inr a)"
          "sync_api_keys env (am_api_key models) tid w1 = Some (w', Inl e)"
      | (rest) w1 a w2 b since where "sync_workspaces env (am_workspace models) tid w0 = Some (w1, Inr a)"
          "sync_api_keys env (am_api_key models) tid w1 = Some (w2, Inr b)"
          "ingest_usage env models tid since ?now w2 = Some (w', Inl e)
           \<or> (\<exists>w3 u. ingest_usage env models tid since ?now w2 = Some (w3, Inr u)
                \<and> save_cursor env tid SOURCE_API_ADMIN ?now w3 = (w', Raise e))"
      using d Inl
      by (auto simp: tick after_Some_Inl loop_result_Inl split: if_splits sum.splits) blast+
    then show thesis
    proof cases
      case 1
      then show ?thesis using early Inl b0 by simp
    next
      case sync
      then show ?thesis using early Inl b0 sync_books(1) [OF sync] by simp
    next
      case keys
      then show ?thesis using early Inl b0 sync_books(1) [OF keys(1)] sync_books(2) [OF keys(2)] by simp
    next
      case rest
      have "books w2 = books w0" using sync_books(1) [OF rest(1)] sync_books(2) [OF rest(2)] by simp
      moreover from rest(3) have "extended w2 w'"
        by (auto dest!: ingest_usage_extended simp: save_cursor_def split: if_splits)
      ultimately show ?thesis using middle Inl b0 by metis
    qed
  next
    case (Inr q)
    then obtain w1 a w2 b since v u where s: "sync_workspaces env (am_workspace models) tid w0 = Some (w1, Inr a)"
        "sync_api_keys env (am_api_key models) tid w1 = Some (w2, Inr b)"
      and p: "pull_since ?now tid w = Inr since" "ingest_usage env models tid since ?now w2 = Some (v, Inr u)"
        "loop_result (Some (save_cursor env tid SOURCE_API_ADMIN ?now v)) = Some (w', Inr ())"
        "q = (pw_inserted w', pw_deduped w')"
      using d by (auto simp: tick after_Some_Inr pull_since_def split: if_splits sum.splits)
    have "books w2 = books w0" using sync_books(1) [OF s(1)] sync_books(2) [OF s(2)] by simp
    moreover have "save_cursor env tid SOURCE_API_ADMIN ?now v = (w', Go)"
      using p(3) by (auto simp: loop_result_Inr save_cursor_def split: if_splits)
    ultimately show ?thesis using success p(1,2,4) Inr b0 by simp
  qed
qed

lemma normalize_usage_type:
  "a \<in> set (normalize_usage sha b) \<Longrightarrow> ap_record_type a = ''usage'' \<and> ap_source_api a = SOURCE_API_ADMIN"
  by (auto simp: normalize_usage_def usage_args_def split: if_splits)

lemma list_usage_visit:
  fixes w :: "'a pull_world_scheme"
  assumes "serves (pe_http env) ''/v1/organizations/usage_report/messages'' book"
    and "page_run next_page (\<lambda>c. book (page_params (usage_params s e) c)) None rss"
  shows "ingest_usage env models tid s e w =
     loop_result (Some (visit http_tick
       (ingest_row env tid (am_bucket models) (normalize_usage (sha256 (pe_chain env)))) rss w))"
  unfolding ingest_usage_def list_usage_def paginate_def ingest_row_def
  by (subst pages_visit [OF assms(2)]) (simp_all add: http_get_serves [OF assms(1)] http_tick_def)

section \<open>Lemmas on the backfill\<close>

lemma plus_days_Inr:
  assumes "plus_days t n = Inr u" "py_datetime t"
  shows "py_datetime u" "instant u = instant t + n * day_us"
proof -
  have u: "u = t\<lparr>dt_date := add_days (dt_date t) n\<rparr>" "1 \<le> d_year (add_days (dt_date t) n)"
    "d_year (add_days (dt_date t) n) \<le> 9999"
    using assms(1) by (auto simp: plus_days_def Let_def split: if_splits)
  have v: "valid_date (dt_date t)" using assms(2) by (simp add: py_datetime_def valid_datetime_def)
  then show "py_datetime u" using assms(2) u by (simp add: py_datetime_def valid_datetime_def)
  show "instant u = instant t + n * day_us"
    using v by (simp add: u(1) instant_def algebra_simps)
qed

lemma min_dt_facts:
  "py_datetime a \<Longrightarrow> py_datetime b \<Longrightarrow> py_datetime (min_dt a b)"
  "instant (min_dt a b) = min (instant a) (instant b)"
  by (simp_all add: min_dt_def)

lemma max_dt_facts:
  "py_datetime a \<Longrightarrow> py_datetime b \<Longrightarrow> py_datetime (max_dt a b)"
  "instant (max_dt a b) = max (instant a) (instant b)"
  by (simp_all add: max_dt_def)

lemma save_cursor_flow: "save_cursor env tid sa t w = (w', f) \<Longrightarrow> f = Go \<or> (\<exists>e. f = Raise e)"
  by (auto simp: save_cursor_def split: if_splits)

lemma backfill_loop_stop:
  "\<not> instant s < instant now \<Longrightarrow> backfill_loop env models tid cd now n s w = Some (w, Inr n)"
  by (simp add: backfill_loop.simps)

lemma load_cursor_extended: "extended w w' \<Longrightarrow> load_cursor tid sa w' = load_cursor tid sa w"
  by (simp add: extended_def load_cursor_def)

text \<open>
  What the loop leaves behind: the cursor as it was or further on, and at the end when the loop ran to
  its end.
\<close>

definition advanced :: "string \<Rightarrow> datetime \<Rightarrow> datetime \<Rightarrow> 'a pull_world_scheme \<Rightarrow> 'a pull_world_scheme \<Rightarrow> exn + int \<Rightarrow> bool" where
  "advanced tid s now w w' r \<longleftrightarrow>
     (let lc = load_cursor tid SOURCE_API_ADMIN
      in (lc w' = lc w \<or> (\<exists>c. lc w' = Inr (Some c) \<and> instant s < instant c \<and> instant c \<le> instant now))
         \<and> (instant s < instant now \<and> is_ok r \<longrightarrow> (\<exists>c. lc w' = Inr (Some c) \<and> instant c = instant now)))"

text \<open>One turn of the loop: it ends with an error and no new cursor, or saves the chunk's end and goes on.\<close>

lemma backfill_loop_turn:
  fixes w :: "'a pull_world_scheme"
  assumes "\<And>s e w. \<exists>w' r. ingest_usage env models tid s e (w :: 'a pull_world_scheme) = Some (w', r)"
    and "0 < cd" "py_datetime now" "py_datetime s" "instant s < instant now"
  obtains (stop) w' e where "backfill_loop env models tid cd now n s w = Some (w', Inl e)"
      "load_cursor tid SOURCE_API_ADMIN w' = load_cursor tid SOURCE_API_ADMIN w"
  | (turn) s1 w1 where "backfill_loop env models tid cd now n s w = backfill_loop env models tid cd now (n + 1) s1 w1"
      "load_cursor tid SOURCE_API_ADMIN w1 = Inr (Some s1)" "py_datetime s1"
      "instant s1 = min (instant s + cd * day_us) (instant now)"
proof (cases "plus_days s cd")
  case (Inl e)
  show thesis by (rule stop [of w e]) (subst backfill_loop.simps, simp_all add: Inl assms(5))
next
  case (Inr t)
  let ?e = "min_dt t now"
  note t = plus_days_Inr [OF Inr assms(4)]
  obtain w1 r1 where w1: "ingest_usage env models tid s ?e w = Some (w1, r1)" using assms(1) by blast
  note lc = load_cursor_extended [OF ingest_usage_extended [OF w1]]
  obtain w2 f where w2: "save_cursor env tid SOURCE_API_ADMIN ?e w1 = (w2, f)"
    by (cases "save_cursor env tid SOURCE_API_ADMIN ?e w1")
  have loop: "backfill_loop env models tid cd now n s w =
      (case r1 of Inl e \<Rightarrow> Some (w1, Inl e)
       | Inr _ \<Rightarrow> (case f of Raise e \<Rightarrow> Some (w2, Inl e) | _ \<Rightarrow> backfill_loop env models tid cd now (n + 1) ?e w2))"
    using assms(5) Inr w1 w2 by (subst backfill_loop.simps) (auto split: flow.split sum.split)
  consider e where "r1 = Inl e" | u e where "r1 = Inr u" "f = Raise e" | u where "r1 = Inr u" "f = Go"
    using save_cursor_flow [OF w2] by (cases r1) blast+
  then show thesis
  proof cases
    case 1
    then show ?thesis using stop loop lc by simp
  next
    case 2
    then show ?thesis using stop [of w2] loop lc w2 by (auto simp: save_cursor_def split: if_splits)
  next
    case 3
    have e: "py_datetime ?e" by (rule min_dt_facts(1) [OF t(1) assms(3)])
    show ?thesis
      by (rule turn [of ?e w2]) (simp_all add: loop 3 load_save_cursor [OF e w2 [unfolded 3]] e min_dt_facts(2) t(2))
  qed
qed

lemma backfill_loop_returns:
  fixes w :: "'a pull_world_scheme"
  assumes "\<And>s e w. \<exists>w' r. ingest_usage env models tid s e (w :: 'a pull_world_scheme) = Some (w', r)"
    and "0 < cd" "py_datetime now"
    and "py_datetime s" "instant now - instant s \<le> int k * (cd * day_us)"
  shows "\<exists>w' r. backfill_loop env models tid cd now n s w = Some (w', r)
      \<and> (\<forall>m. r = Inr m \<longrightarrow> m \<le> n + int k) \<and> advanced tid s now w w' r"
  using assms(4,5)
proof (induction k arbitrary: n s w)
  case 0
  then show ?case by (simp add: backfill_loop_stop advanced_def)
next
  case (Suc k)
  show ?case
  proof (cases "instant s < instant now")
    case False
    then show ?thesis by (simp add: backfill_loop_stop advanced_def)
  next
    case True
    show ?thesis
    proof (rule backfill_loop_turn [OF assms(1-3) Suc.prems(1) True, where n = n and w = w], goal_cases)
      case (1 w' e)
      then show ?thesis by (simp add: advanced_def)
    next
      case turn: (2 s1 w1)
      have "0 \<le> int k * (cd * day_us)"
        using assms(2) by (intro mult_nonneg_nonneg) (simp_all add: less_imp_le)
      with Suc.prems(2) have "instant now - instant s1 \<le> int k * (cd * day_us)"
        by (simp add: turn(4) algebra_simps min_def)
      from Suc.IH [OF turn(3) this, of "n + 1" w1] obtain w' r where
        ih: "backfill_loop env models tid cd now (n + 1) s1 w1 = Some (w', r)"
          "\<forall>m. r = Inr m \<longrightarrow> m \<le> n + 1 + int k" "advanced tid s1 now w1 w' r"
        by blast
      have "0 < cd * day_us" using assms(2) by simp
      then have s1: "instant s < instant s1" "instant s1 \<le> instant now" using True by (simp_all add: turn(4))
      have "advanced tid s now w w' r"
        using ih(3) s1 turn(2) by (cases "instant s1 < instant now") (auto simp: advanced_def Let_def)
      with ih(1,2) show ?thesis by (auto simp: turn(1))
    qed
  qed
qed

lemma chunk_count:
  assumes "0 < days" "0 < chunk_days"
  defines "k \<equiv> nat ((days + chunk_days - 1) div chunk_days)"
  shows "days * day_us \<le> int k * (chunk_days * day_us)" "int k * chunk_days < days + chunk_days"
proof -
  let ?q = "(days + chunk_days - 1) div chunk_days" and ?r = "(days + chunk_days - 1) mod chunk_days"
  have "0 \<le> ?q" using assms(1,2) by (intro pos_imp_zdiv_nonneg_iff [THEN iffD2]) simp_all
  then have k: "int k = ?q" by (simp add: k_def)
  have qr: "?q * chunk_days + ?r = days + chunk_days - 1" by (rule div_mult_mod_eq)
  have r: "0 \<le> ?r" "?r < chunk_days" using assms(2) by simp_all
  from qr r show "int k * chunk_days < days + chunk_days" unfolding k by linarith
  have "days \<le> ?q * chunk_days" using qr r by linarith
  then have "days * day_us \<le> ?q * chunk_days * day_us" by (intro mult_right_mono) (simp_all add: less_imp_le)
  then show "days * day_us \<le> int k * (chunk_days * day_us)" unfolding k by (simp add: mult.assoc)
qed

lemma load_cursor_valid: "load_cursor tid sa w = Inr (Some c) \<Longrightarrow> py_datetime c"
  using fromisoformat_valid by (auto simp: load_cursor_def split: option.splits)

lemma backfill_start_facts:
  fixes w :: "'a pull_world_scheme"
  assumes "bindE (load_cursor tid sa w) (\<lambda>cursor. bindE (plus_days now (- days)) (\<lambda>b.
      Inr (case cursor of Some c \<Rightarrow> max_dt c b | None \<Rightarrow> b))) = Inr s"
    and "py_datetime now"
  shows "py_datetime s" "instant now - instant s \<le> days * day_us"
    "load_cursor tid sa w = Inr (Some c0) \<Longrightarrow> instant c0 \<le> instant s"
proof -
  obtain cursor b where c: "load_cursor tid sa w = Inr cursor" "plus_days now (- days) = Inr b"
    "s = (case cursor of Some c \<Rightarrow> max_dt c b | None \<Rightarrow> b)"
    using assms(1) by auto
  note b = plus_days_Inr [OF c(2) assms(2)]
  show "py_datetime s" using b(1) load_cursor_valid [of tid sa w] c(1,3) max_dt_facts(1) by (auto split: option.split)
  show "instant now - instant s \<le> days * day_us" by (auto simp: c(3) b(2) max_dt_facts split: option.split)
  show "load_cursor tid sa w = Inr (Some c0) \<Longrightarrow> instant c0 \<le> instant s" using c(1,3) by (simp add: max_dt_facts)
qed

lemma feed_known:
  fixes w w' :: "'a pull_world_scheme"
  assumes "package_contract (pe_chain env)" "alone env tid"
    and "\<And>a. a \<in> set as \<Longrightarrow> appendable tid a"
    and "\<And>a. a \<in> set as \<Longrightarrow> recorded tid (ap_source_api a) (ap_external_id a) w"
    and "feed (append_and_meter env tid) as w = (w', f)"
  shows "f = Go \<and> rows_of tid (pw_records w') = rows_of tid (pw_records w) \<and> pw_meter w' = pw_meter w
      \<and> pw_inserted w' = pw_inserted w \<and> pw_deduped w' = pw_deduped w + int (length as)"
  using assms(3-5)
proof (induction as arbitrary: w)
  case (Cons a as)
  let ?v = "w\<lparr>n_tick := Suc (n_tick w), pw_records := pw_records w @ pe_rivals env (n_tick w),
      pw_deduped := pw_deduped w + 1\<rparr>"
  have step: "append_and_meter env tid a w = (?v, Go)"
    by (rule append_and_meter_known [OF assms(1)]) (simp_all add: Cons.prems(1,2))
  then have "feed (append_and_meter env tid) as ?v = (w', f)" using Cons.prems(3) by simp
  from Cons.IH [OF _ _ this] Cons.prems(1,2) recorded_append_and_meter [OF step] assms(2)
  show ?case by simp
qed simp

lemma upsert_all_refused:
  assumes "r \<in> set rs" "\<And>t. f r t = Inl PyDataError" "\<And>q t e. f q t = Inl e \<Longrightarrow> e = PyDataError"
  shows "upsert_all f rs t = Inl PyDataError"
  using assms(1)
proof (induction rs arbitrary: t)
  case (Cons q rs)
  show ?case
  proof (cases "f q t")
    case (Inl e)
    then show ?thesis using assms(3) by simp
  next
    case (Inr u)
    then have "q \<noteq> r" using assms(2) [of t] by auto
    then show ?thesis using Cons Inr by simp
  qed
qed simp

lemma feed_collect:
  fixes w :: "'a pull_world_scheme"
  assumes "\<And>r. r \<in> set rows \<Longrightarrow> validate r \<noteq> None"
  shows "feed (validated (valid_row validate) collect) rows w = (w\<lparr>pw_listed := pw_listed w @ rows\<rparr>, Go)"
  using assms by (induction rows arbitrary: w) (simp_all add: validated_def valid_row_def collect_def)

lemma one_page_listing:
  fixes w :: "'a pull_world_scheme"
  assumes "serves env path (\<lambda>ps. JObj [(''data'', JList rows)])" "\<And>r. r \<in> set rows \<Longrightarrow> validate r \<noteq> None"
  shows "paginate_admin env path [] (validated (valid_row validate) collect) w
    = Some ((http_tick w)\<lparr>pw_listed := pw_listed w @ rows\<rparr>, Go)"
  unfolding paginate_admin_def
  by (subst pages.simps)
     (simp add: http_get_serves [OF assms(1)] data_rows_def json_get_def json_iter_def next_after_def
       http_tick_def feed_collect [OF assms(2)])

section \<open>A sample environment\<close>

definition usage_path :: string where
  "usage_path = ''/v1/organizations/usage_report/messages''"

definition sample_pull_env :: "json list \<Rightarrow> (nat \<Rightarrow> bool) \<Rightarrow> pull_env" where
  "sample_pull_env rows redis =
     \<lparr>pe_http = \<lparr>he_send = \<lambda>t rq. Answer 200 None []
          (Some (JObj (if rq_path rq = usage_path then [(''data'', JList rows)] else []))),
        he_wait_exponential = int\<rparr>,
      pe_chain = sample_env, pe_crypto = sample_crypto, pe_now = \<lambda>t. sample_time,
      pe_redis = redis, pe_rivals = \<lambda>t. []\<rparr>"

definition sample_bucket :: "json \<Rightarrow> usage_bucket" where
  "sample_bucket dump =
     \<lparr>ub_starting_at = utc_midnight (Date 2026 5 17), ub_ending_at = utc_midnight (Date 2026 5 18),
      ub_results = [\<lparr>bd_model = Some ''opus'', bd_workspace_id = None, bd_api_key_id = Some ''k'', bd_dump = dump\<rparr>],
      ub_dump_starting_at = JNull, ub_dump_ending_at = JNull\<rparr>"

definition sample_models :: admin_models where
  "sample_models =
     \<lparr>am_bucket = \<lambda>j. Some (sample_bucket j), am_workspace = \<lambda>j. None, am_api_key = \<lambda>j. None\<rparr>"

definition sample_world :: "vault \<Rightarrow> pull_world" where
  "sample_world v =
     \<lparr>n_tick = 0, n_slept = [], pw_records = [], pw_meter = empty_meter, pw_pull_state = Map.empty,
      pw_workspaces = Map.empty, pw_api_keys = Map.empty, pw_vault = v, pw_inserted = 0, pw_deduped = 0,
      pw_listed = []\<rparr>"

lemma sample_pull_env_simps [simp]:
  "pe_chain (sample_pull_env rows redis) = sample_env" "pe_crypto (sample_pull_env rows redis) = sample_crypto"
  "pe_now (sample_pull_env rows redis) t = sample_time" "pe_redis (sample_pull_env rows redis) = redis"
  "pe_rivals (sample_pull_env rows redis) t = []" "alone (sample_pull_env rows redis) tid"
  by (simp_all add: sample_pull_env_def alone_def)

lemma sample_world_simps [simp]:
  "n_tick (sample_world v) = 0" "pw_records (sample_world v) = []" "pw_meter (sample_world v) = empty_meter"
  "pw_pull_state (sample_world v) = Map.empty" "pw_vault (sample_world v) = v"
  "pw_inserted (sample_world v) = 0" "pw_deduped (sample_world v) = 0"
  by (simp_all add: sample_world_def)

lemma sample_serves:
  "serves (pe_http (sample_pull_env rows redis)) usage_path (\<lambda>ps. JObj [(''data'', JList rows)])"
  "path \<noteq> usage_path \<Longrightarrow> serves (pe_http (sample_pull_env rows redis)) path (\<lambda>ps. JObj [])"
  by (simp_all add: sample_pull_env_def serves_def)

lemma sample_key:
  obtains v where "unseal_secret sample_crypto ''t1'' ''anthropic_admin_key'' v = Inr ''hunter2''"
  using sample_seal [of "''anthropic_admin_key''"] unseal_after_seal [OF sample_cipher_laws]
  by fastforce

text \<open>Where the other endpoints have nothing to list, the two syncs only spend a request each.\<close>

lemma empty_listing:
  fixes w :: "'a pull_world_scheme"
  assumes "serves env path (\<lambda>ps. JObj [])"
  shows "paginate_admin env path [] body w = Some (http_tick w, Go)"
  unfolding paginate_admin_def
  by (subst pages.simps)
     (simp add: http_get_serves [OF assms] data_rows_def json_get_def next_after_def http_tick_def)

lemma sample_sync:
  fixes w :: "'a pull_world_scheme"
  shows "sync_workspaces (sample_pull_env rows redis) f tid w = Some (http_tick (w\<lparr>pw_listed := []\<rparr>), Inr 0)"
    and "sync_api_keys (sample_pull_env rows redis) g tid w = Some (http_tick (w\<lparr>pw_listed := []\<rparr>), Inr 0)"
  unfolding sync_workspaces_def sync_api_keys_def list_workspaces_def list_api_keys_def
  by (simp_all add: empty_listing [OF sample_serves(2)] usage_path_def http_tick_def Let_def)

lemma sample_page_run:
  "page_run next_page (\<lambda>c. JObj [(''data'', JList rows)]) None [rows]"
  by (intro last_page) (simp_all add: data_rows_def json_get_def json_iter_def next_page_def)

lemma sample_time_ok [simp]: "py_datetime sample_time"
  by (simp add: py_datetime_def valid_datetime_def sample_time_def valid_date_def days_in_month_def day_us_def)

text \<open>The records of a bucket can be appended when its times are valid and its keys not too long.\<close>

lemma usage_args_appendable:
  assumes "\<And>b. length (sha b) = 32" "tid \<noteq> []" "length tid \<le> 64"
    and "py_datetime (ub_starting_at b)" "py_datetime (ub_ending_at b)" "length key \<le> 184"
  shows "appendable tid (usage_args sha b key m)"
proof -
  have "length (usage_window b @ key) \<le> 256"
    using length_isoformat [OF assms(4)] length_isoformat [OF assms(5)] assms(6)
    by (simp add: usage_window_def)
  then show ?thesis
    using assms(1-3)
    by (simp add: appendable_def args_fit_def usage_args_def SOURCE_API_ADMIN_def opt_fits_def)
qed

lemma normalize_sample_bucket:
  "normalize_usage sha (sample_bucket j)
     = [usage_args sha (sample_bucket j) ''opus:-:k'' (bucket_meta (sample_bucket j) [j])]"
  by (simp add: normalize_usage_def sample_bucket_def breakdown_key_def or_dash_def)

lemma sample_bucket_appendable:
  "appendable ''t1'' (usage_args (sha256 sample_env) (sample_bucket j) ''opus:-:k'' m)"
  by (rule usage_args_appendable)
     (simp_all add: sample_bucket_def utc_midnight_def py_datetime_def valid_datetime_def valid_date_def
       days_in_month_def)

lemma sample_ingest:
  fixes w :: "'a pull_world_scheme"
  shows "ingest_usage (sample_pull_env rows redis) sample_models tid s e w =
    loop_result (Some (visit http_tick (ingest_row (sample_pull_env rows redis) tid (am_bucket sample_models)
      (normalize_usage (sha256 sample_env))) [rows] w))"
  by (simp only: list_usage_visit [OF sample_serves(1) [unfolded usage_path_def] sample_page_run] sample_pull_env_simps)

text \<open>A sample pull, as far as the new record and its metering.\<close>

lemma sample_append:
  fixes w :: "'a pull_world_scheme"
  assumes "pw_records w = []"
  obtains x where
    "try_append (sample_pull_env rows redis) ''t1''
       (usage_args (sha256 sample_env) (sample_bucket j) ''opus:-:k'' m) w
     = (w\<lparr>n_tick := Suc (n_tick w), pw_records := [x]\<rparr>, Inr ())"
    "tr_tenant_id x = ''t1''" "tr_source_api x = SOURCE_API_ADMIN"
    "tr_external_id x = usage_window (sample_bucket j) @ ''opus:-:k''"
proof -
  let ?a = "usage_args (sha256 sample_env) (sample_bucket j) ''opus:-:k'' m"
  have "\<not> recorded ''t1'' (ap_source_api ?a) (ap_external_id ?a) w"
    by (simp add: recorded_def duplicate_def assms)
  from append_and_meter_new [of "sample_pull_env rows redis" "''t1''" ?a w, OF _ sample_bucket_appendable _ this]
  show thesis using that assms by (auto simp: usage_args_def)
qed

lemma sample_append_and_meter:
  fixes w :: "'a pull_world_scheme"
  assumes "pw_records w = []" "pw_meter w = empty_meter"
  shows "\<exists>v. append_and_meter (sample_pull_env rows redis) ''t1''
      (usage_args (sha256 sample_env) (sample_bucket j) ''opus:-:k'' m) w
      = (v, if redis (Suc (n_tick w)) then Go else Raise PyRedisError)
    \<and> pw_inserted v = (if redis (Suc (n_tick w)) then pw_inserted w + 1 else pw_inserted w)
    \<and> pw_deduped v = pw_deduped w \<and> pw_pull_state v = pw_pull_state w"
proof -
  let ?a = "usage_args (sha256 sample_env) (sample_bucket j) ''opus:-:k'' m"
  obtain x where x: "try_append (sample_pull_env rows redis) ''t1'' ?a w
     = (w\<lparr>n_tick := Suc (n_tick w), pw_records := [x]\<rparr>, Inr ())" by (rule sample_append [OF assms(1)])
  have "ap_record_type ?a = ''usage''" by (simp add: usage_args_def)
  then show ?thesis
    by (simp add: append_and_meter_def x try_increment_def Let_def increment_def assms(2) empty_meter_def FIELD_DELIM_def)
qed

lemma sample_models_simps [simp]: "am_bucket sample_models j = Some (sample_bucket j)"
  by (simp add: sample_models_def)

lemma sample_since: "plus_days sample_time (- 1) = Inr (sample_time\<lparr>dt_date := Date 2026 5 16\<rparr>)"
  by (simp add: plus_days_def add_days_def prev_day_def sample_time_def)

lemma sample_ingest_one:
  fixes w :: "'a pull_world_scheme"
  assumes "pw_records w = []" "pw_meter w = empty_meter"
  shows "\<exists>u. ingest_usage (sample_pull_env [j] redis) sample_models ''t1'' s e w
      = Some (u, if redis (n_tick w + 2) then Inr () else Inl PyRedisError)
    \<and> pw_inserted u = (if redis (n_tick w + 2) then pw_inserted w + 1 else pw_inserted w)
    \<and> pw_deduped u = pw_deduped w \<and> pw_pull_state u = pw_pull_state w"
  using sample_append_and_meter [of "http_tick w" "[j]" redis j "bucket_meta (sample_bucket j) [j]"] assms
  by (auto simp: sample_ingest ingest_row_def validated_def normalize_sample_bucket http_tick_def loop_result_def)

lemma sample_pull:
  assumes "unseal_secret sample_crypto ''t1'' ''anthropic_admin_key'' v = Inr ''hunter2''"
  shows "\<exists>w'. pull_admin_for_tenant (sample_pull_env [j] (\<lambda>t. b)) sample_models ''t1'' (sample_world v)
       = Some (w', if b then Inr (1, 0) else Inl PyRedisError)"
proof -
  let ?env = "sample_pull_env [j] (\<lambda>t. b)"
  let ?w = "http_tick (http_tick (sample_world v))"
  obtain u where u: "ingest_usage ?env sample_models ''t1'' (sample_time\<lparr>dt_date := Date 2026 5 16\<rparr>) sample_time ?w
      = Some (u, if b then Inr () else Inl PyRedisError)"
      "pw_inserted u = (if b then 1 else 0)" "pw_deduped u = 0" "pw_pull_state u = Map.empty"
    using sample_ingest_one [of ?w j "\<lambda>t. b" "sample_time\<lparr>dt_date := Date 2026 5 16\<rparr>" sample_time]
    by (auto simp: http_tick_def)
  have key: "admin_client_for_tenant ?env ''t1'' (sample_world v) = Inr ''hunter2''"
    by (simp add: admin_client_for_tenant_def client_for_tenant_def assms)
  have w: "(sample_world v)\<lparr>pw_inserted := 0, pw_deduped := 0\<rparr> = sample_world v"
    "(sample_world v)\<lparr>pw_listed := []\<rparr> = sample_world v"
    "(http_tick (sample_world v))\<lparr>pw_listed := []\<rparr> = http_tick (sample_world v)"
    by (simp_all add: sample_world_def http_tick_def)
  show ?thesis
    by (simp add: pull_admin_for_tenant_def Let_def w load_cursor_def DEFAULT_INITIAL_LOOKBACK_DAYS_def
        sample_since key sample_sync u save_cursor_def SOURCE_API_ADMIN_def loop_result_def)
qed

section \<open>Properties\<close>

text \<open>
  What the API's answer asks to be stored, in its order: for each bucket one entry per breakdown, with the key
  of its model, workspace and API key, or one entry without results when the bucket has none.
\<close>

definition usage_entries :: "(json \<Rightarrow> usage_bucket option) \<Rightarrow> json list \<Rightarrow> (usage_bucket \<times> string \<times> json list) list" where
  "usage_entries parse rows =
     concat (map (\<lambda>r. case parse r of
         None \<Rightarrow> []
       | Some b \<Rightarrow> if ub_results b = [] then [(b, ''-:-'', [])]
                   else map (\<lambda>d. (b, or_dash (bd_model d) @ '':'' @ or_dash (bd_workspace_id d) @ '':'' @ or_dash (bd_api_key_id d),
                              [bd_dump d])) (ub_results b)) rows)"

fun usage_id :: "usage_bucket \<times> string \<times> json list \<Rightarrow> string" where
  "usage_id (b, key, results) =
     ''usage:'' @ isoformat (ub_starting_at b) @ '':'' @ isoformat (ub_ending_at b) @ '':'' @ key"

text \<open>The row that stands for an entry: it holds the counts of the entry and nothing else.\<close>

fun usage_row :: "chain_env \<Rightarrow> string \<Rightarrow> usage_bucket \<times> string \<times> json list \<Rightarrow> telemetry_row \<Rightarrow> bool" where
  "usage_row env tid (b, key, results) x \<longleftrightarrow>
     tr_tenant_id x = tid \<and> tr_source_api x = ''admin'' \<and> tr_record_type x = ''usage''
     \<and> tr_external_id x = usage_id (b, key, results)
     \<and> tr_occurred_at x = timestamptz env (ub_starting_at b) \<and> tr_subject_user_id x = None \<and> tr_content_ref x = None
     \<and> tr_content_size_bytes x = None
     \<and> (let counts = JObj [(''starting_at'', ub_dump_starting_at b), (''ending_at'', ub_dump_ending_at b),
                           (''results'', JList results)]
        in tr_record_metadata x = jsonb env counts \<and> tr_content_hash x = sha256 env (utf8_encode (dumps counts)))"

abbreviation entry_args :: "(bytes \<Rightarrow> bytes) \<Rightarrow> usage_bucket \<times> string \<times> json list \<Rightarrow> append_args" where
  "entry_args sha e \<equiv> (case e of (b, key, results) \<Rightarrow> usage_args sha b key (bucket_meta b results))"

lemma made_of_usage: "made_of parse (normalize_usage sha) rows = map (entry_args sha) (usage_entries parse rows)"
  by (induction rows) (auto simp: made_of_def usage_entries_def normalize_usage_def breakdown_key_def split: option.split)

lemma entry_args_key: "args_key (entry_args sha e) = (SOURCE_API_ADMIN, usage_id e)"
  by (cases e rule: usage_id.cases) (simp add: args_key_def usage_args_def usage_window_def)

lemma entry_args_type: "ap_record_type (entry_args sha e) = ''usage''"
  by (cases e rule: usage_id.cases) (simp add: usage_args_def)

lemma carries_entry: "carries env tid (entry_args (sha256 env) e) x \<longleftrightarrow> usage_row env tid e x"
  by (cases e rule: usage_id.cases)
     (auto simp: carries_def usage_args_def usage_window_def bucket_meta_def SOURCE_API_ADMIN_def Let_def)



text \<open>C23: A pull that raises, for whatever reason and however far it came, has not moved the cursor, of
  this stream or any other, and has removed nothing: when there is a cursor, the next pull starts its window
  there again.\<close>

theorem failed_pull_keeps_cursor:
  fixes w w' :: "'a pull_world_scheme"
  assumes "pull_admin_for_tenant env models tid w = Some (w', Inl e)"
  shows "pw_pull_state w' = pw_pull_state w \<and> (\<exists>xs. pw_records w' = pw_records w @ xs)"
  using assms by (cases rule: pull_admin_cases) (auto simp: books_def extended_def)

lemma failed_pull_keeps_cursor_witness:
  "\<exists>v w'. pull_admin_for_tenant (sample_pull_env [JNull] (\<lambda>t. False)) sample_models ''t1'' (sample_world v)
       = Some (w', Inl PyRedisError)
     \<and> pw_pull_state w' = Map.empty"
proof -
  obtain v where v: "unseal_secret sample_crypto ''t1'' ''anthropic_admin_key'' v = Inr ''hunter2''" by (rule sample_key)
  obtain w' where w': "pull_admin_for_tenant (sample_pull_env [JNull] (\<lambda>t. False)) sample_models ''t1'' (sample_world v)
      = Some (w', Inl PyRedisError)"
    using sample_pull [OF v, of JNull False] by auto
  from failed_pull_keeps_cursor [OF w'] w' show ?thesis by auto
qed

text \<open>The cursor is written whatever it was. A pull that the dispatcher started during a backfill and that is
  done before the next chunk has its newer cursor overwritten with the end of the chunk, and the pull
  after that starts there.\<close>

lemma concurrent_cursor_is_overwritten:
  assumes "save_cursor env' tid SOURCE_API_ADMIN newer w = (w1, Go)" "save_cursor env tid SOURCE_API_ADMIN chunk_end w1 = (w2, f)"
    and "py_datetime newer" "py_datetime chunk_end" "instant chunk_end < instant newer"
  shows "load_cursor tid SOURCE_API_ADMIN w1 = Inr (Some newer) \<and> load_cursor tid SOURCE_API_ADMIN w2 = Inr (Some chunk_end)
     \<and> pull_since now tid w2 = Inr chunk_end"
proof -
  have "f = Go" using assms(1,2) by (auto simp: save_cursor_def split: if_splits)
  then have "load_cursor tid SOURCE_API_ADMIN w2 = Inr (Some chunk_end)"
    using load_save_cursor [OF assms(4)] assms(2) by simp
  then show ?thesis using load_save_cursor [OF assms(3,1)] by (simp add: pull_since_def)
qed

lemma concurrent_cursor_is_overwritten_witness:
  "\<exists>w :: pull_world. load_cursor ''t1'' SOURCE_API_ADMIN w = Inr (Some (sample_time\<lparr>dt_date := Date 2026 5 16\<rparr>))
     \<and> pull_since sample_time ''t1'' w = Inr (sample_time\<lparr>dt_date := Date 2026 5 16\<rparr>)"
proof -
  let ?env = "sample_pull_env [] (\<lambda>t. True)" and ?w = "sample_world empty_vault" and ?old = "sample_time\<lparr>dt_date := Date 2026 5 16\<rparr>"
  obtain w1 where w1: "save_cursor ?env ''t1'' SOURCE_API_ADMIN sample_time ?w = (w1, Go)"
    by (auto simp: save_cursor_def SOURCE_API_ADMIN_def)
  obtain w2 f where w2: "save_cursor ?env ''t1'' SOURCE_API_ADMIN ?old w1 = (w2, f)" by fastforce
  have "py_datetime sample_time" "py_datetime ?old" "instant ?old < instant sample_time"
    by (simp_all add: sample_time_def py_datetime_def valid_datetime_def valid_date_def days_in_month_def instant_def toordinal_def
        days_before_year_def days_before_month_def day_us_def)
  from concurrent_cursor_is_overwritten [OF w1 w2 this] show ?thesis by blast
qed



text \<open>An outage of Redis loses counts for good. When the increment fails after the append, the pull
  raises with the record already in the table; from then on every pull that meets the record again, in
  whatever state, counts a duplicate and leaves the meter as it is.\<close>

lemma redis_outage_loses_count:
  fixes w :: "'a pull_world_scheme"
  assumes "package_contract (pe_chain env)" "alone env tid" "appendable tid a"
    and "\<not> recorded tid (ap_source_api a) (ap_external_id a) w"
    and "increment (pe_now env (Suc (n_tick w))) tid (ap_record_type a) 1 (pw_meter w) = Inr m"
    and "\<not> pe_redis env (Suc (n_tick w))"
  shows "\<exists>w1. append_and_meter env tid a w = (w1, Raise PyRedisError)
      \<and> recorded tid (ap_source_api a) (ap_external_id a) w1 \<and> pw_meter w1 = pw_meter w
      \<and> (\<forall>env' w2. pe_chain env' = pe_chain env
            \<and> recorded tid (ap_source_api a) (ap_external_id a) (w2 :: 'a pull_world_scheme) \<longrightarrow>
          snd (append_and_meter env' tid a w2) = Go
          \<and> pw_meter (fst (append_and_meter env' tid a w2)) = pw_meter w2)"
proof -
  obtain x where x: "try_append env tid a w =
      (w\<lparr>n_tick := Suc (n_tick w), pw_records := pw_records w @ pe_rivals env (n_tick w) @ [x]\<rparr>, Inr ())"
    "tr_tenant_id x = tid" "tr_source_api x = ap_source_api a" "tr_external_id x = ap_external_id a"
    by (rule append_and_meter_new [OF assms(1,3,2,4)])
  then obtain w1 where "append_and_meter env tid a w = (w1, Raise PyRedisError)"
    "recorded tid (ap_source_api a) (ap_external_id a) w1" "pw_meter w1 = pw_meter w"
    using assms(5,6) by (simp add: append_and_meter_def try_increment_def Let_def recorded_def duplicate_def)
  moreover have "snd (append_and_meter env' tid a w2) = Go
      \<and> pw_meter (fst (append_and_meter env' tid a w2)) = pw_meter w2"
    if "pe_chain env' = pe_chain env" "recorded tid (ap_source_api a) (ap_external_id a) w2"
    for env' and w2 :: "'a pull_world_scheme"
    using append_and_meter_known [OF _ assms(3) that(2), of env'] that(1) assms(1) by simp
  ultimately show ?thesis by blast
qed

lemma redis_outage_loses_count_witness:
  "\<exists>w1. append_and_meter (sample_pull_env [] (\<lambda>t. t \<noteq> 1)) ''t1''
       (usage_args (sha256 sample_env) (sample_bucket JNull) ''opus:-:k'' JNull) (sample_world empty_vault)
     = (w1, Raise PyRedisError)
   \<and> pw_meter (fst (append_and_meter (sample_pull_env [] (\<lambda>t. True)) ''t1''
       (usage_args (sha256 sample_env) (sample_bucket JNull) ''opus:-:k'' JNull) w1)) = empty_meter"
proof -
  let ?a = "usage_args (sha256 sample_env) (sample_bucket JNull) ''opus:-:k'' JNull"
  let ?w = "sample_world empty_vault" and ?env = "sample_pull_env [] (\<lambda>t. t \<noteq> 1)"
  have "\<not> recorded ''t1'' (ap_source_api ?a) (ap_external_id ?a) ?w" by (simp add: recorded_def duplicate_def)
  moreover have "\<exists>m. increment (pe_now ?env (Suc (n_tick ?w))) ''t1'' (ap_record_type ?a) 1 (pw_meter ?w) = Inr m"
    by (simp add: increment_def usage_args_def FIELD_DELIM_def Let_def)
  ultimately obtain w1 where w1: "append_and_meter ?env ''t1'' ?a ?w = (w1, Raise PyRedisError)"
    "recorded ''t1'' (ap_source_api ?a) (ap_external_id ?a) w1" "pw_meter w1 = empty_meter"
    "\<And>env' w2. pe_chain env' = pe_chain ?env \<and> recorded ''t1'' (ap_source_api ?a) (ap_external_id ?a) (w2 :: pull_world)
        \<Longrightarrow> pw_meter (fst (append_and_meter env' ''t1'' ?a w2)) = pw_meter w2"
    using redis_outage_loses_count [of ?env "''t1''" ?a ?w, OF _ _ sample_bucket_appendable] by auto
  show ?thesis using w1(1,3) w1(4) [of "sample_pull_env [] (\<lambda>t. True)" w1] w1(2) by auto
qed

text \<open>C22: A refreshed bucket is dropped. When a bucket whose records are in the table is delivered again,
  with the same window and the same (model, workspace, key) combinations but other token counts, the
  loop counts every record as a duplicate: the tenant's rows, with the old counts, stay as they were,
  and nothing is metered.\<close>

theorem refreshed_bucket_is_dropped:
  fixes w w' :: "'a pull_world_scheme"
  assumes "package_contract (pe_chain env)" "alone env tid"
    and "feed (append_and_meter env tid) (normalize_usage sha new) w = (w', f)"
    and "usage_window new = usage_window old"
    and "map breakdown_key (ub_results new) = map breakdown_key (ub_results old)"
    and "\<And>a. a \<in> set (normalize_usage sha old) \<Longrightarrow> recorded tid SOURCE_API_ADMIN (ap_external_id a) w"
    and "\<And>a. a \<in> set (normalize_usage sha new) \<Longrightarrow> appendable tid a"
  shows "f = Go \<and> rows_of tid (pw_records w') = rows_of tid (pw_records w) \<and> pw_meter w' = pw_meter w
      \<and> pw_inserted w' = pw_inserted w
      \<and> pw_deduped w' = pw_deduped w + int (length (normalize_usage sha new))"
proof -
  have ids: "map ap_external_id (normalize_usage sha b) =
      map ((@) (usage_window b)) (if ub_results b = [] then [''-:-''] else map breakdown_key (ub_results b))" for b
    by (simp add: normalize_usage_def usage_args_def)
  have "ub_results new = [] \<longleftrightarrow> ub_results old = []" using assms(5) by (metis map_is_Nil_conv)
  then have "map ap_external_id (normalize_usage sha new) = map ap_external_id (normalize_usage sha old)"
    unfolding ids by (simp add: assms(4,5))
  then have "ap_external_id ` set (normalize_usage sha new) = ap_external_id ` set (normalize_usage sha old)"
    by (metis list.set_map)
  then have "recorded tid (ap_source_api a) (ap_external_id a) w" if "a \<in> set (normalize_usage sha new)" for a
    using that assms(6) normalize_usage_type [OF that] by (metis imageE imageI)
  from feed_known [OF assms(1,2) assms(7) this assms(3)] show ?thesis by simp
qed

lemma refreshed_bucket_is_dropped_witness:
  "\<exists>v w' f. append_and_meter (sample_pull_env [] (\<lambda>t. True)) ''t1''
        (usage_args (sha256 sample_env) (sample_bucket (JInt 1)) ''opus:-:k'' (bucket_meta (sample_bucket (JInt 1)) [JInt 1]))
        (sample_world empty_vault) = (v, Go)
     \<and> feed (append_and_meter (sample_pull_env [] (\<lambda>t. True)) ''t1'')
        (normalize_usage (sha256 sample_env) (sample_bucket (JInt 2))) v = (w', f)
     \<and> rows_of ''t1'' (pw_records w') = rows_of ''t1'' (pw_records v) \<and> pw_deduped w' = pw_deduped v + 1"
proof -
  let ?env = "sample_pull_env [] (\<lambda>t. True)" and ?norm = "normalize_usage (sha256 sample_env)"
  let ?a = "usage_args (sha256 sample_env) (sample_bucket (JInt 1)) ''opus:-:k'' (bucket_meta (sample_bucket (JInt 1)) [JInt 1])"
  obtain v where v: "append_and_meter ?env ''t1'' ?a (sample_world empty_vault) = (v, Go)"
    using sample_append_and_meter [of "sample_world empty_vault" "[]" "\<lambda>t. True" "JInt 1"] by auto
  have rec: "recorded ''t1'' (ap_source_api ?a) (ap_external_id ?a) v"
    by (rule append_and_meter_recorded [OF _ v]) simp_all
  obtain w' f where w': "feed (append_and_meter ?env ''t1'') (?norm (sample_bucket (JInt 2))) v = (w', f)"
    by (cases "feed (append_and_meter ?env ''t1'') (?norm (sample_bucket (JInt 2))) v")
  have "usage_window (sample_bucket (JInt 2)) = usage_window (sample_bucket (JInt 1))"
    "map breakdown_key (ub_results (sample_bucket (JInt 2))) = map breakdown_key (ub_results (sample_bucket (JInt 1)))"
    by (simp_all add: usage_window_def sample_bucket_def breakdown_key_def)
  from refreshed_bucket_is_dropped [OF _ _ w' this] rec sample_bucket_appendable
  show ?thesis using v w' by (auto simp: normalize_sample_bucket usage_args_def)
qed

text \<open>A workspace with a long name stops the tenant's ingestion. The names are for display only and
  their listing may fail, but the upsert is outside the \<^verbatim>\<open>try\<close>: once the organization has a workspace
  whose name is wider than the column, no pull of the tenant succeeds any more.\<close>

lemma long_name_blocks_pull:
  fixes w :: "'a pull_world_scheme"
  assumes "serves (pe_http env) ''/v1/organizations/workspaces'' (\<lambda>ps. JObj [(''data'', JList rows)])"
    and "\<And>r. r \<in> set rows \<Longrightarrow> am_workspace models r \<noteq> None"
    and "r \<in> set rows" "am_workspace models r = Some ws" "256 < length (ws_name ws)"
  shows "pull_admin_for_tenant env models tid w \<noteq> Some (w', Inr q)
      \<and> backfill_admin_for_tenant env models tid days chunk_days w \<noteq> Some (w', Inr p)"
proof
  have sync: "\<exists>u. sync_workspaces env (am_workspace models) tid v = Some (u, Inl PyDataError)"
    for v :: "'a pull_world_scheme"
  proof -
    have "upsert_all (upsert_workspace tid) (map (the \<circ> am_workspace models) rows) t = Inl PyDataError" for t
      by (rule upsert_all_refused [where r = ws])
         (use assms(3-5) in \<open>force simp: upsert_workspace_def split: if_splits\<close>)+
    then show ?thesis
      by (auto simp: sync_workspaces_def list_workspaces_def Let_def one_page_listing [OF assms(1,2)])
  qed
  show "pull_admin_for_tenant env models tid w \<noteq> Some (w', Inr q)"
    using sync [of "w\<lparr>pw_inserted := 0, pw_deduped := 0\<rparr>"]
    by (auto simp: pull_admin_for_tenant_def Let_def after_Some_Inr split: sum.splits if_splits)
  show "backfill_admin_for_tenant env models tid days chunk_days w \<noteq> Some (w', Inr p)"
    using sync [of "w\<lparr>pw_inserted := 0, pw_deduped := 0\<rparr>"]
    by (auto simp: backfill_admin_for_tenant_def Let_def after_Some_Inr split: sum.splits if_splits)
qed

definition long_env :: pull_env where
  "long_env = (sample_pull_env [] (\<lambda>t. True))\<lparr>pe_http :=
     \<lparr>he_send = \<lambda>t rq. Answer 200 None [] (Some (JObj [(''data'', JList [JNull])])), he_wait_exponential = int\<rparr>\<rparr>"

lemma long_name_blocks_pull_witness:
  "\<forall>v w' q. pull_admin_for_tenant long_env
      (sample_models\<lparr>am_workspace := \<lambda>j. Some \<lparr>ws_id = ''w'', ws_name = replicate 300 CHR ''x''\<rparr>\<rparr>) ''t1''
      (sample_world v) \<noteq> Some (w', Inr q)"
proof (intro allI)
  fix v w' q
  let ?models = "sample_models\<lparr>am_workspace := \<lambda>j. Some \<lparr>ws_id = ''w'', ws_name = replicate 300 CHR ''x''\<rparr>\<rparr>"
  have "serves (pe_http long_env) ''/v1/organizations/workspaces'' (\<lambda>ps. JObj [(''data'', JList [JNull])])"
    by (simp add: long_env_def serves_def)
  from long_name_blocks_pull [OF this, of ?models JNull "\<lparr>ws_id = ''w'', ws_name = replicate 300 CHR ''x''\<rparr>"
      "''t1''" "sample_world v" w' q]
  show "pull_admin_for_tenant long_env ?models ''t1'' (sample_world v) \<noteq> Some (w', Inr q)"
    by simp
qed

end
