(* ===== verification/PullCompliance.thy ===== *)
theory PullCompliance
  imports PullAdmin Content
begin

text \<open>
  \<^verbatim>\<open>tasks/pull_compliance.py\<close>: the Activity Feed and the chat content streams. An activity becomes one
  record with its JSON as metadata. A chat message with text becomes an encrypted blob and a record
  that names it. Both streams keep the largest time they have seen as their cursor and stop at a cap
  per invocation.
\<close>

section \<open>Vendor data\<close>

text \<open>\<open>ac_dump\<close> is what pydantic's \<^verbatim>\<open>model_dump(mode="json")\<close> makes of the activity.\<close>

record activity =
  ac_id :: string
  ac_created_at :: datetime
  ac_dump :: json

record chat_user =
  cu_id :: string
  cu_email_address :: string

record chat =
  ch_id :: string
  ch_name :: "string option"
  ch_created_at :: datetime
  ch_updated_at :: "datetime option"
  ch_deleted_at :: "datetime option"
  ch_model :: "string option"
  ch_organization_uuid :: "string option"
  ch_project_id :: "string option"
  ch_user :: chat_user

record content_block =
  cb_type :: string
  cb_text :: "string option"

record chat_message =
  cm_id :: string
  cm_role :: string
  cm_created_at :: datetime
  cm_content :: "content_block list"

section \<open>State\<close>

text \<open>The local variables of the two loops, and the object store.\<close>

record stream_world = pull_world +
  sw_max_seen :: datetime
  sw_user_ids :: "string list"
  sw_chats :: int
  sw_stop :: bool
  sw_bucket :: bucket

text \<open>What a write of content draws: the UUID, the nonce, and the object store's answers, by the tick.\<close>

record content_env = pull_env +
  ce_uuid :: "nat \<Rightarrow> string"
  ce_iv :: "nat \<Rightarrow> bytes"
  ce_store :: "nat \<Rightarrow> schedule"

record compliance_models =
  km_activity :: "json \<Rightarrow> activity option"
  km_organization :: "json \<Rightarrow> string option"
  km_org_user :: "json \<Rightarrow> string option"
  km_chat :: "json \<Rightarrow> chat option"
  km_messages :: "json \<Rightarrow> chat_message list option"

definition SOURCE_API_ACTIVITIES :: string where
  "SOURCE_API_ACTIVITIES = ''compliance_activities''"

definition SOURCE_API_CONTENT :: string where
  "SOURCE_API_CONTENT = ''compliance_content''"

definition DEFAULT_PER_PAGE_LIMIT :: int where
  "DEFAULT_PER_PAGE_LIMIT = 100"

definition MAX_PAGES_PER_INVOCATION :: int where
  "MAX_PAGES_PER_INVOCATION = 50"

definition DEFAULT_CONTENT_LOOKBACK_DAYS :: int where
  "DEFAULT_CONTENT_LOOKBACK_DAYS = 30"

definition USER_IDS_PER_CHATS_CALL :: nat where
  "USER_IDS_PER_CHATS_CALL = 10"

definition MAX_CHATS_PER_INVOCATION :: int where
  "MAX_CHATS_PER_INVOCATION = 200"

section \<open>Activities\<close>

definition normalize_activity :: "(bytes \<Rightarrow> bytes) \<Rightarrow> activity \<Rightarrow> append_args" where
  "normalize_activity sha a =
     \<lparr>ap_record_type = ''activity'', ap_source_api = SOURCE_API_ACTIVITIES, ap_external_id = ac_id a,
      ap_occurred_at = ac_created_at a, ap_content_hash = sha (utf8_encode (dumps (ac_dump a))),
      ap_record_metadata = Some (ac_dump a), ap_subject_user_id = None, ap_content_ref = None,
      ap_content_size_bytes = None\<rparr>"

definition note_seen :: "datetime \<Rightarrow> 'a stream_world_scheme \<Rightarrow> 'a stream_world_scheme" where
  "note_seen t w = (if instant (sw_max_seen w) < instant t then w\<lparr>sw_max_seen := t\<rparr> else w)"

definition activity_step ::
  "pull_env \<Rightarrow> string \<Rightarrow> activity \<Rightarrow> 'a stream_world_scheme \<Rightarrow> 'a stream_world_scheme \<times> flow"
where
  "activity_step env tid a w =
     (case append_and_meter env tid (normalize_activity (sha256 (pe_chain env)) a) w of
        (w1, Raise e) \<Rightarrow> (w1, Raise e)
      | (w1, _) \<Rightarrow>
          (let w2 = note_seen (ac_created_at a) w1;
               page_count = (pw_inserted w2 + pw_deduped w2) div DEFAULT_PER_PAGE_LIMIT
           in (w2, if MAX_PAGES_PER_INVOCATION \<le> page_count then Break else Go)))"

definition activity_query :: "datetime \<Rightarrow> compliance_query" where
  "activity_query starting_at =
     no_filter\<lparr>cq_created_at_gte := Some starting_at, cq_limit := Some DEFAULT_PER_PAGE_LIMIT\<rparr>"

text \<open>The end of both pulls: where the cursor goes.\<close>

definition advance_cursor ::
  "pull_env \<Rightarrow> string \<Rightarrow> string \<Rightarrow> datetime \<Rightarrow> 'a stream_world_scheme
     \<Rightarrow> ('a stream_world_scheme, int \<times> int \<times> string) task_result"
where
  "advance_cursor env tid source_api pull_started w =
     (let new_cursor = (if pw_inserted w \<noteq> 0 \<or> pw_deduped w \<noteq> 0 then sw_max_seen w else pull_started)
      in case save_cursor env tid source_api new_cursor w of
           (w', Raise e) \<Rightarrow> Some (w', Inl e)
         | (w', _) \<Rightarrow> Some (w', Inr (pw_inserted w', pw_deduped w', ''ok'')))"

definition stream_since ::
  "string \<Rightarrow> string \<Rightarrow> datetime \<Rightarrow> int \<Rightarrow> 'a pull_world_scheme \<Rightarrow> exn + datetime"
where
  "stream_since tid source_api now lookback w =
     bindE (load_cursor tid source_api w) (\<lambda>cursor.
       case cursor of Some c \<Rightarrow> Inr c | None \<Rightarrow> plus_days now (- lookback))"

text \<open>A 403 anywhere in the listing is a soft skip that reports nothing and leaves the cursor.\<close>

definition pull_activities_for_tenant ::
  "pull_env \<Rightarrow> compliance_models \<Rightarrow> string \<Rightarrow> 'a stream_world_scheme
     \<Rightarrow> ('a stream_world_scheme, int \<times> int \<times> string) task_result"
where
  "pull_activities_for_tenant env models tid w0 =
     (let now = pe_now env (n_tick w0)
      in if tid = [] then Some (w0, Inl PyValueError)
         else case stream_since tid SOURCE_API_ACTIVITIES now DEFAULT_INITIAL_LOOKBACK_DAYS w0 of
           Inl e \<Rightarrow> Some (w0, Inl e)
         | Inr starting_at \<Rightarrow>
             (case admin_client_for_tenant env tid w0 of
                Inl e \<Rightarrow> Some (w0, Inl e)
              | Inr client \<Rightarrow>
                  (case list_activities (pe_http env) (km_activity models) (activity_query starting_at)
                          (activity_step env tid)
                          (w0\<lparr>pw_inserted := 0, pw_deduped := 0, sw_max_seen := starting_at\<rparr>) of
                     None \<Rightarrow> None
                   | Some (w, Raise (InsufficientScope t)) \<Rightarrow> Some (w, Inr (0, 0, ''no_activity_feed_access''))
                   | Some (w, Raise e) \<Rightarrow> Some (w, Inl e)
                   | Some (w, _) \<Rightarrow> advance_cursor env tid SOURCE_API_ACTIVITIES now w)))"

section \<open>Content\<close>

definition join_text :: "string \<Rightarrow> string list \<Rightarrow> string" where
  "join_text sep parts = (case parts of [] \<Rightarrow> [] | p # ps \<Rightarrow> p @ concat (map (\<lambda>q. sep @ q) ps))"

definition message_text :: "chat_message \<Rightarrow> string" where
  "message_text msg =
     join_text [CHR 0x0A, CHR 0x0A]
       (map (\<lambda>b. the (cb_text b))
         (filter (\<lambda>b. cb_type b = ''text'' \<and> cb_text b \<noteq> None \<and> cb_text b \<noteq> Some []) (cm_content msg)))"

definition md_opt :: "string \<Rightarrow> string option \<Rightarrow> (string \<times> json) list" where
  "md_opt key v = (case v of None \<Rightarrow> [] | Some s \<Rightarrow> [(key, JStr s)])"

definition content_metadata :: "chat \<Rightarrow> chat_message \<Rightarrow> json" where
  "content_metadata chat msg =
     JObj ([(''chat_id'', JStr (ch_id chat)), (''message_id'', JStr (cm_id msg)), (''role'', JStr (cm_role msg))]
       @ md_opt ''chat_name'' (ch_name chat) @ md_opt ''model'' (ch_model chat)
       @ md_opt ''project_id'' (ch_project_id chat) @ md_opt ''organization_uuid'' (ch_organization_uuid chat)
       @ [(''user_id'', JStr (cu_id (ch_user chat))), (''user_email'', JStr (cu_email_address (ch_user chat)))]
       @ md_opt ''chat_deleted_at'' (map_option isoformat (ch_deleted_at chat)))"

function chunks :: "nat \<Rightarrow> 'a list \<Rightarrow> 'a list list" where
  "chunks n xs = (if xs = [] \<or> n = 0 then [] else take n xs # chunks n (drop n xs))"
  by pat_completeness auto
termination by (relation "measure (\<lambda>(n, xs). length xs)") auto

declare chunks.simps [simp del]

definition message_args ::
  "chat \<Rightarrow> chat_message \<Rightarrow> string \<Rightarrow> bytes \<Rightarrow> nat \<Rightarrow> append_args"
where
  "message_args chat msg content_ref content_hash n_bytes =
     \<lparr>ap_record_type = ''chat_message'', ap_source_api = SOURCE_API_CONTENT, ap_external_id = cm_id msg,
      ap_occurred_at = cm_created_at msg, ap_content_hash = content_hash,
      ap_record_metadata = Some (content_metadata chat msg),
      ap_subject_user_id = Some (cu_id (ch_user chat)), ap_content_ref = Some content_ref,
      ap_content_size_bytes = Some (int n_bytes)\<rparr>"

definition exn_of_content :: "content_error \<Rightarrow> exn" where
  "exn_of_content e =
     (case e of CValueError \<Rightarrow> PyValueError | CStorage s \<Rightarrow> PyStorageError | CCrypto c \<Rightarrow> exn_of_crypto c
      | _ \<Rightarrow> PyCryptoError)"

text \<open>\<^verbatim>\<open>store(tenant_id, text.encode("utf-8"))\<close>; what a failed write left in the store stays.\<close>

definition store_text ::
  "content_env \<Rightarrow> string \<Rightarrow> string \<Rightarrow> 'a stream_world_scheme
     \<Rightarrow> 'a stream_world_scheme \<times> (exn + string \<times> bytes \<times> nat)"
where
  "store_text env tid text w =
     (let t = n_tick w
      in case store_content (pe_crypto env) (sha256 (pe_chain env)) (dt_date (pe_now env t)) (ce_uuid env t)
                (ce_iv env t) (ce_store env t) tid (utf8_encode text) (pw_vault w) (sw_bucket w) of
           (b, Inl e) \<Rightarrow> (w\<lparr>n_tick := Suc t, sw_bucket := b\<rparr>, Inl (exn_of_content e))
         | (b, Inr r) \<Rightarrow> (w\<lparr>n_tick := Suc t, sw_bucket := b\<rparr>, Inr r))"

text \<open>The orphan's removal; its failure is logged only.\<close>

definition drop_orphan ::
  "content_env \<Rightarrow> string \<Rightarrow> string \<Rightarrow> 'a stream_world_scheme \<Rightarrow> 'a stream_world_scheme"
where
  "drop_orphan env tid content_ref w =
     w\<lparr>n_tick := Suc (n_tick w),
       sw_bucket := fst (delete_object (ce_store env (n_tick w)) tid content_ref (sw_bucket w))\<rparr>"

definition store_message ::
  "content_env \<Rightarrow> string \<Rightarrow> chat \<Rightarrow> string list \<Rightarrow> chat_message \<Rightarrow> 'a stream_world_scheme
     \<Rightarrow> 'a stream_world_scheme \<times> flow"
where
  "store_message env tid chat existing msg w =
     (if cm_id msg \<in> set existing then (w\<lparr>pw_deduped := pw_deduped w + 1\<rparr>, Go)
      else if message_text msg = [] then (w, Go)
      else case store_text env tid (message_text msg) w of
        (w1, Inl e) \<Rightarrow> (w1, Raise e)
      | (w1, Inr (content_ref, content_hash, n_bytes)) \<Rightarrow>
          (case try_append (pull_env.truncate env) tid (message_args chat msg content_ref content_hash n_bytes) w1 of
             (w2, Inl PyIntegrityError) \<Rightarrow>
               (drop_orphan env tid content_ref (w2\<lparr>pw_deduped := pw_deduped w2 + 1\<rparr>), Go)
           | (w2, Inl e) \<Rightarrow> (w2, Raise e)
           | (w2, Inr _) \<Rightarrow>
               (case try_increment (pull_env.truncate env) tid ''chat_message'' w2 of
                  (w3, Inl e) \<Rightarrow> (w3, Raise e)
                | (w3, Inr _) \<Rightarrow> (w3\<lparr>pw_inserted := pw_inserted w3 + 1\<rparr>, Go))))"

text \<open>The ids of a chat's messages that are in the table when its messages have been fetched.\<close>

definition existing_ids :: "string \<Rightarrow> string list \<Rightarrow> 'a pull_world_scheme \<Rightarrow> string list" where
  "existing_ids tid ids w =
     filter (\<lambda>i. i \<in> set ids)
       (map tr_external_id (filter (\<lambda>r. tr_source_api r = SOURCE_API_CONTENT) (rows_of tid (pw_records w))))"

definition chat_step ::
  "content_env \<Rightarrow> compliance_models \<Rightarrow> string \<Rightarrow> chat \<Rightarrow> 'a stream_world_scheme \<Rightarrow> 'a stream_world_scheme \<times> flow"
where
  "chat_step env models tid chat w =
     (let chat_updated = (case ch_updated_at chat of Some t \<Rightarrow> t | None \<Rightarrow> ch_created_at chat)
      in case get_chat_messages (pe_http env) (km_messages models) (ch_id chat) (note_seen chat_updated w) of
           (w1, Inl e) \<Rightarrow> (w1, Raise e)
         | (w1, Inr msgs) \<Rightarrow>
             (case feed (store_message env tid chat (existing_ids tid (map cm_id msgs) w1)) msgs w1 of
                (w2, Raise e) \<Rightarrow> (w2, Raise e)
              | (w2, _) \<Rightarrow>
                  (let w3 = w2\<lparr>sw_chats := sw_chats w2 + 1\<rparr>
                   in if MAX_CHATS_PER_INVOCATION \<le> sw_chats w3 then (w3\<lparr>sw_stop := True\<rparr>, Break) else (w3, Go))))"

definition chats_query :: "datetime \<Rightarrow> string list \<Rightarrow> compliance_query" where
  "chats_query starting_at batch = no_filter\<lparr>cq_user_ids := batch, cq_updated_at_gte := Some starting_at\<rparr>"

fun pull_batches ::
  "content_env \<Rightarrow> compliance_models \<Rightarrow> string \<Rightarrow> datetime \<Rightarrow> string list list \<Rightarrow> 'a stream_world_scheme
     \<Rightarrow> ('a stream_world_scheme \<times> flow) option"
where
  "pull_batches env models tid since [] w = Some (w, Go)"
| "pull_batches env models tid since (batch # batches) w =
     (if sw_stop w then Some (w, Go)
      else case list_chats (pe_http env) (km_chat models) (chats_query since batch) (chat_step env models tid) w of
        None \<Rightarrow> None
      | Some (w1, Raise e) \<Rightarrow> Some (w1, Raise e)
      | Some (w1, _) \<Rightarrow> pull_batches env models tid since batches w1)"

text \<open>The users of every organization, in order.\<close>

definition add_user :: "string \<Rightarrow> 'a stream_world_scheme \<Rightarrow> 'a stream_world_scheme \<times> flow" where
  "add_user uid w = (w\<lparr>sw_user_ids := sw_user_ids w @ [uid]\<rparr>, Go)"

fun org_users ::
  "content_env \<Rightarrow> compliance_models \<Rightarrow> json list \<Rightarrow> 'a stream_world_scheme \<Rightarrow> ('a stream_world_scheme \<times> flow) option"
where
  "org_users env models [] w = Some (w, Go)"
| "org_users env models (raw # raws) w =
     (case km_organization models raw of
        None \<Rightarrow> Some (w, Raise PyValidationError)
      | Some uuid \<Rightarrow>
          (case list_organization_users (pe_http env) (km_org_user models) uuid add_user w of
             None \<Rightarrow> None
           | Some (w1, Raise e) \<Rightarrow> Some (w1, Raise e)
           | Some (w1, _) \<Rightarrow> org_users env models raws w1))"

definition content_users ::
  "content_env \<Rightarrow> compliance_models \<Rightarrow> 'a stream_world_scheme \<Rightarrow> ('a stream_world_scheme \<times> flow) option"
where
  "content_users env models w =
     (case http_get (pe_http env) ''/v1/compliance/organizations'' [] w of
        (w1, Inl e) \<Rightarrow> Some (w1, Raise e)
      | (w1, Inr envelope) \<Rightarrow>
          (case data_rows envelope of
             Inl e \<Rightarrow> Some (w1, Raise e)
           | Inr rows \<Rightarrow> org_users env models rows w1))"

definition pull_content_for_tenant ::
  "content_env \<Rightarrow> compliance_models \<Rightarrow> string \<Rightarrow> 'a stream_world_scheme
     \<Rightarrow> ('a stream_world_scheme, int \<times> int \<times> string) task_result"
where
  "pull_content_for_tenant env models tid w0 =
     (let now = pe_now env (n_tick w0); penv = pull_env.truncate env
      in if tid = [] then Some (w0, Inl PyValueError)
         else case compliance_client_for_tenant penv tid w0 of
           Inl PyLookupError \<Rightarrow> Some (w0, Inr (0, 0, ''no_content_key''))
         | Inl e \<Rightarrow> Some (w0, Inl e)
         | Inr client \<Rightarrow>
             (case stream_since tid SOURCE_API_CONTENT now DEFAULT_CONTENT_LOOKBACK_DAYS w0 of
                Inl e \<Rightarrow> Some (w0, Inl e)
              | Inr starting_at \<Rightarrow>
                  (case content_users env models (w0\<lparr>pw_inserted := 0, pw_deduped := 0, sw_max_seen := starting_at,
                           sw_user_ids := [], sw_chats := 0, sw_stop := False\<rparr>) of
                     None \<Rightarrow> None
                   | Some (w, Raise (InsufficientScope t)) \<Rightarrow> Some (w, Inr (0, 0, ''no_content_access''))
                   | Some (w, Raise e) \<Rightarrow> Some (w, Inl e)
                   | Some (w, _) \<Rightarrow>
                       (case pull_batches env models tid starting_at
                               (chunks USER_IDS_PER_CHATS_CALL (rev (remdups (rev (sw_user_ids w))))) w of
                          None \<Rightarrow> None
                        | Some (w1, Raise (InsufficientScope t)) \<Rightarrow> Some (w1, Inr (0, 0, ''no_content_access''))
                        | Some (w1, Raise e) \<Rightarrow> Some (w1, Inl e)
                        | Some (w1, _) \<Rightarrow> advance_cursor penv tid SOURCE_API_CONTENT now w1))))"

section \<open>Lemmas on activities\<close>

lemma append_and_meter_exact:
  fixes w w' :: "'a pull_world_scheme"
  assumes "alone env tid" "append_and_meter env tid a w = (w', f)" "\<not> raises f"
  shows "f = Go" "recorded tid sa ei w' \<longleftrightarrow> recorded tid sa ei w \<or> (sa, ei) = args_key a"
    "pw_inserted w' + pw_deduped w' = pw_inserted w + pw_deduped w + 1"
    "pw_inserted w \<le> pw_inserted w' \<and> pw_deduped w \<le> pw_deduped w'"
proof -
  obtain w1 r where w1: "try_append env tid a w = (w1, r)" by (cases "try_append env tid a w")
  have keep: "pw_inserted w1 = pw_inserted w" "pw_deduped w1 = pw_deduped w"
    using w1 by (auto simp: try_append_def Let_def split: sum.splits)
  from assms(2,3) consider (dup) "r = Inl PyIntegrityError" "w' = w1\<lparr>pw_deduped := pw_deduped w1 + 1\<rparr>" "f = Go"
    | (new) w2 where "r = Inr ()" "try_increment env tid (ap_record_type a) w1 = (w2, Inr ())"
        "w' = w2\<lparr>pw_inserted := pw_inserted w2 + 1\<rparr>" "f = Go"
    by (auto simp: append_and_meter_def w1 split: sum.splits exn.splits prod.splits)
  then have "f = Go \<and> (recorded tid sa ei w' \<longleftrightarrow> recorded tid sa ei w \<or> (sa, ei) = args_key a)
      \<and> pw_inserted w' + pw_deduped w' = pw_inserted w + pw_deduped w + 1
      \<and> pw_inserted w \<le> pw_inserted w' \<and> pw_deduped w \<le> pw_deduped w'"
  proof cases
    case dup
    with try_append_alone(1) [OF assms(1) w1 dup(1)] keep show ?thesis
      by (auto simp: recorded_rows args_key_def)
  next
    case new
    from try_append_alone(2) [OF assms(1) w1 new(1)] obtain x where
      x: "rows_of tid (pw_records w1) = rows_of tid (pw_records w) @ [x]"
        "tr_external_id x = ap_external_id a" "tr_source_api x = ap_source_api a" by blast
    from try_increment_keeps [OF new(2)] x keep show ?thesis
      by (auto simp: new(3,4) recorded_rows args_key_def)
  qed
  then show "f = Go" "recorded tid sa ei w' \<longleftrightarrow> recorded tid sa ei w \<or> (sa, ei) = args_key a"
    "pw_inserted w' + pw_deduped w' = pw_inserted w + pw_deduped w + 1"
    "pw_inserted w \<le> pw_inserted w' \<and> pw_deduped w \<le> pw_deduped w'" by auto
qed

definition later :: "datetime \<Rightarrow> datetime \<Rightarrow> datetime" where
  "later t m = (if instant m < instant t then t else m)"

text \<open>What processing the activities \<open>xs\<close> in order has made of \<open>w0\<close>.\<close>

definition processed :: "string \<Rightarrow> 'a stream_world_scheme \<Rightarrow> activity list \<Rightarrow> 'a stream_world_scheme \<Rightarrow> bool" where
  "processed tid w0 xs w \<longleftrightarrow>
     pw_inserted w + pw_deduped w = int (length xs) \<and> 0 \<le> pw_inserted w \<and> 0 \<le> pw_deduped w
     \<and> sw_max_seen w = fold later (map ac_created_at xs) (sw_max_seen w0)
     \<and> (\<forall>sa ei. recorded tid sa ei w \<longleftrightarrow>
          recorded tid sa ei w0 \<or> sa = SOURCE_API_ACTIVITIES \<and> ei \<in> ac_id ` set xs)"

definition activity_cap :: nat where
  "activity_cap = 5000"

lemma try_append_seen: "try_append env tid a w = (w', r) \<Longrightarrow> sw_max_seen w' = sw_max_seen w"
  by (auto simp: try_append_def Let_def split: sum.splits)

lemma append_and_meter_seen: "append_and_meter env tid a w = (w', f) \<Longrightarrow> sw_max_seen w' = sw_max_seen w"
  by (auto simp: append_and_meter_def try_increment_def Let_def dest: try_append_seen
      split: sum.splits exn.splits prod.splits if_splits)

lemma activity_step_processed:
  fixes w0 w w' :: "'a stream_world_scheme"
  assumes "alone env tid" "processed tid w0 xs w" "activity_step env tid a w = (w', f)" "\<not> raises f"
  shows "processed tid w0 (xs @ [a]) w'" "f = (if activity_cap \<le> Suc (length xs) then Break else Go)"
proof -
  let ?args = "normalize_activity (sha256 (pe_chain env)) a"
  obtain w1 g where w1: "append_and_meter env tid ?args w = (w1, g)" by (cases "append_and_meter env tid ?args w")
  have g: "\<not> raises g" using assms(3,4) by (cases g) (auto simp: activity_step_def w1)
  note ex = append_and_meter_exact [OF assms(1) w1 g]
  have w': "w' = note_seen (ac_created_at a) w1"
    "f = (if 50 \<le> (pw_inserted w' + pw_deduped w') div 100 then Break else Go)"
    using assms(3) by (auto simp: activity_step_def w1 ex(1) Let_def MAX_PAGES_PER_INVOCATION_def DEFAULT_PER_PAGE_LIMIT_def)
  have tot: "pw_inserted w' + pw_deduped w' = int (Suc (length xs))"
    using ex(3) assms(2) by (simp add: w'(1) note_seen_def processed_def)
  then show "f = (if activity_cap \<le> Suc (length xs) then Break else Go)"
    unfolding w'(2) activity_cap_def by simp linarith
  have key: "args_key ?args = (SOURCE_API_ACTIVITIES, ac_id a)" by (simp add: args_key_def normalize_activity_def)
  have "recorded tid sa ei w' = recorded tid sa ei w1" for sa ei
    by (simp add: w'(1) note_seen_def recorded_def)
  then have "recorded tid sa ei w' \<longleftrightarrow> recorded tid sa ei w0
      \<or> sa = SOURCE_API_ACTIVITIES \<and> ei \<in> ac_id ` set (xs @ [a])" for sa ei
    using ex(2) assms(2) key by (auto simp: processed_def)
  moreover have "sw_max_seen w' = fold later (map ac_created_at (xs @ [a])) (sw_max_seen w0)"
    using append_and_meter_seen [OF w1] assms(2) by (simp add: w'(1) note_seen_def processed_def later_def)
  moreover have "0 \<le> pw_inserted w'" "0 \<le> pw_deduped w'"
    using ex(4) assms(2) by (simp_all add: w'(1) note_seen_def processed_def)
  ultimately show "processed tid w0 (xs @ [a]) w'" using tot by (simp add: processed_def)
qed

lemma processed_tick: "processed tid w0 xs (http_tick w) = processed tid w0 xs w"
  by (simp add: processed_def http_tick_def recorded_def)

interpretation activity: capped_sink "activity_step env tid" http_tick
  "\<lambda>xs w. alone env tid \<and> processed tid w0 xs w" activity_cap
  for env tid and w0 :: "'a stream_world_scheme"
proof (unfold_locales, goal_cases)
  case (1 xs s m s' f)
  from activity_step_processed [OF 1(1) [THEN conjunct1] 1(1) [THEN conjunct2] 1(3,4)] 1(1) show ?case by simp
qed (simp add: processed_tick)

definition activity_params :: "datetime \<Rightarrow> json option \<Rightarrow> params" where
  "activity_params since c =
     (case c of None \<Rightarrow> build_compliance_query (activity_query since)
      | Some v \<Rightarrow> build_compliance_query (activity_query since) @ [(''after_id'', v)])"

lemma list_activities_visit:
  fixes w :: "'a stream_world_scheme"
  assumes "serves (pe_http env) ''/v1/compliance/activities'' book"
    and "page_run next_after (\<lambda>c. book (activity_params since c)) None rss"
  shows "list_activities (pe_http env) parse (activity_query since) (activity_step env tid) w
     = Some (visit http_tick (validated parse (activity_step env tid)) rss w)"
  unfolding list_activities_def paginate_compliance_def activity_params_def [symmetric]
  by (subst pages_visit [OF assms(2)]) (simp_all add: http_get_serves [OF assms(1)] http_tick_def)

lemma fold_later_py:
  "py_datetime m \<Longrightarrow> (\<And>t. t \<in> set ts \<Longrightarrow> py_datetime t) \<Longrightarrow> py_datetime (fold later ts m)"
  by (induction ts arbitrary: m) (simp_all add: later_def)

lemma fold_later_start: "instant m \<le> instant (fold later ts m)"
proof (induction ts arbitrary: m)
  case (Cons t ts)
  have "instant m \<le> instant (later t m)" by (simp add: later_def)
  also have "\<dots> \<le> instant (fold later ts (later t m))" by (rule Cons.IH)
  finally show ?case by simp
qed simp

lemma fold_later_ge: "t \<in> set ts \<Longrightarrow> instant t \<le> instant (fold later ts m)"
proof (induction ts arbitrary: m)
  case (Cons u ts)
  have "instant u \<le> instant (later u m)" by (simp add: later_def)
  with Cons fold_later_start [of "later u m" ts] show ?case by auto
qed simp

lemma pull_activities_ok:
  fixes w w' :: "'a stream_world_scheme"
  assumes "pull_activities_for_tenant env models tid w = Some (w', Inr (p, d, ''ok''))"
    and "stream_since tid SOURCE_API_ACTIVITIES (pe_now env (n_tick w)) DEFAULT_INITIAL_LOOKBACK_DAYS w = Inr since"
  obtains v f where "list_activities (pe_http env) (km_activity models) (activity_query since) (activity_step env tid)
       (w\<lparr>pw_inserted := 0, pw_deduped := 0, sw_max_seen := since\<rparr>) = Some (v, f)" "\<not> raises f"
    "save_cursor env tid SOURCE_API_ACTIVITIES
       (if pw_inserted v \<noteq> 0 \<or> pw_deduped v \<noteq> 0 then sw_max_seen v else pe_now env (n_tick w)) v = (w', Go)"
    "p = pw_inserted v" "d = pw_deduped v"
  using assms
  by (auto simp: pull_activities_for_tenant_def Let_def advance_cursor_def save_cursor_def
      split: if_splits sum.splits option.splits flow.splits exn.splits)

text \<open>
  What the activity pull does, exactly: it deals with the first 5000 activities of the feed and with no
  other, and takes the latest of their times as the cursor.
\<close>

lemma activities_pull_exact:
  fixes w w' :: "'a stream_world_scheme"
  assumes "pull_activities_for_tenant env models tid w = Some (w', Inr (p, d, ''ok''))" "alone env tid"
    and "stream_since tid SOURCE_API_ACTIVITIES (pe_now env (n_tick w)) DEFAULT_INITIAL_LOOKBACK_DAYS w = Inr since"
    and "serves (pe_http env) ''/v1/compliance/activities'' book"
    and "page_run next_after (\<lambda>c. book (activity_params since c)) None rss"
    and "map (km_activity models) (concat rss) = map Some as"
    and "py_datetime (pe_now env (n_tick w))" "\<And>a. a \<in> set as \<Longrightarrow> py_datetime (ac_created_at a)"
  shows "p + d = int (length (take activity_cap as))
      \<and> (\<forall>sa ei. recorded tid sa ei w' \<longleftrightarrow>
           recorded tid sa ei w \<or> sa = SOURCE_API_ACTIVITIES \<and> ei \<in> ac_id ` set (take activity_cap as))
      \<and> load_cursor tid SOURCE_API_ACTIVITIES w' = Inr (Some
           (if as = [] then pe_now env (n_tick w)
            else fold later (map ac_created_at (take activity_cap as)) since))"
proof -
  let ?w = "w\<lparr>pw_inserted := 0, pw_deduped := 0, sw_max_seen := since\<rparr>"
  obtain v f where v: "list_activities (pe_http env) (km_activity models) (activity_query since) (activity_step env tid) ?w
        = Some (v, f)" "\<not> raises f"
      "save_cursor env tid SOURCE_API_ACTIVITIES
         (if pw_inserted v \<noteq> 0 \<or> pw_deduped v \<noteq> 0 then sw_max_seen v else pe_now env (n_tick w)) v = (w', Go)"
      "p = pw_inserted v" "d = pw_deduped v"
    by (rule pull_activities_ok [OF assms(1,3)])
  define act where "act = (\<lambda>r. the (km_activity models r))"
  have act: "r \<in> set (concat rss) \<Longrightarrow> km_activity models r = Some (act r)" for r
  proof -
    assume "r \<in> set (concat rss)"
    then have "km_activity models r \<in> set (map (km_activity models) (concat rss))" by simp
    then show ?thesis unfolding assms(6) by (auto simp: act_def)
  qed
  have as: "map act (concat rss) = as"
    using arg_cong [OF assms(6), of "map the"] by (simp add: act_def comp_def)
  have pr0: "alone env tid \<and> processed tid ?w [] ?w" by (simp add: assms(2) processed_def)
  have vis: "visit http_tick (validated (km_activity models) (activity_step env tid)) rss ?w = (v, f)"
    using v(1) by (simp only: list_activities_visit [OF assms(4,5)] option.inject)
  have pr: "processed tid ?w (take activity_cap as) v"
    using activity.visit_seen [OF act pr0 _ vis v(2)] by (simp add: as activity_cap_def)
  have rec0: "recorded tid sa ei ?w = recorded tid sa ei w" for sa ei by (simp add: recorded_def)
  have count: "p + d = int (length (take activity_cap as))" using pr v(4,5) by (simp add: processed_def)
  have since: "py_datetime since"
    using assms(3,7) load_cursor_valid [of tid SOURCE_API_ACTIVITIES w] plus_days_Inr(1)
    by (auto simp: stream_since_def split: option.splits)
  have seen: "sw_max_seen v = fold later (map ac_created_at (take activity_cap as)) since"
    using pr by (simp add: processed_def)
  have "py_datetime (sw_max_seen v)"
    unfolding seen using since assms(8) by (intro fold_later_py) (auto dest: in_set_takeD)
  moreover have "as = [] \<longleftrightarrow> pw_inserted v = 0 \<and> pw_deduped v = 0"
    using pr by (auto simp: processed_def activity_cap_def min_def split: if_splits)
  ultimately have "load_cursor tid SOURCE_API_ACTIVITIES w' = Inr (Some
      (if as = [] then pe_now env (n_tick w) else sw_max_seen v))"
    using load_save_cursor [OF _ v(3)] assms(7) by (auto split: if_splits)
  then show ?thesis
    using count pr save_cursor_keeps [OF v(3)] rec0 by (simp add: seen processed_def recorded_def)
qed

text \<open>With Redis up and arguments the table takes, an item never raises.\<close>

lemma append_and_meter_goes:
  fixes w :: "'a pull_world_scheme"
  assumes "package_contract (pe_chain env)" "alone env tid" "appendable tid a"
    and "FIELD_DELIM \<notin> set tid" "FIELD_DELIM \<notin> set (ap_record_type a)" "ap_record_type a \<noteq> []"
    and "\<And>t. pe_redis env t"
  shows "snd (append_and_meter env tid a w) = Go"
proof (cases "recorded tid (ap_source_api a) (ap_external_id a) w")
  case True
  from append_and_meter_known [OF assms(1,3) True] show ?thesis by simp
next
  case False
  obtain x where x: "try_append env tid a w =
      (w\<lparr>n_tick := Suc (n_tick w), pw_records := pw_records w @ pe_rivals env (n_tick w) @ [x]\<rparr>, Inr ())"
    by (rule append_and_meter_new [OF assms(1,3,2) False])
  have "tid \<noteq> []" using assms(3) by (simp add: appendable_def)
  then show ?thesis
    using assms(4-7) by (simp add: append_and_meter_def x try_increment_def Let_def increment_def)
qed

lemma feed_quiet:
  assumes "\<And>r s. r \<in> set rs \<Longrightarrow> \<not> raises (snd (body r s))"
  shows "\<not> raises (snd (feed body rs s))"
  using assms
proof (induction rs arbitrary: s)
  case (Cons r rs)
  obtain t g where "body r s = (t, g)" by (cases "body r s")
  with Cons.prems [of r s] Cons show ?case by (cases g) auto
qed simp

lemma visit_quiet:
  assumes "\<And>r s. r \<in> set (concat rss) \<Longrightarrow> \<not> raises (snd (body r s))"
  shows "\<not> raises (snd (visit tk body rss s))"
  using assms
proof (induction rss arbitrary: s)
  case (Cons rs rss)
  obtain t g where t: "feed body rs (tk s) = (t, g)" by (cases "feed body rs (tk s)")
  have "\<not> raises g"
    using feed_quiet [of rs body "tk s"] Cons.prems t by auto
  with t Cons show ?case by (cases g) auto
qed simp

section \<open>A sample feed\<close>

definition sample_activity :: "json \<Rightarrow> activity" where
  "sample_activity j =
     \<lparr>ac_id = (case j of JInt n \<Rightarrow> int_str n | _ \<Rightarrow> []),
      ac_created_at = (if j = JInt 0 then sample_time\<lparr>dt_us := 2000000\<rparr> else sample_time), ac_dump = j\<rparr>"

definition sample_feed :: "json list" where
  "sample_feed = map (\<lambda>n. JInt (int n)) [0..<5001]"

definition sample_feed_env :: pull_env where
  "sample_feed_env = (sample_pull_env [] (\<lambda>t. True))\<lparr>pe_http :=
     \<lparr>he_send = \<lambda>t rq. Answer 200 None [] (Some (JObj [(''data'', JList sample_feed)])), he_wait_exponential = int\<rparr>\<rparr>"

definition sample_compliance_models :: compliance_models where
  "sample_compliance_models =
     \<lparr>km_activity = \<lambda>j. Some (sample_activity j), km_organization = \<lambda>j. None, km_org_user = \<lambda>j. None,
      km_chat = \<lambda>j. None, km_messages = \<lambda>j. None\<rparr>"

definition sample_stream :: "vault \<Rightarrow> stream_world" where
  "sample_stream v =
     pull_world.extend (sample_world v)
       (stream_world.fields sample_time [] 0 False Map.empty)"

lemma sample_stream_simps [simp]:
  "n_tick (sample_stream v) = 0" "pw_records (sample_stream v) = []" "pw_meter (sample_stream v) = empty_meter"
  "pw_pull_state (sample_stream v) = Map.empty" "pw_vault (sample_stream v) = v"
  by (simp_all add: sample_stream_def sample_world_def pull_world.defs stream_world.defs net.defs)

lemma length_nat_str_small: "n < 10000 \<Longrightarrow> length (nat_str n) \<le> 4"
  using length_nat_str [of n 4] by simp

lemma sample_feed_quiet:
  fixes w :: "'a stream_world_scheme"
  assumes "r \<in> set sample_feed"
  shows "\<not> raises (snd (validated (km_activity sample_compliance_models) (activity_step sample_feed_env ''t1'') r w))"
proof -
  obtain n where n: "r = JInt (int n)" "n < 5001" using assms by (auto simp: sample_feed_def)
  let ?a = "normalize_activity (sha256 (pe_chain sample_feed_env)) (sample_activity r)"
  have id: "length (ac_id (sample_activity r)) \<le> 4"
    using length_nat_str_small [of n] n by (simp add: sample_activity_def int_str_def)
  have env: "pe_chain sample_feed_env = sample_env" "\<And>t. pe_redis sample_feed_env t" "alone sample_feed_env ''t1''"
    by (simp_all add: sample_feed_env_def alone_def)
  have "appendable ''t1'' ?a"
    using id by (simp add: appendable_def args_fit_def normalize_activity_def opt_fits_def env(1) SOURCE_API_ACTIVITIES_def)
  then have "snd (append_and_meter sample_feed_env ''t1'' ?a w) = Go"
    by (intro append_and_meter_goes) (simp_all add: env FIELD_DELIM_def normalize_activity_def)
  then obtain w1 where "append_and_meter sample_feed_env ''t1'' ?a w = (w1, Go)"
    by (cases "append_and_meter sample_feed_env ''t1'' ?a w") auto
  then show ?thesis by (simp add: validated_def sample_compliance_models_def activity_step_def Let_def)
qed

lemma sample_feed_serves:
  "serves (pe_http sample_feed_env) path (\<lambda>ps. JObj [(''data'', JList sample_feed)])"
  by (simp add: serves_def sample_feed_env_def)

lemma sample_feed_run: "page_run next_after (\<lambda>c. JObj [(''data'', JList sample_feed)]) None [sample_feed]"
  by (intro last_page) (simp_all add: data_rows_def json_get_def json_iter_def next_after_def)

lemma sample_feed_pull:
  assumes "unseal_secret sample_crypto ''t1'' ''anthropic_admin_key'' v = Inr ''hunter2''"
  shows "\<exists>w' p d. pull_activities_for_tenant sample_feed_env sample_compliance_models ''t1'' (sample_stream v)
      = Some (w', Inr (p, d, ''ok''))"
proof -
  let ?since = "sample_time\<lparr>dt_date := Date 2026 5 16\<rparr>"
  let ?w = "(sample_stream v)\<lparr>pw_inserted := 0, pw_deduped := 0, sw_max_seen := ?since\<rparr>"
  obtain u f where u: "visit http_tick (validated (km_activity sample_compliance_models)
      (activity_step sample_feed_env ''t1'')) [sample_feed] ?w = (u, f)"
    by (cases "visit http_tick (validated (km_activity sample_compliance_models)
      (activity_step sample_feed_env ''t1'')) [sample_feed] ?w")
  have "\<not> raises (snd (visit http_tick (validated (km_activity sample_compliance_models)
      (activity_step sample_feed_env ''t1'')) [sample_feed] ?w))"
    by (rule visit_quiet) (rule sample_feed_quiet, simp)
  then have "\<not> raises f" unfolding u by simp
  then have f: "f = Go \<or> f = Break" by (cases f) simp_all
  have env: "pe_crypto sample_feed_env = sample_crypto" "pe_now sample_feed_env t = sample_time" for t
    by (simp_all add: sample_feed_env_def)
  have key: "admin_client_for_tenant sample_feed_env ''t1'' (sample_stream v) = Inr ''hunter2''"
    by (simp add: admin_client_for_tenant_def client_for_tenant_def assms env)
  have since: "stream_since ''t1'' SOURCE_API_ACTIVITIES sample_time DEFAULT_INITIAL_LOOKBACK_DAYS (sample_stream v)
      = Inr ?since"
    by (simp add: stream_since_def load_cursor_def DEFAULT_INITIAL_LOOKBACK_DAYS_def sample_since)
  have src: "\<not> 32 < length SOURCE_API_ACTIVITIES" by (simp add: SOURCE_API_ACTIVITIES_def)
  have list: "list_activities (pe_http sample_feed_env) (km_activity sample_compliance_models) (activity_query ?since)
      (activity_step sample_feed_env ''t1'') ?w = Some (u, f)"
    by (simp only: list_activities_visit [OF sample_feed_serves sample_feed_run] u)
  show ?thesis
    using f by (auto simp: pull_activities_for_tenant_def Let_def env since key list advance_cursor_def
        save_cursor_def src)
qed

section \<open>Properties\<close>

text \<open>C27: Activities beyond the cap are lost. The feed lists the newest activity first. When a window holds
  more than 5000, the pull stores the 5000 newest and moves the cursor to the newest of all; the older
  ones are not in the table afterwards, and none of them is newer than the cursor the next pull starts
  from.\<close>

theorem capped_activities_are_skipped:
  fixes w w' :: "'a stream_world_scheme"
  assumes "pull_activities_for_tenant env models tid w = Some (w', Inr (p, d, ''ok''))" "alone env tid"
    and "stream_since tid SOURCE_API_ACTIVITIES (pe_now env (n_tick w)) DEFAULT_INITIAL_LOOKBACK_DAYS w = Inr since"
    and "serves (pe_http env) ''/v1/compliance/activities'' book"
    and "page_run next_after (\<lambda>c. book (activity_params since c)) None rss"
    and "map (km_activity models) (concat rss) = map Some as"
    and "py_datetime (pe_now env (n_tick w))" "\<And>a. a \<in> set as \<Longrightarrow> py_datetime (ac_created_at a)"
    and "sorted_wrt (\<lambda>a b. instant (ac_created_at b) \<le> instant (ac_created_at a)) as" "activity_cap < length as"
  shows "\<exists>c. load_cursor tid SOURCE_API_ACTIVITIES w' = Inr (Some c)
      \<and> (\<forall>a \<in> set (take activity_cap as). recorded tid SOURCE_API_ACTIVITIES (ac_id a) w')
      \<and> (\<forall>a \<in> set (drop activity_cap as). instant (ac_created_at a) \<le> instant c
           \<and> (ac_id a \<notin> ac_id ` set (take activity_cap as) \<and> \<not> recorded tid SOURCE_API_ACTIVITIES (ac_id a) w
               \<longrightarrow> \<not> recorded tid SOURCE_API_ACTIVITIES (ac_id a) w'))"
proof -
  note ex = activities_pull_exact [OF assms(1-8)]
  let ?c = "fold later (map ac_created_at (take activity_cap as)) since"
  obtain h t where as: "as = h # t" using assms(10) by (cases as) auto
  have h: "h \<in> set (take activity_cap as)" by (simp add: as activity_cap_def)
  have "instant (ac_created_at a) \<le> instant (ac_created_at h)" if "a \<in> set as" for a
    using assms(9) that by (auto simp: as)
  moreover have "instant (ac_created_at h) \<le> instant ?c" using h by (intro fold_later_ge) simp
  ultimately have "instant (ac_created_at a) \<le> instant ?c" if "a \<in> set (drop activity_cap as)" for a
    using in_set_dropD [OF that] order.trans by blast
  with ex show ?thesis by (intro exI [of _ ?c]) (auto simp: as)
qed

lemma capped_activities_are_skipped_witness:
  "\<exists>v w' p d. pull_activities_for_tenant sample_feed_env sample_compliance_models ''t1'' (sample_stream v)
       = Some (w', Inr (p, d, ''ok''))
     \<and> \<not> recorded ''t1'' SOURCE_API_ACTIVITIES (int_str 5000) w'"
proof -
  obtain v where v: "unseal_secret sample_crypto ''t1'' ''anthropic_admin_key'' v = Inr ''hunter2''" by (rule sample_key)
  obtain w' p d where w': "pull_activities_for_tenant sample_feed_env sample_compliance_models ''t1'' (sample_stream v)
       = Some (w', Inr (p, d, ''ok''))" using sample_feed_pull [OF v] by blast
  let ?as = "map sample_activity sample_feed" and ?since = "sample_time\<lparr>dt_date := Date 2026 5 16\<rparr>"
  have env: "alone sample_feed_env ''t1''" "pe_now sample_feed_env t = sample_time" for t
    by (simp_all add: sample_feed_env_def alone_def)
  have since: "stream_since ''t1'' SOURCE_API_ACTIVITIES (pe_now sample_feed_env (n_tick (sample_stream v)))
      DEFAULT_INITIAL_LOOKBACK_DAYS (sample_stream v) = Inr ?since"
    by (simp add: stream_since_def load_cursor_def DEFAULT_INITIAL_LOOKBACK_DAYS_def sample_since env)
  have parse: "map (km_activity sample_compliance_models) (concat [sample_feed]) = map Some ?as"
    by (simp add: sample_compliance_models_def)
  have py: "py_datetime (ac_created_at a)" if "a \<in> set ?as" for a
  proof -
    have "py_datetime (sample_time\<lparr>dt_us := 2000000\<rparr>)"
      using sample_time_ok by (simp add: py_datetime_def valid_datetime_def sample_time_def day_us_def)
    with that show ?thesis by (auto simp: sample_activity_def)
  qed
  have times: "instant (ac_created_at (sample_activity (JInt n)))
      = (if n = 0 then instant sample_time + 1000000 else instant sample_time)" for n
    by (simp add: sample_activity_def instant_def sample_time_def)
  have sorted: "sorted_wrt (\<lambda>a b. instant (ac_created_at b) \<le> instant (ac_created_at a)) ?as"
    unfolding sample_feed_def map_map sorted_wrt_map
    by (rule sorted_wrt_mono_rel [OF _ sorted_wrt_upt]) (auto simp: times)
  have len: "activity_cap < length ?as" by (simp add: activity_cap_def sample_feed_def)
  have drop: "sample_activity (JInt 5000) \<in> set (drop activity_cap ?as)"
    unfolding sample_feed_def map_map drop_map drop_upt activity_cap_def
    by (simp del: upt_Suc)
  have ids: "ac_id (sample_activity (JInt 5000)) \<notin> ac_id ` set (take activity_cap ?as)"
    by (auto simp: activity_cap_def sample_feed_def take_map sample_activity_def simp del: upt_Suc)
  have "\<not> recorded ''t1'' SOURCE_API_ACTIVITIES (ac_id (sample_activity (JInt 5000))) (sample_stream v)"
    by (simp add: recorded_def duplicate_def)
  with capped_activities_are_skipped [OF w' env(1) since sample_feed_serves sample_feed_run parse _ py sorted len] ids drop
  have "\<not> recorded ''t1'' SOURCE_API_ACTIVITIES (ac_id (sample_activity (JInt 5000))) w'"
    by (auto simp: env)
  with w' show ?thesis
    by (intro exI [of _ v] exI [of _ w'] exI [of _ p] exI [of _ d]) (simp add: sample_activity_def)
qed

lemma try_append_Inr:
  assumes "try_append env tid a w = (w', Inr u)"
  shows "\<exists>x. x \<in> set (pw_records w') \<and> tr_tenant_id x = tid \<and> tr_source_api x = ap_source_api a
      \<and> tr_external_id x = ap_external_id a \<and> tr_content_ref x = ap_content_ref a
      \<and> tr_content_hash x = ap_content_hash a"
proof -
  obtain q where "build_record (pe_chain env) tid a (chain_tip (rows_of tid (pw_records w))) = Inr q"
    "pw_records w' = (pw_records w @ pe_rivals env (n_tick w)) @ [store_row (pe_chain env) q]"
    using assms by (auto simp: try_append_def Let_def append_between_def insert_row_def split: sum.splits if_splits)
  with build_record_fields show ?thesis by (intro exI [of _ "store_row (pe_chain env) q"]) auto
qed

text \<open>C28: A pulled message can be read back. When the content pull counts a message as new, the tenant's
  table has a record under the message's id whose content hash is the digest of the message's text and
  whose reference, given to \<^verbatim>\<open>retrieve_content\<close>, yields exactly that text from the object store.\<close>

theorem pulled_message_reads_back:
  fixes w w' :: "'a stream_world_scheme"
  assumes "store_message env tid chat existing msg w = (w', Go)" "pw_inserted w' = pw_inserted w + 1"
    and "cipher_laws (pe_crypto env)" "available sched"
  shows "\<exists>x ref. x \<in> set (pw_records w') \<and> tr_tenant_id x = tid \<and> tr_external_id x = cm_id msg
      \<and> tr_content_ref x = Some ref \<and> tr_content_hash x = sha256 (pe_chain env) (utf8_encode (message_text msg))
      \<and> retrieve_content (pe_crypto env) sched tid ref (pw_vault w') (sw_bucket w')
          = Inr (utf8_encode (message_text msg))"
proof -
  let ?env = "pull_env.truncate env"
  have new: "cm_id msg \<notin> set existing" "message_text msg \<noteq> []"
    using assms(1,2) by (auto simp: store_message_def split: if_splits)
  obtain w1 r1 where w1: "store_text env tid (message_text msg) w = (w1, r1)"
    by (cases "store_text env tid (message_text msg) w")
  obtain ref h n where r1: "r1 = Inr (ref, h, n)"
    using assms(1) new by (cases r1) (auto simp: store_message_def w1)
  obtain w2 r2 where w2: "try_append ?env tid (message_args chat msg ref h n) w1 = (w2, r2)"
    by (cases "try_append ?env tid (message_args chat msg ref h n) w1")
  have counts: "pw_inserted w1 = pw_inserted w" "pw_inserted w2 = pw_inserted w1"
    using w1 w2 by (auto simp: store_text_def try_append_def Let_def split: sum.splits prod.splits)
  obtain u where r2: "r2 = Inr u"
    using assms(1,2) new counts
    by (cases r2) (auto simp: store_message_def w1 r1 w2 drop_orphan_def split: exn.splits)
  obtain w3 where w3: "try_increment ?env tid ''chat_message'' w2 = (w3, Inr ())"
    "w' = w3\<lparr>pw_inserted := pw_inserted w3 + 1\<rparr>"
    using assms(1) new by (auto simp: store_message_def w1 r1 w2 r2 split: sum.splits prod.splits)
  have keep: "pw_records w' = pw_records w2" "sw_bucket w' = sw_bucket w1" "pw_vault w' = pw_vault w"
    using w1 w2 w3 by (auto simp: store_text_def try_append_def try_increment_def Let_def split: sum.splits prod.splits if_splits)
  from try_append_Inr [OF w2 [unfolded r2]] obtain x where
    x: "x \<in> set (pw_records w2)" "tr_tenant_id x = tid" "tr_external_id x = cm_id msg"
      "tr_content_ref x = Some ref" "tr_content_hash x = h"
    by (auto simp: message_args_def)
  from w1 r1 obtain d uu iv sc where st: "store_content (pe_crypto env) (sha256 (pe_chain env)) d uu iv sc tid
      (utf8_encode (message_text msg)) (pw_vault w) (sw_bucket w) = (sw_bucket w1, Inr (ref, h, n))"
    by (auto simp: store_text_def Let_def split: sum.splits prod.splits)
  from retrieve_stored [OF assms(3) st assms(4)] store_content_Inr [OF st] x keep show ?thesis by auto
qed

definition sample_content_env :: content_env where
  "sample_content_env = pull_env.extend (sample_pull_env [] (\<lambda>t. True))
     (content_env.fields (\<lambda>t. ''deadbeef'') (\<lambda>t. replicate 12 CHR ''n'') (\<lambda>t i. Served))"

definition sample_chat :: chat where
  "sample_chat =
     \<lparr>ch_id = ''c1'', ch_name = Some ''Plan'', ch_created_at = sample_time, ch_updated_at = None, ch_deleted_at = None,
      ch_model = None, ch_organization_uuid = None, ch_project_id = None,
      ch_user = \<lparr>cu_id = ''u1'', cu_email_address = ''u1@example.com''\<rparr>\<rparr>"

definition sample_message :: chat_message where
  "sample_message =
     \<lparr>cm_id = ''m1'', cm_role = ''user'', cm_created_at = sample_time,
      cm_content = [\<lparr>cb_type = ''text'', cb_text = Some ''hi''\<rparr>, \<lparr>cb_type = ''tool'', cb_text = None\<rparr>]\<rparr>"

lemma sample_content_env_simps [simp]:
  "pull_env.truncate sample_content_env = sample_pull_env [] (\<lambda>t. True)"
  "pe_crypto sample_content_env = sample_crypto" "pe_chain sample_content_env = sample_env"
  "pe_now sample_content_env t = sample_time" "ce_uuid sample_content_env t = ''deadbeef''"
  "ce_iv sample_content_env t = replicate 12 CHR ''n''" "ce_store sample_content_env t = (\<lambda>i. Served)"
  by (simp_all add: sample_content_env_def sample_pull_env_def pull_env.defs content_env.defs)

lemma sample_message_simps: "message_text sample_message = ''hi''" "cm_id sample_message = ''m1''"
  by (simp_all add: message_text_def sample_message_def join_text_def)

lemma sample_store_message:
  "\<exists>w'. store_message sample_content_env ''t1'' sample_chat [] sample_message (sample_stream sample_vault) = (w', Go)
     \<and> pw_inserted w' = pw_inserted (sample_stream sample_vault) + 1"
proof -
  let ?w = "sample_stream sample_vault"
  obtain td where "tenant_deks sample_vault ''t1'' = Some td" using sample_vault_deks by blast
  from get_tenant_dek_ok [OF vault_ok_sample this] obtain dek where
    dek: "get_tenant_dek sample_crypto ''t1'' sample_vault = Inr dek" "length dek = 32" by blast
  have bucket: "sw_bucket ?w = Map.empty"
    by (simp add: sample_stream_def sample_world_def pull_world.defs stream_world.defs)
  have v: "validate_tenant_id ''t1'' = Inr ()" by (simp add: validate_tenant_id_def startswith_def)
  let ?ref = "new_content_ref (dt_date sample_time) ''deadbeef''"
  obtain full where full: "full_key ''t1'' ?ref = Inr full" using full_key_ok [OF v] new_content_ref_not_Nil by blast
  have put: "\<exists>b'. put_content (\<lambda>i. Served) ''t1'' ?ref x b = (b', Inr ())" for x b
    by (simp add: put_content_def retry3_def numeral_3_eq_3 put_attempt_def full)
  have "\<exists>b. store_content sample_crypto (sha256 sample_env) (dt_date sample_time) ''deadbeef'' (replicate 12 CHR ''n'')
      (\<lambda>i. Served) ''t1'' (utf8_encode ''hi'') sample_vault Map.empty
      = (b, Inr (?ref, sha256 sample_env (utf8_encode ''hi''), 2))"
    using put [of _ Map.empty]
    by (auto simp: store_content_def v dek encrypt_with_dek_def aes_key_def gcm_nonce_def IV_LEN_def Let_def
        utf8_char_def split: prod.split sum.split) (metis Pair_inject Inl_Inr_False)+
  then obtain w1 where w1: "store_text sample_content_env ''t1'' ''hi'' ?w
      = (w1, Inr (?ref, sha256 sample_env (utf8_encode ''hi''), 2))"
    "pw_records w1 = []" "pw_meter w1 = empty_meter" "pw_inserted w1 = pw_inserted ?w"
    by (auto simp: store_text_def Let_def bucket)
  let ?a = "message_args sample_chat sample_message ?ref (sha256 sample_env (utf8_encode ''hi'')) 2"
  have "length ?ref \<le> 512" by (simp add: new_content_ref_def sample_time_def length_pad)
  then have app: "appendable ''t1'' ?a"
    by (simp add: appendable_def args_fit_def message_args_def opt_fits_def SOURCE_API_CONTENT_def
        sample_message_def sample_chat_def)
  have "\<not> recorded ''t1'' (ap_source_api ?a) (ap_external_id ?a) w1"
    by (simp add: recorded_def duplicate_def w1(2))
  then obtain x where "try_append (sample_pull_env [] (\<lambda>t. True)) ''t1'' ?a w1
      = (w1\<lparr>n_tick := Suc (n_tick w1), pw_records := [x]\<rparr>, Inr ())"
    using append_and_meter_new [OF _ app _, of "sample_pull_env [] (\<lambda>t. True)" w1] w1(2) by fastforce
  then show ?thesis
    by (simp add: store_message_def sample_message_simps w1 try_increment_def Let_def increment_def FIELD_DELIM_def)
qed

lemma pulled_message_reads_back_witness:
  "\<exists>w' x ref. store_message sample_content_env ''t1'' sample_chat [] sample_message (sample_stream sample_vault) = (w', Go)
     \<and> x \<in> set (pw_records w') \<and> tr_external_id x = ''m1'' \<and> tr_content_ref x = Some ref
     \<and> retrieve_content sample_crypto (\<lambda>i. Served) ''t1'' ref (pw_vault w') (sw_bucket w') = Inr ''hi''"
proof -
  obtain w' where w': "store_message sample_content_env ''t1'' sample_chat [] sample_message (sample_stream sample_vault)
      = (w', Go)" "pw_inserted w' = pw_inserted (sample_stream sample_vault) + 1"
    using sample_store_message by blast
  have "available (\<lambda>i. Served)" by (rule available_served)
  from pulled_message_reads_back [OF w' _ this] obtain x ref where
    "x \<in> set (pw_records w')" "tr_external_id x = ''m1''" "tr_content_ref x = Some ref"
    "retrieve_content sample_crypto (\<lambda>i. Served) ''t1'' ref (pw_vault w') (sw_bucket w') = Inr ''hi''"
    by (auto simp: sample_message_simps utf8_char_def Let_def)
  with w'(1) show ?thesis by blast
qed

end
