(* ===== verification/CodeAnalytics.thy ===== *)
theory CodeAnalytics
  imports PullCompliance Period
begin

text \<open>
  \<^verbatim>\<open>tasks/pull_code_analytics.py\<close>: the daily Claude Code report. The endpoint serves one day per call, so
  the pull walks from the day after its cursor to yesterday, appends one record per actor and day, and
  moves the cursor to each day it leaves. A cap on the records of one invocation can end a day early.
\<close>

section \<open>Records\<close>

text \<open>\<open>cr_dump\<close> is what pydantic's \<^verbatim>\<open>model_dump\<close> makes of the record.\<close>

record code_actor =
  ca_type :: string
  ca_email_address :: "string option"
  ca_api_key_name :: "string option"

record code_record =
  cr_date :: datetime
  cr_actor :: code_actor
  cr_dump :: json

text \<open>The task's counter of pages beside the ones every pull keeps.\<close>

record code_world = pull_world +
  cw_pages :: int

definition SOURCE_API_CODE_ANALYTICS :: string where
  "SOURCE_API_CODE_ANALYTICS = ''code_analytics''"

definition INGEST_LAG_DAYS :: int where
  "INGEST_LAG_DAYS = 1"

definition CODE_LOOKBACK_DAYS :: int where
  "CODE_LOOKBACK_DAYS = 7"

definition CODE_PER_PAGE_LIMIT :: int where
  "CODE_PER_PAGE_LIMIT = 100"

definition CODE_MAX_PAGES :: int where
  "CODE_MAX_PAGES = 50"

definition filled :: "string option \<Rightarrow> string option" where
  "filled x = (case x of None \<Rightarrow> None | Some s \<Rightarrow> if s = [] then None else Some s)"

definition actor_handle :: "code_actor \<Rightarrow> string" where
  "actor_handle a =
     (case (if ca_type a = ''user_actor'' then filled (ca_email_address a)
            else if ca_type a = ''api_actor'' then filled (ca_api_key_name a) else None) of
        Some s \<Rightarrow> s
      | None \<Rightarrow> ca_type a @ '':unknown'')"

definition code_record_id :: "code_record \<Rightarrow> string" where
  "code_record_id r = ''code_analytics:'' @ isodate (dt_date (cr_date r)) @ '':'' @ actor_handle (cr_actor r)"

definition normalize_code_record :: "(bytes \<Rightarrow> bytes) \<Rightarrow> code_record \<Rightarrow> append_args" where
  "normalize_code_record sha r =
     \<lparr>ap_record_type = ''code_analytics'', ap_source_api = SOURCE_API_CODE_ANALYTICS,
      ap_external_id = code_record_id r, ap_occurred_at = cr_date r,
      ap_content_hash = sha (utf8_encode (dumps (cr_dump r))), ap_record_metadata = Some (cr_dump r),
      ap_subject_user_id = None, ap_content_ref = None, ap_content_size_bytes = None\<rparr>"

section \<open>The pull\<close>

text \<open>\<^verbatim>\<open>d + timedelta(days=n)\<close> on a date.\<close>

definition add_date :: "date \<Rightarrow> int \<Rightarrow> exn + date" where
  "add_date d n =
     (let e = add_days d n in if 1 \<le> d_year e \<and> d_year e \<le> 9999 then Inr e else Inl PyOverflowError)"

definition code_step ::
  "pull_env \<Rightarrow> string \<Rightarrow> code_record \<Rightarrow> 'a code_world_scheme \<Rightarrow> 'a code_world_scheme \<times> flow"
where
  "code_step env tid r w =
     (case append_and_meter env tid (normalize_code_record (sha256 (pe_chain env)) r) w of
        (w1, Raise e) \<Rightarrow> (w1, Raise e)
      | (w1, _) \<Rightarrow>
          if (pw_inserted w1 + pw_deduped w1) mod CODE_PER_PAGE_LIMIT = 0
          then (w1\<lparr>cw_pages := cw_pages w1 + 1\<rparr>, if CODE_MAX_PAGES \<le> cw_pages w1 + 1 then Break else Go)
          else (w1, Go))"

text \<open>
  The loop over the days returns how many it left, or nothing after a 403. The warning at the cap names
  the day before, which has to exist.
\<close>

partial_function (option) code_days ::
  "pull_env \<Rightarrow> (json \<Rightarrow> code_record option) \<Rightarrow> string \<Rightarrow> date \<Rightarrow> int \<Rightarrow> date \<Rightarrow> 'a code_world_scheme
     \<Rightarrow> ('a code_world_scheme \<times> (exn + int option)) option"
where
  "code_days env parse tid last_day n day w =
     (if \<not> day \<le> last_day then Some (w, Inr (Some n))
      else if CODE_MAX_PAGES \<le> cw_pages w then
        (case add_date day (- 1) of Inl e \<Rightarrow> Some (w, Inl e) | Inr _ \<Rightarrow> Some (w, Inr (Some n)))
      else case list_code_analytics (pe_http env) parse day (Some CODE_PER_PAGE_LIMIT) (code_step env tid) w of
        None \<Rightarrow> None
      | Some (w1, f) \<Rightarrow>
          (case f of
             Raise e \<Rightarrow> Some (w1, case e of InsufficientScope t \<Rightarrow> Inr None | _ \<Rightarrow> Inl e)
           | _ \<Rightarrow>
             (case save_cursor env tid SOURCE_API_CODE_ANALYTICS (utc_midnight day) w1 of
                (w2, Raise e) \<Rightarrow> Some (w2, Inl e)
              | (w2, _) \<Rightarrow>
                  (case add_date day 1 of
                     Inl e \<Rightarrow> Some (w2, Inl e)
                   | Inr day' \<Rightarrow> code_days env parse tid last_day (n + 1) day' w2))))"

definition code_start ::
  "string \<Rightarrow> date option \<Rightarrow> date \<Rightarrow> 'a pull_world_scheme \<Rightarrow> exn + date"
where
  "code_start tid since today w =
     (case since of
        Some d \<Rightarrow> Inr d
      | None \<Rightarrow> bindE (load_cursor tid SOURCE_API_CODE_ANALYTICS w) (\<lambda>cursor.
          case cursor of Some c \<Rightarrow> add_date (dt_date c) 1 | None \<Rightarrow> add_date today (- CODE_LOOKBACK_DAYS)))"

definition pull_code_analytics_for_tenant ::
  "pull_env \<Rightarrow> (json \<Rightarrow> code_record option) \<Rightarrow> string \<Rightarrow> date option \<Rightarrow> date option \<Rightarrow> 'a code_world_scheme
     \<Rightarrow> ('a code_world_scheme, int \<times> int \<times> int \<times> string) task_result"
where
  "pull_code_analytics_for_tenant env parse tid since today_arg w0 =
     (let today = (case today_arg of Some d \<Rightarrow> d | None \<Rightarrow> dt_date (pe_now env (n_tick w0)));
          w = w0\<lparr>pw_inserted := 0, pw_deduped := 0, cw_pages := 0\<rparr>
      in if tid = [] then Some (w, Inl PyValueError)
         else case add_date today (- INGEST_LAG_DAYS) of
           Inl e \<Rightarrow> Some (w, Inl e)
         | Inr last_day \<Rightarrow>
             (case code_start tid since today w of
                Inl e \<Rightarrow> Some (w, Inl e)
              | Inr day \<Rightarrow>
                  (case admin_client_for_tenant env tid w of
                     Inl e \<Rightarrow> Some (w, Inl e)
                   | Inr client \<Rightarrow>
                       after (code_days env parse tid last_day 0 day w) (\<lambda>days w.
                         Some (w, Inr (case days of
                             None \<Rightarrow> (0, 0, 0, ''no_code_analytics_access'')
                           | Some n \<Rightarrow> (pw_inserted w, pw_deduped w, n, ''ok'')))))))"

section \<open>Lemmas\<close>

text \<open>Actors of another type all have one handle, whoever they are.\<close>

lemma unknown_actors_share_id:
  assumes "ca_type (cr_actor r) = ca_type (cr_actor s)" "ca_type (cr_actor r) \<noteq> ''user_actor''"
    "ca_type (cr_actor r) \<noteq> ''api_actor''" "dt_date (cr_date r) = dt_date (cr_date s)"
  shows "code_record_id r = code_record_id s"
  using assms by (simp add: code_record_id_def actor_handle_def)

lemma append_and_meter_pages: "append_and_meter env tid a w = (w', f) \<Longrightarrow> cw_pages w' = cw_pages w"
  by (auto simp: append_and_meter_def try_append_def try_increment_def Let_def
      split: sum.splits exn.splits prod.splits if_splits)

definition code_cap :: nat where
  "code_cap = 5000"

text \<open>What dealing with the records \<open>xs\<close> in order has made of \<open>w0\<close>, whose counts are zero.\<close>

definition code_seen ::
  "pull_env \<Rightarrow> string \<Rightarrow> 'a code_world_scheme \<Rightarrow> code_record list \<Rightarrow> 'a code_world_scheme \<Rightarrow> bool"
where
  "code_seen env tid w0 xs w \<longleftrightarrow>
     logged env tid (map (normalize_code_record (sha256 (pe_chain env))) xs) w0 w
     \<and> pw_inserted w0 = 0 \<and> pw_deduped w0 = 0 \<and> cw_pages w = int (length xs div 100)"

lemma code_args_key: "args_key (normalize_code_record sha r) = (SOURCE_API_CODE_ANALYTICS, code_record_id r)"
  by (simp add: args_key_def normalize_code_record_def)

lemma code_seen_facts:
  assumes "code_seen env tid w0 xs w"
  shows "pw_inserted w + pw_deduped w = int (length xs)"
    "recorded tid sa ei w \<longleftrightarrow> recorded tid sa ei w0 \<or> sa = SOURCE_API_CODE_ANALYTICS \<and> ei \<in> code_record_id ` set xs"
proof -
  have l: "logged env tid (map (normalize_code_record (sha256 (pe_chain env))) xs) w0 w"
    using assms by (simp add: code_seen_def)
  then show "pw_inserted w + pw_deduped w = int (length xs)"
    using assms by (simp add: logged_def Let_def code_seen_def)
  show "recorded tid sa ei w \<longleftrightarrow> recorded tid sa ei w0 \<or> sa = SOURCE_API_CODE_ANALYTICS \<and> ei \<in> code_record_id ` set xs"
    using logged_known [OF l] by (auto simp: recorded_known image_image code_args_key)
qed

lemma hundred_steps:
  assumes "n < 5000"
  shows "int (Suc n) mod 100 = 0 \<Longrightarrow> int (Suc n div 100) = int (n div 100) + 1
      \<and> (50 \<le> int (n div 100) + 1 \<longleftrightarrow> 5000 \<le> Suc n)"
    and "int (Suc n) mod 100 \<noteq> 0 \<Longrightarrow> Suc n div 100 = n div 100 \<and> Suc n < 5000"
proof -
  have mod: "int (Suc n) mod 100 = int (Suc n mod 100)" by (simp only: zmod_int) simp
  have split: "Suc n = 100 * (Suc n div 100) + Suc n mod 100" by (rule mult_div_mod_eq [symmetric])
  have fifty: "Suc n = 100 * Suc q \<Longrightarrow> (50 \<le> int q + 1) = (5000 \<le> Suc n)" for q by auto
  { assume "int (Suc n) mod 100 = 0"
    then have m: "Suc n mod 100 = 0" unfolding mod by (simp only: of_nat_eq_0_iff)
    then have d: "Suc n div 100 = Suc (n div 100)" by (simp add: div_Suc)
    have "Suc n = 100 * Suc (n div 100)" using split unfolding m d by simp
    then show "int (Suc n div 100) = int (n div 100) + 1 \<and> (50 \<le> int (n div 100) + 1 \<longleftrightarrow> 5000 \<le> Suc n)"
      using fifty [of "n div 100"] unfolding d by simp }
  { assume "int (Suc n) mod 100 \<noteq> 0"
    then have m: "Suc n mod 100 \<noteq> 0" unfolding mod by (simp only: of_nat_eq_0_iff not_False_eq_True)
    moreover have "Suc n \<noteq> 5000" using m by auto
    ultimately show "Suc n div 100 = n div 100 \<and> Suc n < 5000" using assms by (simp add: div_Suc) }
qed

lemma code_step_seen:
  fixes w0 w w' :: "'a code_world_scheme"
  assumes "alone env tid" "code_seen env tid w0 xs w" "length xs < code_cap"
    and "code_step env tid r w = (w', f)" "\<not> raises f"
  shows "code_seen env tid w0 (xs @ [r]) w'" "f = (if code_cap \<le> Suc (length xs) then Break else Go)"
proof -
  let ?norm = "normalize_code_record (sha256 (pe_chain env))"
  obtain w1 g where w1: "append_and_meter env tid (?norm r) w = (w1, g)" by (cases "append_and_meter env tid (?norm r) w")
  have g: "\<not> raises g" using assms(4,5) by (cases g) (auto simp: code_step_def w1)
  note ex = append_and_meter_exact [OF assms(1) w1 g]
  have zero: "pw_inserted w0 = 0" "pw_deduped w0 = 0" and pages: "cw_pages w1 = int (length xs div 100)"
    and log0: "logged env tid (map ?norm xs) w0 w"
    using append_and_meter_pages [OF w1] assms(2) by (simp_all add: code_seen_def)
  have log: "logged env tid (map ?norm (xs @ [r])) w0 w1"
    using logged_append [OF log0 append_and_meter_logged [OF assms(1) w1 g]] by simp
  have tot: "pw_inserted w1 + pw_deduped w1 = int (Suc (length xs))"
    using ex(3) code_seen_facts(1) [OF assms(2)] by simp
  have len: "length xs < 5000" using assms(3) by (simp add: code_cap_def)
  have "code_seen env tid w0 (xs @ [r]) w' \<and> f = (if code_cap \<le> Suc (length xs) then Break else Go)"
  proof (cases "int (Suc (length xs)) mod 100 = 0")
    case True
    then have w': "w' = w1\<lparr>cw_pages := cw_pages w1 + 1\<rparr>" "f = (if 50 \<le> cw_pages w1 + 1 then Break else Go)"
      using assms(4) tot ex(1) by (auto simp: code_step_def w1 CODE_PER_PAGE_LIMIT_def CODE_MAX_PAGES_def)
    have "logged env tid [] w1 w'" by (rule logged_Nil) (simp_all add: w')
    from logged_append [OF log this] have "logged env tid (map ?norm (xs @ [r])) w0 w'" by simp
    with hundred_steps(1) [OF len True] pages zero w' show ?thesis by (simp add: code_seen_def code_cap_def)
  next
    case False
    then have "w' = w1" "f = Go"
      using assms(4) tot ex(1) by (auto simp: code_step_def w1 CODE_PER_PAGE_LIMIT_def CODE_MAX_PAGES_def)
    with hundred_steps(2) [OF len False] pages zero log show ?thesis by (simp add: code_seen_def code_cap_def)
  qed
  then show "code_seen env tid w0 (xs @ [r]) w'" "f = (if code_cap \<le> Suc (length xs) then Break else Go)" by simp_all
qed

text \<open>A step that leaves the table, the meter and the counts alone changes nothing of this.\<close>

lemma code_seen_same:
  assumes "pw_records w' = pw_records w" "pw_meter w' = pw_meter w" "pw_inserted w' = pw_inserted w"
    "pw_deduped w' = pw_deduped w" "cw_pages w' = cw_pages w"
  shows "code_seen env tid w0 xs w' = code_seen env tid w0 xs w"
  using assms by (simp add: code_seen_def logged_def)

lemma code_seen_tick: "code_seen env tid w0 xs (http_tick w) = code_seen env tid w0 xs w"
  by (rule code_seen_same) (simp_all add: http_tick_def)

interpretation code: capped_sink "code_step env tid" http_tick
  "\<lambda>xs w. alone env tid \<and> code_seen env tid w0 xs w" code_cap
  for env tid and w0 :: "'a code_world_scheme"
proof (unfold_locales, goal_cases)
  case (1 xs s m s' f)
  from code_step_seen [OF 1(1) [THEN conjunct1] 1(1) [THEN conjunct2] 1(2-4)] 1(1) show ?case by simp
qed (simp add: code_seen_tick)

text \<open>The listing of one day.\<close>

definition day_params :: "date \<Rightarrow> json option \<Rightarrow> params" where
  "day_params d c = page_params (code_params d (Some CODE_PER_PAGE_LIMIT)) c"

definition lists_day :: "(json \<Rightarrow> code_record option) \<Rightarrow> (params \<Rightarrow> json) \<Rightarrow> date \<Rightarrow> code_record list \<Rightarrow> bool" where
  "lists_day parse book d rs \<longleftrightarrow>
     (\<exists>rss. page_run next_page (\<lambda>c. book (day_params d c)) None rss \<and> map parse (concat rss) = map Some rs)"

definition code_path :: string where
  "code_path = ''/v1/organizations/usage_report/claude_code''"

lemma list_code_visit:
  fixes w :: "'a code_world_scheme"
  assumes "serves (pe_http env) code_path book"
    and "page_run next_page (\<lambda>c. book (day_params d c)) None rss"
  shows "list_code_analytics (pe_http env) parse d (Some CODE_PER_PAGE_LIMIT) (code_step env tid) w
     = Some (visit http_tick (validated parse (code_step env tid)) rss w)"
  unfolding list_code_analytics_def paginate_def day_params_def [symmetric] code_path_def [symmetric]
  by (subst pages_visit [OF assms(2)]) (simp_all add: http_get_serves [OF assms(1)] http_tick_def)

lemma parsed_rows:
  assumes "map parse rows = map Some rs"
  shows "\<exists>act. (\<forall>r \<in> set rows. parse r = Some (act r)) \<and> map act rows = rs"
proof (intro exI [of _ "\<lambda>r. the (parse r)"] conjI ballI)
  show "map (\<lambda>r. the (parse r)) rows = rs" using arg_cong [OF assms, of "map the"] by (simp add: comp_def)
  fix r assume "r \<in> set rows"
  then have "parse r \<in> set (map parse rows)" by simp
  then show "parse r = Some (the (parse r))" unfolding assms by auto
qed

lemma listed_day_seen:
  fixes w0 w w' :: "'a code_world_scheme"
  assumes "alone env tid" "serves (pe_http env) code_path book" "lists_day parse book d rs"
    and "code_seen env tid w0 xs w" "length xs < code_cap"
    and "list_code_analytics (pe_http env) parse d (Some CODE_PER_PAGE_LIMIT) (code_step env tid) w = Some (w', f)" "\<not> raises f"
  shows "code_seen env tid w0 (take code_cap (xs @ rs)) w'"
proof -
  obtain rss where rss: "page_run next_page (\<lambda>c. book (day_params d c)) None rss" "map parse (concat rss) = map Some rs"
    using assms(3) by (auto simp: lists_day_def)
  obtain act where act: "\<And>r. r \<in> set (concat rss) \<Longrightarrow> parse r = Some (act r)" "map act (concat rss) = rs"
    using parsed_rows [OF rss(2)] by blast
  have "visit http_tick (validated parse (code_step env tid)) rss w = (w', f)"
    using assms(6) by (simp only: list_code_visit [OF assms(2) rss(1)] option.inject)
  from code.visit_seen [OF act(1) conjI [OF assms(1,4)] assms(5) this assms(7)] act(2) assms(5)
  show ?thesis by (simp only: take_append) simp
qed

lemma add_date_Inr:
  "add_date d n = Inr e \<Longrightarrow> e = add_days d n \<and> 1 \<le> d_year e \<and> d_year e \<le> 9999"
  by (auto simp: add_date_def Let_def split: if_splits)

lemma add_date_one: "add_date d 1 = Inr e \<Longrightarrow> e = next_day d"
  using add_date_Inr [of d 1 e] by (simp add: add_days_def)

primrec days_from :: "date \<Rightarrow> nat \<Rightarrow> date list" where
  "days_from d 0 = []"
| "days_from d (Suc n) = d # days_from (next_day d) n"

lemma days_from_split: "days_from d (m + n) = days_from d m @ days_from (add_days d (int m)) n"
proof (induction m arbitrary: d)
  case (Suc m)
  have "add_days (next_day d) (int m) = add_days d (int (Suc m))"
    by (simp add: add_days_def nat_add_distrib funpow_swap1)
  with Suc show ?case by simp
qed (simp add: add_days_def)

lemma code_seen_save:
  "save_cursor env tid sa t w = (w', f) \<Longrightarrow> code_seen env tid w0 xs w' = code_seen env tid w0 xs w"
  by (rule code_seen_same) (auto simp: save_cursor_def split: if_splits)

text \<open>
  The walk over the \<open>m\<close> days that are left: the records dealt with are the first 5000 of all the days
  together, and the cursor is the last day, or an earlier one at which the 5000 were reached.
\<close>

definition walked ::
  "string \<Rightarrow> (date \<Rightarrow> code_record list) \<Rightarrow> code_record list \<Rightarrow> date \<Rightarrow> nat \<Rightarrow> nat \<Rightarrow> 'a pull_world_scheme \<Rightarrow> bool"
where
  "walked tid rs xs day m j w \<longleftrightarrow>
     load_cursor tid SOURCE_API_CODE_ANALYTICS w = Inr (Some (utc_midnight (add_days day (int j))))
     \<and> j < m \<and> length (xs @ concat (map rs (days_from day j))) < code_cap
     \<and> (j + 1 = m \<or> code_cap \<le> length (xs @ concat (map rs (days_from day (j + 1)))))"

lemma walked_step:
  assumes "walked tid rs (xs @ rs day) (next_day day) m j w" "length xs < code_cap"
  shows "walked tid rs xs day (Suc m) (Suc j) w"
proof -
  have "add_days (next_day day) (int j) = add_days day (int (Suc j))"
    by (simp add: add_days_def nat_add_distrib funpow_swap1)
  with assms show ?thesis by (simp add: walked_def)
qed

lemma code_days_stop:
  assumes "code_days env parse tid last_day n day w = Some (w', Inr (Some k))"
    and "\<not> day \<le> last_day \<or> 50 \<le> cw_pages w"
  shows "w' = w \<and> k = n"
  using assms
  by (subst (asm) code_days.simps) (auto simp: CODE_MAX_PAGES_def split: if_splits sum.splits)

lemma code_days_turn:
  fixes w w' :: "'a code_world_scheme"
  assumes "code_days env parse tid last_day n day w = Some (w', Inr (Some k))"
    and "day \<le> last_day" "\<not> 50 \<le> cw_pages w"
  obtains w1 f w2 where
    "list_code_analytics (pe_http env) parse day (Some CODE_PER_PAGE_LIMIT) (code_step env tid) w = Some (w1, f)"
    "\<not> raises f" "save_cursor env tid SOURCE_API_CODE_ANALYTICS (utc_midnight day) w1 = (w2, Go)"
    "code_days env parse tid last_day (n + 1) (next_day day) w2 = Some (w', Inr (Some k))"
    "add_date day 1 = Inr (next_day day)"
proof -
  note st = assms(1) [unfolded code_days.simps [of env parse tid last_day n day w]]
  obtain w1 f where l: "list_code_analytics (pe_http env) parse day (Some CODE_PER_PAGE_LIMIT) (code_step env tid) w = Some (w1, f)"
    using st assms(2,3) by (auto simp: CODE_MAX_PAGES_def split: option.splits)
  have f: "\<not> raises f"
    using st assms(2,3) l by (cases f) (auto simp: CODE_MAX_PAGES_def split: exn.splits)
  obtain w2 g where g: "save_cursor env tid SOURCE_API_CODE_ANALYTICS (utc_midnight day) w1 = (w2, g)"
    by (cases "save_cursor env tid SOURCE_API_CODE_ANALYTICS (utc_midnight day) w1")
  have rest: "(case g of Raise e \<Rightarrow> Some (w2, Inl e) | _ \<Rightarrow>
      (case add_date day 1 of Inl e \<Rightarrow> Some (w2, Inl e)
        | Inr day' \<Rightarrow> code_days env parse tid last_day (n + 1) day' w2)) = Some (w', Inr (Some k))"
    using st assms(2,3) l g f by (cases f; cases g) (simp_all add: CODE_MAX_PAGES_def)
  have "g = Go" using rest save_cursor_flow [OF g] by auto
  moreover obtain e where e: "add_date day 1 = Inr e" using rest \<open>g = Go\<close> by (auto split: sum.splits)
  ultimately show thesis using that [OF l f] g rest add_date_one [OF e] by auto
qed

lemma code_walk:
  fixes w0 w w' :: "'a code_world_scheme"
  assumes "alone env tid" "serves (pe_http env) code_path book" "valid_date last_day"
    and "\<And>d. d \<in> set (days_from day m) \<Longrightarrow> lists_day parse book d (rs d)"
    and "code_seen env tid w0 xs w" "length xs < code_cap"
    and "code_days env parse tid last_day n day w = Some (w', Inr (Some k))"
    and "valid_date day" "1 \<le> d_year day" "toordinal last_day + 1 = toordinal day + int m"
  shows "code_seen env tid w0 (take code_cap (xs @ concat (map rs (days_from day m)))) w'
    \<and> (m = 0 \<longrightarrow> w' = w \<and> k = n) \<and> (0 < m \<longrightarrow> (\<exists>j. walked tid rs xs day m j w' \<and> k = n + int j + 1))"
  using assms(4-)
proof (induction m arbitrary: day xs w n)
  case 0
  then have "\<not> day \<le> last_day" using toordinal_less_iff [OF assms(3), of day] by simp
  with code_days_stop [OF 0(4)] 0 show ?case by simp
next
  case (Suc m)
  have le: "day \<le> last_day" using Suc.prems(5,7) toordinal_less_iff [OF assms(3), of day] by (simp add: not_less [symmetric])
  have pages: "\<not> 50 \<le> cw_pages w" using Suc.prems(2,3) by (simp add: code_seen_def code_cap_def)
  obtain w1 f w2 where t:
    "list_code_analytics (pe_http env) parse day (Some CODE_PER_PAGE_LIMIT) (code_step env tid) w = Some (w1, f)"
    "\<not> raises f" "save_cursor env tid SOURCE_API_CODE_ANALYTICS (utc_midnight day) w1 = (w2, Go)"
    "code_days env parse tid last_day (n + 1) (next_day day) w2 = Some (w', Inr (Some k))"
    "add_date day 1 = Inr (next_day day)"
    by (rule code_days_turn [OF Suc.prems(4) le pages])
  have "lists_day parse book day (rs day)" using Suc.prems(1) by simp
  from listed_day_seen [OF assms(1,2) this Suc.prems(2,3) t(1,2)]
  have seen: "code_seen env tid w0 (take code_cap (xs @ rs day)) w2" by (simp add: code_seen_save [OF t(3)])
  have "d_year day \<le> 9999" using add_date_Inr [OF t(5)] next_day_year [of day] by linarith
  then have py: "py_datetime (utc_midnight day)"
    using Suc.prems(5,6) by (simp add: py_datetime_def valid_utc_midnight) (simp add: utc_midnight_def)
  have cursor: "load_cursor tid SOURCE_API_CODE_ANALYTICS w2 = Inr (Some (utc_midnight (add_days day (int 0))))"
    using load_save_cursor [OF py t(3)] by (simp add: add_days_def)
  show ?case
  proof (cases "code_cap \<le> length (xs @ rs day)")
    case True
    then have "50 \<le> cw_pages w2" using seen by (simp add: code_seen_def code_cap_def)
    from code_days_stop [OF t(4)] this have stop: "w' = w2" "k = n + 1" by auto
    have "walked tid rs xs day (Suc m) 0 w'"
      using cursor True Suc.prems(3) by (simp add: walked_def stop(1))
    with True seen stop show ?thesis by (auto intro!: exI [of _ 0])
  next
    case False
    then have seen': "code_seen env tid w0 (xs @ rs day) w2" using seen by simp
    have ord: "toordinal last_day + 1 = toordinal (next_day day) + int m"
      using Suc.prems(5,7) by (simp add: toordinal_next_day)
    have year: "1 \<le> d_year (next_day day)" using Suc.prems(6) next_day_year [of day] by simp
    note ih = Suc.IH [OF _ seen' _ t(4) valid_next_day [OF Suc.prems(5)] year ord]
    have ih: "code_seen env tid w0 (take code_cap ((xs @ rs day) @ concat (map rs (days_from (next_day day) m)))) w'"
      "m = 0 \<Longrightarrow> w' = w2 \<and> k = n + 1"
      "0 < m \<Longrightarrow> \<exists>j. walked tid rs (xs @ rs day) (next_day day) m j w' \<and> k = n + 1 + int j + 1"
      using ih Suc.prems(1) False by auto
    show ?thesis
    proof (cases "m = 0")
      case True
      then have "walked tid rs xs day (Suc m) 0 w'"
        using cursor ih(2) Suc.prems(3) by (simp add: walked_def)
      with ih(1) ih(2) True show ?thesis by (auto intro!: exI [of _ 0])
    next
      case False
      then obtain j where "walked tid rs (xs @ rs day) (next_day day) m j w'" "k = n + 1 + int j + 1" using ih(3) by auto
      with walked_step [OF this(1) Suc.prems(3)] ih(1) show ?thesis by (auto intro!: exI [of _ "Suc j"])
    qed
  qed
qed

text \<open>
  What the pull needs from its surroundings to run through: the endpoint lists the days, Redis is up, no
  one else appends for the tenant, and the table takes the records.
\<close>

definition code_served ::
  "pull_env \<Rightarrow> (json \<Rightarrow> code_record option) \<Rightarrow> string \<Rightarrow> (params \<Rightarrow> json) \<Rightarrow> (date \<Rightarrow> code_record list) \<Rightarrow> date list \<Rightarrow> bool"
where
  "code_served env parse tid book rs ds \<longleftrightarrow>
     package_contract (pe_chain env) \<and> alone env tid \<and> (\<forall>t. pe_redis env t) \<and> FIELD_DELIM \<notin> set tid
     \<and> length tid \<le> 64 \<and> serves (pe_http env) code_path book
     \<and> (\<forall>d \<in> set ds. lists_day parse book d (rs d)
          \<and> (\<forall>r \<in> set (rs d). appendable tid (normalize_code_record (sha256 (pe_chain env)) r)))"

lemma code_step_quiet:
  fixes w :: "'a code_world_scheme"
  assumes "code_served env parse tid book rs ds" "d \<in> set ds" "r \<in> set (rs d)"
  shows "\<not> raises (snd (code_step env tid r w))"
proof -
  let ?args = "normalize_code_record (sha256 (pe_chain env)) r"
  have "snd (append_and_meter env tid ?args w) = Go"
    using assms by (intro append_and_meter_goes) (auto simp: code_served_def normalize_code_record_def FIELD_DELIM_def)
  then obtain w1 where "append_and_meter env tid ?args w = (w1, Go)" by (cases "append_and_meter env tid ?args w") auto
  then show ?thesis by (simp add: code_step_def)
qed

lemma served_day_runs:
  fixes w :: "'a code_world_scheme"
  assumes "code_served env parse tid book rs ds" "d \<in> set ds"
  obtains w1 f where
    "list_code_analytics (pe_http env) parse d (Some CODE_PER_PAGE_LIMIT) (code_step env tid) w = Some (w1, f)"
    "\<not> raises f"
proof -
  have "lists_day parse book d (rs d)" "serves (pe_http env) code_path book"
    using assms by (simp_all add: code_served_def)
  then obtain rss where rss: "page_run next_page (\<lambda>c. book (day_params d c)) None rss"
    "map parse (concat rss) = map Some (rs d)" "serves (pe_http env) code_path book"
    by (auto simp: lists_day_def)
  have "\<not> raises (snd (validated parse (code_step env tid) r s))" if "r \<in> set (concat rss)"
    for r and s :: "'a code_world_scheme"
  proof -
    obtain act where act: "\<forall>r \<in> set (concat rss). parse r = Some (act r)" "map act (concat rss) = rs d"
      using parsed_rows [OF rss(2)] by blast
    have "act r \<in> set (map act (concat rss))" unfolding set_map using that by (rule imageI)
    then have "act r \<in> set (rs d)" unfolding act(2) .
    moreover have "parse r = Some (act r)" using act(1) that by blast
    ultimately show ?thesis using code_step_quiet [OF assms] by (simp add: validated_def)
  qed
  then have quiet: "\<not> raises (snd (visit http_tick (validated parse (code_step env tid)) rss w))" by (rule visit_quiet)
  obtain w1 f where v: "visit http_tick (validated parse (code_step env tid)) rss w = (w1, f)"
    by (cases "visit http_tick (validated parse (code_step env tid)) rss w")
  show thesis
  proof (rule that)
    show "list_code_analytics (pe_http env) parse d (Some CODE_PER_PAGE_LIMIT) (code_step env tid) w = Some (w1, f)"
      by (simp only: list_code_visit [OF rss(3,1)] v)
    show "\<not> raises f" using quiet by (simp add: v)
  qed
qed

lemma code_days_runs:
  fixes w :: "'a code_world_scheme"
  assumes "code_served env parse tid book rs (days_from day m)" "valid_date last_day" "valid_date day"
    and "2 \<le> d_year day" "d_year (add_days day (int m)) \<le> 9999" "toordinal last_day + 1 = toordinal day + int m"
  shows "\<exists>w' k. code_days env parse tid last_day n day w = Some (w', Inr (Some k))"
  using assms
proof (induction m arbitrary: day w n)
  case 0
  then have "\<not> day \<le> last_day" using toordinal_less_iff [of last_day day] by simp
  then show ?case by (subst code_days.simps) simp
next
  case (Suc m)
  show ?case
  proof (cases "CODE_MAX_PAGES \<le> cw_pages w")
    case True
    have "add_date day (- 1) = Inr (add_days day (- 1))"
      using add_days_earlier [of "- 1" day] Suc.prems(4) add_days_later(2) [of "int (Suc m)" day] Suc.prems(5)
      by (simp add: add_date_def Let_def)
    with True show ?thesis by (subst code_days.simps) (simp split: sum.split)
  next
    case False
    have le: "day \<le> last_day" using Suc.prems(3,6) toordinal_less_iff [OF assms(2), of day] by (simp add: not_less [symmetric])
    have shift: "add_days (next_day day) (int m) = add_days day (int (Suc m))"
      by (simp add: add_days_def nat_add_distrib funpow_swap1)
    obtain w1 f where l: "list_code_analytics (pe_http env) parse day (Some CODE_PER_PAGE_LIMIT) (code_step env tid) w = Some (w1, f)"
      "\<not> raises f" by (rule served_day_runs [OF Suc.prems(1), of day]) simp
    obtain w2 where s: "save_cursor env tid SOURCE_API_CODE_ANALYTICS (utc_midnight day) w1 = (w2, Go)"
      using Suc.prems(1) by (auto simp: save_cursor_def code_served_def SOURCE_API_CODE_ANALYTICS_def)
    have "d_year (next_day day) \<le> d_year (add_days (next_day day) (int m))" by (rule add_days_later) simp
    then have a: "add_date day 1 = Inr (next_day day)"
      using Suc.prems(4,5) next_day_year [of day] by (simp add: add_date_def Let_def shift) (simp add: add_days_def)
    have "code_served env parse tid book rs (days_from (next_day day) m)"
      using Suc.prems(1) by (simp add: code_served_def)
    from Suc.IH [OF this Suc.prems(2) valid_next_day [OF Suc.prems(3)], of "n + 1" w2]
    obtain w' k where "code_days env parse tid last_day (n + 1) (next_day day) w2 = Some (w', Inr (Some k))"
      using Suc.prems(3-6) next_day_year [of day] by (auto simp: shift toordinal_next_day)
    with le False l s a show ?thesis by (subst code_days.simps) (cases f; simp)
  qed
qed

lemma code_pull_run:
  fixes w :: "'a code_world_scheme"
  assumes "code_served env parse tid book rs (days_from day m)"
    and "admin_client_for_tenant env tid w = Inr key" "dt_date (pe_now env (n_tick w)) = today"
    and "code_start tid None today w = Inr day" "today = add_days day (int m)"
    and "valid_date day" "2 \<le> d_year day" "d_year today \<le> 9999"
  obtains w' k where "pull_code_analytics_for_tenant env parse tid None None w
      = Some (w', Inr (pw_inserted w', pw_deduped w', k, ''ok''))"
    "code_seen env tid (w\<lparr>pw_inserted := 0, pw_deduped := 0, cw_pages := 0\<rparr>)
       (take code_cap (concat (map rs (days_from day m)))) w'"
    "m = 0 \<Longrightarrow> k = 0" "0 < m \<Longrightarrow> \<exists>j. walked tid rs [] day m j w' \<and> k = int j + 1"
proof -
  let ?w = "w\<lparr>pw_inserted := 0, pw_deduped := 0, cw_pages := 0\<rparr>" and ?last = "add_days today (- 1)"
  have today: "valid_date today" "2 \<le> d_year today"
    using add_days_later(2) [of "int m" day] assms(5-7) by simp_all
  have last: "add_date today (- INGEST_LAG_DAYS) = Inr ?last"
    using add_days_earlier [of "- 1" today] today assms(8) by (simp add: add_date_def Let_def INGEST_LAG_DAYS_def)
  have ord: "toordinal ?last + 1 = toordinal day + int m" "valid_date ?last"
    using today assms(5,6) by simp_all
  have tid: "tid \<noteq> []" using assms(2) by (auto simp: admin_client_for_tenant_def client_for_tenant_def)
  have same: "admin_client_for_tenant env tid ?w = admin_client_for_tenant env tid w"
    "code_start tid None today ?w = code_start tid None today w" "n_tick ?w = n_tick w"
    by (simp_all add: admin_client_for_tenant_def client_for_tenant_def code_start_def load_cursor_def)
  obtain w' k where run: "code_days env parse tid ?last 0 day ?w = Some (w', Inr (Some k))"
    using code_days_runs [OF assms(1) ord(2) assms(6,7) _ ord(1)] assms(5,8) by blast
  have served: "alone env tid" "serves (pe_http env) code_path book"
    "\<And>d. d \<in> set (days_from day m) \<Longrightarrow> lists_day parse book d (rs d)"
    using assms(1) by (simp_all add: code_served_def)
  have seen: "code_seen env tid ?w [] ?w" by (simp add: code_seen_def logged_Nil)
  have cap: "length ([] :: code_record list) < code_cap" by (simp add: code_cap_def)
  have year: "1 \<le> d_year day" using assms(7) by simp
  note walk = code_walk [where rs = rs, OF served(1,2) ord(2) served(3) seen cap run assms(6) year ord(1)]
  have "pull_code_analytics_for_tenant env parse tid None None w
      = Some (w', Inr (pw_inserted w', pw_deduped w', k, ''ok''))"
    using tid run by (simp add: pull_code_analytics_for_tenant_def Let_def assms(2-4) last same)
  with walk that show thesis by auto
qed

text \<open>What is in the table after a pull, in terms of the records it dealt with.\<close>

lemma code_seen_recorded:
  "code_seen env tid w0 xs w \<Longrightarrow> r \<in> set xs \<Longrightarrow> recorded tid SOURCE_API_CODE_ANALYTICS (code_record_id r) w"
  by (simp add: code_seen_facts(2))

text \<open>The row that stands for a record of the report.\<close>

definition code_row :: "chain_env \<Rightarrow> string \<Rightarrow> code_record \<Rightarrow> telemetry_row \<Rightarrow> bool" where
  "code_row env tid r x \<longleftrightarrow>
     tr_tenant_id x = tid \<and> tr_source_api x = ''code_analytics'' \<and> tr_record_type x = ''code_analytics''
     \<and> tr_external_id x = code_record_id r \<and> tr_occurred_at x = timestamptz env (cr_date r)
     \<and> tr_record_metadata x = jsonb env (cr_dump r) \<and> tr_content_hash x = sha256 env (utf8_encode (dumps (cr_dump r)))
     \<and> tr_subject_user_id x = None \<and> tr_content_ref x = None \<and> tr_content_size_bytes x = None"

lemma carries_code: "carries env tid (normalize_code_record (sha256 env) r) x \<longleftrightarrow> code_row env tid r x"
  by (auto simp: carries_def normalize_code_record_def code_row_def SOURCE_API_CODE_ANALYTICS_def)

lemma code_seen_rows:
  assumes "code_seen env tid w0 xs w"
  defines "new \<equiv> fresh_by code_record_id {ei. recorded tid SOURCE_API_CODE_ANALYTICS ei w0} xs"
  shows "\<exists>ys. pw_records w = pw_records w0 @ ys \<and> list_all2 (code_row (pe_chain env) tid) new (rows_of tid ys)"
    "pw_inserted w = int (length new)"
proof -
  let ?norm = "normalize_code_record (sha256 (pe_chain env))"
  have "fresh_by (\<lambda>r. (SOURCE_API_CODE_ANALYTICS, code_record_id r)) K xs
      = fresh_by code_record_id {ei. (SOURCE_API_CODE_ANALYTICS, ei) \<in> K} xs" for K
    by (induction xs arbitrary: K) (auto intro!: arg_cong [where f = "\<lambda>K. fresh_by code_record_id K _"])
  then have "fresh_by args_key (known tid w0) (map ?norm xs) = map ?norm new"
    by (simp add: fresh_by_map code_args_key new_def recorded_known)
  then show "\<exists>ys. pw_records w = pw_records w0 @ ys \<and> list_all2 (code_row (pe_chain env) tid) new (rows_of tid ys)"
    "pw_inserted w = int (length new)"
    using assms(1) by (auto simp: code_seen_def logged_def Let_def list_all2_map1 carries_code)
qed

section \<open>A sample report\<close>

definition sample_code_env :: "json list \<Rightarrow> pull_env" where
  "sample_code_env rows = (sample_pull_env [] (\<lambda>t. True))\<lparr>pe_http :=
     \<lparr>he_send = \<lambda>t rq. Answer 200 None [] (Some (JObj [(''data'', JList rows)])), he_wait_exponential = int\<rparr>\<rparr>"

definition sample_code :: "json \<Rightarrow> code_record" where
  "sample_code j =
     \<lparr>cr_date = utc_midnight (Date 2026 5 10),
      cr_actor = \<lparr>ca_type = ''user_actor'', ca_email_address = Some (case j of JInt n \<Rightarrow> int_str n | _ \<Rightarrow> []),
                  ca_api_key_name = None\<rparr>, cr_dump = j\<rparr>"

definition sample_code_world :: "vault \<Rightarrow> code_world" where
  "sample_code_world v = pull_world.extend (sample_world v) (code_world.fields 0)"

lemma sample_code_world_simps [simp]:
  "n_tick (sample_code_world v) = 0" "pw_records (sample_code_world v) = []"
  "pw_pull_state (sample_code_world v) = Map.empty" "pw_vault (sample_code_world v) = v"
  by (simp_all add: sample_code_world_def sample_world_def pull_world.defs code_world.defs net.defs)

lemma sample_code_env_simps [simp]:
  "pe_chain (sample_code_env rows) = sample_env" "pe_crypto (sample_code_env rows) = sample_crypto"
  "pe_now (sample_code_env rows) t = sample_time" "pe_redis (sample_code_env rows) t"
  "alone (sample_code_env rows) tid"
  by (simp_all add: sample_code_env_def alone_def)

lemma sample_code_id:
  "code_record_id (sample_code (JInt (int n))) = ''code_analytics:2026-05-10:'' @ (nat_str n)"
proof -
  have day: "isodate (Date 2026 5 10) = ''2026-05-10''" by code_simp
  show ?thesis
    by (simp add: code_record_id_def sample_code_def actor_handle_def filled_def int_str_def utc_midnight_def day)
qed

lemma sample_code_served:
  assumes "\<And>r. r \<in> set rows \<Longrightarrow> \<exists>n. r = JInt (int n) \<and> n < 10000"
  shows "code_served (sample_code_env rows) (\<lambda>j. Some (sample_code j)) ''t1'' (\<lambda>ps. JObj [(''data'', JList rows)])
     (\<lambda>d. map sample_code rows) ds"
proof -
  have "lists_day (\<lambda>j. Some (sample_code j)) (\<lambda>ps. JObj [(''data'', JList rows)]) d (map sample_code rows)" for d
    unfolding lists_day_def by (intro exI [of _ "[rows]"] conjI sample_page_run) simp
  moreover have "appendable ''t1'' (normalize_code_record (sha256 sample_env) (sample_code r))" if r: "r \<in> set rows" for r
  proof -
    obtain n where n: "r = JInt (int n)" "n < 10000" using assms [OF r] by blast
    show ?thesis
      using length_nat_str_small [OF n(2)]
      by (simp add: appendable_def args_fit_def normalize_code_record_def opt_fits_def sample_code_id n(1) SOURCE_API_CODE_ANALYTICS_def)
  qed
  ultimately show ?thesis
    by (simp add: code_served_def FIELD_DELIM_def serves_def) (simp add: sample_code_env_def)
qed

lemma sample_code_start:
  assumes "unseal_secret sample_crypto ''t1'' ''anthropic_admin_key'' v = Inr ''hunter2''"
  shows "admin_client_for_tenant (sample_code_env rows) ''t1'' (sample_code_world v) = Inr ''hunter2''"
    "dt_date (pe_now (sample_code_env rows) (n_tick (sample_code_world v))) = Date 2026 5 17"
    "code_start ''t1'' None (Date 2026 5 17) (sample_code_world v) = Inr (Date 2026 5 10)"
    "Date 2026 5 17 = add_days (Date 2026 5 10) (int 7)"
    "valid_date (Date 2026 5 10)" "2 \<le> d_year (Date 2026 5 10)" "d_year (Date 2026 5 17) \<le> 9999"
proof -
  show "Date 2026 5 17 = add_days (Date 2026 5 10) (int 7)"
    by (simp add: add_days_def eval_nat_numeral next_day_def days_in_month_def)
  have "add_date (Date 2026 5 17) (- 7) = Inr (Date 2026 5 10)"
    by (simp add: add_date_def add_days_def eval_nat_numeral prev_day_def)
  then show "code_start ''t1'' None (Date 2026 5 17) (sample_code_world v) = Inr (Date 2026 5 10)"
    by (simp add: code_start_def load_cursor_def CODE_LOOKBACK_DAYS_def)
qed (simp_all add: assms admin_client_for_tenant_def client_for_tenant_def sample_time_def valid_date_def days_in_month_def)

section \<open>Properties\<close>



text \<open>C39: A day larger than the cap is lost in part. When the days hold 5000 records or more, the pull returns
  "ok" with the cursor on the day in which the 5000th lies, although it never dealt with the rest of that day:
  those records are not in the table unless they were before, and the next pull starts on the day after.\<close>

theorem capped_day_is_skipped:
  fixes w :: "'a code_world_scheme"
  assumes "code_served env parse tid book rs (days_from day m)"
    and "admin_client_for_tenant env tid w = Inr key" "dt_date (pe_now env (n_tick w)) = today"
    and "code_start tid None today w = Inr day" "today = add_days day (int m)"
    and "valid_date day" "2 \<le> d_year day" "d_year today \<le> 9999"
    and "code_cap \<le> length (concat (map rs (days_from day m)))"
  shows "\<exists>w' p d j. pull_code_analytics_for_tenant env parse tid None None w = Some (w', Inr (p, d, int j + 1, ''ok''))
      \<and> p + d = int code_cap \<and> j < m
      \<and> length (concat (map rs (days_from day j))) < code_cap
      \<and> code_cap \<le> length (concat (map rs (days_from day (j + 1))))
      \<and> code_start tid None any_day w' = add_date (add_days day (int j)) 1
      \<and> (\<forall>r \<in> set (drop (code_cap - length (concat (map rs (days_from day j)))) (rs (add_days day (int j)))).
            code_record_id r \<notin> code_record_id ` set (take code_cap (concat (map rs (days_from day m))))
            \<and> \<not> recorded tid SOURCE_API_CODE_ANALYTICS (code_record_id r) w
            \<longrightarrow> \<not> recorded tid SOURCE_API_CODE_ANALYTICS (code_record_id r) w')"
proof -
  obtain w' k where run: "pull_code_analytics_for_tenant env parse tid None None w
      = Some (w', Inr (pw_inserted w', pw_deduped w', k, ''ok''))"
    "code_seen env tid (w\<lparr>pw_inserted := 0, pw_deduped := 0, cw_pages := 0\<rparr>)
       (take code_cap (concat (map rs (days_from day m)))) w'"
    "0 < m \<Longrightarrow> \<exists>j. walked tid rs [] day m j w' \<and> k = int j + 1"
    by (rule code_pull_run [OF assms(1-8)]) blast
  have "0 < m" using assms(9) by (cases m) (simp_all add: code_cap_def)
  then obtain j where j: "walked tid rs [] day m j w'" "k = int j + 1" using run(3) by blast
  have tot: "pw_inserted w' + pw_deduped w' = int code_cap"
    using code_seen_facts(1) [OF run(2)] assms(9) by simp
  have walk: "j < m" "length (concat (map rs (days_from day j))) < code_cap"
    "code_cap \<le> length (concat (map rs (days_from day (j + 1))))"
    "load_cursor tid SOURCE_API_CODE_ANALYTICS w' = Inr (Some (utc_midnight (add_days day (int j))))"
    using j(1) assms(9) by (auto simp: walked_def)
  have start: "code_start tid None any_day w' = add_date (add_days day (int j)) 1"
    by (simp add: code_start_def walk(4)) (simp add: utc_midnight_def)
  have lost: "recorded tid SOURCE_API_CODE_ANALYTICS ei w' \<longleftrightarrow> recorded tid SOURCE_API_CODE_ANALYTICS ei w
      \<or> ei \<in> code_record_id ` set (take code_cap (concat (map rs (days_from day m))))" for ei
    using code_seen_facts(2) [OF run(2)] by (simp add: recorded_def)
  show ?thesis
    using run(1) walk tot start
    by (intro exI [of _ w'] exI [of _ "pw_inserted w'"] exI [of _ "pw_deduped w'"] exI [of _ j])
      (simp add: j(2) lost)
qed

lemma capped_day_is_skipped_witness:
  "\<exists>v w' p d. pull_code_analytics_for_tenant (sample_code_env sample_feed) (\<lambda>j. Some (sample_code j)) ''t1'' None None
         (sample_code_world v) = Some (w', Inr (p, d, 1, ''ok''))
     \<and> code_start ''t1'' None (Date 2026 5 18) w' = Inr (Date 2026 5 11)
     \<and> \<not> recorded ''t1'' SOURCE_API_CODE_ANALYTICS (code_record_id (sample_code (JInt 5000))) w'"
proof -
  obtain v where v: "unseal_secret sample_crypto ''t1'' ''anthropic_admin_key'' v = Inr ''hunter2''" by (rule sample_key)
  let ?rs = "\<lambda>d :: date. map sample_code sample_feed" and ?d = "Date 2026 5 10"
  have served: "code_served (sample_code_env sample_feed) (\<lambda>j. Some (sample_code j)) ''t1''
      (\<lambda>ps. JObj [(''data'', JList sample_feed)]) ?rs (days_from ?d 7)"
    by (rule sample_code_served) (auto simp: sample_feed_def)
  have more: "code_cap \<le> length (concat (map ?rs (days_from ?d (Suc n))))" for n
    by (simp add: code_cap_def sample_feed_def)
  have first: "take code_cap (concat (map ?rs (days_from ?d 7))) = map (sample_code \<circ> JInt \<circ> int) [0..<5000]"
  proof -
    have "days_from ?d 7 = ?d # days_from (next_day ?d) 6" by (simp add: numeral_eq_Suc)
    then show ?thesis by (simp add: code_cap_def sample_feed_def take_map comp_def del: upt_Suc)
  qed
  obtain w' p d j where run:
    "pull_code_analytics_for_tenant (sample_code_env sample_feed) (\<lambda>j. Some (sample_code j)) ''t1'' None None
         (sample_code_world v) = Some (w', Inr (p, d, int j + 1, ''ok''))"
    "length (concat (map ?rs (days_from ?d j))) < code_cap"
    "code_start ''t1'' None (Date 2026 5 18) w' = add_date (add_days ?d (int j)) 1"
    "\<forall>r \<in> set (drop (code_cap - length (concat (map ?rs (days_from ?d j)))) (?rs (add_days ?d (int j)))).
        code_record_id r \<notin> code_record_id ` set (take code_cap (concat (map ?rs (days_from ?d 7))))
        \<and> \<not> recorded ''t1'' SOURCE_API_CODE_ANALYTICS (code_record_id r) (sample_code_world v)
        \<longrightarrow> \<not> recorded ''t1'' SOURCE_API_CODE_ANALYTICS (code_record_id r) w'"
    using capped_day_is_skipped [OF served sample_code_start [OF v], of "Date 2026 5 18"] more [of 6] by auto
  have j: "j = 0" using run(2) more [of "j - 1"] by (cases j) auto
  have rest: "sample_code (JInt 5000) \<in> set (drop code_cap (map sample_code sample_feed))"
    unfolding sample_feed_def map_map drop_map drop_upt code_cap_def by (simp del: upt_Suc)
  have new: "code_record_id (sample_code (JInt 5000)) \<notin> code_record_id ` set (map (sample_code \<circ> JInt \<circ> int) [0..<5000])"
    using sample_code_id [of 5000] by (auto simp: sample_code_id simp del: upt_Suc)
  have "\<not> recorded ''t1'' SOURCE_API_CODE_ANALYTICS ei (sample_code_world v)" for ei
    by (simp add: recorded_def duplicate_def)
  then have "\<not> recorded ''t1'' SOURCE_API_CODE_ANALYTICS (code_record_id (sample_code (JInt 5000))) w'"
    using run(4) rest new unfolding first by (simp add: j)
  moreover have "add_date (add_days ?d (int 0)) 1 = Inr (Date 2026 5 11)"
    by (simp add: add_date_def add_days_def next_day_def days_in_month_def)
  ultimately show ?thesis using run(1,3) by (auto simp: j)
qed

end
