(* ===== verification/Aliases.thy ===== *)
theory Aliases
  imports Spend Session Budgets "HOL-Library.Multiset"
begin

text \<open>
  Which person an actor of a telemetry record is: \<^verbatim>\<open>users/aliases.py\<close>, its task
  \<^verbatim>\<open>tasks/reconcile_aliases.py\<close> and the manual mapping of \<^verbatim>\<open>api/users.py\<close>. The table \<^verbatim>\<open>user_aliases\<close> is a
  list of rows, unique in (tenant, source, identifier); its timestamps are read nowhere and left out.
  The order in which the database returns the distinct actors is a parameter (\<open>ae_order\<close>). A statement
  that fails aborts its transaction, so the task that made it leaves the table as it was.
\<close>

record alias_row =
  al_tenant_id :: string
  al_user_id :: "string option"
  al_source_api :: string
  al_source_identifier :: string
  al_auto_matched :: bool

type_synonym alias_key = "string \<times> string \<times> string"
type_synonym alias_table = "alias_row list"

definition alias_key :: "alias_row \<Rightarrow> alias_key" where
  "alias_key a = (al_tenant_id a, al_source_api a, al_source_identifier a)"

definition alias_at :: "alias_table \<Rightarrow> alias_key \<Rightarrow> alias_row option" where
  "alias_at tbl k = find (\<lambda>a. alias_key a = k) tbl"

definition alias_ok :: "alias_table \<Rightarrow> bool" where
  "alias_ok tbl \<longleftrightarrow> distinct (map alias_key tbl)"

record alias_env =
  ae_pg :: postgres
  ae_order :: "(string \<times> string) list \<Rightarrow> (string \<times> string) list"

definition alias_env_ok :: "alias_env \<Rightarrow> bool" where
  "alias_env_ok env \<longleftrightarrow> (\<forall>xs. mset (ae_order env xs) = mset xs)"

datatype alias_error = Alias_Value_Error | Alias_Data_Error

section \<open>Actors\<close>

definition SESSION_SOURCE_APIS :: "string list" where
  "SESSION_SOURCE_APIS = [''code_analytics'', ''compliance_activities'', ''mcp'', ''openai_admin_usage'']"

fun coalesce :: "'a option list \<Rightarrow> 'a option" where
  "coalesce [] = None"
| "coalesce (Some x # xs) = Some x"
| "coalesce (None # xs) = coalesce xs"

definition actor_key :: "(json \<Rightarrow> string) \<Rightarrow> json \<Rightarrow> string option" where
  "actor_key jtext metadata =
     (let actor = sub_object ''actor'' metadata
      in coalesce
        [json_field jtext ''email_address'' actor, json_field jtext ''api_key_name'' actor,
         json_field jtext ''user_id'' actor, json_field jtext ''api_key_id'' actor,
         json_field jtext ''type'' actor, json_field jtext ''user_email'' metadata,
         json_field jtext ''subject_user_id'' metadata])"

definition effective_surface :: "(json \<Rightarrow> string) \<Rightarrow> telemetry_row \<Rightarrow> string" where
  "effective_surface jtext r =
     (if tr_source_api r = ''mcp''
      then (case json_field jtext ''surface'' (tr_record_metadata r) of
              Some (c # s) \<Rightarrow> c # s
            | _ \<Rightarrow> if json_field jtext ''kind'' (tr_record_metadata r) = Some ''tool_use''
                   then ''claude_code'' else ''mcp'')
      else tr_source_api r)"

definition row_actor :: "alias_env \<Rightarrow> telemetry_row \<Rightarrow> string option" where
  "row_actor env r = actor_key (pg_jtext (ae_pg env)) (tr_record_metadata r)"

definition actor_rows :: "alias_env \<Rightarrow> string \<Rightarrow> records_table \<Rightarrow> records_table" where
  "actor_rows env tenant_id db =
     filter (\<lambda>r. tr_source_api r \<in> set SESSION_SOURCE_APIS \<and> row_actor env r \<noteq> None) (rows_of tenant_id db)"

definition actor_of :: "alias_env \<Rightarrow> telemetry_row \<Rightarrow> string \<times> string" where
  "actor_of env r = (tr_source_api r, the (row_actor env r))"

definition distinct_actors :: "alias_env \<Rightarrow> string \<Rightarrow> records_table \<Rightarrow> (string \<times> string) list" where
  "distinct_actors env tenant_id db = ae_order env (remdups (map (actor_of env) (actor_rows env tenant_id db)))"

section \<open>The reconciler\<close>

definition email_match :: "user_row list \<Rightarrow> string \<Rightarrow> string \<Rightarrow> string option" where
  "email_match users tenant_id identifier =
     (if CHR ''@'' \<in> set identifier
      then (case filter (\<lambda>u. us_email u = identifier \<and> us_tenant_id u = Some tenant_id) users of
              [u] \<Rightarrow> Some (us_id u) | _ \<Rightarrow> None)
      else None)"

text \<open>Assignment to a \<^verbatim>\<open>varchar(n)\<close> column: a longer text is an error unless only spaces are cut off.\<close>

definition varchar :: "nat \<Rightarrow> string \<Rightarrow> string option" where
  "varchar n s =
     (if length s \<le> n then Some s
      else if list_all (\<lambda>c. c = CHR '' '') (drop n s) then Some (take n s) else None)"

text \<open>The two UPSERTs. The first returns what \<^verbatim>\<open>RETURNING (xmax = 0)\<close> returns.\<close>

definition upsert_auto :: "alias_row \<Rightarrow> alias_table \<Rightarrow> alias_table \<times> bool option" where
  "upsert_auto a tbl =
     (case alias_at tbl (alias_key a) of
        None \<Rightarrow> (tbl @ [a], Some True)
      | Some old \<Rightarrow>
          if al_auto_matched old \<and> al_user_id old = None \<and> al_user_id a \<noteq> None
          then (map (\<lambda>r. if alias_key r = alias_key a then r\<lparr>al_user_id := al_user_id a\<rparr> else r) tbl, Some False)
          else (tbl, None))"

definition upsert_manual :: "alias_row \<Rightarrow> alias_table \<Rightarrow> alias_table" where
  "upsert_manual a tbl =
     (if alias_at tbl (alias_key a) = None then tbl @ [a]
      else map (\<lambda>r. if alias_key r = alias_key a
                    then r\<lparr>al_user_id := al_user_id a, al_auto_matched := al_auto_matched a\<rparr> else r) tbl)"

record reconcile_report =
  rp_distinct :: nat
  rp_inserted :: nat
  rp_linked :: nat

definition auto_row :: "user_row list \<Rightarrow> string \<Rightarrow> string \<Rightarrow> string \<Rightarrow> string \<Rightarrow> alias_row" where
  "auto_row users tenant_id source_api identifier stored =
     \<lparr>al_tenant_id = tenant_id, al_user_id = email_match users tenant_id identifier, al_source_api = source_api,
      al_source_identifier = stored, al_auto_matched = True\<rparr>"

fun reconcile_rows ::
  "user_row list \<Rightarrow> string \<Rightarrow> (string \<times> string) list \<Rightarrow> alias_table \<Rightarrow> nat \<Rightarrow> nat \<Rightarrow>
     alias_error + (alias_table \<times> nat \<times> nat)"
where
  "reconcile_rows users tenant_id [] tbl inserted linked = Inr (tbl, inserted, linked)"
| "reconcile_rows users tenant_id ((source_api, identifier) # rows) tbl inserted linked =
     (if identifier = [] then reconcile_rows users tenant_id rows tbl inserted linked
      else case varchar 320 identifier of
        None \<Rightarrow> Inl Alias_Data_Error
      | Some stored \<Rightarrow>
          (case upsert_auto (auto_row users tenant_id source_api identifier stored) tbl of
             (tbl', None) \<Rightarrow> reconcile_rows users tenant_id rows tbl' inserted linked
           | (tbl', Some True) \<Rightarrow>
               reconcile_rows users tenant_id rows tbl' (inserted + 1)
                 (if email_match users tenant_id identifier \<noteq> None then linked + 1 else linked)
           | (tbl', Some False) \<Rightarrow> reconcile_rows users tenant_id rows tbl' inserted (linked + 1)))"

definition reconcile_aliases_for_tenant ::
  "alias_env \<Rightarrow> user_row list \<Rightarrow> string \<Rightarrow> records_table \<Rightarrow> alias_table \<Rightarrow> alias_error + (alias_table \<times> reconcile_report)"
where
  "reconcile_aliases_for_tenant env users tenant_id db tbl =
     (let rows = distinct_actors env tenant_id db
      in bindE (reconcile_rows users tenant_id rows tbl 0 0) (\<lambda>(tbl', inserted, linked).
           Inr (tbl', \<lparr>rp_distinct = length rows, rp_inserted = inserted, rp_linked = linked\<rparr>)))"

definition reconcile_aliases_for_tenant_task ::
  "alias_env \<Rightarrow> user_row list \<Rightarrow> string \<Rightarrow> records_table \<Rightarrow> alias_table \<Rightarrow> alias_table \<times> (alias_error + reconcile_report)"
where
  "reconcile_aliases_for_tenant_task env users tenant_id db tbl =
     (if tenant_id = [] then (tbl, Inl Alias_Value_Error)
      else case reconcile_aliases_for_tenant env users tenant_id db tbl of
             Inl e \<Rightarrow> (tbl, Inl e)
           | Inr (tbl', report) \<Rightarrow> (tbl', Inr report))"

text \<open>The tenants queued; the task returns their number.\<close>

definition dispatch_reconcile_aliases :: "tenant_row list \<Rightarrow> string option \<Rightarrow> string list" where
  "dispatch_reconcile_aliases tenants region =
     map tn_tenant_id
       (filter (\<lambda>t. tn_active t \<and> (case region of None \<Rightarrow> True | Some r \<Rightarrow> tn_region t = r)) tenants)"

section \<open>The manual mapping\<close>

text \<open>
  \<^verbatim>\<open>POST /api/users/{id}/aliases\<close>. The body's lengths (1 to 32 and 1 to 320) are checked by pydantic; the
  two texts of the body are stored as they are. The foreign key to the user cannot fail after the read.
\<close>

definition map_user_alias ::
  "string \<Rightarrow> string \<Rightarrow> string \<Rightarrow> authenticated_user \<Rightarrow> user_row list \<Rightarrow> alias_table \<Rightarrow>
     alias_table \<times> (http_error + (string \<times> string \<times> bool))"
where
  "map_user_alias source_api source_identifier user_id admin users tbl =
     (case bindE (require_admin users admin) (\<lambda>u.
             if source_api = [] \<or> 32 < length source_api \<or> source_identifier = [] \<or> 320 < length source_identifier
             then Inl (Http 422 [])
             else case au_tenant_id u of
               None \<Rightarrow> Inl (Http 400 ''no_tenant_bound'')
             | Some t \<Rightarrow> if get_role users user_id t = None then Inl (Http 404 ''user_not_found'') else Inr t) of
        Inl e \<Rightarrow> (tbl, Inl e)
      | Inr t \<Rightarrow>
          (upsert_manual
             \<lparr>al_tenant_id = t, al_user_id = Some user_id, al_source_api = source_api,
              al_source_identifier = source_identifier, al_auto_matched = False\<rparr> tbl,
           Inr (source_api, source_identifier, False)))"

section \<open>The table under the two statements\<close>

lemma alias_at_None: "alias_at tbl k = None \<longleftrightarrow> k \<notin> alias_key ` set tbl"
  by (auto simp: alias_at_def find_None_iff)

lemma alias_at_Some: "alias_at tbl k = Some a \<Longrightarrow> a \<in> set tbl \<and> alias_key a = k"
  by (auto simp: alias_at_def find_Some_iff)

lemma alias_at_mem: "alias_ok tbl \<Longrightarrow> a \<in> set tbl \<Longrightarrow> alias_at tbl (alias_key a) = Some a"
  by (induction tbl) (auto simp: alias_at_def alias_ok_def)

lemma alias_at_append:
  "alias_at (tbl @ [a]) k =
     (case alias_at tbl k of None \<Rightarrow> if alias_key a = k then Some a else None | Some b \<Rightarrow> Some b)"
  by (induction tbl) (auto simp: alias_at_def)

lemma alias_at_map: "(\<And>a. alias_key (f a) = alias_key a) \<Longrightarrow> alias_at (map f tbl) k = map_option f (alias_at tbl k)"
  by (induction tbl) (auto simp: alias_at_def)

lemma alias_ok_append: "alias_ok (tbl @ [a]) \<longleftrightarrow> alias_ok tbl \<and> alias_at tbl (alias_key a) = None"
  by (auto simp: alias_ok_def alias_at_None)

lemma alias_ok_map: "(\<And>a. alias_key (f a) = alias_key a) \<Longrightarrow> alias_ok (map f tbl) = alias_ok tbl"
  by (simp add: alias_ok_def comp_def)

lemma alias_key_update [simp]:
  "alias_key (a\<lparr>al_user_id := u\<rparr>) = alias_key a"
  "alias_key (a\<lparr>al_user_id := u, al_auto_matched := b\<rparr>) = alias_key a"
  by (simp_all add: alias_key_def)

text \<open>What the reconciler's statement makes of a row that is already there.\<close>

definition linked_row :: "string option \<Rightarrow> alias_row \<Rightarrow> alias_row" where
  "linked_row user old = (if al_auto_matched old \<and> al_user_id old = None then old\<lparr>al_user_id := user\<rparr> else old)"

lemma linked_row_idem [simp]: "linked_row u (linked_row u r) = linked_row u r"
  by (simp add: linked_row_def)

lemma alias_key_linked_row [simp]: "alias_key (linked_row u r) = alias_key r"
  by (simp add: linked_row_def)

lemma upsert_auto_at:
  "alias_at (fst (upsert_auto a tbl)) k =
     (if k = alias_key a
      then Some (case alias_at tbl k of None \<Rightarrow> a | Some old \<Rightarrow> linked_row (al_user_id a) old)
      else alias_at tbl k)"
  by (auto simp: upsert_auto_def alias_at_append alias_at_map linked_row_def dest: alias_at_Some split: option.splits)

lemma upsert_auto_ok: "alias_ok tbl \<Longrightarrow> alias_ok (fst (upsert_auto a tbl))"
  by (auto simp: upsert_auto_def alias_ok_append alias_ok_map split: option.splits)

lemma upsert_manual_at:
  "alias_at (upsert_manual a tbl) k =
     (if k = alias_key a
      then Some (case alias_at tbl k of None \<Rightarrow> a
                 | Some old \<Rightarrow> old\<lparr>al_user_id := al_user_id a, al_auto_matched := al_auto_matched a\<rparr>)
      else alias_at tbl k)"
  by (auto simp: upsert_manual_def alias_at_append alias_at_map dest: alias_at_Some split: option.splits)

lemma upsert_manual_ok: "alias_ok tbl \<Longrightarrow> alias_ok (upsert_manual a tbl)"
  by (simp add: upsert_manual_def alias_ok_append alias_ok_map)

lemma upsert_auto_result:
  "snd (upsert_auto a tbl) =
     (case alias_at tbl (alias_key a) of None \<Rightarrow> Some True
      | Some old \<Rightarrow> if al_auto_matched old \<and> al_user_id old = None \<and> al_user_id a \<noteq> None then Some False else None)"
  "length (fst (upsert_auto a tbl)) = length tbl + (if alias_at tbl (alias_key a) = None then 1 else 0)"
  by (auto simp: upsert_auto_def split: option.split)

section \<open>What a reconciliation does\<close>

definition reconciled :: "user_row list \<Rightarrow> string \<Rightarrow> string \<times> string \<Rightarrow> alias_row option \<Rightarrow> alias_row" where
  "reconciled users tid actor old =
     (case old of None \<Rightarrow> auto_row users tid (fst actor) (snd actor) (snd actor)
      | Some r \<Rightarrow> linked_row (email_match users tid (snd actor)) r)"

definition newly_linked :: "user_row list \<Rightarrow> string \<Rightarrow> alias_table \<Rightarrow> string \<times> string \<Rightarrow> bool" where
  "newly_linked users tid tbl actor \<longleftrightarrow>
     snd actor \<noteq> [] \<and> email_match users tid (snd actor) \<noteq> None
     \<and> (case alias_at tbl (tid, actor) of None \<Rightarrow> True | Some r \<Rightarrow> al_auto_matched r \<and> al_user_id r = None)"

lemma alias_key_auto_row [simp]: "alias_key (auto_row users tid api i s) = (tid, api, s)"
  by (simp add: alias_key_def auto_row_def)

lemma al_user_auto_row [simp]: "al_user_id (auto_row users tid api i s) = email_match users tid i"
  by (simp add: auto_row_def)

definition effect_of ::
  "user_row list \<Rightarrow> string \<Rightarrow> (string \<times> string) set \<Rightarrow> alias_table \<Rightarrow> alias_table \<Rightarrow> bool"
where
  "effect_of users tid actors tbl tbl' \<longleftrightarrow>
     alias_ok tbl'
     \<and> (\<forall>k. alias_at tbl' k =
          (if fst k = tid \<and> snd k \<in> actors \<and> snd (snd k) \<noteq> [] then Some (reconciled users tid (snd k) (alias_at tbl k))
           else alias_at tbl k))"

definition news :: "string \<Rightarrow> alias_table \<Rightarrow> (string \<times> string) list \<Rightarrow> nat" where
  "news tid tbl actors = length (filter (\<lambda>actor. snd actor \<noteq> [] \<and> alias_at tbl (tid, actor) = None) actors)"

definition link_count :: "user_row list \<Rightarrow> string \<Rightarrow> alias_table \<Rightarrow> (string \<times> string) list \<Rightarrow> nat" where
  "link_count users tid tbl actors = length (filter (newly_linked users tid tbl) actors)"

lemma reconcile_rows_step:
  assumes "ident \<noteq> []" "length ident \<le> 320"
  shows "reconcile_rows users tid ((api, ident) # rows) tbl i l
    = reconcile_rows users tid rows (fst (upsert_auto (auto_row users tid api ident ident) tbl)) (i + news tid tbl [(api, ident)]) (l + link_count users tid tbl [(api, ident)])"
proof -
  obtain t b where u: "upsert_auto (auto_row users tid api ident ident) tbl = (t, b)" by fastforce
  have "b = snd (upsert_auto (auto_row users tid api ident ident) tbl)" by (simp add: u)
  then have b: "b = (case alias_at tbl (tid, api, ident) of None \<Rightarrow> Some True
      | Some old \<Rightarrow> if al_auto_matched old \<and> al_user_id old = None \<and> email_match users tid ident \<noteq> None
                     then Some False else None)"
    by (simp add: upsert_auto_result cong: option.case_cong)
  show ?thesis
    using assms by (auto simp: u b varchar_def news_def link_count_def newly_linked_def split: option.split)
qed

lemma reconcile_rows_effect:
  assumes "distinct rows" "\<forall>actor \<in> set rows. length (snd actor) \<le> 320" "alias_ok tbl"
  shows "\<exists>tbl'. (\<forall>i l. reconcile_rows users tid rows tbl i l = Inr (tbl', i + news tid tbl rows, l + link_count users tid tbl rows))
      \<and> effect_of users tid (set rows) tbl tbl'"
  using assms
proof (induction rows arbitrary: tbl)
  case Nil
  then show ?case by (simp add: effect_of_def news_def link_count_def)
next
  case (Cons actor rows)
  obtain api ident where a: "actor = (api, ident)" by (cases actor)
  show ?case
  proof (cases "ident = []")
    case True
    have "effect_of users tid (set (actor # rows)) tbl t = effect_of users tid (set rows) tbl t" for t
      using True a by (auto simp: effect_of_def)
    then show ?thesis
      using Cons True a by (simp add: news_def link_count_def newly_linked_def)
  next
    case False
    define t1 where "t1 = fst (upsert_auto (auto_row users tid api ident ident) tbl)"
    have at1: "alias_at t1 k = (if k = (tid, actor) then Some (reconciled users tid actor (alias_at tbl k)) else alias_at tbl k)" for k
      by (simp add: t1_def upsert_auto_at reconciled_def a split: option.splits)
    have ok1: "alias_ok t1" unfolding t1_def by (rule upsert_auto_ok) (rule Cons.prems(3))
    have off: "alias_at t1 (tid, x) = alias_at tbl (tid, x)" if "x \<in> set rows" for x
      using that Cons.prems(1) by (auto simp: at1)
    have same: "news tid t1 rows = news tid tbl rows" "link_count users tid t1 rows = link_count users tid tbl rows"
      using off by (auto intro!: arg_cong [where f = length] filter_cong simp: newly_linked_def news_def link_count_def)
    obtain t' where t': "\<And>i l. reconcile_rows users tid rows t1 i l = Inr (t', i + news tid tbl rows, l + link_count users tid tbl rows)"
      "effect_of users tid (set rows) t1 t'"
      using Cons.IH [OF _ _ ok1] Cons.prems same by auto
    have "reconcile_rows users tid (actor # rows) tbl i l
        = Inr (t', i + news tid tbl (actor # rows), l + link_count users tid tbl (actor # rows))" for i l
      using reconcile_rows_step [OF False, where users = users and tid = tid and api = api and tbl = tbl and rows = rows]
        Cons.prems(2) t'(1) a by (simp add: t1_def news_def link_count_def)
    moreover have "effect_of users tid (set (actor # rows)) tbl t'"
      using t'(2) Cons.prems(1) False a by (auto simp: effect_of_def at1)
    ultimately show ?thesis by blast
  qed
qed


lemma distinct_actors_facts:
  assumes "alias_env_ok env"
  shows "distinct (distinct_actors env tid db)" "set (distinct_actors env tid db) = actor_of env ` set (actor_rows env tid db)"
proof -
  have m: "mset (distinct_actors env tid db) = mset (remdups (map (actor_of env) (actor_rows env tid db)))"
    using assms by (simp add: distinct_actors_def alias_env_ok_def)
  show "distinct (distinct_actors env tid db)"
    using mset_eq_imp_distinct_iff [OF m] by simp
  show "set (distinct_actors env tid db) = actor_of env ` set (actor_rows env tid db)"
    using mset_eq_setD [OF m] by simp
qed

definition actor_settled :: "user_row list \<Rightarrow> string \<Rightarrow> alias_table \<Rightarrow> string \<times> string \<Rightarrow> bool" where
  "actor_settled users tid tbl actor \<longleftrightarrow> snd actor = [] \<or>
     (\<exists>r. alias_at tbl (tid, actor) = Some r
        \<and> (al_auto_matched r \<and> al_user_id r = None \<longrightarrow> email_match users tid (snd actor) = None))"

lemma reconcile_rows_settled:
  assumes "\<forall>actor \<in> set rows. length (snd actor) \<le> 320 \<and> actor_settled users tid tbl actor"
  shows "reconcile_rows users tid rows tbl i l = Inr (tbl, i, l)"
  using assms
proof (induction rows)
  case (Cons actor rows)
  obtain api ident where a: "actor = (api, ident)" by (cases actor)
  show ?case
  proof (cases "ident = []")
    case False
    then obtain r where "alias_at tbl (tid, api, ident) = Some r"
      "al_auto_matched r \<and> al_user_id r = None \<longrightarrow> email_match users tid ident = None"
      using Cons.prems a by (auto simp: actor_settled_def)
    then have "upsert_auto (auto_row users tid api ident ident) tbl = (tbl, None)"
      by (auto simp: upsert_auto_def)
    with Cons False a show ?thesis by (simp add: varchar_def)
  qed (use Cons a in simp)
qed simp

definition short_actors :: "alias_env \<Rightarrow> string \<Rightarrow> records_table \<Rightarrow> bool" where
  "short_actors env tid db \<longleftrightarrow> (\<forall>r \<in> set (actor_rows env tid db). length (snd (actor_of env r)) \<le> 320)"

lemma reconcile_ok:
  assumes "alias_env_ok env" "short_actors env tid db" "alias_ok tbl"
  shows "\<exists>tbl' rep. reconcile_aliases_for_tenant env users tid db tbl = Inr (tbl', rep)
      \<and> effect_of users tid (actor_of env ` set (actor_rows env tid db)) tbl tbl'
      \<and> rp_inserted rep = news tid tbl (distinct_actors env tid db)
      \<and> rp_linked rep = link_count users tid tbl (distinct_actors env tid db)
      \<and> rp_distinct rep = card (actor_of env ` set (actor_rows env tid db))"
proof -
  note d = distinct_actors_facts [OF assms(1), of tid db]
  have "\<forall>a \<in> set (distinct_actors env tid db). length (snd a) \<le> 320"
    using assms(2) by (auto simp: d(2) short_actors_def)
  from reconcile_rows_effect [OF d(1) this assms(3), of users tid]
  show ?thesis
    using distinct_card [OF d(1)] by (auto simp: reconcile_aliases_for_tenant_def d(2) Let_def)
qed

lemma email_match_unique:
  "email_match users tid i = Some u \<Longrightarrow>
     map us_id (filter (\<lambda>x. us_email x = i \<and> us_tenant_id x = Some tid) users) = [u]"
  by (auto simp: email_match_def split: if_splits list.splits)

text \<open>C29: A reconciliation over identifiers that fit the column succeeds. It changes only rows of its tenant, and
  exactly those of the actors with a non-empty identifier in the tenant's records: a missing row is added, linked
  to the single user of the same tenant whose email is the identifier (if it contains an @), an existing row gets
  that link only if it was made automatically and has none, and every other row stays as it is. The table
  keeps one row per key, and a second run on the same records inserts nothing, links nothing and changes nothing.\<close>

theorem reconcile_effect:
  assumes "alias_env_ok env" "short_actors env tid db" "alias_ok tbl"
  shows "\<exists>tbl' rep rep2. reconcile_aliases_for_tenant env users tid db tbl = Inr (tbl', rep)
      \<and> alias_ok tbl'
      \<and> (\<forall>k. alias_at tbl' k =
           (if fst k = tid \<and> snd k \<in> actor_of env ` set (actor_rows env tid db) \<and> snd (snd k) \<noteq> []
            then Some (case alias_at tbl k of
                None \<Rightarrow> \<lparr>al_tenant_id = tid, al_user_id = email_match users tid (snd (snd k)), al_source_api = fst (snd k),
                         al_source_identifier = snd (snd k), al_auto_matched = True\<rparr>
              | Some r \<Rightarrow> if al_auto_matched r \<and> al_user_id r = None
                          then r\<lparr>al_user_id := email_match users tid (snd (snd k))\<rparr> else r)
            else alias_at tbl k))
      \<and> (\<forall>k r u. alias_at tbl' k = Some r \<and> al_user_id r = Some u \<and> alias_at tbl k \<noteq> Some r
            \<longrightarrow> map us_id (filter (\<lambda>x. us_email x = snd (snd k) \<and> us_tenant_id x = Some tid) users) = [u])
      \<and> reconcile_aliases_for_tenant env users tid db tbl' = Inr (tbl', rep2) \<and> rp_inserted rep2 = 0 \<and> rp_linked rep2 = 0"
proof -
  let ?as = "actor_of env ` set (actor_rows env tid db)"
  obtain tbl' rep where r: "reconcile_aliases_for_tenant env users tid db tbl = Inr (tbl', rep)" "effect_of users tid ?as tbl tbl'"
    using reconcile_ok [OF assms] by blast
  then have ok: "alias_ok tbl'" by (simp add: effect_of_def)
  have at: "alias_at tbl' k = (if fst k = tid \<and> snd k \<in> ?as \<and> snd (snd k) \<noteq> []
      then Some (reconciled users tid (snd k) (alias_at tbl k)) else alias_at tbl k)" for k
    using r(2) unfolding effect_of_def by blast
  have links: "\<forall>k r u. alias_at tbl' k = Some r \<and> al_user_id r = Some u \<and> alias_at tbl k \<noteq> Some r
      \<longrightarrow> map us_id (filter (\<lambda>x. us_email x = snd (snd k) \<and> us_tenant_id x = Some tid) users) = [u]"
  proof (intro allI impI)
    fix k r u
    assume new: "alias_at tbl' k = Some r \<and> al_user_id r = Some u \<and> alias_at tbl k \<noteq> Some r"
    with at [of k] have "r = reconciled users tid (snd k) (alias_at tbl k)" by (auto split: if_splits)
    with new have "email_match users tid (snd (snd k)) = Some u"
      by (auto simp: reconciled_def linked_row_def split: option.splits if_splits)
    then show "map us_id (filter (\<lambda>x. us_email x = snd (snd k) \<and> us_tenant_id x = Some tid) users) = [u]"
      by (rule email_match_unique)
  qed
  have "actor_settled users tid tbl' actor" if "actor \<in> ?as" for actor
    using that by (auto simp: actor_settled_def at reconciled_def auto_row_def linked_row_def split: option.split)
  then have again: "reconcile_aliases_for_tenant env users tid db tbl'
      = Inr (tbl', \<lparr>rp_distinct = length (distinct_actors env tid db), rp_inserted = 0, rp_linked = 0\<rparr>)"
    using reconcile_rows_settled [of "distinct_actors env tid db" users tid tbl' 0 0] assms(2)
    by (auto simp: reconcile_aliases_for_tenant_def distinct_actors_facts [OF assms(1)] short_actors_def Let_def)
  show ?thesis
    using r(1) ok again at by (intro exI conjI) (rule links | assumption | rule allI | simp add: reconciled_def linked_row_def auto_row_def cong: option.case_cong)+
qed

section \<open>Manual links\<close>

text \<open>The statements that other transactions may commit at any time: a reconciler's UPSERT (with whatever match it
  read before), a manual mapping, and the deletion of a user, whose foreign key is \<^verbatim>\<open>ON DELETE SET NULL\<close>.\<close>

datatype alias_event = Reconciled alias_row | Mapped alias_row | User_Deleted string

definition set_null :: "string \<Rightarrow> alias_table \<Rightarrow> alias_table" where
  "set_null user_id tbl = map (\<lambda>r. if al_user_id r = Some user_id then r\<lparr>al_user_id := None\<rparr> else r) tbl"

primrec alias_exec :: "alias_event \<Rightarrow> alias_table \<Rightarrow> alias_table" where
  "alias_exec (Reconciled a) tbl = fst (upsert_auto a tbl)"
| "alias_exec (Mapped a) tbl = upsert_manual a tbl"
| "alias_exec (User_Deleted u) tbl = set_null u tbl"

primrec spares :: "alias_key \<Rightarrow> string \<Rightarrow> alias_event \<Rightarrow> bool" where
  "spares k u (Reconciled a) = True"
| "spares k u (Mapped a) = (alias_key a \<noteq> k)"
| "spares k u (User_Deleted v) = (v \<noteq> u)"

lemma set_null_at:
  "alias_at (set_null u tbl) k = map_option (\<lambda>r. if al_user_id r = Some u then r\<lparr>al_user_id := None\<rparr> else r) (alias_at tbl k)"
  by (simp add: set_null_def alias_at_map)

lemma manual_link_kept:
  assumes "alias_at tbl k = Some r" "\<not> al_auto_matched r" "al_user_id r = Some u" "list_all (spares k u) events"
  shows "\<exists>r'. alias_at (fold alias_exec events tbl) k = Some r' \<and> \<not> al_auto_matched r' \<and> al_user_id r' = Some u"
  using assms
proof (induction events arbitrary: tbl r)
  case (Cons e events)
  have "\<exists>r'. alias_at (alias_exec e tbl) k = Some r' \<and> \<not> al_auto_matched r' \<and> al_user_id r' = Some u"
    using Cons.prems by (cases e) (auto simp: upsert_auto_at upsert_manual_at set_null_at linked_row_def)
  with Cons.IH Cons.prems(4) show ?case by auto
qed simp

text \<open>The reconciler's run is a sequence of such statements.\<close>

lemma reconcile_rows_events:
  "reconcile_rows users tid rows tbl i l = Inr (tbl', i', l') \<Longrightarrow> \<exists>as. tbl' = fold alias_exec (map Reconciled as) tbl"
proof (induction users tid rows tbl i l rule: reconcile_rows.induct)
  case (2 users tid api ident rows tbl i l)
  show ?case
  proof (cases "ident = []")
    case False
    with 2(5) obtain s where s: "varchar 320 ident = Some s" by (auto split: option.splits)
    obtain t b where u: "upsert_auto (auto_row users tid api ident s) tbl = (t, b)" by fastforce
    have "\<exists>as. tbl' = fold alias_exec (map Reconciled as) t"
      using 2 False s u by (auto split: option.splits bool.splits)
    then obtain as where "tbl' = fold alias_exec (map Reconciled (auto_row users tid api ident s # as)) tbl"
      using u by auto
    then show ?thesis by blast
  qed (use 2 in simp)
qed (simp add: exI [of _ "[]"])

lemma map_user_alias_Inr:
  assumes "map_user_alias api ident uid admin users tbl = (tbl', Inr out)"
  obtains tid where "au_tenant_id admin = Some tid" "get_role users uid tid \<noteq> None"
    "get_role users (au_user_id admin) tid = Some ROLE_ADMIN"
    "tbl' = upsert_manual \<lparr>al_tenant_id = tid, al_user_id = Some uid, al_source_api = api,
              al_source_identifier = ident, al_auto_matched = False\<rparr> tbl"
    "out = (api, ident, False)"
  using assms by (auto simp: map_user_alias_def require_admin_def split: sum.splits option.splits if_splits)

text \<open>C30: A mapping made by hand is made only by an administrator of the tenant and only to a user of the same
  tenant, and it holds from then on: whatever reconcilers (with reads of any age), mappings of other identifiers
  and deletions of other users commit afterwards, in any order, the alias still belongs to that user and is
  still marked as manual.\<close>

theorem manual_link_survives:
  assumes "map_user_alias api ident uid admin users tbl = (tbl', Inr out)" "au_tenant_id admin = Some tid"
    "list_all (spares (tid, api, ident) uid) events"
  shows "get_role users (au_user_id admin) tid = Some ROLE_ADMIN \<and> get_role users uid tid \<noteq> None
    \<and> (\<exists>r. alias_at (fold alias_exec events tbl') (tid, api, ident) = Some r
         \<and> al_user_id r = Some uid \<and> \<not> al_auto_matched r)"
proof -
  have m: "get_role users (au_user_id admin) tid = Some ROLE_ADMIN" "get_role users uid tid \<noteq> None"
    "tbl' = upsert_manual \<lparr>al_tenant_id = tid, al_user_id = Some uid, al_source_api = api,
              al_source_identifier = ident, al_auto_matched = False\<rparr> tbl"
    using assms(2) by (auto intro: map_user_alias_Inr [OF assms(1)])
  then obtain r where "alias_at tbl' (tid, api, ident) = Some r" "\<not> al_auto_matched r" "al_user_id r = Some uid"
    by (fastforce simp: upsert_manual_at alias_key_def split: option.splits)
  from manual_link_kept [OF this assms(3)] m show ?thesis by blast
qed

definition sample_actor_row :: "string \<Rightarrow> json \<Rightarrow> telemetry_row" where
  "sample_actor_row api md =
     \<lparr>tr_tenant_id = ''t1'', tr_record_type = ''event'', tr_source_api = api, tr_external_id = ''x'',
      tr_subject_user_id = None, tr_occurred_at = utc_date 2026 5 10, tr_content_ref = None, tr_content_hash = [],
      tr_content_size_bytes = None, tr_record_metadata = md, tr_chain_seq = 1, tr_chain_prev_hash = [],
      tr_chain_self_hash = []\<rparr>"

definition sample_alias_env :: alias_env where
  "sample_alias_env = \<lparr>ae_pg = sample_postgres, ae_order = rev\<rparr>"

lemma sample_alias_env_ok: "alias_env_ok sample_alias_env"
  by (simp add: alias_env_ok_def sample_alias_env_def)

definition sample_actor_db :: records_table where
  "sample_actor_db =
     [sample_actor_row ''mcp'' (JObj [(''user_email'', JStr ''a@x'')]),
      sample_actor_row ''code_analytics'' (JObj [(''actor'', JObj [(''api_key_name'', JStr ''bot'')])]),
      sample_actor_row ''admin'' (JObj [])]"

lemma sample_actor_rows:
  "map (actor_of sample_alias_env) (actor_rows sample_alias_env ''t1'' sample_actor_db)
   = [(''mcp'', ''a@x''), (''code_analytics'', ''bot'')]"
  by (simp add: actor_rows_def rows_of_def sample_actor_db_def sample_actor_row_def actor_of_def row_actor_def actor_key_def
      sub_object_def json_field_def SESSION_SOURCE_APIS_def)

lemma sample_actor_set:
  "actor_of sample_alias_env ` set (actor_rows sample_alias_env ''t1'' sample_actor_db)
   = {(''mcp'', ''a@x''), (''code_analytics'', ''bot'')}"
  using arg_cong [OF sample_actor_rows, of set] by simp

lemma sample_email_match: "email_match sample_members ''t1'' ''a@x'' = Some ''a''"
  by (simp add: email_match_def sample_members_def)

lemma sample_short: "short_actors sample_alias_env ''t1'' sample_actor_db"
proof -
  have "\<forall>x \<in> actor_of sample_alias_env ` set (actor_rows sample_alias_env ''t1'' sample_actor_db). length (snd x) \<le> 320"
    by (simp add: sample_actor_set)
  then show ?thesis by (simp add: short_actors_def)
qed

lemma reconcile_effect_witness:
  "\<exists>tbl' rep. reconcile_aliases_for_tenant sample_alias_env sample_members ''t1'' sample_actor_db [] = Inr (tbl', rep)
     \<and> map_option al_user_id (alias_at tbl' (''t1'', ''mcp'', ''a@x'')) = Some (Some ''a'')
     \<and> map_option al_user_id (alias_at tbl' (''t1'', ''code_analytics'', ''bot'')) = Some None
     \<and> alias_at tbl' (''t1'', ''admin'', ''bot'') = None"
proof -
  have "email_match sample_members ''t1'' ''bot'' = None" by (simp add: email_match_def)
  then show ?thesis
    using reconcile_effect [OF sample_alias_env_ok sample_short, of "[]" sample_members]
    by (auto simp: sample_actor_set sample_email_match alias_ok_def alias_at_def)
qed

lemma manual_link_survives_witness:
  "\<exists>r. alias_at (fold alias_exec
        [Reconciled (auto_row sample_members ''t1'' ''mcp'' ''a@x'' ''a@x''), User_Deleted ''a'']
        (fst (map_user_alias ''mcp'' ''a@x'' ''b'' (sample_user ''a'') sample_members []))) (''t1'', ''mcp'', ''a@x'') = Some r
     \<and> al_user_id r = Some ''b'' \<and> \<not> al_auto_matched r"
proof -
  have m: "map_user_alias ''mcp'' ''a@x'' ''b'' (sample_user ''a'') sample_members []
      = (upsert_manual \<lparr>al_tenant_id = ''t1'', al_user_id = Some ''b'', al_source_api = ''mcp'',
              al_source_identifier = ''a@x'', al_auto_matched = False\<rparr> [], Inr (''mcp'', ''a@x'', False))"
    by (simp add: map_user_alias_def require_admin_def sample_user_def sample_members_def get_role_def)
  show ?thesis
    unfolding m fst_conv
    using manual_link_survives [OF m, of "''t1''" "[Reconciled (auto_row sample_members ''t1'' ''mcp'' ''a@x'' ''a@x''), User_Deleted ''a'']"]
    by (simp add: sample_user_def del: alias_exec.simps fold_simps)
qed

end
