(* ===== verification/Roster.thy ===== *)
theory Roster
  imports Aliases "HOL-Library.AList"
begin

text \<open>
  The user roster of the dashboard, \<^verbatim>\<open>GET /api/users\<close> in \<^verbatim>\<open>api/users.py\<close>: it reconciles the aliases in its own
  transaction, counts the events of every linked user, prices the two streams that carry a person, and lists
  the aliases nobody is linked to. Times are microseconds of \<^const>\<open>instant\<close>, spend is in cents. Rows that tie in
  an ORDER BY keep the order of their tables here. When a statement of the transaction fails, so does
  every later one, although the exception of the reconciler is caught.
\<close>

section \<open>The queries\<close>

definition tenant_aliases :: "string \<Rightarrow> alias_table \<Rightarrow> alias_table" where
  "tenant_aliases tenant_id tbl = filter (\<lambda>a. al_tenant_id a = tenant_id) tbl"

definition names :: "alias_env \<Rightarrow> alias_row \<Rightarrow> telemetry_row \<Rightarrow> bool" where
  "names env a r \<longleftrightarrow> al_source_api a = tr_source_api r \<and> row_actor env r = Some (al_source_identifier a)"

definition alias_events :: "alias_env \<Rightarrow> string \<Rightarrow> records_table \<Rightarrow> alias_row \<Rightarrow> records_table" where
  "alias_events env tenant_id db a = filter (names env a) (actor_rows env tenant_id db)"

definition user_events :: "alias_env \<Rightarrow> string \<Rightarrow> records_table \<Rightarrow> alias_table \<Rightarrow> string \<Rightarrow> records_table" where
  "user_events env tenant_id db tbl user_id =
     concat (map (alias_events env tenant_id db)
       (filter (\<lambda>a. al_user_id a = Some user_id) (tenant_aliases tenant_id tbl)))"

text \<open>The rows of one stream since a time, each with the user its alias is linked to.\<close>

definition spend_rows ::
  "alias_env \<Rightarrow> string \<Rightarrow> records_table \<Rightarrow> alias_table \<Rightarrow> string \<Rightarrow> int \<Rightarrow> (string \<times> telemetry_row) list"
where
  "spend_rows env tenant_id db tbl source since =
     concat (map (\<lambda>a. case al_user_id a of
         None \<Rightarrow> []
       | Some u \<Rightarrow> map (Pair u)
           (filter (\<lambda>r. names env a r \<and> tr_source_api r = source \<and> since \<le> instant (tr_occurred_at r))
             (rows_of tenant_id db)))
       (tenant_aliases tenant_id tbl))"

definition price_mcp_row :: "alias_env \<Rightarrow> telemetry_row \<Rightarrow> spend_error + int option" where
  "price_mcp_row env r =
     (let md = tr_record_metadata r
      in bindE (sql_bigint (ae_pg env) ''input_tokens_estimate'' md) (\<lambda>i.
         bindE (sql_bigint (ae_pg env) ''output_tokens_estimate'' md) (\<lambda>out.
           case json_field (pg_jtext (ae_pg env)) ''model'' md of
             None \<Rightarrow> Inr None
           | Some m \<Rightarrow>
               Inr (if m = [] then None
                    else anthropic_compute_cost_usd (Some m) (coalesce0 i) (coalesce0 out) 0 0 (tr_occurred_at r)))))"

definition price_openai_usage_row :: "telemetry_row \<Rightarrow> cost_exception + int option" where
  "price_openai_usage_row r =
     estimate_record_cost_usd ''openai_admin_usage'' (tr_record_metadata r) (as_utc (tr_occurred_at r))"

section \<open>Accumulating spend\<close>

record spend_acc =
  spend_by_user :: "string \<Rightarrow> int"
  spend_by_user_vendor :: "string \<Rightarrow> (string \<times> int) list"
  has_priceable :: "string list"

definition no_spend :: spend_acc where
  "no_spend = \<lparr>spend_by_user = (\<lambda>u. 0), spend_by_user_vendor = (\<lambda>u. []), has_priceable = []\<rparr>"

definition accumulate_spend :: "string \<Rightarrow> string \<Rightarrow> int \<Rightarrow> spend_acc \<Rightarrow> spend_acc" where
  "accumulate_spend user_id vendor cost acc =
     (let m = spend_by_user_vendor acc user_id;
          old = (case map_of m vendor of None \<Rightarrow> 0 | Some c \<Rightarrow> c)
      in \<lparr>spend_by_user = (spend_by_user acc)(user_id := spend_by_user acc user_id + cost),
          spend_by_user_vendor = (spend_by_user_vendor acc)(user_id := AList.update vendor (old + cost) m),
          has_priceable = List.insert user_id (has_priceable acc)\<rparr>)"

fun accumulate_rows ::
  "(telemetry_row \<Rightarrow> 'e + int option) \<Rightarrow> string \<Rightarrow> (string \<times> telemetry_row) list \<Rightarrow> spend_acc \<Rightarrow> 'e + spend_acc"
where
  "accumulate_rows price vendor [] acc = Inr acc"
| "accumulate_rows price vendor ((u, r) # rows) acc =
     bindE (price r) (\<lambda>cost.
       accumulate_rows price vendor rows (case cost of None \<Rightarrow> acc | Some c \<Rightarrow> accumulate_spend u vendor c acc))"

section \<open>The response\<close>

record user_stat =
  st_user_id :: string
  st_email :: string
  st_role :: string
  st_surfaces :: "string list"
  st_events_7d :: nat
  st_spend_7d_usd :: "int option"
  st_spend_7d_by_vendor :: "(string \<times> int) list"
  st_last_active :: int

record unmapped_alias =
  un_source_api :: string
  un_source_identifier :: string
  un_event_count :: nat
  un_last_seen :: "int option"

record user_list =
  ul_users :: "user_stat list"
  ul_unmapped :: "unmapped_alias list"

definition to_cents :: "int \<Rightarrow> int" where
  "to_cents amount = round_half_even amount 10000"

definition last_of :: "records_table \<Rightarrow> int" where
  "last_of rows = Max (set (map (\<lambda>r. instant (tr_occurred_at r)) rows))"

definition user_stat_of ::
  "alias_env \<Rightarrow> string \<Rightarrow> records_table \<Rightarrow> alias_table \<Rightarrow> int \<Rightarrow> spend_acc \<Rightarrow> user_row \<Rightarrow> user_stat"
where
  "user_stat_of env tenant_id db tbl since acc u =
     (let events = user_events env tenant_id db tbl (us_id u)
      in \<lparr>st_user_id = us_id u, st_email = us_email u, st_role = us_role u,
          st_surfaces = sort (remdups (map (effective_surface (pg_jtext (ae_pg env))) events)),
          st_events_7d = length (filter (\<lambda>r. since \<le> instant (tr_occurred_at r)) events),
          st_spend_7d_usd =
            (if us_id u \<in> set (has_priceable acc) then Some (to_cents (spend_by_user acc (us_id u))) else None),
          st_spend_7d_by_vendor =
            map (\<lambda>(vendor, amount). (vendor, to_cents amount)) (sort_key fst (spend_by_user_vendor acc (us_id u))),
          st_last_active = last_of events\<rparr>)"

definition unmapped_of :: "alias_env \<Rightarrow> string \<Rightarrow> records_table \<Rightarrow> alias_row \<Rightarrow> unmapped_alias" where
  "unmapped_of env tenant_id db a =
     (let events = alias_events env tenant_id db a
      in \<lparr>un_source_api = al_source_api a, un_source_identifier = al_source_identifier a,
          un_event_count = length events,
          un_last_seen = (if events = [] then None else Some (last_of events))\<rparr>)"

text \<open>The four SELECTs and the response, on the rows the transaction sees.\<close>

definition read_roster ::
  "alias_env \<Rightarrow> user_row list \<Rightarrow> string \<Rightarrow> int \<Rightarrow> records_table \<Rightarrow> alias_table \<Rightarrow> http_error + user_list"
where
  "read_roster env users tenant_id since db tbl =
     (case accumulate_rows (price_mcp_row env) (vendor_of ''mcp'')
             (spend_rows env tenant_id db tbl ''mcp'' since) no_spend of
        Inl e \<Rightarrow> Inl (Http 500 [])
      | Inr acc1 \<Rightarrow>
          (case accumulate_rows price_openai_usage_row (vendor_of ''openai_admin_usage'')
                  (spend_rows env tenant_id db tbl ''openai_admin_usage'' since) acc1 of
             Inl e \<Rightarrow> Inl (Http 500 [])
           | Inr acc \<Rightarrow>
               Inr \<lparr>ul_users =
                      sort_key (\<lambda>x. - st_last_active x)
                        (map (user_stat_of env tenant_id db tbl since acc)
                          (filter (\<lambda>u. user_events env tenant_id db tbl (us_id u) \<noteq> []) users)),
                    ul_unmapped =
                      sort_key (\<lambda>x. - int (un_event_count x))
                        (map (unmapped_of env tenant_id db)
                          (filter (\<lambda>a. al_user_id a = None) (tenant_aliases tenant_id tbl)))\<rparr>))"

definition ROLLUP_WINDOW_DAYS :: int where
  "ROLLUP_WINDOW_DAYS = 7"

definition list_users ::
  "alias_env \<Rightarrow> authenticated_user \<Rightarrow> user_row list \<Rightarrow> datetime \<Rightarrow> records_table \<Rightarrow> alias_table \<Rightarrow>
     alias_table \<times> (http_error + user_list)"
where
  "list_users env user users now db tbl =
     (case au_tenant_id user of
        None \<Rightarrow> (tbl, Inl (Http 400 ''no_tenant_bound''))
      | Some tenant_id \<Rightarrow>
          if tenant_id = [] then (tbl, Inl (Http 500 []))
          else case reconcile_aliases_for_tenant env users tenant_id db tbl of
                 Inl e \<Rightarrow> (tbl, Inl (Http 500 []))
               | Inr (tbl', report) \<Rightarrow>
                   (case read_roster env users tenant_id (instant now - ROLLUP_WINDOW_DAYS * day_us) db tbl' of
                      Inl e \<Rightarrow> (tbl, Inl e)
                    | Inr res \<Rightarrow> (tbl', Inr res)))"

section \<open>Every event is counted once\<close>

text \<open>Counting by groups.\<close>

lemma sum_groups:
  fixes w :: "'a \<Rightarrow> nat"
  assumes "distinct ks"
  shows "(\<Sum>k\<leftarrow>ks. \<Sum>x\<leftarrow>filter (\<lambda>x. g x = k) xs. w x) = (\<Sum>x\<leftarrow>filter (\<lambda>x. g x \<in> set ks) xs. w x)"
proof (induction xs)
  case Nil
  show ?case by (simp add: sum_list_0)
next
  case (Cons x xs)
  have split: "(\<Sum>y\<leftarrow>filter (\<lambda>y. g y = k) (x # xs). w y) = (if g x = k then w x else 0) + (\<Sum>y\<leftarrow>filter (\<lambda>y. g y = k) xs. w y)" for k
    by simp
  have "(\<Sum>k\<leftarrow>ks. if g x = k then w x else 0) = (if g x \<in> set ks then w x else 0)"
    using assms by (induction ks) auto
  then show ?case unfolding split sum_list_addf using Cons.IH by simp
qed

lemma count_groups:
  assumes "distinct ks"
  shows "(\<Sum>k\<leftarrow>ks. length (filter (\<lambda>x. g x = k) xs)) = length (filter (\<lambda>x. g x \<in> set ks) xs)"
  using sum_groups [OF assms, where g = g and w = "\<lambda>x. 1" and xs = xs] by (simp add: sum_list_triv)

definition event_owner :: "alias_env \<Rightarrow> string \<Rightarrow> alias_table \<Rightarrow> telemetry_row \<Rightarrow> string option option" where
  "event_owner env tid tbl r = map_option al_user_id (alias_at tbl (tid, actor_of env r))"

definition event_key :: "alias_env \<Rightarrow> string \<Rightarrow> telemetry_row \<Rightarrow> alias_key" where
  "event_key env tid r = (tid, actor_of env r)"

lemma names_iff:
  "a \<in> set (tenant_aliases tid tbl) \<Longrightarrow> r \<in> set (actor_rows env tid db) \<Longrightarrow> names env a r \<longleftrightarrow> event_key env tid r = alias_key a"
  by (auto simp: tenant_aliases_def names_def event_key_def alias_key_def actor_of_def actor_rows_def)

lemma alias_events_eq:
  "a \<in> set (tenant_aliases tid tbl) \<Longrightarrow>
     alias_events env tid db a = filter (\<lambda>r. event_key env tid r = alias_key a) (actor_rows env tid db)"
  unfolding alias_events_def by (intro filter_cong) (simp_all add: names_iff)

lemma events_of_aliases:
  assumes "alias_ok tbl"
  shows "(\<Sum>a\<leftarrow>filter P (tenant_aliases tid tbl). length (filter Q (alias_events env tid db a)))
    = length (filter (\<lambda>r. Q r \<and> (\<exists>a. alias_at tbl (event_key env tid r) = Some a \<and> P a)) (actor_rows env tid db))"
proof -
  let ?as = "filter P (tenant_aliases tid tbl)" and ?rs = "filter Q (actor_rows env tid db)"
  have d: "distinct (map alias_key ?as)"
    using assms by (auto simp: alias_ok_def tenant_aliases_def filter_filter intro: distinct_map_filter)
  have "(\<Sum>a\<leftarrow>?as. length (filter Q (alias_events env tid db a)))
      = (\<Sum>a\<leftarrow>?as. length (filter (\<lambda>r. event_key env tid r = alias_key a) ?rs))"
    by (intro arg_cong [where f = sum_list] map_cong) (auto simp: alias_events_eq filter_filter conj_commute)
  also have "\<dots> = (\<Sum>k\<leftarrow>map alias_key ?as. length (filter (\<lambda>r. event_key env tid r = k) ?rs))"
    by (simp add: comp_def)
  also have "\<dots> = length (filter (\<lambda>r. event_key env tid r \<in> set (map alias_key ?as)) ?rs)"
    by (rule count_groups [OF d])
  also have "filter (\<lambda>r. event_key env tid r \<in> set (map alias_key ?as)) ?rs
      = filter (\<lambda>r. Q r \<and> (\<exists>a. alias_at tbl (event_key env tid r) = Some a \<and> P a)) (actor_rows env tid db)"
    unfolding filter_filter
  proof (intro filter_cong refl)
    fix r
    have "event_key env tid r \<in> set (map alias_key ?as) \<longleftrightarrow> (\<exists>a. alias_at tbl (event_key env tid r) = Some a \<and> P a)"
    proof
      assume "event_key env tid r \<in> set (map alias_key ?as)"
      then obtain a where "a \<in> set tbl" "P a" "alias_key a = event_key env tid r" by (auto simp: tenant_aliases_def)
      with alias_at_mem [OF assms] show "\<exists>a. alias_at tbl (event_key env tid r) = Some a \<and> P a" by metis
    next
      assume "\<exists>a. alias_at tbl (event_key env tid r) = Some a \<and> P a"
      then obtain a where a: "a \<in> set tbl" "alias_key a = event_key env tid r" "P a" using alias_at_Some by blast
      from this(2) have "al_tenant_id a = tid" by (simp add: alias_key_def event_key_def)
      with a show "event_key env tid r \<in> set (map alias_key ?as)"
        by (auto simp: tenant_aliases_def intro!: image_eqI [of _ _ a])
    qed
    then show "(Q r \<and> event_key env tid r \<in> set (map alias_key ?as)) = (Q r \<and> (\<exists>a. alias_at tbl (event_key env tid r) = Some a \<and> P a))"
      by simp
  qed
  finally show ?thesis .
qed

definition users_known :: "user_row list \<Rightarrow> alias_table \<Rightarrow> bool" where
  "users_known users tbl \<longleftrightarrow> (\<forall>a \<in> set tbl. \<forall>u. al_user_id a = Some u \<longrightarrow> u \<in> us_id ` set users)"

lemma events_of_users:
  assumes "alias_ok tbl" "distinct (map us_id users)" "users_known users tbl"
  shows "(\<Sum>u\<leftarrow>users. length (filter Q (user_events env tid db tbl (us_id u))))
    = length (filter (\<lambda>r. Q r \<and> (\<exists>u. event_owner env tid tbl r = Some (Some u))) (actor_rows env tid db))"
proof -
  let ?w = "\<lambda>a. length (filter Q (alias_events env tid db a))"
  have "length (filter Q (user_events env tid db tbl u))
      = (\<Sum>a\<leftarrow>filter (\<lambda>a. al_user_id a = Some u) (tenant_aliases tid tbl). ?w a)" for u
    by (simp add: user_events_def filter_concat length_concat comp_def)
  then have "(\<Sum>u\<leftarrow>users. length (filter Q (user_events env tid db tbl (us_id u))))
      = (\<Sum>k\<leftarrow>map (Some \<circ> us_id) users. \<Sum>a\<leftarrow>filter (\<lambda>a. al_user_id a = k) (tenant_aliases tid tbl). ?w a)"
    by (simp add: comp_def)
  also have "\<dots> = (\<Sum>a\<leftarrow>filter (\<lambda>a. al_user_id a \<in> set (map (Some \<circ> us_id) users)) (tenant_aliases tid tbl). ?w a)"
    using assms(2) by (intro sum_groups) (auto simp: distinct_map inj_on_def)
  also have "filter (\<lambda>a. al_user_id a \<in> set (map (Some \<circ> us_id) users)) (tenant_aliases tid tbl)
      = filter (\<lambda>a. al_user_id a \<noteq> None) (tenant_aliases tid tbl)"
    using assms(3) by (intro filter_cong refl) (force simp: users_known_def tenant_aliases_def)
  also have "(\<Sum>a\<leftarrow>\<dots>. ?w a) = length (filter (\<lambda>r. Q r \<and> (\<exists>a. alias_at tbl (event_key env tid r) = Some a \<and> al_user_id a \<noteq> None)) (actor_rows env tid db))"
    by (rule events_of_aliases [OF assms(1)])
  also have "\<dots> = length (filter (\<lambda>r. Q r \<and> (\<exists>u. event_owner env tid tbl r = Some (Some u))) (actor_rows env tid db))"
    by (intro arg_cong [where f = length] filter_cong refl) (auto simp: event_owner_def event_key_def)
  finally show ?thesis .
qed


section \<open>Spend by vendor\<close>

text \<open>Per user: the total is the sum of the vendors, each vendor once, and a user is priceable exactly if a vendor is.\<close>

definition acc_ok :: "string set \<Rightarrow> spend_acc \<Rightarrow> bool" where
  "acc_ok vendors acc \<longleftrightarrow>
     (\<forall>u. spend_by_user acc u = sum_list (map snd (spend_by_user_vendor acc u))
        \<and> distinct (map fst (spend_by_user_vendor acc u)) \<and> fst ` set (spend_by_user_vendor acc u) \<subseteq> vendors
        \<and> (u \<in> set (has_priceable acc) \<longleftrightarrow> spend_by_user_vendor acc u \<noteq> []))"

lemma sum_list_update:
  "distinct (map fst m) \<Longrightarrow>
     sum_list (map snd (AList.update v (c + (case map_of m v of None \<Rightarrow> 0 | Some x \<Rightarrow> x)) m)) = sum_list (map snd m) + (c::int)"
  by (induction m) (auto simp: image_iff split: option.splits)

lemma accumulate_spend_ok:
  assumes "acc_ok vendors acc" "v \<in> vendors"
  shows "acc_ok vendors (accumulate_spend u v c acc)"
proof -
  let ?m = "spend_by_user_vendor acc u"
  have "AList.update v x ?m \<noteq> []" for x
    using update_nonempty [of v x ?m] by blast
  moreover have "fst ` set (AList.update v x ?m) \<subseteq> vendors" for x
    using assms by (auto simp: acc_ok_def dom_update)
  ultimately show ?thesis
    using assms sum_list_update [of ?m v c] distinct_update [of ?m v]
    by (auto simp: acc_ok_def accumulate_spend_def Let_def add.commute)
qed

lemma accumulate_rows_ok:
  "acc_ok vendors acc \<Longrightarrow> v \<in> vendors \<Longrightarrow> accumulate_rows price v rows acc = Inr acc' \<Longrightarrow> acc_ok vendors acc'"
proof (induction rows arbitrary: acc)
  case (Cons x rows)
  obtain u r where x: "x = (u, r)" by (cases x)
  with Cons.prems(3) obtain c where
    c: "accumulate_rows price v rows (case c of None \<Rightarrow> acc | Some k \<Rightarrow> accumulate_spend u v k acc) = Inr acc'"
    by auto
  have "acc_ok vendors (case c of None \<Rightarrow> acc | Some k \<Rightarrow> accumulate_spend u v k acc)"
    using Cons.prems(1,2) by (simp add: accumulate_spend_ok split: option.split)
  from Cons.IH [OF this Cons.prems(2) c] show ?case .
qed simp

definition both_vendors :: "string set" where
  "both_vendors = {VENDOR_ANTHROPIC, VENDOR_OPENAI}"

lemma vendor_names: "vendor_of ''mcp'' = VENDOR_ANTHROPIC" "vendor_of ''openai_admin_usage'' = VENDOR_OPENAI"
  by (simp_all add: vendor_of_def startswith_def)

text \<open>A sum of at most two rounded amounts is within a cent of the rounded sum.\<close>

lemma rounded_sum:
  assumes "length xs \<le> 2"
  shows "\<bar>sum_list (map to_cents xs) - to_cents (sum_list xs)\<bar> \<le> 1"
proof -
  have e: "2 * \<bar>x - 10000 * to_cents x\<bar> \<le> 10000" for x
    unfolding to_cents_def by (rule round_half_even_error) simp
  consider "xs = []" | a where "xs = [a]" | a b where "xs = [a, b]"
    using assms by (cases xs; cases "tl xs"; cases "tl (tl xs)") auto
  then show ?thesis
  proof cases
    case (3 a b)
    then show ?thesis using e [of a] e [of b] e [of "a + b"] by simp
  qed (simp_all add: to_cents_def round_half_even_def)
qed

lemma stat_spend:
  assumes "acc_ok both_vendors acc" "st = user_stat_of env tid db tbl since acc u"
  shows "(st_spend_7d_usd st = None \<longleftrightarrow> st_spend_7d_by_vendor st = [])
    \<and> fst ` set (st_spend_7d_by_vendor st) \<subseteq> both_vendors
    \<and> (\<forall>t. st_spend_7d_usd st = Some t \<longrightarrow> \<bar>sum_list (map snd (st_spend_7d_by_vendor st)) - t\<bar> \<le> 1)"
proof -
  let ?m = "spend_by_user_vendor acc (us_id u)"
  have m: "distinct (map fst ?m)" "fst ` set ?m \<subseteq> both_vendors" "spend_by_user acc (us_id u) = sum_list (map snd ?m)"
    "us_id u \<in> set (has_priceable acc) \<longleftrightarrow> ?m \<noteq> []"
    using assms(1) by (simp_all add: acc_ok_def)
  have "length ?m = card (fst ` set ?m)" using distinct_card [OF m(1)] by simp
  also have "\<dots> \<le> card both_vendors" by (rule card_mono [OF _ m(2)]) (simp add: both_vendors_def)
  also have "\<dots> \<le> 2" by (simp add: both_vendors_def card_insert_if)
  finally have "\<bar>sum_list (map to_cents (map snd ?m)) - to_cents (sum_list (map snd ?m))\<bar> \<le> 1"
    by (intro rounded_sum) simp
  moreover have "mset (sort_key fst ?m) = mset ?m" by simp
  then have "sum_list (map (to_cents \<circ> snd) (sort_key fst ?m)) = sum_list (map (to_cents \<circ> snd) ?m)"
    by (metis mset_map sum_mset_sum_list)
  moreover have "map snd (map (\<lambda>(v, a). (v, to_cents a)) xs) = map (to_cents \<circ> snd) xs" for xs :: "(string \<times> int) list"
    by (induction xs) auto
  ultimately have "\<bar>sum_list (map snd (map (\<lambda>(v, a). (v, to_cents a)) (sort_key fst ?m))) - to_cents (sum_list (map snd ?m))\<bar> \<le> 1"
    by (simp only: map_map comp_def)
  moreover have "sort_key fst ?m = [] \<longleftrightarrow> ?m = []"
    by (metis length_0_conv length_sort)
  ultimately show ?thesis
    using m by (auto simp: assms(2) user_stat_of_def Let_def comp_def)
qed

lemma read_roster_Inr:
  assumes "read_roster env users tid since db tbl = Inr res"
  shows "\<exists>acc. acc_ok both_vendors acc
    \<and> mset (ul_users res) = mset (map (user_stat_of env tid db tbl since acc) (filter (\<lambda>u. user_events env tid db tbl (us_id u) \<noteq> []) users))
    \<and> mset (ul_unmapped res) = mset (map (unmapped_of env tid db) (filter (\<lambda>a. al_user_id a = None) (tenant_aliases tid tbl)))"
proof -
  have ok: "acc_ok both_vendors no_spend" by (simp add: acc_ok_def no_spend_def)
  have v: "VENDOR_ANTHROPIC \<in> both_vendors" "VENDOR_OPENAI \<in> both_vendors" by (simp_all add: both_vendors_def)
  obtain a1 acc where
    a1: "accumulate_rows (price_mcp_row env) VENDOR_ANTHROPIC (spend_rows env tid db tbl ''mcp'' since) no_spend = Inr a1"
    and acc: "accumulate_rows price_openai_usage_row VENDOR_OPENAI (spend_rows env tid db tbl ''openai_admin_usage'' since) a1 = Inr acc"
    and res: "ul_users res = sort_key (\<lambda>x. - st_last_active x) (map (user_stat_of env tid db tbl since acc)
                (filter (\<lambda>u. user_events env tid db tbl (us_id u) \<noteq> []) users))"
      "ul_unmapped res = sort_key (\<lambda>x. - int (un_event_count x)) (map (unmapped_of env tid db)
                (filter (\<lambda>a. al_user_id a = None) (tenant_aliases tid tbl)))"
    using assms unfolding read_roster_def vendor_names by (auto split: sum.splits)
  have "acc_ok both_vendors acc"
    by (rule accumulate_rows_ok [OF accumulate_rows_ok [OF ok v(1) a1] v(2) acc])
  then show ?thesis unfolding res by (intro exI [of _ acc]) simp
qed

lemma list_users_Inr:
  assumes "list_users env user users now db tbl = (tbl', Inr res)"
  shows "\<exists>tid rep. au_tenant_id user = Some tid \<and> reconcile_aliases_for_tenant env users tid db tbl = Inr (tbl', rep)
    \<and> read_roster env users tid (instant now - ROLLUP_WINDOW_DAYS * day_us) db tbl' = Inr res"
  using assms by (auto simp: list_users_def split: option.splits if_splits sum.splits)


lemma email_match_known: "email_match users tid i = Some u \<Longrightarrow> u \<in> us_id ` set users"
proof -
  let ?us = "filter (\<lambda>u. us_email u = i \<and> us_tenant_id u = Some tid) users"
  assume "email_match users tid i = Some u"
  then obtain x where "?us = [x]" "u = us_id x" by (auto simp: email_match_def split: if_splits list.splits)
  moreover from this(1) have "x \<in> set ?us" by (simp only: list.set_intros)
  then have "x \<in> set users" by simp
  ultimately show ?thesis by blast
qed

lemma reconciled_user:
  "al_user_id (reconciled users tid actor old) = Some u \<Longrightarrow>
     email_match users tid (snd actor) = Some u \<or> (\<exists>r. old = Some r \<and> al_user_id r = Some u)"
  by (auto simp: reconciled_def linked_row_def split: option.splits if_splits)

lemma effect_at:
  "effect_of users tid actors tbl tbl' \<Longrightarrow> alias_at tbl' k =
     (if fst k = tid \<and> snd k \<in> actors \<and> snd (snd k) \<noteq> [] then Some (reconciled users tid (snd k) (alias_at tbl k))
      else alias_at tbl k)"
  unfolding effect_of_def by blast

lemma effect_users_known:
  assumes "effect_of users tid actors tbl tbl'" "users_known users tbl"
  shows "users_known users tbl'"
  unfolding users_known_def
proof (intro ballI allI impI)
  fix a u assume a: "a \<in> set tbl'" "al_user_id a = Some u"
  have "alias_at tbl' (alias_key a) = Some a"
    using assms(1) a(1) by (intro alias_at_mem) (simp_all add: effect_of_def)
  with effect_at [OF assms(1), of "alias_key a"]
  have "a = reconciled users tid (snd (alias_key a)) (alias_at tbl (alias_key a)) \<or> alias_at tbl (alias_key a) = Some a"
    by (metis option.inject)
  then have "email_match users tid (snd (snd (alias_key a))) = Some u
      \<or> (\<exists>r. alias_at tbl (alias_key a) = Some r \<and> al_user_id r = Some u)"
    using reconciled_user [of users tid "snd (alias_key a)" "alias_at tbl (alias_key a)" u] a(2) by metis
  then show "u \<in> us_id ` set users"
    using email_match_known alias_at_Some assms(2) unfolding users_known_def by blast
qed

text \<open>C31: When the roster is returned, every event with a non-empty actor identifier belongs to exactly one alias, and
  is counted once: the users' counts add up to the events of the last seven days whose alias is linked to a user,
  and the counts of the unmapped aliases add up to the events whose alias is linked to nobody. No event is counted
  for two people, for a person and as unmapped, or for another tenant.\<close>

theorem roster_counts_once:
  assumes "alias_env_ok env" "short_actors env tid db" "alias_ok tbl" "distinct (map us_id users)" "users_known users tbl"
    "au_tenant_id user = Some tid" "list_users env user users now db tbl = (tbl', Inr res)"
  shows "sum_list (map st_events_7d (ul_users res))
        = length (filter (\<lambda>r. instant now - 7 * day_us \<le> instant (tr_occurred_at r)
            \<and> (\<exists>u. event_owner env tid tbl' r = Some (Some u))) (actor_rows env tid db))
    \<and> sum_list (map un_event_count (ul_unmapped res))
        = length (filter (\<lambda>r. event_owner env tid tbl' r = Some None) (actor_rows env tid db))
    \<and> (\<forall>r \<in> set (actor_rows env tid db). snd (actor_of env r) \<noteq> [] \<longrightarrow> event_owner env tid tbl' r \<noteq> None)"
proof -
  define since where "since = instant now - 7 * day_us"
  obtain rep where rec: "reconcile_aliases_for_tenant env users tid db tbl = Inr (tbl', rep)"
    and read: "read_roster env users tid since db tbl' = Inr res"
    using list_users_Inr [OF assms(7)] assms(6) by (auto simp: since_def ROLLUP_WINDOW_DAYS_def)
  have eff: "effect_of users tid (actor_of env ` set (actor_rows env tid db)) tbl tbl'"
    using reconcile_ok [OF assms(1-3), of users] rec by auto
  then have ok: "alias_ok tbl'" by (simp add: effect_of_def)
  note known = effect_users_known [OF eff assms(5)]
  let ?Q = "\<lambda>r. since \<le> instant (tr_occurred_at r)"
  obtain acc where m:
    "mset (ul_users res) = mset (map (user_stat_of env tid db tbl' since acc) (filter (\<lambda>u. user_events env tid db tbl' (us_id u) \<noteq> []) users))"
    "mset (ul_unmapped res) = mset (map (unmapped_of env tid db) (filter (\<lambda>a. al_user_id a = None) (tenant_aliases tid tbl')))"
    using read_roster_Inr [OF read] by blast
  have "sum_list (map st_events_7d (ul_users res))
      = (\<Sum>u\<leftarrow>filter (\<lambda>u. user_events env tid db tbl' (us_id u) \<noteq> []) users. st_events_7d (user_stat_of env tid db tbl' since acc u))"
    using arg_cong [OF m(1), of "\<lambda>M. sum_mset (image_mset st_events_7d M)"]
    by (simp add: sum_mset_sum_list comp_def flip: mset_map)
  also have "\<dots> = (\<Sum>u\<leftarrow>users. length (filter ?Q (user_events env tid db tbl' (us_id u))))"
    by (induction users) (auto simp: user_stat_of_def Let_def)
  also have "\<dots> = length (filter (\<lambda>r. ?Q r \<and> (\<exists>u. event_owner env tid tbl' r = Some (Some u))) (actor_rows env tid db))"
    by (rule events_of_users [OF ok assms(4) known])
  finally have users: "sum_list (map st_events_7d (ul_users res)) = \<dots>" .
  have "sum_list (map un_event_count (ul_unmapped res))
      = (\<Sum>a\<leftarrow>filter (\<lambda>a. al_user_id a = None) (tenant_aliases tid tbl'). length (filter (\<lambda>r. True) (alias_events env tid db a)))"
    using arg_cong [OF m(2), of "\<lambda>M. sum_mset (image_mset un_event_count M)"]
    by (simp add: sum_mset_sum_list comp_def unmapped_of_def Let_def flip: mset_map)
  also have "\<dots> = length (filter (\<lambda>r. True \<and> (\<exists>a. alias_at tbl' (event_key env tid r) = Some a \<and> al_user_id a = None)) (actor_rows env tid db))"
    by (rule events_of_aliases [OF ok])
  also have "\<dots> = length (filter (\<lambda>r. event_owner env tid tbl' r = Some None) (actor_rows env tid db))"
    by (intro arg_cong [where f = length] filter_cong refl) (auto simp: event_owner_def event_key_def)
  finally have unmapped: "sum_list (map un_event_count (ul_unmapped res)) = \<dots>" .
  have "event_owner env tid tbl' r \<noteq> None" if "r \<in> set (actor_rows env tid db)" "snd (actor_of env r) \<noteq> []" for r
  proof -
    have "alias_at tbl' (tid, actor_of env r) = Some (reconciled users tid (actor_of env r) (alias_at tbl (tid, actor_of env r)))"
      using effect_at [OF eff, of "(tid, actor_of env r)"] that by simp
    then show ?thesis by (simp add: event_owner_def)
  qed
  then show ?thesis using users unmapped unfolding since_def by blast
qed

text \<open>Only Anthropic and OpenAI appear in a user's split, the split is empty exactly if the user has no priceable
  activity, and each part is rounded to cents on its own, so the parts add up to the shown total only to within
  one cent.\<close>

lemma vendor_split_within_cent:
  assumes "list_users env user users now db tbl = (tbl', Inr res)" "st \<in> set (ul_users res)"
  shows "fst ` set (st_spend_7d_by_vendor st) \<subseteq> {VENDOR_ANTHROPIC, VENDOR_OPENAI}
    \<and> (st_spend_7d_usd st = None \<longleftrightarrow> st_spend_7d_by_vendor st = [])
    \<and> (\<forall>t. st_spend_7d_usd st = Some t \<longrightarrow> \<bar>sum_list (map snd (st_spend_7d_by_vendor st)) - t\<bar> \<le> 1)"
proof -
  obtain tid rep where read: "read_roster env users tid (instant now - ROLLUP_WINDOW_DAYS * day_us) db tbl' = Inr res"
    using list_users_Inr [OF assms(1)] by blast
  from read_roster_Inr [OF read] obtain acc where acc: "acc_ok both_vendors acc"
    and "mset (ul_users res) = mset (map (user_stat_of env tid db tbl' (instant now - ROLLUP_WINDOW_DAYS * day_us) acc)
           (filter (\<lambda>u. user_events env tid db tbl' (us_id u) \<noteq> []) users))" by blast
  with assms(2) obtain u where "st = user_stat_of env tid db tbl' (instant now - ROLLUP_WINDOW_DAYS * day_us) acc u"
    by (auto dest!: mset_eq_setD simp del: mset_map)
  from stat_spend [OF acc this] show ?thesis by (simp add: both_vendors_def)
qed

lemma reconcile_rows_too_long:
  assumes "(api, ident) \<in> set rows" "ident \<noteq> []" "varchar 320 ident = None"
  shows "reconcile_rows users tid rows tbl i l = Inl Alias_Data_Error"
  using assms
proof (induction users tid rows tbl i l rule: reconcile_rows.induct)
  case (2 users tid a x rows tbl i l)
  then show ?case by (auto split: option.splits prod.splits bool.splits)
qed simp

text \<open>One record whose actor identifier is longer than the 320 characters of the alias column (and not by trailing
  spaces only) stops both paths for good, whatever else the tenant has: the periodic task fails and adds no
  alias, and the roster answers 500. The endpoint catches the reconciler's exception to serve from existing aliases,
  but the failed INSERT has aborted the transaction its own SELECTs run in.\<close>

lemma long_identifier_blocks_roster:
  assumes "alias_env_ok env" "r \<in> set (actor_rows env tid db)" "320 < length (snd (actor_of env r))"
    "\<exists>c \<in> set (drop 320 (snd (actor_of env r))). c \<noteq> CHR '' ''" "tid \<noteq> []" "au_tenant_id user = Some tid"
  shows "list_users env user users now db tbl = (tbl, Inl (Http 500 []))
    \<and> reconcile_aliases_for_tenant_task env users tid db tbl = (tbl, Inl Alias_Data_Error)"
proof -
  obtain api ident where a: "actor_of env r = (api, ident)" by fastforce
  then have "(api, ident) \<in> set (distinct_actors env tid db)"
    using assms(2) by (simp add: distinct_actors_facts(2) [OF assms(1)] rev_image_eqI)
  moreover have "ident \<noteq> []" "varchar 320 ident = None"
    using assms(3,4) a by (auto simp: varchar_def list_all_iff)
  ultimately have "reconcile_aliases_for_tenant env users tid db tbl = Inl Alias_Data_Error"
    using reconcile_rows_too_long by (simp add: reconcile_aliases_for_tenant_def Let_def)
  then show ?thesis
    using assms(5,6) by (simp add: list_users_def reconcile_aliases_for_tenant_task_def)
qed

definition sample_roster_db :: records_table where
  "sample_roster_db =
     [sample_actor_row ''mcp'' (JObj [(''user_email'', JStr ''a@x''), (''model'', JStr ''claude-opus-4-5''),
        (''output_tokens_estimate'', JInt 1000)]),
      sample_actor_row ''openai_admin_usage'' (JObj [(''user_email'', JStr ''a@x''),
        (''result'', JObj [(''model'', JStr ''gpt-4o''), (''output_tokens'', JInt 7500)])]),
      sample_actor_row ''code_analytics'' (JObj [(''actor'', JObj [(''api_key_name'', JStr ''bot'')])])]"

definition sample_aliases :: alias_table where
  "sample_aliases =
     [auto_row sample_members ''t1'' ''code_analytics'' ''bot'' ''bot'',
      auto_row sample_members ''t1'' ''openai_admin_usage'' ''a@x'' ''a@x'',
      auto_row sample_members ''t1'' ''mcp'' ''a@x'' ''a@x'']"

lemma sample_row_simps:
  "tr_tenant_id (sample_actor_row api md) = ''t1''" "tr_source_api (sample_actor_row api md) = api"
  "tr_record_metadata (sample_actor_row api md) = md" "tr_occurred_at (sample_actor_row api md) = utc_date 2026 5 10"
  by (simp_all add: sample_actor_row_def)

lemma sample_roster_rows: "actor_rows sample_alias_env ''t1'' sample_roster_db = sample_roster_db"
  by (simp add: actor_rows_def rows_of_def sample_roster_db_def sample_row_simps row_actor_def actor_key_def
      sub_object_def json_field_def SESSION_SOURCE_APIS_def)

lemma sample_roster_actors:
  "map (actor_of sample_alias_env) sample_roster_db
   = [(''mcp'', ''a@x''), (''openai_admin_usage'', ''a@x''), (''code_analytics'', ''bot'')]"
  by (simp add: sample_roster_db_def sample_row_simps actor_of_def row_actor_def actor_key_def sub_object_def json_field_def)

lemma sample_emails: "email_match sample_members ''t1'' ''a@x'' = Some ''a''" "email_match sample_members ''t1'' ''bot'' = None"
  by (simp_all add: email_match_def sample_members_def)

lemma sample_reconciled:
  "\<exists>rep. reconcile_aliases_for_tenant sample_alias_env sample_members ''t1'' sample_roster_db [] = Inr (sample_aliases, rep)"
proof -
  have "distinct_actors sample_alias_env ''t1'' sample_roster_db
      = [(''code_analytics'', ''bot''), (''openai_admin_usage'', ''a@x''), (''mcp'', ''a@x'')]"
    by (simp add: distinct_actors_def sample_roster_rows sample_roster_actors) (simp add: sample_alias_env_def)
  then show ?thesis
    by (simp add: reconcile_aliases_for_tenant_def sample_aliases_def varchar_def upsert_auto_def alias_at_def)
qed

lemma sample_costs:
  "anthropic_compute_cost_usd (Some ''claude-opus-4-5'') 0 1000 0 0 t = Some 75000"
  "openai_compute_cost_usd (Some ''gpt-4o'') 0 7500 0 0 t = Some 75000"
proof -
  have "lookup_model ''claude-opus-4-5'' (rates_at anthropic_RATE_HISTORY t) = Some (rates 150000 750000 15000 187500)"
    by (simp add: anthropic_rates_at lookup_model_def anthropic_RATES_2025_PRELAUNCH_def anthropic_RATES_2026_05_def)
  then show "anthropic_compute_cost_usd (Some ''claude-opus-4-5'') 0 1000 0 0 t = Some 75000"
    by (simp add: anthropic_compute_cost_usd_def) (simp add: row_cost_def exact_cost_def rates_def round_half_even_def)
  have "openai_quote ''gpt-4o'' t 0 = Some (rates 25000 100000 12500 0)"
    by (simp add: openai_quote_def openai_lookup_model_def openai_rates_at_def rates_at_def
        openai_RATE_HISTORY_def openai_RATES_2026_def Let_def lookup_model_def)
  then show "openai_compute_cost_usd (Some ''gpt-4o'') 0 7500 0 0 t = Some 75000"
    by (simp add: openai.cost_Some) (simp add: row_cost_def exact_cost_def rates_def round_half_even_def)
qed


lemma sample_recent: "instant (utc_date 2026 5 12) - 7 * day_us \<le> instant (utc_date 2026 5 10)"
  by (simp add: utc_date_def instant_utc_midnight toordinal_def days_before_year_def days_before_month_def is_leap_def day_us_def)

lemma sample_row_actors:
  "row_actor sample_alias_env (sample_actor_row api (JObj ((''user_email'', JStr e) # kvs)))
     = actor_key (pg_jtext (ae_pg sample_alias_env)) (JObj ((''user_email'', JStr e) # kvs))"
  by (simp add: row_actor_def sample_row_simps)

lemma sample_spend_rows:
  "spend_rows sample_alias_env ''t1'' sample_roster_db sample_aliases ''mcp'' (instant (utc_date 2026 5 12) - 7 * day_us)
     = [(''a'', sample_roster_db ! 0)]"
  "spend_rows sample_alias_env ''t1'' sample_roster_db sample_aliases ''openai_admin_usage'' (instant (utc_date 2026 5 12) - 7 * day_us)
     = [(''a'', sample_roster_db ! 1)]"
  using sample_recent
  by (simp_all add: spend_rows_def sample_aliases_def tenant_aliases_def auto_row_def sample_emails names_def
      sample_roster_db_def rows_of_def sample_row_simps row_actor_def actor_key_def sub_object_def json_field_def)

lemma sample_prices:
  "price_mcp_row sample_alias_env (sample_roster_db ! 0) = Inr (Some 75000)"
  "price_openai_usage_row (sample_roster_db ! 1) = Inr (Some 75000)"
proof -
  have "int_of_text (render (JInt 1000)) = Some 1000" using int_of_text_int_str [of 1000] by simp
  then show "price_mcp_row sample_alias_env (sample_roster_db ! 0) = Inr (Some 75000)"
    by (simp add: price_mcp_row_def sample_roster_db_def sample_row_simps sql_bigint_def json_field_def sample_alias_env_def
        sample_postgres_def coalesce0_def sample_costs(1) Let_def)
  show "price_openai_usage_row (sample_roster_db ! 1) = Inr (Some 75000)"
    by (simp add: price_openai_usage_row_def sample_roster_db_def sample_row_simps estimate_record_cost_usd_def
        SOURCE_API_ANTHROPIC_USAGE_def SOURCE_API_OPENAI_USAGE_def estimate_openai_usage_def sample_costs(2) Let_def)
qed

lemma sample_user_events:
  "user_events sample_alias_env ''t1'' sample_roster_db sample_aliases ''a'' = [sample_roster_db ! 1, sample_roster_db ! 0]"
  "user_events sample_alias_env ''t1'' sample_roster_db sample_aliases ''b'' = []"
  "alias_events sample_alias_env ''t1'' sample_roster_db (auto_row sample_members ''t1'' ''code_analytics'' ''bot'' ''bot'')
     = [sample_roster_db ! 2]"
  by (simp_all add: user_events_def sample_aliases_def tenant_aliases_def auto_row_def sample_emails alias_events_def
      sample_roster_rows [unfolded sample_roster_db_def] names_def sample_roster_db_def sample_row_simps row_actor_def
      actor_key_def sub_object_def json_field_def)

lemma sample_unmapped:
  "filter (\<lambda>a. al_user_id a = None) (tenant_aliases ''t1'' sample_aliases)
     = [auto_row sample_members ''t1'' ''code_analytics'' ''bot'' ''bot'']"
  by (simp add: tenant_aliases_def sample_aliases_def auto_row_def sample_emails)

lemma sample_active:
  "filter (\<lambda>u. user_events sample_alias_env ''t1'' sample_roster_db sample_aliases (us_id u) \<noteq> []) sample_members
     = [hd sample_members]"
  by (simp add: sample_members_def sample_user_events)

lemma sample_list_users:
  "\<exists>res st un. list_users sample_alias_env (sample_user ''a'') sample_members (utc_date 2026 5 12) sample_roster_db []
       = (sample_aliases, Inr res)
     \<and> ul_users res = [st] \<and> st_user_id st = ''a'' \<and> st_events_7d st = 2
     \<and> st_spend_7d_usd st = Some 15 \<and> st_spend_7d_by_vendor st = [(''Anthropic'', 8), (''OpenAI'', 8)]
     \<and> ul_unmapped res = [un] \<and> un_source_identifier un = ''bot'' \<and> un_event_count un = 1"
proof -
  obtain rep where rec: "reconcile_aliases_for_tenant sample_alias_env sample_members ''t1'' sample_roster_db []
      = Inr (sample_aliases, rep)"
    using sample_reconciled by blast
  let ?since = "instant (utc_date 2026 5 12) - 7 * day_us"
  let ?acc = "accumulate_spend ''a'' VENDOR_OPENAI 75000 (accumulate_spend ''a'' VENDOR_ANTHROPIC 75000 no_spend)"
  let ?st = "user_stat_of sample_alias_env ''t1'' sample_roster_db sample_aliases ?since ?acc (hd sample_members)"
  have read: "read_roster sample_alias_env sample_members ''t1'' ?since sample_roster_db sample_aliases
      = Inr \<lparr>ul_users = [?st], ul_unmapped = [unmapped_of sample_alias_env ''t1'' sample_roster_db
          (auto_row sample_members ''t1'' ''code_analytics'' ''bot'' ''bot'')]\<rparr>"
    by (simp add: read_roster_def sample_spend_rows sample_prices [simplified] vendor_names sample_active sample_unmapped)
  have hd: "us_id (hd sample_members) = ''a''" by (simp add: sample_members_def)
  have acc: "has_priceable ?acc = [''a'']" "spend_by_user ?acc ''a'' = 150000"
    "spend_by_user_vendor ?acc ''a'' = [(VENDOR_ANTHROPIC, 75000), (VENDOR_OPENAI, 75000)]"
    by (simp_all add: accumulate_spend_def no_spend_def VENDOR_ANTHROPIC_def VENDOR_OPENAI_def Let_def)
  have st: "st_events_7d ?st = 2" "st_user_id ?st = ''a''"
    using sample_recent
    by (simp_all add: user_stat_of_def hd sample_user_events Let_def) (simp add: sample_roster_db_def sample_row_simps)
  have spend: "st_spend_7d_usd ?st = Some 15" "st_spend_7d_by_vendor ?st = [(''Anthropic'', 8), (''OpenAI'', 8)]"
    unfolding user_stat_of_def hd acc
    by (simp_all add: Let_def to_cents_def round_half_even_def VENDOR_ANTHROPIC_def VENDOR_OPENAI_def)
  have un: "un_source_identifier (unmapped_of sample_alias_env ''t1'' sample_roster_db
          (auto_row sample_members ''t1'' ''code_analytics'' ''bot'' ''bot'')) = ''bot''"
    "un_event_count (unmapped_of sample_alias_env ''t1'' sample_roster_db
          (auto_row sample_members ''t1'' ''code_analytics'' ''bot'' ''bot'')) = 1"
    by (simp_all add: unmapped_of_def sample_user_events(3) Let_def) (simp add: auto_row_def)
  show ?thesis
    using st spend un by (simp add: list_users_def sample_user_def rec read ROLLUP_WINDOW_DAYS_def)
qed


lemma sample_roster_short: "short_actors sample_alias_env ''t1'' sample_roster_db"
proof -
  have "\<forall>x \<in> actor_of sample_alias_env ` set sample_roster_db. length (snd x) \<le> 320"
    using arg_cong [OF sample_roster_actors, of set] by simp
  then show ?thesis by (simp add: short_actors_def sample_roster_rows)
qed

lemma roster_counts_once_witness:
  "\<exists>tbl' res. list_users sample_alias_env (sample_user ''a'') sample_members (utc_date 2026 5 12) sample_roster_db [] = (tbl', Inr res)
     \<and> sum_list (map st_events_7d (ul_users res)) = 2
     \<and> length (filter (\<lambda>r. event_owner sample_alias_env ''t1'' tbl' r = Some None) sample_roster_db) = 1"
proof -
  obtain res st un where r: "list_users sample_alias_env (sample_user ''a'') sample_members (utc_date 2026 5 12) sample_roster_db []
       = (sample_aliases, Inr res)" "ul_users res = [st]" "st_events_7d st = 2" "ul_unmapped res = [un]" "un_event_count un = 1"
    using sample_list_users by blast
  have "distinct (map us_id sample_members)" by (simp add: sample_members_def)
  from roster_counts_once [OF sample_alias_env_ok sample_roster_short _ this _ _ r(1)] r
  show ?thesis by (auto simp: alias_ok_def users_known_def sample_user_def sample_roster_rows)
qed

text \<open>The two parts of 7.5 cents each are shown as 8 and 8 cents, their total as 15.\<close>

lemma vendor_split_within_cent_witness:
  "\<exists>tbl' res st. list_users sample_alias_env (sample_user ''a'') sample_members (utc_date 2026 5 12) sample_roster_db [] = (tbl', Inr res)
     \<and> st \<in> set (ul_users res) \<and> st_spend_7d_usd st = Some 15
     \<and> sum_list (map snd (st_spend_7d_by_vendor st)) = 16
     \<and> \<bar>sum_list (map snd (st_spend_7d_by_vendor st)) - 15\<bar> \<le> 1"
proof -
  obtain res st where r: "list_users sample_alias_env (sample_user ''a'') sample_members (utc_date 2026 5 12) sample_roster_db []
       = (sample_aliases, Inr res)" "st \<in> set (ul_users res)"
      "st_spend_7d_usd st = Some 15" "st_spend_7d_by_vendor st = [(''Anthropic'', 8), (''OpenAI'', 8)]"
    using sample_list_users by fastforce
  with vendor_split_within_cent [OF r(1,2)] show ?thesis by (intro exI conjI) (assumption | simp)+
qed

lemma long_identifier_blocks_roster_witness:
  "list_users sample_alias_env (sample_user ''a'') sample_members (utc_date 2026 5 12)
     (sample_actor_row ''mcp'' (JObj [(''user_email'', JStr (replicate 321 CHR ''x''))]) # sample_roster_db) []
   = ([], Inl (Http 500 []))"
proof -
  let ?r = "sample_actor_row ''mcp'' (JObj [(''user_email'', JStr (replicate 321 CHR ''x''))])"
  have k: "row_actor sample_alias_env ?r = Some (replicate 321 CHR ''x'')"
    by (simp add: row_actor_def sample_row_simps actor_key_def sub_object_def json_field_def)
  have "?r \<in> set (actor_rows sample_alias_env ''t1'' (?r # sample_roster_db))"
    by (simp add: actor_rows_def rows_of_def k sample_row_simps SESSION_SOURCE_APIS_def)
  from long_identifier_blocks_roster [OF sample_alias_env_ok this, of "sample_user ''a''"] show ?thesis
    by (simp add: actor_of_def k sample_user_def)
qed

end
