(* ===== verification/Forecasts.thy ===== *)
theory Forecasts
  imports Budgets Complex_Main
begin

text \<open>
  Forecast alerts (\<^verbatim>\<open>tasks/evaluate_forecasts.py\<close>): when the projection of a month's spend reaches a
  threshold, an alert of kind \<^verbatim>\<open>forecast_threshold\<close> is recorded and sent. The projection itself, a
  least-squares fit over binary floats (\<^verbatim>\<open>insights/spend_data.py\<close>), is the argument \<open>fr\<close>; its slope is the exact value
  of \<^verbatim>\<open>Decimal(str(slope))\<close>. How many whole days \<^verbatim>\<open>timedelta(days=float(d))\<close> has is a parameter (\<open>fe_days\<close>).
\<close>

record forecast_result =
  fr_current_spend :: int
  fr_projected_end :: int
  fr_slope_per_day :: rat
  fr_days_of_data :: int
  fr_period_start :: date
  fr_period_end :: date

record forecast_env =
  fe_notify :: notify_env
  fe_today :: date
  fe_days :: "rat \<Rightarrow> int"

text \<open>Rounding to a float and to microseconds may carry a fraction into the next day, never below its day.\<close>

definition forecast_env_ok :: "forecast_env \<Rightarrow> bool" where
  "forecast_env_ok env \<longleftrightarrow> (\<forall>d \<ge> 0. \<lfloor>d\<rfloor> \<le> fe_days env d \<and> fe_days env d \<le> \<lfloor>d\<rfloor> + 1) \<and> fe_days env 0 = 0"

datatype forecast_error = ForecastOverflow | ForecastDatabase | ForecastAborted | ForecastNotify email_error

definition days_ahead :: "forecast_result \<Rightarrow> budget_row \<Rightarrow> int \<Rightarrow> rat" where
  "days_ahead fr b p =
     (let d = (of_int (p * bd_threshold_usd b) / 10000 - of_int (fr_current_spend fr) / 100) / fr_slope_per_day fr
      in if d < 0 then 0 else d)"

definition breach_date :: "forecast_env \<Rightarrow> forecast_result \<Rightarrow> budget_row \<Rightarrow> int \<Rightarrow> date option" where
  "breach_date env fr b p =
     (let n = fe_days env (days_ahead fr b p); d = add_days (fe_today env) n
      in if 999999999 < n \<or> \<not> py_date d then None
         else Some (if fr_period_end fr < d then fr_period_end fr else d))"

definition forecast_row :: "string \<Rightarrow> forecast_result \<Rightarrow> budget_row \<Rightarrow> int \<Rightarrow> alert_row" where
  "forecast_row tenant_id fr b p =
     \<lparr>al_budget_id = bd_id b, al_tenant_id = tenant_id, al_period_start = fr_period_start fr,
      al_threshold_crossed = p, al_current_spend_usd = fr_current_spend fr, al_kind = ''forecast_threshold''\<rparr>"

definition forecast_context :: "forecast_result \<Rightarrow> budget_row \<Rightarrow> int \<Rightarrow> date \<Rightarrow> alert_context" where
  "forecast_context fr b p d =
     \<lparr>bc_budget_name = bd_name b, bc_scope_kind = ''tenant'', bc_scope_label = ''entire tenant'',
      bc_period = ''monthly'', bc_period_start = fr_period_start fr, bc_period_end = fr_period_end fr,
      bc_threshold_crossed = p, bc_threshold_usd = bd_threshold_usd b,
      bc_current_spend_usd = fr_current_spend fr, bc_kind = ''forecast_threshold'', bc_projected_breach_date = Some d\<rparr>"

text \<open>The thresholds of one budget; what fired before an exception is already in the report.\<close>

fun fire_forecasts ::
  "forecast_env \<Rightarrow> string \<Rightarrow> forecast_result \<Rightarrow> budget_row \<Rightarrow> int list \<Rightarrow> txn \<Rightarrow> txn \<times> outbox \<times> int list \<times> forecast_error option"
where
  "fire_forecasts env tenant_id fr b [] tx = (tx, [], [], None)"
| "fire_forecasts env tenant_id fr b (p # ps) tx =
     (if 100 * fr_projected_end fr < p * bd_threshold_usd b then fire_forecasts env tenant_id fr b ps tx
      else case breach_date env fr b p of
        None \<Rightarrow> (tx, [], [], Some ForecastOverflow)
      | Some d \<Rightarrow>
          if tx_aborted tx then (tx, [], [], Some ForecastAborted)
          else if \<not> numeric_10_2 (fr_current_spend fr) then (tx\<lparr>tx_aborted := True\<rparr>, [], [], Some ForecastDatabase)
          else
            (case insert_alert (forecast_row tenant_id fr b p) (tx_alerts tx) of (tbl, inserted) \<Rightarrow>
               if \<not> inserted then fire_forecasts env tenant_id fr b ps tx
               else
                 (case send_budget_alert (fe_notify env) (bd_recipients b) (forecast_context fr b p d) of (out, res) \<Rightarrow>
                    (case res of
                       Inl e \<Rightarrow> (tx\<lparr>tx_alerts := tbl\<rparr>, out, [p], Some (ForecastNotify e))
                     | Inr summary \<Rightarrow>
                         (case fire_forecasts env tenant_id fr b ps (tx\<lparr>tx_alerts := tbl\<rparr>) of (tx', out', fired, e) \<Rightarrow>
                            (tx', out @ out', p # fired, e))))))"

fun forecast_rows ::
  "forecast_env \<Rightarrow> string \<Rightarrow> forecast_result \<Rightarrow> budget_row list \<Rightarrow> txn \<Rightarrow> txn \<times> outbox \<times> tick_report"
where
  "forecast_rows env tenant_id fr [] tx =
     (tx, [], \<lparr>tk_budgets_checked = 0, tk_thresholds_fired = [], tk_failed = []\<rparr>)"
| "forecast_rows env tenant_id fr (b # bs) tx =
     (case fire_forecasts env tenant_id fr b ALERT_THRESHOLDS tx of (tx1, out1, fired, e) \<Rightarrow>
       (case forecast_rows env tenant_id fr bs tx1 of (tx2, out2, rep) \<Rightarrow>
          (tx2, out1 @ out2,
           \<lparr>tk_budgets_checked = tk_budgets_checked rep + 1,
            tk_thresholds_fired = map (Pair (bd_id b)) fired @ tk_thresholds_fired rep,
            tk_failed = (case e of None \<Rightarrow> [] | Some x \<Rightarrow> [bd_id b]) @ tk_failed rep\<rparr>)))"

definition forecast_budgets :: "string \<Rightarrow> budget_row list \<Rightarrow> budget_row list" where
  "forecast_budgets tenant_id budgets =
     filter (\<lambda>b. bd_tenant_id b = tenant_id \<and> \<not> bd_deleted b \<and> bd_scope_kind b = ''tenant'' \<and> bd_period b = ''monthly'')
       budgets"

datatype forecast_report = Forecast_Skipped | Forecast_Ran tick_report

definition evaluate_forecasts_for_tenant ::
  "forecast_env \<Rightarrow> string \<Rightarrow> forecast_result \<Rightarrow> budget_row list \<Rightarrow> alert_row list \<Rightarrow>
     (alert_row list \<times> outbox \<times> forecast_report) option"
where
  "evaluate_forecasts_for_tenant env tenant_id fr budgets alerts =
     (if fr_days_of_data fr < 7 \<or> fr_slope_per_day fr \<le> 0 then Some (alerts, [], Forecast_Skipped)
      else if tenant_id = [] then None
      else
        (case forecast_rows env tenant_id fr (forecast_budgets tenant_id budgets)
                \<lparr>tx_alerts = alerts, tx_aborted = False\<rparr> of
           (tx, out, rep) \<Rightarrow> Some (commit alerts tx, out, Forecast_Ran rep)))"

definition dispatch_evaluate_forecasts :: "tenant_row list \<Rightarrow> string option \<Rightarrow> string list" where
  "dispatch_evaluate_forecasts tenants region =
     map tn_tenant_id
       (filter (\<lambda>t. tn_active t \<and> (case region of None \<Rightarrow> True | Some r \<Rightarrow> tn_region t = r)) tenants)"

section \<open>Which forecasts fire\<close>

definition projected :: "forecast_result \<Rightarrow> budget_row \<Rightarrow> int \<Rightarrow> bool" where
  "projected fr b p \<longleftrightarrow> p * bd_threshold_usd b \<le> 100 * fr_projected_end fr"

definition forecast_due :: "string \<Rightarrow> forecast_result \<Rightarrow> alert_row list \<Rightarrow> int list \<Rightarrow> budget_row \<Rightarrow> int list" where
  "forecast_due tid fr tbl ps b =
     filter (\<lambda>p. projected fr b p \<and> (bd_id b, fr_period_start fr, p, ''forecast_threshold'') \<notin> alert_keys tbl) ps"

definition forecast_messages :: "forecast_env \<Rightarrow> forecast_result \<Rightarrow> budget_row \<Rightarrow> int list \<Rightarrow> outbox" where
  "forecast_messages env fr b ps =
     concat (map (\<lambda>p. expected_outbox (fe_notify env) (normalize_recipients (bd_recipients b))
       (forecast_context fr b p (the (breach_date env fr b p)))) ps)"

lemma forecast_key [simp]:
  "alert_key (forecast_row tid fr b p) = (bd_id b, fr_period_start fr, p, ''forecast_threshold'')"
  by (simp add: alert_key_def forecast_row_def)

text \<open>The notification can be attempted: no mail recipients, no sender, or a client that can be built.\<close>

definition mail_works :: "forecast_env \<Rightarrow> budget_row \<Rightarrow> bool" where
  "mail_works env b \<longleftrightarrow>
     ch_email (normalize_recipients (bd_recipients b)) = [] \<or> ne_from_address (fe_notify env) = []
     \<or> ne_client_builds (fe_notify env)"

text \<open>Otherwise the first row is inserted and its notification raises, which ends the budget's turn.\<close>

definition recorded_of :: "forecast_env \<Rightarrow> budget_row \<Rightarrow> int list \<Rightarrow> int list" where
  "recorded_of env b ps = (if mail_works env b then ps else take 1 ps)"

definition sent_of :: "forecast_env \<Rightarrow> forecast_result \<Rightarrow> budget_row \<Rightarrow> int list \<Rightarrow> outbox" where
  "sent_of env fr b ps = (if mail_works env b then forecast_messages env fr b ps else [])"

definition broken_turn :: "forecast_env \<Rightarrow> budget_row \<Rightarrow> int list \<Rightarrow> bool" where
  "broken_turn env b ps \<longleftrightarrow> \<not> mail_works env b \<and> ps \<noteq> []"

definition forecast_clear :: "forecast_result \<Rightarrow> forecast_env \<Rightarrow> budget_row \<Rightarrow> bool" where
  "forecast_clear fr env b \<longleftrightarrow>
     numeric_10_2 (fr_current_spend fr) \<and> (\<forall>p \<in> set ALERT_THRESHOLDS. projected fr b p \<longrightarrow> breach_date env fr b p \<noteq> None)"

lemma send_works:
  assumes "mail_works env b"
  shows "\<exists>s. send_budget_alert (fe_notify env) (bd_recipients b) ctx
      = (expected_outbox (fe_notify env) (normalize_recipients (bd_recipients b)) ctx, Inr s)"
proof -
  obtain out res where r: "send_budget_alert (fe_notify env) (bd_recipients b) ctx = (out, res)" by fastforce
  from send_budget_alert_cases [OF r] assms show ?thesis
    by (cases res) (auto simp: r mail_works_def Let_def split: if_splits)
qed

lemma send_breaks:
  assumes "\<not> mail_works env b"
  shows "send_budget_alert (fe_notify env) (bd_recipients b) ctx = ([], Inl ClientBuildError)"
proof -
  obtain out res where r: "send_budget_alert (fe_notify env) (bd_recipients b) ctx = (out, res)" by fastforce
  from send_budget_alert_cases [OF r] assms show ?thesis
    by (auto simp: r mail_works_def Let_def)
qed

lemma fire_forecasts_ok:
  assumes "distinct ps" "numeric_10_2 (fr_current_spend fr)" "\<not> tx_aborted tx"
    "\<forall>p \<in> set ps. projected fr b p \<longrightarrow> breach_date env fr b p \<noteq> None"
  shows "fire_forecasts env tid fr b ps tx
    = (tx\<lparr>tx_alerts := tx_alerts tx @ map (forecast_row tid fr b) (recorded_of env b (forecast_due tid fr (tx_alerts tx) ps b))\<rparr>,
       sent_of env fr b (forecast_due tid fr (tx_alerts tx) ps b), recorded_of env b (forecast_due tid fr (tx_alerts tx) ps b),
       if broken_turn env b (forecast_due tid fr (tx_alerts tx) ps b) then Some (ForecastNotify ClientBuildError) else None)"
  using assms
proof (induction ps arbitrary: tx)
  case Nil
  then show ?case
    by (simp add: forecast_due_def forecast_messages_def recorded_of_def sent_of_def broken_turn_def)
next
  case (Cons p ps)
  show ?case
  proof (cases "projected fr b p")
    case False
    then show ?thesis using Cons by (simp add: forecast_due_def projected_def)
  next
    case True
    with Cons.prems(4) obtain d where d: "breach_date env fr b p = Some d" by auto
    let ?k = "(bd_id b, fr_period_start fr, p, ''forecast_threshold'')"
    show ?thesis
    proof (cases "?k \<in> alert_keys (tx_alerts tx)")
      case in_tbl: True
      have "fire_forecasts env tid fr b (p # ps) tx = fire_forecasts env tid fr b ps tx"
        using True d in_tbl Cons.prems(2,3) by (simp add: projected_def insert_alert_cases)
      then show ?thesis using Cons in_tbl by (simp add: forecast_due_def)
    next
      case new: False
      let ?tx = "tx\<lparr>tx_alerts := tx_alerts tx @ [forecast_row tid fr b p]\<rparr>" and ?due = "forecast_due tid fr (tx_alerts tx) ps b"
      have due: "forecast_due tid fr (tx_alerts tx) (p # ps) b = p # ?due"
        using True new by (simp add: forecast_due_def)
      show ?thesis
      proof (cases "mail_works env b")
        case works: True
        obtain s where s: "send_budget_alert (fe_notify env) (bd_recipients b) (forecast_context fr b p d)
            = (expected_outbox (fe_notify env) (normalize_recipients (bd_recipients b)) (forecast_context fr b p d), Inr s)"
          using send_works [OF works] by blast
        have same: "forecast_due tid fr (tx_alerts ?tx) ps b = ?due"
          using Cons.prems(1) by (auto simp: forecast_due_def intro!: filter_cong)
        have "fire_forecasts env tid fr b ps ?tx
          = (?tx\<lparr>tx_alerts := tx_alerts ?tx @ map (forecast_row tid fr b) (recorded_of env b (forecast_due tid fr (tx_alerts ?tx) ps b))\<rparr>,
             sent_of env fr b (forecast_due tid fr (tx_alerts ?tx) ps b), recorded_of env b (forecast_due tid fr (tx_alerts ?tx) ps b),
             if broken_turn env b (forecast_due tid fr (tx_alerts ?tx) ps b) then Some (ForecastNotify ClientBuildError) else None)"
          by (rule Cons.IH) (use Cons.prems in simp_all)
        then show ?thesis
          unfolding same due using True new d s Cons.prems(2,3) works
          by (simp add: projected_def insert_alert_cases)
            (simp add: recorded_of_def sent_of_def broken_turn_def forecast_messages_def d)
      next
        case False
        then show ?thesis
          unfolding due using True new d Cons.prems(2,3) send_breaks [OF False]
          by (simp add: projected_def insert_alert_cases) (simp add: recorded_of_def sent_of_def broken_turn_def)
      qed
    qed
  qed
qed

lemma forecast_due_other:
  assumes "bd_id a \<noteq> bd_id b"
  shows "forecast_due tid fr (tbl @ map (forecast_row tid fr a) qs) ps b = forecast_due tid fr tbl ps b"
  using assms by (auto simp: forecast_due_def alert_keys_def image_iff intro!: filter_cong)

abbreviation due_in :: "string \<Rightarrow> forecast_result \<Rightarrow> txn \<Rightarrow> budget_row \<Rightarrow> int list" where
  "due_in tid fr tx \<equiv> forecast_due tid fr (tx_alerts tx) ALERT_THRESHOLDS"

lemma forecast_rows_ok:
  assumes "distinct (map bd_id bs)" "\<forall>b \<in> set bs. forecast_clear fr env b" "\<not> tx_aborted tx"
  shows "forecast_rows env tid fr bs tx
    = (tx\<lparr>tx_alerts := tx_alerts tx @ concat (map (\<lambda>b. map (forecast_row tid fr b) (recorded_of env b (due_in tid fr tx b))) bs)\<rparr>,
       concat (map (\<lambda>b. sent_of env fr b (due_in tid fr tx b)) bs),
       \<lparr>tk_budgets_checked = length bs,
        tk_thresholds_fired = concat (map (\<lambda>b. map (Pair (bd_id b)) (recorded_of env b (due_in tid fr tx b))) bs),
        tk_failed = map bd_id (filter (\<lambda>b. broken_turn env b (due_in tid fr tx b)) bs)\<rparr>)"
  using assms
proof (induction bs arbitrary: tx)
  case (Cons b bs)
  let ?tx = "tx\<lparr>tx_alerts := tx_alerts tx @ map (forecast_row tid fr b) (recorded_of env b (due_in tid fr tx b))\<rparr>"
  have d: "distinct ALERT_THRESHOLDS" by (simp add: ALERT_THRESHOLDS_def)
  have same: "forecast_due tid fr (tx_alerts tx @ map (forecast_row tid fr b) (recorded_of env b (due_in tid fr tx b)))
        ALERT_THRESHOLDS c = due_in tid fr tx c" if "c \<in> set bs" for c
    using that Cons.prems(1) by (force intro!: forecast_due_other)
  have "forecast_rows env tid fr bs ?tx
    = (?tx\<lparr>tx_alerts := tx_alerts ?tx @ concat (map (\<lambda>b. map (forecast_row tid fr b) (recorded_of env b (due_in tid fr ?tx b))) bs)\<rparr>,
       concat (map (\<lambda>b. sent_of env fr b (due_in tid fr ?tx b)) bs),
       \<lparr>tk_budgets_checked = length bs,
        tk_thresholds_fired = concat (map (\<lambda>b. map (Pair (bd_id b)) (recorded_of env b (due_in tid fr ?tx b))) bs),
        tk_failed = map bd_id (filter (\<lambda>b. broken_turn env b (due_in tid fr ?tx b)) bs)\<rparr>)"
    by (rule Cons.IH) (use Cons.prems in simp_all)
  moreover have "fire_forecasts env tid fr b ALERT_THRESHOLDS tx
      = (?tx, sent_of env fr b (due_in tid fr tx b), recorded_of env b (due_in tid fr tx b),
         if broken_turn env b (due_in tid fr tx b) then Some (ForecastNotify ClientBuildError) else None)"
    by (rule fire_forecasts_ok [OF d]) (use Cons.prems in \<open>simp_all add: forecast_clear_def\<close>)
  ultimately show ?case by (simp add: same cong: map_cong filter_cong)
qed simp


section \<open>The projected date\<close>

text \<open>What \<^verbatim>\<open>project_period_end\<close> returns for \<open>rem\<close> days left: the projection is the current spend plus the slope over
  those days, rounded to cents (with room for the float product), and the period ends \<open>rem\<close> days after today. It
  reads the clock for itself, before the tick reads \<open>fe_today\<close>; this is for a tick with one date.\<close>

definition projection_of :: "forecast_env \<Rightarrow> int \<Rightarrow> forecast_result \<Rightarrow> bool" where
  "projection_of env rem fr \<longleftrightarrow>
     0 \<le> rem \<and> rem \<le> 30
     \<and> \<bar>of_int (fr_projected_end fr) - (of_int (fr_current_spend fr) + 100 * fr_slope_per_day fr * of_int rem)\<bar> \<le> 3 / 4
     \<and> fr_period_end fr = add_days (fe_today env) rem"

lemma days_ahead_bounds:
  assumes "projection_of env rem fr" "0 < fr_slope_per_day fr" "projected fr b p"
  shows "0 \<le> days_ahead fr b p \<and> days_ahead fr b p \<le> 120"
proof -
  define s where "s = fr_slope_per_day fr"
  define c where "c = (of_int (fr_current_spend fr) :: rat)"
  define e where "e = (of_int (fr_projected_end fr) :: rat)"
  define t where "t = (of_int (p * bd_threshold_usd b) / 100 :: rat)"
  define u where "u = s * of_int rem"
  have s: "0 < s" using assms(2) by (simp add: s_def)
  have r: "0 \<le> rem" "(of_int rem :: rat) \<le> 30" "\<bar>e - (c + 100 * u)\<bar> \<le> 3 / 4"
    using assms(1) by (simp_all add: projection_of_def s_def c_def e_def u_def mult.assoc)
  have "(of_int (p * bd_threshold_usd b) :: rat) \<le> of_int (100 * fr_projected_end fr)"
    using assms(3) unfolding projected_def by (simp only: of_int_le_iff)
  then have t: "t \<le> e" by (simp add: t_def e_def)
  have d: "days_ahead fr b p = (if (t - c) / (100 * s) < 0 then 0 else (t - c) / (100 * s))"
    by (simp add: days_ahead_def t_def c_def s_def Let_def field_simps)
  have "t - c \<le> 100 * s * 120" if pos: "0 < t - c"
  proof -
    have "0 < e - c" using pos t by simp
    then have "(0 :: rat) < of_int (fr_projected_end fr - fr_current_spend fr)" by (simp add: e_def c_def)
    then have "1 \<le> fr_projected_end fr - fr_current_spend fr" by (simp only: of_int_0_less_iff)
    then have "1 \<le> e - c" unfolding e_def c_def by (metis of_int_1_le_iff of_int_diff)
    with r(3) have "1 / 4 \<le> 100 * u" by linarith
    moreover have "u \<le> s * 30" unfolding u_def using r(2) s by (intro mult_left_mono) simp_all
    ultimately show ?thesis using r(3) t by linarith
  qed
  then have "(t - c) / (100 * s) \<le> 120" if "0 < t - c"
    using that s by (simp add: field_simps)
  moreover have "(t - c) / (100 * s) \<le> 120" if "\<not> 0 < t - c"
  proof -
    have "(t - c) / (100 * s) \<le> 0" using that s by (intro divide_nonpos_pos) simp_all
    then show ?thesis by simp
  qed
  ultimately show ?thesis by (auto simp: d)
qed


lemma breach_date_ok:
  assumes "forecast_env_ok env" "projection_of env rem fr" "0 < fr_slope_per_day fr" "projected fr b p"
    "1 \<le> d_year (fe_today env)" "d_year (fe_today env) \<le> 9800"
  shows "\<exists>d. breach_date env fr b p = Some d \<and> fe_today env \<le> d \<and> d \<le> fr_period_end fr
      \<and> (p * bd_threshold_usd b \<le> 100 * fr_current_spend fr \<longrightarrow> d = fe_today env)"
proof -
  define n where "n = fe_days env (days_ahead fr b p)"
  note a = days_ahead_bounds [OF assms(2-4)]
  then have "\<lfloor>days_ahead fr b p\<rfloor> \<le> 120" "0 \<le> \<lfloor>days_ahead fr b p\<rfloor>" by linarith+
  moreover have "\<lfloor>days_ahead fr b p\<rfloor> \<le> n \<and> n \<le> \<lfloor>days_ahead fr b p\<rfloor> + 1"
    using a assms(1) unfolding n_def forecast_env_ok_def by blast
  ultimately have n: "0 \<le> n" "n \<le> 121" by linarith+
  have py: "py_date (add_days (fe_today env) n)"
    using add_days_later [OF n(1), of "fe_today env"] n(2) assms(5,6) by (simp add: py_date_def)
  have pe: "fe_today env \<le> fr_period_end fr"
    using assms(2) add_days_later(1) by (simp add: projection_of_def)
  have zero: "add_days (fe_today env) n = fe_today env" if le: "p * bd_threshold_usd b \<le> 100 * fr_current_spend fr"
  proof -
    have "(of_int (p * bd_threshold_usd b) :: rat) \<le> of_int (100 * fr_current_spend fr)"
      using le by (simp only: of_int_le_iff)
    then have "of_int (p * bd_threshold_usd b) / 10000 - of_int (fr_current_spend fr) / 100 \<le> (0 :: rat)" by simp
    then have "(of_int (p * bd_threshold_usd b) / 10000 - of_int (fr_current_spend fr) / 100) / fr_slope_per_day fr \<le> 0"
      using assms(3) by (intro divide_nonpos_pos)
    then have "days_ahead fr b p = 0" by (auto simp: days_ahead_def Let_def)
    then have "n = 0" using assms(1) by (simp add: n_def forecast_env_ok_def)
    then show ?thesis by (simp add: add_days_def)
  qed
  have "breach_date env fr b p = Some (if fr_period_end fr < add_days (fe_today env) n then fr_period_end fr else add_days (fe_today env) n)"
    using n py by (simp add: breach_date_def n_def Let_def)
  moreover have "fr_period_end fr = fe_today env" if "fr_period_end fr < fe_today env" using pe that by simp
  ultimately show ?thesis
    using pe zero add_days_later(1) [OF n(1)] by (auto simp: not_less)
qed

lemma expected_outbox_context: "(x, c) \<in> set (expected_outbox env cfg ctx) \<Longrightarrow> c = ctx"
  by (auto simp: expected_outbox_def split: if_splits)

lemma send_context:
  "send_budget_alert env recipients ctx = (out, res) \<Longrightarrow> (x, c) \<in> set out \<Longrightarrow> c = ctx"
  by (drule send_budget_alert_cases) (auto simp: Let_def dest: expected_outbox_context split: if_splits)

text \<open>What any run sends and stores, whatever fails.\<close>

lemma fire_forecasts_any:
  assumes "fire_forecasts env tid fr b ps tx = (tx', out, fired, e)"
  shows "tx_alerts tx' = tx_alerts tx @ map (forecast_row tid fr b) fired
    \<and> (\<forall>(x, c) \<in> set out. \<exists>p d. projected fr b p \<and> breach_date env fr b p = Some d \<and> c = forecast_context fr b p d)"
  using assms
proof (induction ps arbitrary: tx tx' out fired e)
  case (Cons p ps)
  show ?case
  proof (cases "projected fr b p")
    case False
    then show ?thesis using Cons by (auto simp: projected_def)
  next
    case True
    consider "breach_date env fr b p = None" | d where "breach_date env fr b p = Some d" "tx_aborted tx \<or> \<not> numeric_10_2 (fr_current_spend fr)"
      | d where "breach_date env fr b p = Some d" "\<not> tx_aborted tx" "numeric_10_2 (fr_current_spend fr)" by blast
    then show ?thesis
    proof cases
      case 1
      then show ?thesis using Cons.prems True by (simp add: projected_def)
    next
      case 2
      then show ?thesis using Cons.prems True by (auto simp: projected_def split: if_splits)
    next
      case (3 d)
      let ?tx = "tx\<lparr>tx_alerts := tx_alerts tx @ [forecast_row tid fr b p]\<rparr>"
      obtain out1 res where send: "send_budget_alert (fe_notify env) (bd_recipients b) (forecast_context fr b p d) = (out1, res)"
        by fastforce
      have sent: "\<forall>(x, c) \<in> set out1. \<exists>p d. projected fr b p \<and> breach_date env fr b p = Some d \<and> c = forecast_context fr b p d"
        using send_context [OF send] True 3(1) by blast
      obtain tx2 out2 fs e2 where rest: "fire_forecasts env tid fr b ps ?tx = (tx2, out2, fs, e2)" by (metis prod_cases4)
      show ?thesis
      proof (cases "(bd_id b, fr_period_start fr, p, ''forecast_threshold'') \<in> alert_keys (tx_alerts tx)")
        case in_tbl: True
        then have "fire_forecasts env tid fr b ps tx = (tx', out, fired, e)"
          using Cons.prems True 3 by (simp add: projected_def insert_alert_cases)
        from Cons.IH [OF this] show ?thesis .
      next
        case False
        show ?thesis
        proof (cases res)
          case (Inl err)
          then have "tx' = ?tx" "out = out1" "fired = [p]"
            using Cons.prems True 3 send False by (simp_all add: projected_def insert_alert_cases)
          then show ?thesis using sent by simp
        next
          case (Inr s)
          then have "tx' = tx2" "out = out1 @ out2" "fired = p # fs"
            using Cons.prems True 3 send False rest by (simp_all add: projected_def insert_alert_cases)
          then show ?thesis using sent Cons.IH [OF rest] by auto
        qed
      qed
    qed
  qed
qed simp

lemma forecast_rows_any:
  assumes "forecast_rows env tid fr bs tx = (tx', out, rep)"
  shows "(\<exists>rs. tx_alerts tx' = tx_alerts tx @ rs \<and> (\<forall>r \<in> set rs. al_kind r = ''forecast_threshold''))
    \<and> (\<forall>(x, c) \<in> set out. \<exists>b p d. projected fr b p \<and> breach_date env fr b p = Some d \<and> c = forecast_context fr b p d)"
  using assms
proof (induction bs arbitrary: tx tx' out rep)
  case (Cons b bs)
  obtain tx1 out1 fired e where one: "fire_forecasts env tid fr b ALERT_THRESHOLDS tx = (tx1, out1, fired, e)" by (metis prod_cases4)
  obtain tx2 out2 rep2 where rest: "forecast_rows env tid fr bs tx1 = (tx2, out2, rep2)" by (metis prod_cases3)
  from Cons.IH [OF rest] fire_forecasts_any [OF one] Cons.prems one rest show ?case
    by (fastforce simp: forecast_row_def)
qed simp


text \<open>C32: With at least seven days of data and a rising slope, a tick looks at the tenant's live monthly tenant-wide
  budgets and nothing else, and for each of them finds due exactly the thresholds of 70, 85 and 100 percent the
  projection reaches and that have no forecast row for the period yet. A budget whose notification can be attempted
  gets one row and one alert per channel for each of them. One with mail recipients and a sender whose mail client
  cannot be built gets the row of its first due threshold and no message on any channel, its other thresholds wait
  for a later tick, and the tick goes on with the next budget. The tick returns, and otherwise does nothing at
  all. This is for a current spend that fits \<^verbatim>\<open>numeric(10,2)\<close> (below 100 million dollars), a database that answers,
  and a projection that was made on the day of the tick, as \<open>projection_of\<close> describes it.\<close>

theorem forecast_fires_due:
  assumes "forecast_env_ok env" "projection_of env rem fr" "1 \<le> d_year (fe_today env)" "d_year (fe_today env) \<le> 9800"
    "numeric_10_2 (fr_current_spend fr)" "distinct (map bd_id budgets)" "tid \<noteq> []"
  shows "let hit = (\<lambda>b. filter (\<lambda>p. p * bd_threshold_usd b \<le> 100 * fr_projected_end fr
             \<and> (bd_id b, fr_period_start fr, p, ''forecast_threshold'') \<notin> alert_keys alerts) [70, 85, 100]);
           fired = (\<lambda>b. if mail_works env b then hit b else take 1 (hit b));
           mine = filter (\<lambda>b. bd_tenant_id b = tid \<and> \<not> bd_deleted b \<and> bd_scope_kind b = ''tenant'' \<and> bd_period b = ''monthly'') budgets
       in evaluate_forecasts_for_tenant env tid fr budgets alerts =
    Some (if fr_days_of_data fr < 7 \<or> fr_slope_per_day fr \<le> 0 then (alerts, [], Forecast_Skipped)
          else (alerts @ concat (map (\<lambda>b. map (forecast_row tid fr b) (fired b)) mine),
                concat (map (\<lambda>b. if mail_works env b then forecast_messages env fr b (hit b) else []) mine),
                Forecast_Ran \<lparr>tk_budgets_checked = length mine,
                  tk_thresholds_fired = concat (map (\<lambda>b. map (Pair (bd_id b)) (fired b)) mine),
                  tk_failed = map bd_id (filter (\<lambda>b. \<not> mail_works env b \<and> hit b \<noteq> []) mine)\<rparr>))"
proof (cases "fr_days_of_data fr < 7 \<or> fr_slope_per_day fr \<le> 0")
  case True
  then show ?thesis by (simp add: evaluate_forecasts_for_tenant_def Let_def)
next
  case False
  then have slope: "0 < fr_slope_per_day fr" by simp
  have due: "(\<lambda>b. filter (\<lambda>p. p * bd_threshold_usd b \<le> 100 * fr_projected_end fr
      \<and> (bd_id b, fr_period_start fr, p, ''forecast_threshold'') \<notin> alert_keys alerts) [70, 85, 100])
      = forecast_due tid fr alerts ALERT_THRESHOLDS"
    by (simp add: forecast_due_def projected_def ALERT_THRESHOLDS_def fun_eq_iff)
  have "distinct (map bd_id (forecast_budgets tid budgets))"
    using assms(6) by (simp add: forecast_budgets_def distinct_map_filter)
  moreover have "breach_date env fr b p \<noteq> None" if "projected fr b p" for b p
    using breach_date_ok [OF assms(1,2) slope that assms(3,4)] by blast
  then have "\<forall>b \<in> set (forecast_budgets tid budgets). forecast_clear fr env b"
    using assms(5) by (simp add: forecast_clear_def)
  ultimately show ?thesis
    using False assms(7) unfolding Let_def due
    by (simp add: evaluate_forecasts_for_tenant_def forecast_rows_ok commit_def recorded_of_def sent_of_def broken_turn_def
        forecast_budgets_def)
qed

text \<open>C33: Every forecast alert a tick sends, whatever else of the tick fails, names a date between today and the end
  of the period. When the spend has already reached the threshold the alert is still sent, as a forecast, with
  today as the date.\<close>

theorem forecast_dates:
  assumes "forecast_env_ok env" "projection_of env rem fr" "1 \<le> d_year (fe_today env)" "d_year (fe_today env) \<le> 9800"
    "evaluate_forecasts_for_tenant env tid fr budgets alerts = Some (alerts', out, rep)" "(dest, ctx) \<in> set out"
  shows "\<exists>d. bc_projected_breach_date ctx = Some d \<and> fe_today env \<le> d \<and> d \<le> bc_period_end ctx
    \<and> bc_threshold_crossed ctx * bc_threshold_usd ctx \<le> 100 * fr_projected_end fr
    \<and> (bc_threshold_crossed ctx * bc_threshold_usd ctx \<le> 100 * bc_current_spend_usd ctx \<longrightarrow> d = fe_today env)"
proof -
  have slope: "0 < fr_slope_per_day fr"
    using assms(5,6) by (auto simp: evaluate_forecasts_for_tenant_def split: if_splits)
  obtain tx rep' where "forecast_rows env tid fr (forecast_budgets tid budgets) \<lparr>tx_alerts = alerts, tx_aborted = False\<rparr> = (tx, out, rep')"
    using assms(5,6) by (auto simp: evaluate_forecasts_for_tenant_def split: if_splits prod.splits)
  from forecast_rows_any [OF this] assms(6) obtain b p d where
    b: "projected fr b p" "breach_date env fr b p = Some d" "ctx = forecast_context fr b p d" by blast
  from breach_date_ok [OF assms(1,2) slope b(1) assms(3,4)] b show ?thesis
    by (auto simp: forecast_context_def projected_def)
qed

text \<open>C34: Forecast alerts have their own lane: a forecast tick, whatever it does and however it fails, never changes
  which current-threshold alerts any budget is due, keeps every row there is, and so the evaluation of a real
  crossing records and sends its alert all the same. (What PagerDuty makes of two events with one dedup key is its own.)\<close>

theorem forecasts_never_silence:
  assumes "evaluate_forecasts_for_tenant env tid fr budgets alerts = Some (alerts', out, rep)"
  shows "due tenant b w spend alerts' ps = due tenant b w spend alerts ps \<and> (\<exists>rs. alerts' = alerts @ rs)"
proof -
  have "\<exists>rs. alerts' = alerts @ rs \<and> (\<forall>r \<in> set rs. al_kind r = ''forecast_threshold'')"
  proof (cases "fr_days_of_data fr < 7 \<or> fr_slope_per_day fr \<le> 0")
    case False
    then obtain tx out' rep' where
      f: "forecast_rows env tid fr (forecast_budgets tid budgets) \<lparr>tx_alerts = alerts, tx_aborted = False\<rparr> = (tx, out', rep')"
      "alerts' = commit alerts tx"
      using assms by (auto simp: evaluate_forecasts_for_tenant_def split: if_splits prod.splits)
    from forecast_rows_any [OF f(1)] show ?thesis by (auto simp: f(2) commit_def)
  qed (use assms in \<open>simp add: evaluate_forecasts_for_tenant_def\<close>)
  then obtain rs where rs: "alerts' = alerts @ rs" "\<forall>r \<in> set rs. al_kind r = ''forecast_threshold''" by blast
  then have "(i, s, p, ''current_threshold'') \<notin> alert_keys rs" for i s p
    by (auto simp: alert_keys_def alert_key_def)
  then show ?thesis using rs(1) by (simp add: due_def)
qed


definition sample_forecast_env :: forecast_env where
  "sample_forecast_env = \<lparr>fe_notify = ee_notify sample_eval_env, fe_today = Date 2026 5 20, fe_days = (\<lambda>d. \<lfloor>d\<rfloor>)\<rparr>"

definition sample_forecast :: forecast_result where
  "sample_forecast =
     \<lparr>fr_current_spend = 8000, fr_projected_end = 10200, fr_slope_per_day = 2, fr_days_of_data = 14,
      fr_period_start = Date 2026 5 1, fr_period_end = Date 2026 5 31\<rparr>"

lemma sample_forecast_env_ok: "forecast_env_ok sample_forecast_env"
  by (simp add: forecast_env_ok_def sample_forecast_env_def)

lemma sample_add_days:
  "add_days (Date 2026 5 20) 11 = Date 2026 5 31" "add_days (Date 2026 5 20) 0 = Date 2026 5 20"
  "add_days (Date 2026 5 20) 2 = Date 2026 5 22" "add_days (Date 2026 5 20) 10 = Date 2026 5 30"
  by (simp_all add: add_days_def next_day_def days_in_month_def is_leap_def eval_nat_numeral)

lemma sample_projection: "projection_of sample_forecast_env 11 sample_forecast"
  by (simp add: projection_of_def sample_forecast_env_def sample_forecast_def sample_add_days)

lemma sample_forecast_facts:
  "1 \<le> d_year (fe_today sample_forecast_env)" "d_year (fe_today sample_forecast_env) \<le> 9800"
  "numeric_10_2 (fr_current_spend sample_forecast)" "mail_works sample_forecast_env (sample_budget i cap)"
  "\<not> mail_works (sample_forecast_env\<lparr>fe_notify := (fe_notify sample_forecast_env)\<lparr>ne_client_builds := False\<rparr>\<rparr>) (sample_budget i cap)"
  by (simp_all add: sample_forecast_env_def sample_forecast_def numeric_10_2_def mail_works_def sample_eval_env_def)
    (simp add: sample_budget_def)

lemma sample_breaches:
  "breach_date sample_forecast_env sample_forecast (sample_budget i 10000) 70 = Some (Date 2026 5 20)"
  "breach_date sample_forecast_env sample_forecast (sample_budget i 10000) 85 = Some (Date 2026 5 22)"
  "breach_date sample_forecast_env sample_forecast (sample_budget i 10000) 100 = Some (Date 2026 5 30)"
  using floor_unique [of 2 "5 / 2 :: rat"]
  by (simp_all add: breach_date_def days_ahead_def Let_def sample_forecast_env_def sample_forecast_def sample_budget_def
      sample_add_days py_date_def less_date_def)

abbreviation sample_broken_mail :: forecast_env where
  "sample_broken_mail \<equiv> sample_forecast_env\<lparr>fe_notify := (fe_notify sample_forecast_env)\<lparr>ne_client_builds := False\<rparr>\<rparr>"

lemma sample_broken_mail_ok:
  "forecast_env_ok sample_broken_mail" "projection_of sample_broken_mail 11 sample_forecast"
  "1 \<le> d_year (fe_today sample_broken_mail)" "d_year (fe_today sample_broken_mail) \<le> 9800"
  using sample_forecast_env_ok sample_projection sample_forecast_facts(1,2)
  by (simp_all add: forecast_env_ok_def projection_of_def)

text \<open>With a mail client all three thresholds fire; without one the first row is left, and nothing is sent.\<close>

lemma forecast_fires_due_witness:
  "evaluate_forecasts_for_tenant sample_forecast_env ''t1'' sample_forecast [sample_budget ''b1'' 10000] []
   = Some (map (forecast_row ''t1'' sample_forecast (sample_budget ''b1'' 10000)) [70, 85, 100],
       forecast_messages sample_forecast_env sample_forecast (sample_budget ''b1'' 10000) [70, 85, 100],
       Forecast_Ran \<lparr>tk_budgets_checked = 1,
         tk_thresholds_fired = [(''b1'', 70), (''b1'', 85), (''b1'', 100)], tk_failed = []\<rparr>)
   \<and> evaluate_forecasts_for_tenant sample_broken_mail ''t1'' sample_forecast [sample_budget ''b1'' 10000] []
   = Some ([forecast_row ''t1'' sample_forecast (sample_budget ''b1'' 10000) 70], [],
       Forecast_Ran \<lparr>tk_budgets_checked = 1, tk_thresholds_fired = [(''b1'', 70)], tk_failed = [''b1'']\<rparr>)"
proof (intro conjI)
  show "evaluate_forecasts_for_tenant sample_forecast_env ''t1'' sample_forecast [sample_budget ''b1'' 10000] []
   = Some (map (forecast_row ''t1'' sample_forecast (sample_budget ''b1'' 10000)) [70, 85, 100],
       forecast_messages sample_forecast_env sample_forecast (sample_budget ''b1'' 10000) [70, 85, 100],
       Forecast_Ran \<lparr>tk_budgets_checked = 1,
         tk_thresholds_fired = [(''b1'', 70), (''b1'', 85), (''b1'', 100)], tk_failed = []\<rparr>)"
    using forecast_fires_due [OF sample_forecast_env_ok sample_projection sample_forecast_facts(1-3),
        of "[sample_budget ''b1'' 10000]" "''t1''" "[]"] sample_forecast_facts(4)
    by (simp add: sample_budget_def) (simp add: sample_forecast_def)
  show "evaluate_forecasts_for_tenant sample_broken_mail ''t1'' sample_forecast [sample_budget ''b1'' 10000] []
   = Some ([forecast_row ''t1'' sample_forecast (sample_budget ''b1'' 10000) 70], [],
       Forecast_Ran \<lparr>tk_budgets_checked = 1, tk_thresholds_fired = [(''b1'', 70)], tk_failed = [''b1'']\<rparr>)"
    using forecast_fires_due [OF sample_broken_mail_ok sample_forecast_facts(3),
        of "[sample_budget ''b1'' 10000]" "''t1''" "[]"] sample_forecast_facts(5)
    by (simp add: sample_budget_def) (simp add: sample_forecast_def)
qed

lemma sample_forecast_run:
  "\<exists>alerts' out rep d. evaluate_forecasts_for_tenant sample_forecast_env ''t1'' sample_forecast [sample_budget ''b1'' 10000] []
       = Some (alerts', out, rep)
     \<and> (d, forecast_context sample_forecast (sample_budget ''b1'' 10000) 70 (Date 2026 5 20)) \<in> set out"
proof -
  let ?b = "sample_budget ''b1'' 10000"
  have "\<forall>b \<in> set [?b]. forecast_clear sample_forecast sample_forecast_env b"
    using sample_forecast_facts(3) sample_breaches by (simp add: forecast_clear_def ALERT_THRESHOLDS_def)
  from forecast_rows_ok [OF _ this, of "\<lparr>tx_alerts = [], tx_aborted = False\<rparr>" "''t1''"]
  obtain tx rep where r: "forecast_rows sample_forecast_env ''t1'' sample_forecast [?b] \<lparr>tx_alerts = [], tx_aborted = False\<rparr>
      = (tx, forecast_messages sample_forecast_env sample_forecast ?b
           (forecast_due ''t1'' sample_forecast [] ALERT_THRESHOLDS ?b), rep)"
    using sample_forecast_facts(4) [of "''b1''" 10000] by (simp add: sent_of_def)
  have due: "forecast_due ''t1'' sample_forecast [] ALERT_THRESHOLDS ?b = [70, 85, 100]"
    by (simp add: forecast_due_def ALERT_THRESHOLDS_def projected_def sample_forecast_def sample_budget_def)
  have "forecast_budgets ''t1'' [?b] = [?b]" by (simp add: forecast_budgets_def sample_budget_def)
  moreover have "(Mail [''ops@x''], forecast_context sample_forecast ?b 70 (Date 2026 5 20))
      \<in> set (forecast_messages sample_forecast_env sample_forecast ?b [70, 85, 100])"
    by (simp add: forecast_messages_def sample_breaches expected_outbox_def mail_ready_def)
      (simp add: sample_forecast_env_def sample_eval_env_def sample_budget_def)
  ultimately show ?thesis
    using r due by (auto simp: evaluate_forecasts_for_tenant_def sample_forecast_def)
qed

text \<open>80 of 100 dollars are spent; the 70 percent alert says it is projected for today.\<close>

lemma forecast_dates_witness:
  "\<exists>ctx :: alert_context. bc_projected_breach_date ctx = Some (Date 2026 5 20) \<and> bc_threshold_crossed ctx = 70
     \<and> 70 * bc_threshold_usd ctx \<le> 100 * bc_current_spend_usd ctx \<and> Date 2026 5 20 \<le> bc_period_end ctx"
proof -
  let ?ctx = "forecast_context sample_forecast (sample_budget ''b1'' 10000) 70 (Date 2026 5 20)"
  obtain alerts' out rep x where r: "evaluate_forecasts_for_tenant sample_forecast_env ''t1'' sample_forecast [sample_budget ''b1'' 10000] []
       = Some (alerts', out, rep)" "(x, ?ctx) \<in> set out"
    using sample_forecast_run by blast
  from forecast_dates [OF sample_forecast_env_ok sample_projection sample_forecast_facts(1,2) r]
  obtain d where d: "bc_projected_breach_date ?ctx = Some d" "d \<le> bc_period_end ?ctx" by blast
  from d(1) have "d = Date 2026 5 20" by (simp add: forecast_context_def)
  with d(2) have "Date 2026 5 20 \<le> bc_period_end ?ctx" by simp
  moreover have "bc_projected_breach_date ?ctx = Some (Date 2026 5 20)" "bc_threshold_crossed ?ctx = 70"
    "70 * bc_threshold_usd ?ctx \<le> 100 * bc_current_spend_usd ?ctx"
    by (simp_all add: forecast_context_def sample_forecast_def sample_budget_def)
  ultimately show ?thesis by blast
qed

lemma forecasts_never_silence_witness:
  "\<exists>alerts' out rep. evaluate_forecasts_for_tenant sample_forecast_env ''t1'' sample_forecast [sample_budget ''b1'' 10000] []
       = Some (alerts', out, rep)
     \<and> due ''t1'' (sample_budget ''b1'' 10000) (window_of (Date 2026 5 1) (Date 2026 6 1)) 8000 alerts' [70, 85, 100] = [70]"
proof -
  obtain alerts' out rep where r: "evaluate_forecasts_for_tenant sample_forecast_env ''t1'' sample_forecast [sample_budget ''b1'' 10000] []
       = Some (alerts', out, rep)"
    using sample_forecast_run by blast
  have "due ''t1'' (sample_budget ''b1'' 10000) (window_of (Date 2026 5 1) (Date 2026 6 1)) 8000 [] [70, 85, 100] = [70]"
    by (simp add: due_def crossed_def) (simp add: sample_budget_def)
  with forecasts_never_silence [OF r] r show ?thesis by auto
qed

end
