(* ===== verification/BudgetApi.thy ===== *)
theory BudgetApi
  imports Budgets Session Complex_Main
begin

text \<open>
  The budget endpoints (\<^verbatim>\<open>api/budgets.py\<close>) over the table the evaluator reads (\<^verbatim>\<open>budgets\<close>, migrations 0019
  and 0023): validation of the bodies, creation, update, soft deletion, the detail view with the current
  spend, test alerts, and the list and acknowledgement of alerts. A budget's timestamps and the
  creator's id decide nothing and are left out; rows are in order of creation. Ids come from the database. An
  exception that no handler turns into a response is status 500. A threshold in a body is an exact decimal.
\<close>

record api_env =
  ap_email :: "string \<Rightarrow> string option"
  ap_pg :: postgres
  ap_clock :: datetime
  ap_today :: date
  ap_notify :: notify_env
  ap_names :: "string \<Rightarrow> string \<Rightarrow> string \<Rightarrow> string option"

text \<open>\<open>ap_email\<close> is the email validator: the normalised address, or a rejection.\<close>

definition api_env_ok :: "api_env \<Rightarrow> bool" where
  "api_env_ok env \<longleftrightarrow> (\<forall>s t. ap_email env s = Some t \<longrightarrow> ap_email env t = Some t)"

section \<open>Validation\<close>

definition SCOPE_KINDS :: "string list" where
  "SCOPE_KINDS = [''api_key'', ''workspace'', ''model'', ''tenant'']"

definition PERIODS :: "string list" where
  "PERIODS = [''daily'', ''weekly'', ''monthly'']"

definition validate_scope_pair :: "string \<Rightarrow> string option \<Rightarrow> bool" where
  "validate_scope_pair scope_kind scope_value \<longleftrightarrow>
     \<not> (scope_kind = ''tenant'' \<and> scope_value \<noteq> None)
     \<and> \<not> (scope_kind \<noteq> ''tenant'' \<and> (scope_value = None \<or> scope_value = Some []))"

definition check_slack :: "string list \<Rightarrow> bool" where
  "check_slack v \<longleftrightarrow> list_all (\<lambda>url. startswith url ''https://hooks.slack.com/'') v"

definition check_pagerduty :: "string list \<Rightarrow> bool" where
  "check_pagerduty v \<longleftrightarrow> list_all (\<lambda>key. strip key \<noteq> [] \<and> length key \<le> 128 \<and> \<not> list_ex py_space key) v"

text \<open>\<^verbatim>\<open>AlertRecipients\<close> of a JSON object whose values are lists of strings; other keys are forbidden.\<close>

definition channel_of :: "(string \<times> string list) list \<Rightarrow> string \<Rightarrow> string list" where
  "channel_of cfg ch = (case map_of cfg ch of None \<Rightarrow> [] | Some xs \<Rightarrow> xs)"

definition alert_recipients :: "api_env \<Rightarrow> (string \<times> string list) list \<Rightarrow> recipients option" where
  "alert_recipients env cfg =
     (if set (map fst cfg) \<subseteq> {''email'', ''slack_webhook'', ''pagerduty_key''}
         \<and> check_slack (channel_of cfg ''slack_webhook'') \<and> check_pagerduty (channel_of cfg ''pagerduty_key'')
      then map_option (\<lambda>emails. ChannelConfig
             [(''email'', Some emails), (''slack_webhook'', Some (channel_of cfg ''slack_webhook'')),
              (''pagerduty_key'', Some (channel_of cfg ''pagerduty_key''))])
           (those (map (ap_email env) (channel_of cfg ''email'')))
      else None)"

record budget_create =
  nb_name :: string
  nb_scope_kind :: string
  nb_scope_value :: "string option"
  nb_period :: string
  nb_threshold_usd :: rat
  nb_alert_recipients :: "(string \<times> string list) list"

definition name_ok :: "string \<Rightarrow> bool" where
  "name_ok s \<longleftrightarrow> 1 \<le> length s \<and> length s \<le> 256"

definition validate_create :: "api_env \<Rightarrow> budget_create \<Rightarrow> recipients option" where
  "validate_create env body =
     (if name_ok (nb_name body) \<and> nb_scope_kind body \<in> set SCOPE_KINDS \<and> opt_fits 256 (nb_scope_value body)
         \<and> nb_period body \<in> set PERIODS \<and> 0 < nb_threshold_usd body
         \<and> validate_scope_pair (nb_scope_kind body) (nb_scope_value body)
      then alert_recipients env (nb_alert_recipients body) else None)"

record budget_update =
  ub_name :: "string option"
  ub_threshold_usd :: "rat option"
  ub_alert_recipients :: "(string \<times> string list) list option"

definition validate_update :: "api_env \<Rightarrow> budget_update \<Rightarrow> recipients option option" where
  "validate_update env body =
     (if (case ub_name body of None \<Rightarrow> True | Some s \<Rightarrow> name_ok s)
         \<and> (case ub_threshold_usd body of None \<Rightarrow> True | Some x \<Rightarrow> 0 < x)
      then (case ub_alert_recipients body of
              None \<Rightarrow> Some None
            | Some cfg \<Rightarrow> map_option Some (alert_recipients env cfg))
      else None)"

section \<open>The table\<close>

text \<open>Assignment to \<^verbatim>\<open>numeric(10,2)\<close>: half away from zero, in cents, refused from \<open>10 ^ 8\<close> dollars.\<close>

definition to_numeric :: "rat \<Rightarrow> int option" where
  "to_numeric x =
     (let n = (if 0 \<le> x then \<lfloor>100 * x + 1 / 2\<rfloor> else - \<lfloor>1 / 2 - 100 * x\<rfloor>)
      in if numeric_10_2 n then Some n else None)"

text \<open>The CHECK constraints.\<close>

definition check_budget :: "budget_row \<Rightarrow> bool" where
  "check_budget b \<longleftrightarrow>
     bd_scope_kind b \<in> set SCOPE_KINDS \<and> bd_period b \<in> set PERIODS \<and> 0 < bd_threshold_usd b
     \<and> (bd_scope_kind b = ''tenant'' \<and> bd_scope_value b = None \<or> bd_scope_kind b \<noteq> ''tenant'' \<and> bd_scope_value b \<noteq> None)"

record budget_out =
  bo_id :: string
  bo_name :: string
  bo_scope_kind :: string
  bo_scope_value :: "string option"
  bo_period :: string
  bo_threshold_usd :: int
  bo_alert_recipients :: recipients

fun stored_config :: "recipients \<Rightarrow> (string \<times> string list) list option" where
  "stored_config (ChannelConfig cfg) = those (map (\<lambda>(k, v). map_option (Pair k) v) cfg)"
| "stored_config (BareList xs) = (if xs = [] then Some [] else None)"
| "stored_config NoRecipients = Some []"

definition row_to_budget_out :: "api_env \<Rightarrow> budget_row \<Rightarrow> http_error + budget_out" where
  "row_to_budget_out env b =
     (case Option.bind (stored_config (bd_recipients b)) (alert_recipients env) of
        None \<Rightarrow> Inl (Http 500 [])
      | Some r \<Rightarrow>
          if bd_scope_kind b \<in> set SCOPE_KINDS \<and> bd_period b \<in> set PERIODS
          then Inr \<lparr>bo_id = bd_id b, bo_name = bd_name b, bo_scope_kind = bd_scope_kind b,
                    bo_scope_value = bd_scope_value b, bo_period = bd_period b,
                    bo_threshold_usd = bd_threshold_usd b, bo_alert_recipients = r\<rparr>
          else Inl (Http 500 []))"

definition require_tenant :: "authenticated_user \<Rightarrow> http_error + string" where
  "require_tenant user =
     (case au_tenant_id user of
        None \<Rightarrow> Inl (Http 400 ''no_tenant_bound'')
      | Some t \<Rightarrow> if t = [] then Inl (Http 500 []) else Inr t)"

text \<open>Rows that statements with \<^verbatim>\<open>id = :id AND deleted_at IS NULL\<close> see under row-level security.\<close>

definition is_live :: "string \<Rightarrow> string \<Rightarrow> budget_row \<Rightarrow> bool" where
  "is_live tenant_id budget_id b \<longleftrightarrow> bd_tenant_id b = tenant_id \<and> bd_id b = budget_id \<and> \<not> bd_deleted b"

section \<open>Writing endpoints\<close>

definition create_budget ::
  "api_env \<Rightarrow> authenticated_user \<Rightarrow> user_row list \<Rightarrow> string \<Rightarrow> budget_create \<Rightarrow> budget_row list \<Rightarrow>
     budget_row list \<times> (http_error + budget_out)"
where
  "create_budget env user users new_id body budgets =
     (case bindE (require_admin users user) (\<lambda>u.
           case validate_create env body of
             None \<Rightarrow> Inl (Http 422 [])
           | Some rec \<Rightarrow> bindE (require_tenant u) (\<lambda>tid.
               case to_numeric (nb_threshold_usd body) of
                 None \<Rightarrow> Inl (Http 500 [])
               | Some cents \<Rightarrow>
                   (let b = \<lparr>bd_id = new_id, bd_tenant_id = tid, bd_name = nb_name body, bd_scope_kind = nb_scope_kind body,
                             bd_scope_value = nb_scope_value body, bd_period = nb_period body, bd_threshold_usd = cents,
                             bd_recipients = rec, bd_deleted = False\<rparr>
                    in if check_budget b then Inr b else Inl (Http 500 [])))) of
        Inl e \<Rightarrow> (budgets, Inl e)
      | Inr b \<Rightarrow> (budgets @ [b], row_to_budget_out env b))"

definition set_fields :: "budget_update \<Rightarrow> int option \<Rightarrow> recipients option \<Rightarrow> budget_row \<Rightarrow> budget_row" where
  "set_fields body cents rec b =
     b\<lparr>bd_name := (case ub_name body of None \<Rightarrow> bd_name b | Some s \<Rightarrow> s),
       bd_threshold_usd := (case cents of None \<Rightarrow> bd_threshold_usd b | Some n \<Rightarrow> n),
       bd_recipients := (case rec of None \<Rightarrow> bd_recipients b | Some r \<Rightarrow> r)\<rparr>"

definition update_budget ::
  "api_env \<Rightarrow> authenticated_user \<Rightarrow> user_row list \<Rightarrow> string \<Rightarrow> budget_update \<Rightarrow> budget_row list \<Rightarrow>
     budget_row list \<times> (http_error + budget_out)"
where
  "update_budget env user users budget_id body budgets =
     (case bindE (require_admin users user) (\<lambda>u.
           case validate_update env body of
             None \<Rightarrow> Inl (Http 422 [])
           | Some rec \<Rightarrow> bindE (require_tenant u) (\<lambda>tid.
               if ub_name body = None \<and> ub_threshold_usd body = None \<and> rec = None
               then Inl (Http 400 ''no_fields_to_update'')
               else if find (is_live tid budget_id) budgets = None then Inl (Http 404 ''budget_not_found'')
               else
                 (case ub_threshold_usd body of
                    None \<Rightarrow> Inr (tid, set_fields body None rec)
                  | Some x \<Rightarrow>
                      (case to_numeric x of
                         None \<Rightarrow> Inl (Http 500 [])
                       | Some n \<Rightarrow> if 0 < n then Inr (tid, set_fields body (Some n) rec) else Inl (Http 500 []))))) of
        Inl e \<Rightarrow> (budgets, Inl e)
      | Inr (tid, f) \<Rightarrow>
          (map (\<lambda>b. if is_live tid budget_id b then f b else b) budgets,
           row_to_budget_out env (f (the (find (is_live tid budget_id) budgets)))))"

definition delete_budget ::
  "authenticated_user \<Rightarrow> user_row list \<Rightarrow> string \<Rightarrow> budget_row list \<Rightarrow> budget_row list \<times> (http_error + unit)"
where
  "delete_budget user users budget_id budgets =
     (case bindE (require_admin users user) require_tenant of
        Inl e \<Rightarrow> (budgets, Inl e)
      | Inr tid \<Rightarrow>
          if find (is_live tid budget_id) budgets = None then (budgets, Inl (Http 404 ''budget_not_found''))
          else (map (\<lambda>b. if is_live tid budget_id b then b\<lparr>bd_deleted := True\<rparr> else b) budgets, Inr ()))"

section \<open>Reading endpoints\<close>

record budget_detail = budget_out +
  bo_scope_label :: "string option"
  bo_period_start :: date
  bo_period_end :: date
  bo_current_spend_usd :: int
  bo_current_ratio :: int
  bo_threshold_crossed :: "int option"

text \<open>A ratio is counted in ten-thousandths, a threshold in percent.\<close>

definition most_recent_threshold_crossed :: "int \<Rightarrow> int option" where
  "most_recent_threshold_crossed ratio =
     (let crossed = filter (\<lambda>t. 100 * t \<le> ratio) ALERT_THRESHOLDS
      in if crossed = [] then None else Some (Max (set crossed)))"

definition resolve_scope_label :: "api_env \<Rightarrow> string \<Rightarrow> string \<Rightarrow> string option \<Rightarrow> string option" where
  "resolve_scope_label env tenant_id scope_kind scope_value =
     (case scope_value of
        None \<Rightarrow> None
      | Some v \<Rightarrow> if v = [] \<or> scope_kind \<notin> {''workspace'', ''api_key''} then None else ap_names env tenant_id scope_kind v)"

definition budget_detail_from_row :: "api_env \<Rightarrow> string \<Rightarrow> records_table \<Rightarrow> budget_row \<Rightarrow> http_error + budget_detail" where
  "budget_detail_from_row env tenant_id db b =
     (case current_period_window (ap_clock env) (bd_period b) None of
        Inl e \<Rightarrow> Inl (Http 500 [])
      | Inr w \<Rightarrow>
          (case compute_spend_in_window (ap_pg env) tenant_id (pw_start w) (pw_end w) (bd_scope_kind b) (bd_scope_value b) db of
             Inl e \<Rightarrow> Inl (Http 500 [])
           | Inr spend \<Rightarrow>
               (let ratio = (if 0 < bd_threshold_usd b then round_half_even (10000 * spend) (bd_threshold_usd b) else 0)
                in bindE (row_to_budget_out env b) (\<lambda>out.
                     Inr (budget_out.extend out
                       \<lparr>bo_scope_label = resolve_scope_label env tenant_id (bd_scope_kind b) (bd_scope_value b),
                        bo_period_start = dt_date (pw_start w), bo_period_end = dt_date (pw_end w),
                        bo_current_spend_usd = spend, bo_current_ratio = ratio,
                        bo_threshold_crossed = most_recent_threshold_crossed ratio\<rparr>)))))"

definition get_budget_detail ::
  "api_env \<Rightarrow> authenticated_user \<Rightarrow> string \<Rightarrow> records_table \<Rightarrow> budget_row list \<Rightarrow> http_error + budget_detail"
where
  "get_budget_detail env user budget_id db budgets =
     bindE (require_tenant user) (\<lambda>tid.
       case find (is_live tid budget_id) budgets of
         None \<Rightarrow> Inl (Http 404 ''budget_not_found'')
       | Some b \<Rightarrow> budget_detail_from_row env tid db b)"

fun map_rows :: "('a \<Rightarrow> 'e + 'b) \<Rightarrow> 'a list \<Rightarrow> 'e + 'b list" where
  "map_rows f [] = Inr []"
| "map_rows f (x # xs) = bindE (f x) (\<lambda>y. bindE (map_rows f xs) (\<lambda>ys. Inr (y # ys)))"

definition list_budgets ::
  "api_env \<Rightarrow> authenticated_user \<Rightarrow> records_table \<Rightarrow> budget_row list \<Rightarrow> http_error + budget_detail list"
where
  "list_budgets env user db budgets =
     bindE (require_tenant user) (\<lambda>tid. map_rows (budget_detail_from_row env tid db) (rev (live_budgets tid budgets)))"

section \<open>Test alerts\<close>

definition test_alert_context :: "api_env \<Rightarrow> string \<Rightarrow> budget_row \<Rightarrow> alert_context" where
  "test_alert_context env tenant_id b =
     \<lparr>bc_budget_name = ''[TEST] '' @ bd_name b, bc_scope_kind = bd_scope_kind b,
      bc_scope_label =
        (if bd_scope_kind b = ''tenant'' then ''all of '' @ tenant_id
         else bd_scope_kind b @ ''='' @ (case bd_scope_value b of None \<Rightarrow> ''None'' | Some v \<Rightarrow> v)),
      bc_period = bd_period b, bc_period_start = ap_today env, bc_period_end = ap_today env,
      bc_threshold_crossed = 100, bc_threshold_usd = bd_threshold_usd b, bc_current_spend_usd = bd_threshold_usd b,
      bc_kind = ''current_threshold'', bc_projected_breach_date = None\<rparr>"

definition test_budget_alert ::
  "api_env \<Rightarrow> authenticated_user \<Rightarrow> user_row list \<Rightarrow> string \<Rightarrow> budget_row list \<Rightarrow> outbox \<times> (http_error + alert_summary)"
where
  "test_budget_alert env user users budget_id budgets =
     (case bindE (require_admin users user) require_tenant of
        Inl e \<Rightarrow> ([], Inl e)
      | Inr tid \<Rightarrow>
          (case find (is_live tid budget_id) budgets of
             None \<Rightarrow> ([], Inl (Http 404 ''budget_not_found''))
           | Some b \<Rightarrow>
               (case send_budget_alert (ap_notify env) (bd_recipients b) (test_alert_context env tid b) of
                  (out, Inl e) \<Rightarrow> (out, Inl (Http 500 []))
                | (out, Inr summary) \<Rightarrow> (out, Inr summary))))"

section \<open>Alerts\<close>

record stored_alert =
  sa_id :: string
  sa_row :: alert_row
  sa_fired_at :: int
  sa_acknowledged :: "(int \<times> string option) option"

record alert_out =
  ao_alert :: stored_alert
  ao_budget_name :: string

definition list_budget_alerts ::
  "bool \<Rightarrow> authenticated_user \<Rightarrow> budget_row list \<Rightarrow> stored_alert list \<Rightarrow> http_error + alert_out list"
where
  "list_budget_alerts only_unack user budgets alerts =
     bindE (require_tenant user) (\<lambda>tid.
       Inr (take 200 (sort_key (\<lambda>x. - sa_fired_at (ao_alert x))
         (concat (map (\<lambda>a.
              map (\<lambda>b. \<lparr>ao_alert = a, ao_budget_name = bd_name b\<rparr>)
                (filter (\<lambda>b. bd_tenant_id b = tid \<and> bd_id b = al_budget_id (sa_row a)) budgets))
            (filter (\<lambda>a. al_tenant_id (sa_row a) = tid \<and> (only_unack \<longrightarrow> sa_acknowledged a = None)) alerts))))))"

text \<open>\<open>ack_user\<close> is the caller's id if it is a UUID.\<close>

definition acknowledge_budget_alert ::
  "authenticated_user \<Rightarrow> string option \<Rightarrow> int \<Rightarrow> string \<Rightarrow> budget_row list \<Rightarrow> stored_alert list \<Rightarrow>
     stored_alert list \<times> (http_error + alert_out)"
where
  "acknowledge_budget_alert user ack_user now alert_id budgets alerts =
     (case require_tenant user of
        Inl e \<Rightarrow> (alerts, Inl e)
      | Inr tid \<Rightarrow>
          (let mine = (\<lambda>a. sa_id a = alert_id \<and> al_tenant_id (sa_row a) = tid \<and> sa_acknowledged a = None)
           in case find mine alerts of
                None \<Rightarrow> (alerts, Inl (Http 404 ''alert_not_found_or_already_acked''))
              | Some a \<Rightarrow>
                  (let ack = (\<lambda>x. x\<lparr>sa_acknowledged := Some (now, ack_user)\<rparr>)
                   in (map (\<lambda>x. if mine x then ack x else x) alerts,
                       Inr \<lparr>ao_alert = ack a,
                            ao_budget_name =
                              (case find (\<lambda>b. bd_tenant_id b = tid \<and> bd_id b = al_budget_id (sa_row a)) budgets of
                                 None \<Rightarrow> [] | Some b \<Rightarrow> bd_name b)\<rparr>))))"

section \<open>Well-formed budgets\<close>

definition budget_wf :: "api_env \<Rightarrow> budget_row \<Rightarrow> bool" where
  "budget_wf env b \<longleftrightarrow>
     check_budget b \<and> validate_scope_pair (bd_scope_kind b) (bd_scope_value b) \<and> numeric_10_2 (bd_threshold_usd b)
     \<and> Option.bind (stored_config (bd_recipients b)) (alert_recipients env) = Some (bd_recipients b)"

lemma those_map_Some: "those (map Some xs) = Some xs"
  by (induction xs) auto

lemma those_idem:
  assumes "those (map f xs) = Some ys" "\<forall>s t. f s = Some t \<longrightarrow> f t = Some t"
  shows "those (map f ys) = Some ys"
  using assms by (induction xs arbitrary: ys) (auto split: option.splits)

text \<open>Validation is idempotent: what it stores, it accepts again unchanged.\<close>

lemma alert_recipients_idem:
  assumes "api_env_ok env" "alert_recipients env cfg = Some r"
  shows "Option.bind (stored_config r) (alert_recipients env) = Some r"
proof -
  obtain es where es: "those (map (ap_email env) (channel_of cfg ''email'')) = Some es"
    and r: "r = ChannelConfig [(''email'', Some es), (''slack_webhook'', Some (channel_of cfg ''slack_webhook'')),
              (''pagerduty_key'', Some (channel_of cfg ''pagerduty_key''))]"
    and ok: "check_slack (channel_of cfg ''slack_webhook'')" "check_pagerduty (channel_of cfg ''pagerduty_key'')"
    using assms(2) by (auto simp: alert_recipients_def split: if_splits)
  have "those (map (ap_email env) es) = Some es"
    using those_idem [OF es] assms(1) by (simp add: api_env_ok_def)
  then show ?thesis using ok by (simp add: r alert_recipients_def channel_of_def)
qed

lemma row_to_budget_out_wf:
  "budget_wf env b \<Longrightarrow> row_to_budget_out env b = Inr
     \<lparr>bo_id = bd_id b, bo_name = bd_name b, bo_scope_kind = bd_scope_kind b, bo_scope_value = bd_scope_value b,
      bo_period = bd_period b, bo_threshold_usd = bd_threshold_usd b, bo_alert_recipients = bd_recipients b\<rparr>"
  by (simp add: row_to_budget_out_def budget_wf_def check_budget_def)

lemma validate_create_Some:
  assumes "validate_create env body = Some r"
  shows "nb_scope_kind body \<in> set SCOPE_KINDS" "nb_period body \<in> set PERIODS" "0 < nb_threshold_usd body"
    "validate_scope_pair (nb_scope_kind body) (nb_scope_value body)" "name_ok (nb_name body)"
    "alert_recipients env (nb_alert_recipients body) = Some r"
  using assms by (auto simp: validate_create_def split: if_splits)

lemma to_numeric_fits: "to_numeric x = Some n \<Longrightarrow> numeric_10_2 n"
  by (simp add: to_numeric_def Let_def split: if_splits)

definition new_row :: "string \<Rightarrow> string \<Rightarrow> budget_create \<Rightarrow> int \<Rightarrow> recipients \<Rightarrow> budget_row" where
  "new_row new_id tid body cents rec =
     \<lparr>bd_id = new_id, bd_tenant_id = tid, bd_name = nb_name body, bd_scope_kind = nb_scope_kind body,
      bd_scope_value = nb_scope_value body, bd_period = nb_period body, bd_threshold_usd = cents,
      bd_recipients = rec, bd_deleted = False\<rparr>"

lemma admin_tenant_Inr:
  assumes "require_admin users user = Inr u"
  obtains tid where "u = user" "au_tenant_id user = Some tid" "tid \<noteq> []" "get_role users (au_user_id user) tid = Some ROLE_ADMIN"
    "require_tenant user = Inr tid"
  using assms by (auto simp: require_admin_def require_tenant_def split: option.splits if_splits)

lemma create_cases:
  assumes "create_budget env user users new_id body budgets = (bs, res)"
  shows "bs = budgets \<and> (\<exists>e. res = Inl e) \<or>
    (\<exists>tid cents rec. au_tenant_id user = Some tid \<and> get_role users (au_user_id user) tid = Some ROLE_ADMIN
       \<and> validate_create env body = Some rec \<and> to_numeric (nb_threshold_usd body) = Some cents
       \<and> check_budget (new_row new_id tid body cents rec) \<and> bs = budgets @ [new_row new_id tid body cents rec]
       \<and> res = row_to_budget_out env (new_row new_id tid body cents rec))"
proof (cases "bs = budgets \<and> (\<exists>e. res = Inl e)")
  case False
  then obtain u where u: "require_admin users user = Inr u"
    using assms by (cases "require_admin users user") (auto simp: create_budget_def)
  then obtain tid where t: "u = user" "au_tenant_id user = Some tid" "get_role users (au_user_id user) tid = Some ROLE_ADMIN"
    "require_tenant user = Inr tid"
    using admin_tenant_Inr by metis
  show ?thesis
    using assms False u t
    by (auto simp: create_budget_def new_row_def Let_def split: option.splits if_splits)
qed simp

lemma new_row_wf:
  assumes "api_env_ok env" "validate_create env body = Some rec" "to_numeric (nb_threshold_usd body) = Some cents"
    "check_budget (new_row i tid body cents rec)"
  shows "budget_wf env (new_row i tid body cents rec)"
  using assms(4) validate_create_Some [OF assms(2)] to_numeric_fits [OF assms(3)] alert_recipients_idem [OF assms(1)]
  by (simp add: budget_wf_def) (simp add: new_row_def)

lemma update_cases:
  assumes "update_budget env user users budget_id body budgets = (bs, res)"
  shows "bs = budgets \<and> (\<exists>e. res = Inl e) \<or>
    (\<exists>tid cents rec b. au_tenant_id user = Some tid \<and> get_role users (au_user_id user) tid = Some ROLE_ADMIN
       \<and> validate_update env body = Some rec
       \<and> (\<forall>n. cents = Some n \<longrightarrow> 0 < n \<and> numeric_10_2 n)
       \<and> find (is_live tid budget_id) budgets = Some b
       \<and> bs = map (\<lambda>b. if is_live tid budget_id b then set_fields body cents rec b else b) budgets
       \<and> res = row_to_budget_out env (set_fields body cents rec b))"
proof (cases "bs = budgets \<and> (\<exists>e. res = Inl e)")
  case False
  then obtain u where u: "require_admin users user = Inr u"
    using assms by (cases "require_admin users user") (auto simp: update_budget_def)
  then obtain tid where t: "u = user" "au_tenant_id user = Some tid" "get_role users (au_user_id user) tid = Some ROLE_ADMIN"
    "require_tenant user = Inr tid"
    using admin_tenant_Inr by metis
  then obtain rec b where v: "validate_update env body = Some rec" "find (is_live tid budget_id) budgets = Some b"
    "\<not> (ub_name body = None \<and> ub_threshold_usd body = None \<and> rec = None)"
    using assms False u by (auto simp: update_budget_def split: option.splits if_splits)
  show ?thesis
  proof (cases "ub_threshold_usd body")
    case None
    have "bs = map (\<lambda>b. if is_live tid budget_id b then set_fields body None rec b else b) budgets"
      "res = row_to_budget_out env (set_fields body None rec b)"
      using assms u t v None by (auto simp: update_budget_def split: if_splits)
    with t v show ?thesis by (intro disjI2 exI [of _ tid] exI [of _ None] exI [of _ rec] exI [of _ b]) simp
  next
    case (Some x)
    then obtain n where n: "to_numeric x = Some n" "0 < n"
      using assms False u t v by (auto simp: update_budget_def split: if_splits option.splits)
    have "bs = map (\<lambda>b. if is_live tid budget_id b then set_fields body (Some n) rec b else b) budgets"
      "res = row_to_budget_out env (set_fields body (Some n) rec b)"
      using assms u t v Some n by (auto simp: update_budget_def split: if_splits)
    with t v n to_numeric_fits [OF n(1)] show ?thesis
      by (intro disjI2 exI [of _ tid] exI [of _ "Some n"] exI [of _ rec] exI [of _ b]) simp
  qed
qed simp

lemma set_fields_wf:
  assumes "api_env_ok env" "validate_update env body = Some rec" "\<forall>n. cents = Some n \<longrightarrow> 0 < n \<and> numeric_10_2 n" "budget_wf env b"
  shows "budget_wf env (set_fields body cents rec b)"
proof -
  have "Option.bind (stored_config r) (alert_recipients env) = Some r" if "rec = Some r" for r
    using assms(2) that alert_recipients_idem [OF assms(1)]
    by (auto simp: validate_update_def split: if_splits option.splits)
  then show ?thesis
    using assms(3,4) by (cases rec; cases cents) (auto simp: budget_wf_def check_budget_def set_fields_def)
qed

lemma delete_cases:
  assumes "delete_budget user users budget_id budgets = (bs, res)"
  shows "bs = budgets \<and> (\<exists>e. res = Inl e) \<or>
    (\<exists>tid b. au_tenant_id user = Some tid \<and> get_role users (au_user_id user) tid = Some ROLE_ADMIN
       \<and> find (is_live tid budget_id) budgets = Some b \<and> res = Inr ()
       \<and> bs = map (\<lambda>b. if is_live tid budget_id b then b\<lparr>bd_deleted := True\<rparr> else b) budgets)"
proof (cases "require_admin users user")
  case (Inr u)
  with assms show ?thesis
    by (auto elim!: admin_tenant_Inr simp: delete_budget_def split: if_splits)
qed (use assms in \<open>auto simp: delete_budget_def\<close>)

section \<open>Histories\<close>

datatype budget_call =
  Create_Budget authenticated_user string budget_create
| Update_Budget authenticated_user string budget_update
| Delete_Budget authenticated_user string

primrec budget_exec :: "api_env \<Rightarrow> user_row list \<Rightarrow> budget_call \<Rightarrow> budget_row list \<Rightarrow> budget_row list" where
  "budget_exec env users (Create_Budget user new_id body) bs = fst (create_budget env user users new_id body bs)"
| "budget_exec env users (Update_Budget user i body) bs = fst (update_budget env user users i body bs)"
| "budget_exec env users (Delete_Budget user i) bs = fst (delete_budget user users i bs)"

primrec caller :: "budget_call \<Rightarrow> authenticated_user" where
  "caller (Create_Budget user i body) = user"
| "caller (Update_Budget user i body) = user"
| "caller (Delete_Budget user i) = user"

text \<open>One call either changes nothing, appends one row of the caller's tenant, or changes live rows of it in place.\<close>

lemma budget_exec_cases:
  assumes "bs' = budget_exec env users call bs"
  shows "bs' = bs \<or>
    (\<exists>tid. au_tenant_id (caller call) = Some tid \<and> get_role users (au_user_id (caller call)) tid = Some ROLE_ADMIN
       \<and> ((\<exists>i body cents rec. bs' = bs @ [new_row i tid body cents rec] \<and> validate_create env body = Some rec
             \<and> to_numeric (nb_threshold_usd body) = Some cents \<and> check_budget (new_row i tid body cents rec))
        \<or> (\<exists>i body cents rec. bs' = map (\<lambda>b. if is_live tid i b then set_fields body cents rec b else b) bs
             \<and> validate_update env body = Some rec \<and> (\<forall>n. cents = Some n \<longrightarrow> 0 < n \<and> numeric_10_2 n))
        \<or> (\<exists>i. bs' = map (\<lambda>b. if is_live tid i b then b\<lparr>bd_deleted := True\<rparr> else b) bs)))"
proof (cases call)
  case (Create_Budget user i body)
  then show ?thesis
    using create_cases [of env user users i body bs "fst (create_budget env user users i body bs)" "snd (create_budget env user users i body bs)"] assms
    by auto
next
  case (Update_Budget user i body)
  obtain bs2 res where u: "update_budget env user users i body bs = (bs2, res)" by fastforce
  with assms Update_Budget have bs': "bs' = bs2" by simp
  show ?thesis
  proof (cases "bs2 = bs")
    case False
    then obtain tid cents rec where "au_tenant_id user = Some tid" "get_role users (au_user_id user) tid = Some ROLE_ADMIN"
      "validate_update env body = Some rec" "\<forall>n. cents = Some n \<longrightarrow> 0 < n \<and> numeric_10_2 n"
      "bs2 = map (\<lambda>b. if is_live tid i b then set_fields body cents rec b else b) bs"
      using update_cases [OF u] by blast
    then show ?thesis
      unfolding bs' Update_Budget caller.simps
      by (metis (no_types, lifting))
  qed (simp add: bs')
next
  case (Delete_Budget user i)
  then show ?thesis
    using delete_cases [of user users i bs "fst (delete_budget user users i bs)" "snd (delete_budget user users i bs)"] assms
    by auto
qed

lemma budget_exec_wf:
  assumes "api_env_ok env" "list_all (budget_wf env) bs"
  shows "list_all (budget_wf env) (budget_exec env users call bs)"
proof -
  have "budget_wf env (b\<lparr>bd_deleted := True\<rparr>) = budget_wf env b" for b
    by (simp add: budget_wf_def check_budget_def)
  then show ?thesis
    using budget_exec_cases [OF refl, of env users call bs] assms
    by (auto simp: list_all_iff new_row_wf set_fields_wf)
qed


text \<open>A well-formed budget never makes the evaluator raise for its configuration.\<close>

definition clock_ok :: "datetime \<Rightarrow> bool" where
  "clock_ok t \<longleftrightarrow> dt_off t \<noteq> None \<and> 10 \<le> d_year (dt_date t) \<and> d_year (dt_date t) \<le> 9900"

lemma known_period:
  assumes "p \<in> set PERIODS" "clock_ok t"
  shows "\<exists>w. current_period_window t p None = Inr w"
proof -
  have wd: "0 \<le> weekday (dt_date t)" "weekday (dt_date t) \<le> 6" by (simp_all add: weekday_def)
  define m where "m = start_of_iso_week (dt_date t)"
  have m: "d_year (dt_date t) - 6 \<le> d_year m" "d_year m \<le> d_year (dt_date t)"
    using add_days_earlier [of "- weekday (dt_date t)" "dt_date t"] wd by (simp_all add: m_def start_of_iso_week_def)
  have "py_date m" "py_date (add_days m 7)" "py_date (add_days (dt_date t) 1)" "py_date (start_of_next_month (dt_date t))"
    using m add_days_later [of 7 m] add_days_later [of 1 "dt_date t"] assms(2)
    by (auto simp: py_date_def clock_ok_def start_of_next_month_def)
  moreover have "p = ''daily'' \<or> p = ''weekly'' \<or> p = ''monthly''" using assms(1) by (auto simp: PERIODS_def)
  ultimately show ?thesis
    using assms(2) by (auto simp: current_period_window_def checked_def m_def clock_ok_def Let_def)
qed

lemma scope_error:
  assumes "check_budget b" "validate_scope_pair (bd_scope_kind b) (bd_scope_value b)"
    "compute_spend_in_window pg tid a z (bd_scope_kind b) (bd_scope_value b) db = Inl e"
  shows "e = SpendDataError"
proof -
  have "bd_scope_kind b = ''tenant'' \<or> map_of scope_key (bd_scope_kind b) \<noteq> None"
    using assms(1) by (auto simp: check_budget_def SCOPE_KINDS_def scope_key_def)
  then show ?thesis
    using assms(2,3)
    by (auto simp: compute_spend_in_window_def validate_scope_pair_def bindE_eq_Inl Let_def
        dest: expanded_error sum_spend_error split: if_splits)
qed

lemma fire_error:
  assumes "fire_thresholds env tid b w spend ps tx = (tx', out, Inl e)"
  shows "e = EvalDatabase \<or> (\<exists>m. e = EvalNotify m)"
  using assms
proof (induction ps arbitrary: tx out)
  case (Cons p ps)
  then show ?case
    by (fastforce split: if_splits prod.splits sum.splits simp: bindE_eq_Inl)
qed simp

lemma wf_evaluation_error:
  assumes "budget_wf env b" "clock_ok (ee_clock eenv (bd_id b))"
    "evaluate_one_budget eenv tid db b tx = (tx', out, Inl e)"
  shows "e \<in> {EvalDatabase, EvalAborted, EvalSpend SpendDataError} \<or> (\<exists>m. e = EvalNotify m)"
proof -
  have b: "check_budget b" "validate_scope_pair (bd_scope_kind b) (bd_scope_value b)" "bd_period b \<in> set PERIODS" "0 < bd_threshold_usd b"
    using assms(1) by (simp_all add: budget_wf_def check_budget_def)
  obtain w where w: "current_period_window (ee_clock eenv (bd_id b)) (bd_period b) None = Inr w"
    using known_period [OF b(3) assms(2)] by blast
  obtain tx1 r where q: "query_spend eenv tid db b w tx = (tx1, r)" by fastforce
  show ?thesis
  proof (cases r)
    case (Inl e')
    then have "e' = e" using assms(3) w q by (simp add: evaluate_one_budget_def)
    moreover have "e' \<in> {EvalDatabase, EvalAborted, EvalSpend SpendDataError}"
      using q Inl scope_error [OF b(1,2)]
      by (fastforce simp: query_spend_def split: sum.splits spend_error.splits if_splits)
    ultimately show ?thesis by blast
  next
    case (Inr spend)
    then have "fire_thresholds eenv tid b w spend ALERT_THRESHOLDS tx1 = (tx', out, Inl e)"
      using assms(3) w q b(4) by (simp add: evaluate_one_budget_def)
    from fire_error [OF this] show ?thesis by blast
  qed
qed

text \<open>C35: Whatever sequence of create, update and delete calls is made, by whomever and with whatever bodies, every
  stored budget stays well-formed: it can be shown again, and evaluating it never raises for its period, its scope or a
  missing key, so the evaluator can fail on it only for the database, the stored records or the mail client.\<close>

theorem api_budgets_evaluate:
  assumes "api_env_ok env" "list_all (budget_wf env) budgets"
  shows "list_all (budget_wf env) (fold (budget_exec env users) calls budgets)
    \<and> (\<forall>b \<in> set (fold (budget_exec env users) calls budgets). is_ok (row_to_budget_out env b)
        \<and> (\<forall>eenv tid db tx tx' out e. clock_ok (ee_clock eenv (bd_id b))
             \<and> evaluate_one_budget eenv tid db b tx = (tx', out, Inl e)
             \<longrightarrow> e \<in> {EvalDatabase, EvalAborted, EvalSpend SpendDataError} \<or> (\<exists>m. e = EvalNotify m)))"
proof -
  have wf: "list_all (budget_wf env) (fold (budget_exec env users) calls budgets)"
    using assms(2) by (induction calls arbitrary: budgets) (simp_all add: budget_exec_wf [OF assms(1)])
  moreover have "is_ok (row_to_budget_out env b)" if "b \<in> set (fold (budget_exec env users) calls budgets)" for b
    using wf that row_to_budget_out_wf by (auto simp: list_all_iff)
  ultimately show ?thesis
    using wf_evaluation_error by (auto simp: list_all_iff) blast
qed

definition axes :: "budget_row \<Rightarrow> string \<times> string \<times> string \<times> string option \<times> string" where
  "axes b = (bd_id b, bd_tenant_id b, bd_scope_kind b, bd_scope_value b, bd_period b)"

definition by_admin_of :: "user_row list \<Rightarrow> string \<Rightarrow> budget_call \<Rightarrow> bool" where
  "by_admin_of users tid call \<longleftrightarrow>
     au_tenant_id (caller call) = Some tid \<and> get_role users (au_user_id (caller call)) tid = Some ROLE_ADMIN"

definition keeps :: "(budget_row \<Rightarrow> bool) \<Rightarrow> budget_row list \<Rightarrow> budget_row list \<Rightarrow> bool" where
  "keeps frozen bs bs' \<longleftrightarrow>
     length bs \<le> length bs'
     \<and> (\<forall>k < length bs. axes (bs' ! k) = axes (bs ! k) \<and> (frozen (bs ! k) \<longrightarrow> bs' ! k = bs ! k))"

lemma keeps_refl: "keeps f bs bs"
  by (simp add: keeps_def)

lemma keeps_trans: "keeps f a b \<Longrightarrow> keeps f b c \<Longrightarrow> keeps f a c"
  unfolding keeps_def by (metis le_trans less_le_trans)

lemma keeps_append: "keeps f bs (bs @ cs)"
  by (simp add: keeps_def nth_append)

lemma keeps_map: "(\<And>b. axes (g b) = axes b \<and> (f b \<longrightarrow> g b = b)) \<Longrightarrow> keeps f bs (map g bs)"
  by (simp add: keeps_def)

lemma budget_exec_keeps:
  assumes "f = (\<lambda>b. bd_deleted b \<or> \<not> by_admin_of users (bd_tenant_id b) call)"
  shows "keeps f bs (budget_exec env users call bs)"
  using budget_exec_cases [OF refl, of env users call bs]
proof (elim disjE exE conjE, goal_cases)
  case 1
  then show ?case by (simp add: keeps_refl)
next
  case (2 tid i body cents rec)
  then show ?case by (simp add: keeps_append)
next
  case (3 tid i body cents rec)
  show ?case unfolding 3(3)
    using 3(1,2) by (intro keeps_map) (auto simp: assms axes_def set_fields_def is_live_def by_admin_of_def)
next
  case (4 tid i)
  show ?case unfolding 4(3)
    using 4(1,2) by (intro keeps_map) (auto simp: assms axes_def is_live_def by_admin_of_def)
qed


lemma keeps_mono: "keeps g bs bs' \<Longrightarrow> (\<And>b. f b \<Longrightarrow> g b) \<Longrightarrow> keeps f bs bs'"
  unfolding keeps_def by blast

lemma fold_keeps:
  "keeps (\<lambda>b. bd_deleted b \<or> \<not> list_ex (by_admin_of users (bd_tenant_id b)) calls) bs (fold (budget_exec env users) calls bs)"
proof (induction calls arbitrary: bs)
  case (Cons call calls)
  let ?f = "\<lambda>b. bd_deleted b \<or> \<not> list_ex (by_admin_of users (bd_tenant_id b)) (call # calls)"
  have "keeps ?f bs (budget_exec env users call bs)"
    by (rule keeps_mono [OF budget_exec_keeps [OF refl]]) auto
  moreover have "keeps ?f (budget_exec env users call bs) (fold (budget_exec env users) calls (budget_exec env users call bs))"
    by (rule keeps_mono [OF Cons.IH]) auto
  ultimately show ?case by (simp add: keeps_trans)
qed (simp add: keeps_refl)

text \<open>C36: Budgets are never removed, moved or re-scoped: after any calls the rows that were there are still there in
  order, each with its id, tenant, scope and period; a deleted one is unchanged, and rows of a tenant change only
  through a call by an administrator of that tenant.\<close>

theorem budgets_only_grow:
  assumes "k < length budgets" "bs = fold (budget_exec env users) calls budgets"
  shows "k < length bs \<and> axes (bs ! k) = axes (budgets ! k) \<and> (bd_deleted (budgets ! k) \<longrightarrow> bs ! k = budgets ! k)
    \<and> (bs ! k \<noteq> budgets ! k \<longrightarrow>
         (\<exists>call \<in> set calls. au_tenant_id (caller call) = Some (bd_tenant_id (budgets ! k))
            \<and> get_role users (au_user_id (caller call)) (bd_tenant_id (budgets ! k)) = Some ROLE_ADMIN))"
  using fold_keeps [of users calls budgets env] assms
  by (auto simp: keeps_def by_admin_of_def list_ex_iff)

lemma find_append_new:
  "i \<notin> set (map bd_id bs) \<Longrightarrow> bd_id b = i \<Longrightarrow> bd_tenant_id b = tid \<Longrightarrow> \<not> bd_deleted b \<Longrightarrow> find (is_live tid i) (bs @ [b]) = Some b"
  by (induction bs) (auto simp: is_live_def)

lemma find_none_deleted:
  "find (is_live tid i) (map (\<lambda>b. if is_live tid i b then b\<lparr>bd_deleted := True\<rparr> else b) bs) = None"
  by (induction bs) (simp_all add: is_live_def)

lemma to_numeric_error:
  assumes "to_numeric x = Some n" "0 < x"
  shows "\<bar>of_int n - 100 * x\<bar> \<le> 1 / 2"
proof -
  have "n = \<lfloor>100 * x + 1 / 2\<rfloor>" using assms by (auto simp: to_numeric_def Let_def split: if_splits)
  then show ?thesis by linarith
qed

lemma map_rows_Inr: "map_rows f xs = Inr ys \<Longrightarrow> list_all2 (\<lambda>x y. f x = Inr y) xs ys"
  by (induction xs arbitrary: ys) auto

lemma list_all2_set2: "list_all2 P xs ys \<Longrightarrow> y \<in> set ys \<Longrightarrow> \<exists>x\<in>set xs. P x y"
  by (induction rule: list_all2_induct) auto

lemma detail_from_row_id:
  assumes "budget_detail_from_row env tid db b = Inr d" shows "bo_id d = bd_id b"
proof -
  obtain out where "row_to_budget_out env b = Inr out" "bo_id d = bo_id out"
    using assms by (auto simp: budget_detail_from_row_def Let_def budget_out.defs split: sum.splits)
  then show ?thesis by (auto simp: row_to_budget_out_def split: option.splits if_splits)
qed

text \<open>The list shows the ids of the live rows only.\<close>

lemma list_budgets_ids:
  assumes "list_budgets env reader db bs = Inr ds" "require_tenant reader = Inr tid"
  shows "bo_id ` set ds \<subseteq> bd_id ` set (live_budgets tid bs)"
proof
  fix x assume "x \<in> bo_id ` set ds"
  then obtain d where d: "d \<in> set ds" "x = bo_id d" by auto
  have "list_all2 (\<lambda>b d. budget_detail_from_row env tid db b = Inr d) (rev (live_budgets tid bs)) ds"
    using assms by (simp add: list_budgets_def map_rows_Inr)
  from list_all2_set2 [OF this d(1)]
  obtain b where "b \<in> set (live_budgets tid bs)" "budget_detail_from_row env tid db b = Inr d" by auto
  then show "x \<in> bd_id ` set (live_budgets tid bs)" using detail_from_row_id d(2) by auto
qed

text \<open>C37: A budget that was created reads back: the detail view of its tenant shows the fields of the body, the
  threshold to the nearest cent, and the spend the evaluator would compute. Its deletion by the admin who made
  it succeeds, and from then on the detail view, a further deletion, a test alert and every valid update that
  names a field answer 404; no update, valid or not, changes a row; the list does not show it and no
  evaluation loads it.\<close>

theorem created_budget_reads_back:
  assumes "api_env_ok env" "create_budget env admin users i body budgets = (bs, Inr out)" "au_tenant_id admin = Some tid"
    "i \<notin> set (map bd_id budgets)" "au_tenant_id reader = Some tid"
    "current_period_window (ap_clock env) (nb_period body) None = Inr w"
    "compute_spend_in_window (ap_pg env) tid (pw_start w) (pw_end w) (nb_scope_kind body) (nb_scope_value body) db = Inr spend"
  shows "(\<exists>d. get_budget_detail env reader i db bs = Inr d \<and> budget_out.truncate d = out
      \<and> bo_id d = i \<and> bo_name d = nb_name body \<and> bo_scope_kind d = nb_scope_kind body
      \<and> bo_scope_value d = nb_scope_value body \<and> bo_period d = nb_period body
      \<and> alert_recipients env (nb_alert_recipients body) = Some (bo_alert_recipients d)
      \<and> 0 < bo_threshold_usd d \<and> \<bar>of_int (bo_threshold_usd d) - 100 * nb_threshold_usd body\<bar> \<le> 1 / 2
      \<and> bo_current_spend_usd d = spend \<and> bo_period_start d = dt_date (pw_start w))
    \<and> (\<exists>bs'. delete_budget admin users i bs = (bs', Inr ())
      \<and> get_budget_detail env reader i db bs' = Inl (Http 404 ''budget_not_found'')
      \<and> delete_budget admin users i bs' = (bs', Inl (Http 404 ''budget_not_found''))
      \<and> test_budget_alert env admin users i bs' = ([], Inl (Http 404 ''budget_not_found''))
      \<and> (\<forall>up. fst (update_budget env admin users i up bs') = bs' \<and> \<not> is_ok (snd (update_budget env admin users i up bs')))
      \<and> (\<forall>up rec. validate_update env up = Some rec \<and> (ub_name up, ub_threshold_usd up, rec) \<noteq> (None, None, None)
            \<longrightarrow> update_budget env admin users i up bs' = (bs', Inl (Http 404 ''budget_not_found'')))
      \<and> i \<notin> bd_id ` set (live_budgets tid bs')
      \<and> (\<forall>ds. list_budgets env reader db bs' = Inr ds \<longrightarrow> i \<notin> bo_id ` set ds))"
proof -
  obtain cents rec where c: "get_role users (au_user_id admin) tid = Some ROLE_ADMIN" "validate_create env body = Some rec"
    "to_numeric (nb_threshold_usd body) = Some cents" "check_budget (new_row i tid body cents rec)"
    "bs = budgets @ [new_row i tid body cents rec]" "Inr out = row_to_budget_out env (new_row i tid body cents rec)"
    using create_cases [OF assms(2)] assms(3) by auto
  let ?b = "new_row i tid body cents rec"
  have b: "bd_id ?b = i" "bd_tenant_id ?b = tid" "\<not> bd_deleted ?b" "bd_period ?b = nb_period body"
    "bd_scope_kind ?b = nb_scope_kind body" "bd_scope_value ?b = nb_scope_value body" "bd_threshold_usd ?b = cents"
    "bd_name ?b = nb_name body" "bd_recipients ?b = rec"
    by (simp_all add: new_row_def)
  have wf: "budget_wf env ?b" by (rule new_row_wf [OF assms(1) c(2-4)])
  have pos: "0 < cents" using c(4) b by (simp add: check_budget_def)
  have admin: "require_admin users admin = Inr admin" "tid \<noteq> []"
    using assms(2,3) c(1) by (auto simp: create_budget_def require_admin_def split: if_splits)
  then have req: "require_tenant admin = Inr tid" "require_tenant reader = Inr tid"
    using assms(3,5) by (simp_all add: require_tenant_def)
  have found: "find (is_live tid i) bs = Some ?b"
    unfolding c(5) by (rule find_append_new [OF assms(4) b(1-3)])
  note out = row_to_budget_out_wf [OF wf]
  have num: "\<bar>of_int cents - 100 * nb_threshold_usd body\<bar> \<le> 1 / 2"
    by (rule to_numeric_error [OF c(3)]) (rule validate_create_Some(3) [OF c(2)])
  have rec: "alert_recipients env (nb_alert_recipients body) = Some rec"
    by (rule validate_create_Some(6) [OF c(2)])
  have "\<exists>d. get_budget_detail env reader i db bs = Inr d \<and> budget_out.truncate d = out
      \<and> bo_id d = i \<and> bo_name d = nb_name body \<and> bo_scope_kind d = nb_scope_kind body
      \<and> bo_scope_value d = nb_scope_value body \<and> bo_period d = nb_period body \<and> bo_alert_recipients d = rec
      \<and> bo_threshold_usd d = cents \<and> bo_current_spend_usd d = spend \<and> bo_period_start d = dt_date (pw_start w)"
    using c(6) assms(6,7)
    by (simp add: get_budget_detail_def req found budget_detail_from_row_def b out Let_def budget_out.defs)
  moreover let ?bs = "map (\<lambda>b. if is_live tid i b then b\<lparr>bd_deleted := True\<rparr> else b) bs"
  have "delete_budget admin users i bs = (?bs, Inr ())" "delete_budget admin users i ?bs = (?bs, Inl (Http 404 ''budget_not_found''))"
    "get_budget_detail env reader i db ?bs = Inl (Http 404 ''budget_not_found'')"
    "test_budget_alert env admin users i ?bs = ([], Inl (Http 404 ''budget_not_found''))"
    by (simp_all add: delete_budget_def admin req found find_none_deleted get_budget_detail_def test_budget_alert_def)
  moreover have up: "fst (update_budget env admin users i up ?bs) = ?bs \<and> \<not> is_ok (snd (update_budget env admin users i up ?bs))"
      "validate_update env up = Some rec' \<and> (ub_name up, ub_threshold_usd up, rec') \<noteq> (None, None, None)
        \<longrightarrow> update_budget env admin users i up ?bs = (?bs, Inl (Http 404 ''budget_not_found''))" for up rec'
    by (auto simp: update_budget_def admin req find_none_deleted split: option.splits)
  moreover have dead: "i \<notin> bd_id ` set (live_budgets tid ?bs)"
    using find_none_deleted [of tid i bs] by (auto simp: live_budgets_def find_None_iff is_live_def)
  moreover have "list_budgets env reader db ?bs = Inr ds \<longrightarrow> i \<notin> bo_id ` set ds" for ds
    using list_budgets_ids [OF _ req(2)] dead by blast
  ultimately show ?thesis using pos num rec by blast
qed

lemma row_out_threshold: "row_to_budget_out env b = Inr out \<Longrightarrow> bo_threshold_usd out = bd_threshold_usd b"
  by (auto simp: row_to_budget_out_def split: option.splits if_splits)

lemma detail_Inr:
  assumes "budget_detail_from_row env tid db b = Inr d"
  shows "bo_threshold_usd d = bd_threshold_usd b
    \<and> bo_threshold_crossed d = most_recent_threshold_crossed
        (if 0 < bd_threshold_usd b then round_half_even (10000 * bo_current_spend_usd d) (bd_threshold_usd b) else 0)"
proof -
  obtain w where w: "current_period_window (ap_clock env) (bd_period b) None = Inr w"
    using assms by (auto simp: budget_detail_from_row_def split: sum.splits)
  then obtain spend where "compute_spend_in_window (ap_pg env) tid (pw_start w) (pw_end w) (bd_scope_kind b) (bd_scope_value b) db = Inr spend"
    using assms by (auto simp: budget_detail_from_row_def split: sum.splits)
  moreover from this w obtain out where "row_to_budget_out env b = Inr out"
    using assms by (auto simp: budget_detail_from_row_def Let_def)
  moreover from this have "bo_threshold_usd out = bd_threshold_usd b" by (rule row_out_threshold)
  ultimately show ?thesis
    using assms w by (auto simp: budget_detail_from_row_def Let_def budget_out.defs)
qed

text \<open>The crossing the detail view shows never hides one the evaluator alerts on, and exceeds it only by the
  rounding of the ratio to four decimals: a shown threshold is reached up to half of a ten-thousandth of the cap.\<close>

lemma shown_crossing_follows_alerts:
  assumes "get_budget_detail env user i db budgets = Inr d" "0 < bo_threshold_usd d"
  shows "(\<forall>p \<in> {70, 85, 100}. p * bo_threshold_usd d \<le> 100 * bo_current_spend_usd d \<longrightarrow>
           (\<exists>q. bo_threshold_crossed d = Some q \<and> p \<le> q))
    \<and> (\<forall>q. bo_threshold_crossed d = Some q \<longrightarrow>
         q \<in> {70, 85, 100} \<and> (200 * q - 1) * bo_threshold_usd d \<le> 20000 * bo_current_spend_usd d)"
proof -
  define t where "t = bo_threshold_usd d"
  define s where "s = bo_current_spend_usd d"
  define r where "r = round_half_even (10000 * s) t"
  have t: "0 < t" using assms(2) by (simp add: t_def)
  have d: "bo_threshold_crossed d = most_recent_threshold_crossed r"
  proof -
    obtain tid b where "budget_detail_from_row env tid db b = Inr d"
      using assms(1) by (auto simp: get_budget_detail_def split: option.splits)
    from detail_Inr [OF this] t show ?thesis by (simp add: r_def s_def t_def)
  qed
  have e: "2 * \<bar>10000 * s - t * r\<bar> \<le> t" unfolding r_def by (rule round_half_even_error [OF t])
  have up: "100 * p \<le> r" if "p * t \<le> 100 * s" for p
  proof -
    have "round_half_even (t * (100 * p)) t \<le> r"
      unfolding r_def using that by (intro round_half_even_mono [OF t]) (simp add: mult.commute mult.left_commute)
    then show ?thesis using t by simp
  qed
  have down: "(200 * q - 1) * t \<le> 20000 * s" if "100 * q \<le> r" for q
  proof -
    have "t * (100 * q) \<le> t * r" using that t by simp
    moreover have "t * r - 10000 * s \<le> \<bar>10000 * s - t * r\<bar>" by (metis abs_ge_self abs_minus_commute)
    with e have "2 * (t * r - 10000 * s) \<le> t" by (meson mult_left_mono order_trans zero_le_numeral)
    ultimately show ?thesis by (simp add: algebra_simps)
  qed
  show ?thesis
    unfolding d t_def [symmetric] s_def [symmetric]
    using up [of 70] up [of 85] up [of 100] down
    by (auto simp: most_recent_threshold_crossed_def ALERT_THRESHOLDS_def Let_def split: if_splits)
qed

text \<open>A threshold that validation accepts but the column cannot hold, above zero but below half a cent or from
  99,999,999.995 dollars, is answered with status 500, and no budget is created.\<close>

lemma unstorable_threshold_is_500:
  assumes "require_admin users user = Inr user" "validate_create env body = Some rec"
    "nb_threshold_usd body < 1 / 200 \<or> 99999999995 / 1000 \<le> nb_threshold_usd body"
  shows "create_budget env user users i body budgets = (budgets, Inl (Http 500 []))"
proof -
  obtain tid where t: "require_tenant user = Inr tid" using admin_tenant_Inr [OF assms(1)] by metis
  define n where "n = \<lfloor>100 * nb_threshold_usd body + 1 / 2\<rfloor>"
  have pos: "0 < nb_threshold_usd body" by (rule validate_create_Some(3) [OF assms(2)])
  have "n \<le> 0 \<or> 10 ^ 10 \<le> n" using assms(3) unfolding n_def by (auto simp: le_floor_iff floor_le_iff)
  moreover have "to_numeric (nb_threshold_usd body) = (if numeric_10_2 n then Some n else None)"
    using pos by (simp add: to_numeric_def n_def Let_def)
  ultimately show ?thesis
    using assms(1,2) t by (auto simp: create_budget_def check_budget_def numeric_10_2_def Let_def)
qed


section \<open>Concrete instances\<close>

definition sample_api_env :: api_env where
  "sample_api_env =
     \<lparr>ap_email = (\<lambda>s. if CHR ''@'' \<in> set s then Some s else None), ap_pg = sample_postgres,
      ap_clock = utc_date 2026 5 20, ap_today = Date 2026 5 20, ap_notify = ee_notify sample_eval_env,
      ap_names = (\<lambda>_ _ _. None)\<rparr>"

definition sample_body :: "rat \<Rightarrow> budget_create" where
  "sample_body x =
     \<lparr>nb_name = ''prod'', nb_scope_kind = ''tenant'', nb_scope_value = None, nb_period = ''monthly'',
      nb_threshold_usd = x, nb_alert_recipients = [(''email'', [''ops@x''])]\<rparr>"

definition sample_recipients :: recipients where
  "sample_recipients = ChannelConfig [(''email'', Some [''ops@x'']), (''slack_webhook'', Some []), (''pagerduty_key'', Some [])]"

lemma sample_api_env_ok: "api_env_ok sample_api_env"
  by (simp add: api_env_ok_def sample_api_env_def)

lemma sample_validate: "0 < x \<Longrightarrow> validate_create sample_api_env (sample_body x) = Some sample_recipients"
  by (simp add: validate_create_def sample_body_def name_ok_def SCOPE_KINDS_def PERIODS_def opt_fits_def
      validate_scope_pair_def alert_recipients_def channel_of_def check_slack_def check_pagerduty_def
      sample_api_env_def sample_recipients_def)

lemma sample_admin: "require_admin sample_members (sample_user ''a'') = Inr (sample_user ''a'')"
  by (simp add: require_admin_def sample_user_def sample_members_def get_role_def)

lemma sample_numeric: "to_numeric (2003 / 100) = Some 2003"
  using floor_unique [of 2003 "4007 / 2 :: rat"] by (simp add: to_numeric_def numeric_10_2_def Let_def)

lemma sample_created:
  "create_budget sample_api_env (sample_user ''a'') sample_members ''b1'' (sample_body (2003 / 100)) []
   = ([new_row ''b1'' ''t1'' (sample_body (2003 / 100)) 2003 sample_recipients],
      row_to_budget_out sample_api_env (new_row ''b1'' ''t1'' (sample_body (2003 / 100)) 2003 sample_recipients))"
proof -
  let ?b = "sample_body (2003 / 100)"
  have thr: "nb_threshold_usd ?b = 2003 / 100" by (simp add: sample_body_def)
  have "require_tenant (sample_user ''a'') = Inr ''t1''" by (simp add: require_tenant_def sample_user_def)
  moreover have "check_budget (new_row ''b1'' ''t1'' ?b 2003 sample_recipients)"
    by (simp add: check_budget_def new_row_def sample_body_def SCOPE_KINDS_def PERIODS_def)
  ultimately show ?thesis
    by (simp add: create_budget_def sample_admin sample_validate thr sample_numeric Let_def flip: new_row_def)
qed

lemma sample_created_wf: "budget_wf sample_api_env (new_row ''b1'' ''t1'' (sample_body (2003 / 100)) 2003 sample_recipients)"
  by (rule new_row_wf [OF sample_api_env_ok sample_validate])
    (simp_all add: sample_numeric sample_body_def check_budget_def new_row_def SCOPE_KINDS_def PERIODS_def)

definition sample_big_usage :: json where
  "sample_big_usage = JObj [(''results'', JList [JObj [(''model'', JStr ''claude-opus-4-5''), (''output_tokens'', JInt 186933)]])]"

lemma sample_big_spend:
  "compute_spend_in_window sample_postgres ''t1'' (utc_date 2026 5 1) (utc_date 2026 6 1) ''tenant'' None
     [sample_usage_row sample_big_usage] = Inr 1402"
proof -
  have "lookup_model ''claude-opus-4-5'' (rates_at anthropic_RATE_HISTORY t) = Some (rates 150000 750000 15000 187500)" for t
    by (simp add: anthropic_rates_at lookup_model_def anthropic_RATES_2025_PRELAUNCH_def anthropic_RATES_2026_05_def)
  then have cost: "anthropic_compute_cost_usd (Some ''claude-opus-4-5'') 0 186933 0 0 t = Some 14019975" for t
    by (simp add: anthropic_compute_cost_usd_def) (simp add: row_cost_def exact_cost_def rates_def round_half_even_def)
  have est: "record_estimate (sample_usage_row sample_big_usage) = 14019975"
    by (simp add: sample_big_usage_def record_estimate_def sample_usage_row_def estimate_record_cost_usd_def
        estimate_anthropic_usage_def anthropic_breakdown_cost_def anthropic_cache_creation_tokens_def cost Let_def)
  have "plain_record sample_big_usage"
    by (simp add: sample_big_usage_def plain_record_def plain_element_def plain_breakdown_def plain_model_def in_bigint_def)
  then have "\<forall>r \<in> set (window_rows ''t1'' (utc_date 2026 5 1) (utc_date 2026 6 1) [sample_usage_row sample_big_usage]).
      plain_record (tr_record_metadata r)"
    by (simp add: sample_window_rows) (simp add: sample_usage_row_def)
  from spend_by_estimates [OF sample_postgres_ok this] show ?thesis
    by (simp add: sample_window_rows est) (simp add: round_half_even_def)
qed

lemma sample_window_spend:
  "current_period_window (ap_clock sample_api_env) (nb_period (sample_body x)) None = Inr (window_of (Date 2026 5 1) (Date 2026 6 1))"
  "compute_spend_in_window (ap_pg sample_api_env) ''t1'' (pw_start (window_of (Date 2026 5 1) (Date 2026 6 1)))
     (pw_end (window_of (Date 2026 5 1) (Date 2026 6 1))) (nb_scope_kind (sample_body x)) (nb_scope_value (sample_body x))
     [sample_usage_row sample_big_usage] = Inr 1402"
  using sample_window sample_big_spend
  by (simp_all add: sample_api_env_def sample_body_def window_of_def utc_date_def)

abbreviation sample_row :: budget_row where
  "sample_row \<equiv> new_row ''b1'' ''t1'' (sample_body (2003 / 100)) 2003 sample_recipients"

lemma sample_out: "\<exists>out. row_to_budget_out sample_api_env sample_row = Inr out"
  using row_to_budget_out_wf [OF sample_created_wf] by blast

lemma created_budget_reads_back_witness:
  "\<exists>d. get_budget_detail sample_api_env (sample_user ''b'') ''b1'' [sample_usage_row sample_big_usage] [sample_row] = Inr d
     \<and> bo_name d = ''prod'' \<and> bo_current_spend_usd d = 1402"
proof -
  obtain out where out: "create_budget sample_api_env (sample_user ''a'') sample_members ''b1'' (sample_body (2003 / 100)) []
      = ([sample_row], Inr out)"
    using sample_created sample_out by auto
  have "au_tenant_id (sample_user u) = Some ''t1''" for u by (simp add: sample_user_def)
  from created_budget_reads_back [OF sample_api_env_ok out this _ this sample_window_spend]
  have "\<exists>d. get_budget_detail sample_api_env (sample_user ''b'') ''b1'' [sample_usage_row sample_big_usage] [sample_row] = Inr d
      \<and> bo_name d = nb_name (sample_body (2003 / 100)) \<and> bo_current_spend_usd d = 1402"
    by (simp del: split_paired_Ex) blast
  then show ?thesis by (simp add: sample_body_def)
qed


text \<open>14.02 of 20.03 dollars are 69.995 percent: the view shows the 70 percent mark, no alert is due.\<close>

lemma shown_crossing_follows_alerts_witness:
  "\<exists>d. get_budget_detail sample_api_env (sample_user ''b'') ''b1'' [sample_usage_row sample_big_usage] [sample_row] = Inr d
     \<and> bo_threshold_crossed d = Some 70 \<and> (200 * 70 - 1) * bo_threshold_usd d \<le> 20000 * bo_current_spend_usd d
     \<and> \<not> crossed sample_row (bo_current_spend_usd d) 70"
proof -
  have period: "bd_period sample_row = ''monthly''" "bd_scope_kind sample_row = ''tenant''" "bd_scope_value sample_row = None"
    "bd_threshold_usd sample_row = 2003"
    by (simp_all add: new_row_def sample_body_def)
  have w: "current_period_window (ap_clock sample_api_env) ''monthly'' None = Inr (window_of (Date 2026 5 1) (Date 2026 6 1))"
    using sample_window by (simp add: sample_api_env_def)
  have spend: "compute_spend_in_window (ap_pg sample_api_env) ''t1'' (pw_start (window_of (Date 2026 5 1) (Date 2026 6 1)))
     (pw_end (window_of (Date 2026 5 1) (Date 2026 6 1))) ''tenant'' None [sample_usage_row sample_big_usage] = Inr 1402"
    using sample_window_spend(2) by (simp add: sample_body_def)
  have "find (is_live ''t1'' ''b1'') [sample_row] = Some sample_row"
    by (simp add: is_live_def new_row_def)
  moreover have "most_recent_threshold_crossed (round_half_even 14020000 2003) = Some 70"
    by (simp add: round_half_even_def most_recent_threshold_crossed_def ALERT_THRESHOLDS_def)
  ultimately obtain d where d:
    "get_budget_detail sample_api_env (sample_user ''b'') ''b1'' [sample_usage_row sample_big_usage] [sample_row] = Inr d"
    "bo_threshold_crossed d = Some 70" "bo_current_spend_usd d = 1402" "bo_threshold_usd d = 2003"
    using row_to_budget_out_wf [OF sample_created_wf]
    by (simp add: get_budget_detail_def require_tenant_def sample_user_def budget_detail_from_row_def period w spend
        budget_out.defs Let_def)
  moreover have "(200 * 70 - 1) * bo_threshold_usd d \<le> 20000 * bo_current_spend_usd d"
    using shown_crossing_follows_alerts [OF d(1)] d(2,4) by simp
  moreover have "\<not> crossed sample_row 1402 70" by (simp add: crossed_def period)
  ultimately show ?thesis by auto
qed

lemma unstorable_threshold_is_500_witness:
  "create_budget sample_api_env (sample_user ''a'') sample_members ''b1'' (sample_body (1 / 1000)) [] = ([], Inl (Http 500 []))"
  by (rule unstorable_threshold_is_500 [OF sample_admin sample_validate]) (simp_all add: sample_body_def)

lemma sample_history:
  "fold (budget_exec sample_api_env sample_members)
     [Create_Budget (sample_user ''a'') ''b1'' (sample_body (2003 / 100)), Delete_Budget (sample_user ''b'') ''b1''] []
   = [sample_row\<lparr>bd_deleted := True\<rparr>]"
proof -
  have "require_admin sample_members (sample_user ''b'') = Inr (sample_user ''b'')"
    by (simp add: require_admin_def sample_user_def sample_members_def get_role_def)
  moreover have "require_tenant (sample_user ''b'') = Inr ''t1''" by (simp add: require_tenant_def sample_user_def)
  moreover have "is_live ''t1'' ''b1'' sample_row" by (simp add: is_live_def new_row_def)
  ultimately show ?thesis by (simp add: sample_created delete_budget_def)
qed

lemma api_budgets_evaluate_witness:
  "\<exists>b. fold (budget_exec sample_api_env sample_members)
     [Create_Budget (sample_user ''a'') ''b1'' (sample_body (2003 / 100)), Delete_Budget (sample_user ''b'') ''b1''] [] = [b]
     \<and> budget_wf sample_api_env b \<and> is_ok (row_to_budget_out sample_api_env b)"
  using api_budgets_evaluate [OF sample_api_env_ok, of "[]" sample_members
      "[Create_Budget (sample_user ''a'') ''b1'' (sample_body (2003 / 100)), Delete_Budget (sample_user ''b'') ''b1'']"]
  unfolding sample_history by simp

lemma budgets_only_grow_witness:
  "axes (fold (budget_exec sample_api_env sample_members) [Delete_Budget (sample_user ''b'') ''b1''] [sample_row] ! 0)
   = (''b1'', ''t1'', ''tenant'', None, ''monthly'')"
  using budgets_only_grow [of 0 "[sample_row]" _ sample_api_env sample_members "[Delete_Budget (sample_user ''b'') ''b1'']"]
  by (simp add: axes_def new_row_def sample_body_def del: fold_simps budget_exec.simps)

end
