(* ===== verification/Pii.thy ===== *)
theory Pii
  imports Prelude
begin

text \<open>
  \<^verbatim>\<open>pii_detector.py\<close>: masking of personal data by regular expressions. The expressions are values of a
  datatype with the constructs the patterns use; matching tries alternatives in order and repetitions
  greedily, as Python's \<^verbatim>\<open>re\<close> does, and lists every end in the order in which it would be tried, so the
  match is the first one.
\<close>

section \<open>Regular expressions\<close>

text \<open>
  A class of characters; a greedy repetition of a class between two bounds; sequence, ordered choice and
  optional group; a word boundary; and the lookarounds \<^verbatim>\<open>(?<!\d)\<close> and \<^verbatim>\<open>(?!\d)\<close>.
\<close>

datatype rx =
    Cls "char \<Rightarrow> bool"
  | Many "char \<Rightarrow> bool" nat "nat option"
  | Seq rx rx
  | Alt rx rx
  | Opt rx
  | WordB
  | NoDigitBefore
  | NoDigitAfter

text \<open>\<^verbatim>\<open>\w\<close> on code points below 256: letters, digits of any kind, fractions and the underscore.\<close>

definition py_word :: "char \<Rightarrow> bool" where
  "py_word c = (let n = of_char c :: nat in
     48 \<le> n \<and> n \<le> 57 \<or> 65 \<le> n \<and> n \<le> 90 \<or> n = 95 \<or> 97 \<le> n \<and> n \<le> 122
     \<or> n = 170 \<or> n = 178 \<or> n = 179 \<or> n = 181 \<or> n = 185 \<or> n = 186 \<or> 188 \<le> n \<and> n \<le> 190
     \<or> 192 \<le> n \<and> n \<le> 214 \<or> 216 \<le> n \<and> n \<le> 246 \<or> 248 \<le> n)"

definition char_sat :: "(char \<Rightarrow> bool) \<Rightarrow> string \<Rightarrow> nat \<Rightarrow> bool" where
  "char_sat p t i \<longleftrightarrow> i < length t \<and> p (t ! i)"

definition char_before :: "(char \<Rightarrow> bool) \<Rightarrow> string \<Rightarrow> nat \<Rightarrow> bool" where
  "char_before p t i \<longleftrightarrow> 0 < i \<and> char_sat p t (i - 1)"

definition run_length :: "(char \<Rightarrow> bool) \<Rightarrow> string \<Rightarrow> nat \<Rightarrow> nat" where
  "run_length p t i = length (takeWhile p (drop i t))"

text \<open>Where a match from \<open>i\<close> can end, the preferred end first.\<close>

primrec ends :: "rx \<Rightarrow> string \<Rightarrow> nat \<Rightarrow> nat list" where
  "ends (Cls p) t i = (if char_sat p t i then [i + 1] else [])"
| "ends (Many p lo hi) t i =
     (let k = (case hi of None \<Rightarrow> run_length p t i | Some h \<Rightarrow> min h (run_length p t i))
      in map (\<lambda>n. i + n) (rev [lo..<k + 1]))"
| "ends (Seq a b) t i = concat (map (ends b t) (ends a t i))"
| "ends (Alt a b) t i = ends a t i @ ends b t i"
| "ends (Opt a) t i = ends a t i @ [i]"
| "ends WordB t i = (if char_before py_word t i \<noteq> char_sat py_word t i then [i] else [])"
| "ends NoDigitBefore t i = (if char_before is_digit t i then [] else [i])"
| "ends NoDigitAfter t i = (if char_sat is_digit t i then [] else [i])"

text \<open>
  \<^verbatim>\<open>pattern.subn(replacement, text)\<close>: from the left, each match is replaced and the search goes on at its
  end. A match of length zero is never taken; no pattern below has one.
\<close>

function subn_from :: "rx \<Rightarrow> string \<Rightarrow> string \<Rightarrow> nat \<Rightarrow> string \<times> nat" where
  "subn_from r repl t i =
     (if length t \<le> i then ([], 0)
      else case ends r t i of
        j # js \<Rightarrow>
          if i < j then (case subn_from r repl t j of (s, n) \<Rightarrow> (repl @ s, n + 1))
          else (case subn_from r repl t (i + 1) of (s, n) \<Rightarrow> (t ! i # s, n))
      | [] \<Rightarrow> (case subn_from r repl t (i + 1) of (s, n) \<Rightarrow> (t ! i # s, n)))"
  by pat_completeness auto
termination by (relation "measure (\<lambda>(r, repl, t, i). length t - i)") auto

declare subn_from.simps [simp del]

definition subn :: "rx \<Rightarrow> string \<Rightarrow> string \<Rightarrow> string \<times> nat" where
  "subn r repl t = subn_from r repl t 0"

section \<open>The patterns\<close>

definition between :: "char \<Rightarrow> char \<Rightarrow> char \<Rightarrow> bool" where
  "between a b c \<longleftrightarrow> (of_char a :: nat) \<le> of_char c \<and> (of_char c :: nat) \<le> of_char b"

definition upper_letter :: "char \<Rightarrow> bool" where
  "upper_letter = between CHR ''A'' CHR ''Z''"

definition letter :: "char \<Rightarrow> bool" where
  "letter c \<longleftrightarrow> upper_letter c \<or> between CHR ''a'' CHR ''z'' c"

definition one_of :: "string \<Rightarrow> char \<Rightarrow> bool" where
  "one_of cs c \<longleftrightarrow> c \<in> set cs"

definition Chr :: "char \<Rightarrow> rx" where
  "Chr c = Cls (one_of [c])"

fun seq :: "rx list \<Rightarrow> rx" where
  "seq [] = Many (\<lambda>c. False) 0 (Some 0)"
| "seq [r] = r"
| "seq (r # rs) = Seq r (seq rs)"

definition text_rx :: "string \<Rightarrow> rx" where
  "text_rx s = seq (map Chr s)"

definition digits :: "nat \<Rightarrow> rx" where
  "digits n = Many is_digit n (Some n)"

definition api_key_rx :: rx where
  "api_key_rx = seq [WordB,
     Alt (seq [text_rx ''sk-ant-'', Many (\<lambda>c. letter c \<or> is_digit c \<or> one_of ''_-'' c) 16 None])
      (Alt (seq [text_rx ''sk-'', Many (\<lambda>c. letter c \<or> is_digit c) 20 None])
        (Alt (seq [text_rx ''AKIA'', Many (\<lambda>c. upper_letter c \<or> is_digit c) 16 (Some 16)])
          (seq [text_rx ''ghp_'', Many (\<lambda>c. letter c \<or> is_digit c) 20 None]))),
     WordB]"

definition ssn_rx :: rx where
  "ssn_rx = seq [WordB, digits 3, Chr CHR ''-'', digits 2, Chr CHR ''-'', digits 4, WordB]"

definition card_group :: rx where
  "card_group = Seq (digits 4) (Opt (Cls (one_of '' -'')))"

definition credit_card_rx :: rx where
  "credit_card_rx = seq [WordB, card_group, card_group, card_group, Many is_digit 1 (Some 4), WordB]"

definition email_rx :: rx where
  "email_rx = seq [WordB, Many (\<lambda>c. letter c \<or> is_digit c \<or> one_of ''._%+-'' c) 1 None, Chr CHR ''@'',
     Many (\<lambda>c. letter c \<or> is_digit c \<or> one_of ''.-'' c) 1 None, Chr CHR ''.'', Many letter 2 None, WordB]"

definition ip_group :: rx where
  "ip_group = Seq (Many is_digit 1 (Some 3)) (Chr CHR ''.'')"

definition ip_address_rx :: rx where
  "ip_address_rx = seq [WordB, ip_group, ip_group, ip_group, Many is_digit 1 (Some 3), WordB]"

definition phone_sep :: rx where
  "phone_sep = Opt (Cls (\<lambda>c. py_space c \<or> one_of ''.-'' c))"

definition phone_rx :: rx where
  "phone_rx = seq [NoDigitBefore, Opt (seq [Opt (Chr CHR ''+''), Many is_digit 1 (Some 3), phone_sep]),
     Opt (Chr CHR ''(''), digits 3, Opt (Chr CHR '')''), phone_sep, digits 3, phone_sep, digits 4, NoDigitAfter]"

definition PATTERNS :: "(string \<times> rx) list" where
  "PATTERNS = [(''api_key'', api_key_rx), (''ssn'', ssn_rx), (''credit_card'', credit_card_rx),
     (''email'', email_rx), (''ip_address'', ip_address_rx), (''phone'', phone_rx)]"

definition placeholder :: "string \<Rightarrow> string" where
  "placeholder label = ''[redacted:'' @ label @ '']''"

fun redact_all :: "(string \<times> rx) list \<Rightarrow> string \<Rightarrow> string \<times> (string \<times> nat) list" where
  "redact_all [] t = (t, [])"
| "redact_all ((label, r) # ps) t =
     (case subn r (placeholder label) t of
        (t', n) \<Rightarrow> (case redact_all ps t' of
           (t'', found) \<Rightarrow> (t'', if n = 0 then found else (label, n) # found)))"

definition detect_and_redact :: "string \<Rightarrow> string \<times> (string \<times> nat) list" where
  "detect_and_redact t = (if t = [] then (t, []) else redact_all PATTERNS t)"

definition redaction_findings :: "string \<Rightarrow> (string \<times> nat) list" where
  "redaction_findings t = snd (detect_and_redact t)"

section \<open>Lemmas on matching\<close>

text \<open>How many characters a match has at least.\<close>

primrec min_match :: "rx \<Rightarrow> nat" where
  "min_match (Cls p) = 1"
| "min_match (Many p lo hi) = lo"
| "min_match (Seq a b) = min_match a + min_match b"
| "min_match (Alt a b) = min (min_match a) (min_match b)"
| "min_match (Opt a) = 0"
| "min_match WordB = 0"
| "min_match NoDigitBefore = 0"
| "min_match NoDigitAfter = 0"

lemma ends_min: "j \<in> set (ends r t i) \<Longrightarrow> i + min_match r \<le> j"
proof (induction r arbitrary: i j)
  case (Seq a b)
  then obtain k where "k \<in> set (ends a t i)" "j \<in> set (ends b t k)" by auto
  with Seq.IH(1) [OF this(1)] Seq.IH(2) [OF this(2)] show ?case by simp
next
  case (Alt a b)
  then show ?case by fastforce
next
  case (Opt a)
  then show ?case by fastforce
qed (auto simp: Let_def split: if_splits option.splits)

lemma run_length_le: "run_length p t i \<le> length t - i"
  unfolding run_length_def by (metis length_drop length_takeWhile_le)

lemma ends_le: "j \<in> set (ends r t i) \<Longrightarrow> i \<le> length t \<Longrightarrow> j \<le> length t"
proof (induction r arbitrary: i j)
  case (Many p lo hi)
  then show ?case using run_length_le [of p t i] by (auto simp: Let_def split: option.splits)
next
  case (Seq a b)
  then show ?case by fastforce
qed (auto simp: char_sat_def split: if_splits)

lemma patterns_consume: "(label, r) \<in> set PATTERNS \<Longrightarrow> 0 < min_match r"
  by (auto simp: PATTERNS_def api_key_rx_def ssn_rx_def credit_card_rx_def email_rx_def ip_address_rx_def
      phone_rx_def digits_def card_group_def ip_group_def)

text \<open>
  What a substitution does, by the matches it takes: \<open>spans\<close> are the matches in order, none overlapping
  another, and the result is the text with each of them replaced.
\<close>

fun spliced :: "string \<Rightarrow> string \<Rightarrow> nat \<Rightarrow> (nat \<times> nat) list \<Rightarrow> string" where
  "spliced repl t i [] = drop i t"
| "spliced repl t i ((a, b) # spans) = take (a - i) (drop i t) @ repl @ spliced repl t b spans"

fun spans_ok :: "rx \<Rightarrow> string \<Rightarrow> nat \<Rightarrow> (nat \<times> nat) list \<Rightarrow> bool" where
  "spans_ok r t i [] \<longleftrightarrow> (\<forall>k. i \<le> k \<and> k < length t \<longrightarrow> ends r t k = [])"
| "spans_ok r t i ((a, b) # spans) \<longleftrightarrow>
     i \<le> a \<and> a < b \<and> b \<le> length t \<and> (\<forall>k. i \<le> k \<and> k < a \<longrightarrow> ends r t k = [])
     \<and> (\<exists>js. ends r t a = b # js) \<and> spans_ok r t b spans"

lemma spans_ok_skip:
  assumes "ends r t i = []" "i < length t" "spans_ok r t (i + 1) spans"
  shows "spans_ok r t i spans \<and> spliced repl t i spans = t ! i # spliced repl t (i + 1) spans"
proof (cases spans)
  case Nil
  have "\<forall>k. i \<le> k \<and> k < length t \<longrightarrow> ends r t k = []"
    using assms(1,3) unfolding Nil by (auto simp: le_less_Suc_eq Suc_le_eq nat_less_le)
  with assms(2) show ?thesis by (simp add: Nil Cons_nth_drop_Suc)
next
  case (Cons ab rest)
  obtain a b where ab: "ab = (a, b)" by (cases ab)
  have a: "i + 1 \<le> a" using assms(3) by (simp add: Cons ab)
  have "\<forall>k. i \<le> k \<and> k < a \<longrightarrow> ends r t k = []"
    using assms(1,3) unfolding Cons ab by (auto) (metis Suc_leI le_neq_implies_less)
  moreover have "take (a - i) (drop i t) = t ! i # take (a - (i + 1)) (drop (i + 1) t)"
    using a assms(2) by (simp add: Suc_diff_Suc take_Cons' flip: Cons_nth_drop_Suc)
  ultimately show ?thesis using assms(3) a by (simp add: Cons ab)
qed

lemma subn_from_spans:
  assumes "0 < min_match r"
  shows "\<exists>spans. spans_ok r t i spans \<and> subn_from r repl t i = (spliced repl t i spans, length spans)"
  using assms
proof (induction r repl t i rule: subn_from.induct)
  case (1 r repl t i)
  note c = 1(4)
  show ?case
  proof (cases "length t \<le> i")
    case True
    then show ?thesis by (intro exI [of _ "[]"], subst subn_from.simps) auto
  next
    case False
    show ?thesis
    proof (cases "ends r t i")
      case Nil
      obtain spans where s: "spans_ok r t (i + 1) spans"
        "subn_from r repl t (i + 1) = (spliced repl t (i + 1) spans, length spans)"
        using 1(1) [OF False Nil c] by blast
      with spans_ok_skip [OF Nil _ s(1)] False Nil show ?thesis
        by (subst subn_from.simps) (auto intro!: exI [of _ spans])
    next
      case (Cons j js)
      then have j: "i < j" "j \<le> length t" using ends_min [of j r t i] ends_le [of j r t i] c False by auto
      obtain spans where s: "spans_ok r t j spans"
        "subn_from r repl t j = (spliced repl t j spans, length spans)"
        using 1(2) [OF False Cons j(1) c] by blast
      with False Cons j show ?thesis
        by (subst subn_from.simps) (auto intro!: exI [of _ "(i, j) # spans"])
    qed
  qed
qed

lemma subn_spans:
  "0 < min_match r \<Longrightarrow> \<exists>spans. spans_ok r t 0 spans \<and> subn r repl t = (spliced repl t 0 spans, length spans)"
  by (simp add: subn_def subn_from_spans)

definition occurs :: "rx \<Rightarrow> string \<Rightarrow> bool" where
  "occurs r t \<longleftrightarrow> (\<exists>k < length t. ends r t k \<noteq> [])"

lemma subn_occurs:
  assumes "0 < min_match r"
  shows "snd (subn r repl t) = 0 \<longleftrightarrow> \<not> occurs r t" "\<not> occurs r t \<Longrightarrow> fst (subn r repl t) = t"
proof -
  obtain spans where s: "spans_ok r t 0 spans" "subn r repl t = (spliced repl t 0 spans, length spans)"
    using subn_spans [OF assms] by blast
  have "spans = [] \<longleftrightarrow> \<not> occurs r t"
  proof (cases spans)
    case (Cons ab rest)
    obtain a b where "ab = (a, b)" by (cases ab)
    with s(1) Cons have "a < length t" "ends r t a \<noteq> []" by auto
    with Cons show ?thesis by (auto simp: occurs_def)
  qed (use s(1) in \<open>simp add: occurs_def\<close>)
  with s(2) show "snd (subn r repl t) = 0 \<longleftrightarrow> \<not> occurs r t" "\<not> occurs r t \<Longrightarrow> fst (subn r repl t) = t" by simp_all
qed

lemma redact_all_silent:
  assumes "\<forall>(l, r) \<in> set ps. 0 < min_match r"
  shows "snd (redact_all ps t) = [] \<longleftrightarrow> (\<forall>(l, r) \<in> set ps. \<not> occurs r t)"
    and "snd (redact_all ps t) = [] \<Longrightarrow> fst (redact_all ps t) = t"
proof -
  have "(snd (redact_all ps t) = [] \<longleftrightarrow> (\<forall>(l, r) \<in> set ps. \<not> occurs r t))
      \<and> (snd (redact_all ps t) = [] \<longrightarrow> fst (redact_all ps t) = t)"
    using assms
  proof (induction ps arbitrary: t)
    case (Cons p ps)
    obtain l r where p: "p = (l, r)" by (cases p)
    with Cons.prems have r: "0 < min_match r" and ps: "\<forall>(l, r) \<in> set ps. 0 < min_match r" by auto
    obtain t' n where t': "subn r (placeholder l) t = (t', n)" by (cases "subn r (placeholder l) t")
    obtain t'' found where t'': "redact_all ps t' = (t'', found)" by (cases "redact_all ps t'")
    show ?case
    proof (cases "n = 0")
      case True
      with subn_occurs [OF r, where repl = "placeholder l" and t = t] t' have "\<not> occurs r t" "t' = t" by simp_all
      with Cons.IH [OF ps, of t'] True t' t'' p show ?thesis by auto
    next
      case False
      with subn_occurs(1) [OF r, where repl = "placeholder l" and t = t] t' t'' p show ?thesis by auto
    qed
  qed simp
  then show "snd (redact_all ps t) = [] \<longleftrightarrow> (\<forall>(l, r) \<in> set ps. \<not> occurs r t)"
    "snd (redact_all ps t) = [] \<Longrightarrow> fst (redact_all ps t) = t" by auto
qed

lemma redact_all_counts: "(l, n) \<in> set (snd (redact_all ps t)) \<Longrightarrow> 0 < n \<and> l \<in> fst ` set ps"
proof (induction ps arbitrary: t)
  case (Cons p ps)
  obtain k r where p: "p = (k, r)" by (cases p)
  obtain t' m where t': "subn r (placeholder k) t = (t', m)" by (cases "subn r (placeholder k) t")
  obtain t'' found where t'': "redact_all ps t' = (t'', found)" by (cases "redact_all ps t'")
  from Cons.prems consider "m \<noteq> 0" "l = k" "n = m" | "(l, n) \<in> set (snd (redact_all ps t'))"
    by (auto simp: p t' t'' split: if_splits)
  then show ?case
  proof cases
    case 2
    from Cons.IH [OF this] show ?thesis by simp
  qed (simp add: p)
qed simp

lemma detect_silent:
  "snd (detect_and_redact t) = [] \<longleftrightarrow> (\<forall>(label, r) \<in> set PATTERNS. \<not> occurs r t)"
  "snd (detect_and_redact t) = [] \<Longrightarrow> fst (detect_and_redact t) = t"
proof -
  have "\<forall>(l, r) \<in> set PATTERNS. 0 < min_match r" using patterns_consume by auto
  note silent = redact_all_silent [OF this, of t]
  show "snd (detect_and_redact t) = [] \<longleftrightarrow> (\<forall>(label, r) \<in> set PATTERNS. \<not> occurs r t)"
    using silent(1) by (simp add: detect_and_redact_def occurs_def)
  show "snd (detect_and_redact t) = [] \<Longrightarrow> fst (detect_and_redact t) = t"
    using silent(2) by (simp add: detect_and_redact_def split: if_splits)
qed

text \<open>
  What an earlier pattern takes can hide the rest of a later one: an email address with a social
  security number in it loses the number and keeps the name and the domain. And a key glued to a phone
  number is a match only once the number is gone, which is after the keys were looked for.
\<close>

lemma email_around_number_leaks:
  "detect_and_redact ''jane.doe.078-05-1120@example.com'' = (''jane.doe.[redacted:ssn]@example.com'', [(''ssn'', 1)])"
  by code_simp

lemma key_behind_number_leaks:
  "detect_and_redact ''5551234567sk-aaaaaaaaaaaaaaaaaaaaaaaa''
     = (''[redacted:phone]sk-aaaaaaaaaaaaaaaaaaaaaaaa'', [(''phone'', 1)])"
  by code_simp

lemma masking_is_not_final:
  "detect_and_redact (fst (detect_and_redact ''5551234567sk-aaaaaaaaaaaaaaaaaaaaaaaa''))
     = (''[redacted:phone][redacted:api_key]'', [(''api_key'', 1)])"
  by code_simp

section \<open>Properties\<close>



end
