(* ===== verification/Spec2Isabelle.thy ===== *)
theory Spec2Isabelle
  imports Chain Crypto ObjectStore Content Deletion Metering Rates VendorCost Spend Period Notify Budgets OAuth
    Login McpServer PullCompliance CodeAnalytics Roster Forecasts BudgetApi Pii
begin

text \<open>
  A verification development for vargate-telemetry (Ogma): the service that collects an organization's
  AI usage records from vendor APIs and from an MCP server, keeps them in a per-tenant hash chain,
  encrypts what needs encrypting, meters and bills, and watches budgets. The Python sources are under
  \<^verbatim>\<open>src/\<close>; paths below are relative to it, and \<^verbatim>\<open>vt/\<close> stands for \<^verbatim>\<open>vargate_telemetry/\<close>.

  \<^bold>\<open>How the program fits together.\<close> Records reach the table \<^verbatim>\<open>telemetry_records\<close> in two ways: the
  Celery pull tasks (\<^verbatim>\<open>vt/tasks/pull_*.py\<close>) list vendor APIs since a cursor, and the MCP server
  (\<^verbatim>\<open>mcp_server/\<close>) queues one event per tool call for \<^verbatim>\<open>tasks/persist_event.py\<close>. Both append through
  \<^verbatim>\<open>vt/chain.py\<close>, which numbers and hashes each record after its predecessor, and the pulls meter each
  new record through \<^verbatim>\<open>vt/metering.py\<close>, whose Redis counters a minute task drains into
  \<^verbatim>\<open>usage_records\<close> and Stripe. Message text is sealed under the tenant's data key (\<^verbatim>\<open>vt/crypto/\<close>) in an
  object store (\<^verbatim>\<open>vt/storage/\<close>) and referenced from its record. Budgets (\<^verbatim>\<open>vt/budgets/\<close>,
  \<^verbatim>\<open>vt/tasks/evaluate_budgets.py\<close>) price the records of a period by the rate cards (\<^verbatim>\<open>vt/pricing/\<close>) and
  notify (\<^verbatim>\<open>vt/notify/\<close>). A person signs in to the dashboard (\<^verbatim>\<open>vt/auth/\<close>), and an MCP client is
  authorized by the MCP server's OAuth endpoints, which send the user through the dashboard's bridge.

  \<^bold>\<open>Theories and sources.\<close>
  \<^item> \<^verbatim>\<open>Prelude\<close>: results with errors, Python text and bytes (code points below 256), decimal text,
    half-even rounding. \<^verbatim>\<open>PyTime\<close>: dates, datetimes with a UTC offset, \<^verbatim>\<open>isoformat\<close> and its inverse.
    \<^verbatim>\<open>Json\<close>: JSON values and \<^verbatim>\<open>json.dumps(sort_keys, separators)\<close>, proved injective up to key order.
  \<^item> \<^verbatim>\<open>Chain\<close>: \<^verbatim>\<open>vt/chain.py\<close> and the MCP event task \<^verbatim>\<open>mcp_server/tasks/persist_event.py\<close>. The table is
    a list of rows in commit order; concurrent appends are steps that carry the snapshot their tip was
    read from. Shown: chains never fork, verify, are tamper evident; the exact outcome of an append.
  \<^item> \<^verbatim>\<open>Crypto\<close>: \<^verbatim>\<open>vt/crypto/\<close> (data keys, sealed secrets). \<^verbatim>\<open>ObjectStore\<close>: \<^verbatim>\<open>vt/storage/object_store.py\<close>
    (keys, retries). \<^verbatim>\<open>Content\<close>: \<^verbatim>\<open>vt/storage/content.py\<close>, a client of both. \<^verbatim>\<open>Deletion\<close>:
    \<^verbatim>\<open>vt/content_deletion.py\<close>. Shown: round trips, isolation of tenants, crypto-shredding, idempotence.
  \<^item> \<^verbatim>\<open>Metering\<close>: \<^verbatim>\<open>vt/metering.py\<close>, \<^verbatim>\<open>vt/billing/stripe_client.py\<close>. Shown: no accepted increment is lost
    or counted twice by increments and flushes in any order; Stripe never blocks.
  \<^item> \<^verbatim>\<open>Rates\<close>, \<^verbatim>\<open>VendorCost\<close>: \<^verbatim>\<open>vt/pricing/\<close>. \<^verbatim>\<open>Period\<close>, \<^verbatim>\<open>Spend\<close>, \<^verbatim>\<open>Notify\<close>, \<^verbatim>\<open>Budgets\<close>: \<^verbatim>\<open>vt/budgets/\<close>,
    \<^verbatim>\<open>vt/notify/\<close>, \<^verbatim>\<open>vt/tasks/evaluate_budgets.py\<close>. Shown: lookup by longest prefix, monotone costs, the
    spend of a window as the sum of its records' estimates, which thresholds fire and that they fire once.
  \<^item> \<^verbatim>\<open>Bridge\<close>, \<^verbatim>\<open>OAuth\<close>, \<^verbatim>\<open>McpServer\<close>: \<^verbatim>\<open>vt/auth/bridge_keys.py\<close> and \<^verbatim>\<open>mcp_server/\<close>. \<^verbatim>\<open>Session\<close>, \<^verbatim>\<open>Login\<close>:
    \<^verbatim>\<open>vt/auth/\<close>, \<^verbatim>\<open>vt/api/users.py\<close> (roles) and \<^verbatim>\<open>vt/api/mcp_bridge.py\<close>. Shown: every accepted token
    goes back to a signed session, codes and refresh tokens are used once, sign-in through the bridge
    succeeds, a stored tool call carries its token's tenant, and how the last administrator can be lost.
  \<^item> \<^verbatim>\<open>ApiClient\<close>: \<^verbatim>\<open>vt/anthropic/client.py\<close> and \<^verbatim>\<open>factory.py\<close>'s users; \<^verbatim>\<open>Ingest\<close>: what every pull task does
    with one item and with its cursor; \<^verbatim>\<open>PullAdmin\<close>: \<^verbatim>\<open>vt/tasks/pull_admin.py\<close>.
    Shown: every listed row is stored or already there, counted once, the cursor moves only after a whole
    pull, pagination and the backfill return, and which vendor or Redis failures lose a count or block a pull.
  \<^item> \<^verbatim>\<open>PullCompliance\<close>: \<^verbatim>\<open>vt/tasks/pull_compliance.py\<close> (activities, and chat messages with their content).
    Shown: a stored message's text reads back from the encrypted store, and activities beyond the cap are skipped.
    \<^verbatim>\<open>CodeAnalytics\<close>: \<^verbatim>\<open>vt/tasks/pull_code_analytics.py\<close>. Shown: the daily pull returns and catches up to
    yesterday when there is less than its cap, and loses the rest of the day in which it reaches the cap.
  \<^item> \<^verbatim>\<open>Aliases\<close>: \<^verbatim>\<open>vt/users/aliases.py\<close>, \<^verbatim>\<open>vt/tasks/reconcile_aliases.py\<close> and the manual mapping of
    \<^verbatim>\<open>vt/api/users.py\<close>; \<^verbatim>\<open>Roster\<close>: \<^verbatim>\<open>list_users\<close> there. Shown: exactly what a reconciliation changes, that a manual
    link outlives any interleaving of reconcilers, that the roster counts every event once, how far its
    vendor split can be from its total, and how one long identifier blocks it.
  \<^item> \<^verbatim>\<open>Forecasts\<close>: \<^verbatim>\<open>vt/tasks/evaluate_forecasts.py\<close> over the forecast it reads; \<^verbatim>\<open>BudgetApi\<close>:
    \<^verbatim>\<open>vt/api/budgets.py\<close>, all endpoints. Shown: which forecast alerts fire and their dates, that they never
    silence a crossing; that the budget endpoints keep every budget well-formed, so the evaluator cannot fail
    on one, and never lose one; that a created budget reads back.
  \<^item> \<^verbatim>\<open>Pii\<close>: \<^verbatim>\<open>vt/pii_detector.py\<close> with a matcher for its regular expressions. Shown: a substitution
    replaces exactly the matches it takes, the detector reports nothing if and only if nothing matches, and two
    texts whose masking leaves personal data readable.
  \<^bold>\<open>How state and operations correspond.\<close> A database table is a list of rows (where order or duplicates
  matter) or a map from its key; a Redis key is an optional value; a component's state is a record of
  those, and an operation takes it and returns it updated. A raise is \<^const>\<open>Inl\<close> of an error value, a
  transaction that raises returns the state it started from, and effects that survive the raise (an
  object already written, a message already sent, an append already committed) stay in the returned
  state. What another worker does meanwhile is an argument: the snapshot of a tip
  (\<^verbatim>\<open>append_between\<close>), the rows committed in between (\<open>pe_rivals\<close>), the reads of a concurrent request
  (\<^verbatim>\<open>set_user_role_between\<close>). Loops over lists are recursive functions; a loop that nothing bounds
  (pagination, the backfill) is a \<^verbatim>\<open>partial_function (option)\<close> whose \<^const>\<open>None\<close> is not returning, and
  its termination is a theorem.

  \<^bold>\<open>Interfaces.\<close> Locales state what one component needs of another, and are interpreted on the model:
  the object store and the encrypted store over it, the two implementations of the one-shot grant
  store, counters in Redis and in the table, the append log, and two contracts between a paginated
  listing and its loop body: \<open>row_sink\<close> (every row is stored) and \<open>capped_sink\<close> (rows up to a cap are).

  \<^bold>\<open>Bounds and fuel.\<close> Object store calls are tried three times, API calls five, key fetches three, as in
  the code; attempts are counted down structurally. Column widths are checked where a statement depends
  on them. Stored decimals are integers of their smallest unit, a decimal of a request a rational. A \<^verbatim>\<open>float\<close> appears only as the text JSON prints.

  \<^bold>\<open>What is taken from outside.\<close> SHA-256, the audit-chain package's hash and verifier, the HSM, AES-GCM,
  HMAC, JWT signing, Stripe, Redis, S3, the vendors' HTTP answers, tenacity's wait times, pydantic's
  validation and the clock are fields of environment records or arguments; theorems name the documented
  law they use (\<open>package_contract\<close>, \<open>cipher_laws\<close>, \<open>serves\<close>), and every such theorem has a witness on a
  concrete instance.

  \<^bold>\<open>Not modelled.\<close> The dashboard endpoints that only read (\<^verbatim>\<open>vt/api/usage.py\<close>, \<^verbatim>\<open>sessions.py\<close>, one user's page of
  \<^verbatim>\<open>users.py\<close>) and the views of \<^verbatim>\<open>content.py\<close>, whose deletions and reveals are the modelled operations; insights and the forecast itself,
  which compute over floats; onboarding and the SSO handshake, which talk to vendors and identity providers;
  the OpenAI and Vertex pulls, which repeat the modelled steps over other shapes; exports, topic
  classification, demo data, scripts, migrations, metrics and the wiring of the application.
  Text with NUL characters or code points above 255, SQL beyond the statements
  described, and the frontend, deployment and documentation are outside the development.
\<close>

end
